(* ===== verification/Prelude.thy ===== *)
theory Prelude
  imports Main "HOL-Library.Multiset" "HOL-Library.Monad_Syntax" "HOL-Library.Word"
begin

text \<open>
  The shared vocabulary of the development.

  A C call is a function from the state of the world to an optional result: \<open>Some (r, w)\<close> is
  a call that returns \<open>r\<close> and leaves the world \<open>w\<close>; \<open>None\<close> is a call with undefined
  behaviour or a failed \<open>assert\<close> (a NULL or dangling pointer read, a block freed twice, a
  static object freed).  Calls are sequenced with the do notation of the option monad.

  The world keeps a ledger of everything the process owns: heap blocks, libudev contexts,
  enumerations and device references, file descriptors, and the handles and objects of Windows and
  macOS.  Pointers to heap objects are values
  that carry the identity of their block, so freeing and reading consult the ledger.
\<close>

section \<open>Pointers, resources and the world\<close>

text \<open>
  A pointer is NULL, the address of a heap block together with what it holds, or the address of
  an object with static storage duration.  What a fresh block of \<open>malloc\<close> holds is not
  readable: the block is a \<open>unit ptr\<close> until the code fills it.
\<close>

datatype 'a ptr = NULL | Heap nat 'a | Static 'a

datatype kind = Mem | UdevContext | UdevEnumerate | UdevDevice | FileDescriptor
  | DeviceInfoSet | RegistryKey | FileHandle | WinUsbHandle | EventHandle
  | IoObject | CFObject | PlugIn | UsbObject | ExclusiveAccess | MsiRecord

type_synonym res = "kind \<times> nat"
type_synonym block = "unit ptr"
type_synonym cstr = "string ptr"

record world =
  next_id :: nat
  live :: "res multiset"

text \<open>
  The surroundings of the library are a parameter: \<open>malloc_ok E n\<close> says whether the
  allocation that would get identity \<open>n\<close> succeeds.  Identities grow with every request, so
  every pattern of failing allocations is some \<open>E\<close>.
\<close>

record environment =
  malloc_ok :: "nat \<Rightarrow> bool"

definition memory_ok :: "'e environment_scheme \<Rightarrow> bool" where
  "memory_ok E \<longleftrightarrow> (\<forall>n. malloc_ok E n)"

definition tick :: "'w world_scheme \<Rightarrow> 'w world_scheme" where
  "tick w = w\<lparr>next_id := Suc (next_id w)\<rparr>"

definition take_res :: "kind \<Rightarrow> 'w world_scheme \<Rightarrow> 'w world_scheme" where
  "take_res k w = w\<lparr>next_id := Suc (next_id w), live := add_mset (k, next_id w) (live w)\<rparr>"

definition drop_res :: "res multiset \<Rightarrow> 'w world_scheme \<Rightarrow> 'w world_scheme" where
  "drop_res R w = w\<lparr>live := live w - R\<rparr>"

definition release :: "res \<Rightarrow> 'w world_scheme \<Rightarrow> 'w world_scheme option" where
  "release r w = (if r \<in># live w then Some (drop_res {#r#} w) else None)"

definition borrow :: "res \<Rightarrow> 'w world_scheme \<Rightarrow> unit option" where
  "borrow r w = (if r \<in># live w then Some () else None)"

definition malloc ::
    "'e environment_scheme \<Rightarrow> 'w world_scheme \<Rightarrow> (block \<times> 'w world_scheme) option" where
  "malloc E w =
     (if malloc_ok E (next_id w) then Some (Heap (next_id w) (), take_res Mem w)
      else Some (NULL, tick w))"

definition free :: "'a ptr \<Rightarrow> 'w world_scheme \<Rightarrow> 'w world_scheme option" where
  "free p w = (case p of NULL \<Rightarrow> Some w | Heap n x \<Rightarrow> release (Mem, n) w | Static x \<Rightarrow> None)"

definition realloc ::
    "'e environment_scheme \<Rightarrow> 'a ptr \<Rightarrow> 'w world_scheme \<Rightarrow> (block \<times> 'w world_scheme) option" where
  "realloc E p w =
     (case p of NULL \<Rightarrow> malloc E w
      | Heap n x \<Rightarrow>
          (if (Mem, n) \<notin># live w then None
           else if malloc_ok E (next_id w)
           then Some (Heap (next_id w) (), drop_res {#(Mem, n)#} (take_res Mem w))
           else Some (NULL, tick w))
      | Static x \<Rightarrow> None)"

definition deref :: "'a ptr \<Rightarrow> 'w world_scheme \<Rightarrow> 'a option" where
  "deref p w =
     (case p of NULL \<Rightarrow> None
      | Heap n x \<Rightarrow> (if (Mem, n) \<in># live w then Some x else None)
      | Static x \<Rightarrow> Some x)"

text \<open>\<open>*p = x\<close> and \<open>p->field = v\<close>: a write through the pointer, which has to be valid.\<close>

definition store :: "'a ptr \<Rightarrow> 'b \<Rightarrow> 'w world_scheme \<Rightarrow> 'b ptr option" where
  "store p x w =
     (case p of Heap n y \<Rightarrow> (if (Mem, n) \<in># live w then Some (Heap n x) else None) | _ \<Rightarrow> None)"

text \<open>
  The library's error handling idiom \<open>if (error == NULL) { ... }\<close>: the step runs only while no
  error has occurred; a skipped step leaves the variables it would set at their initial value.
\<close>

definition ok_then :: "'e ptr \<Rightarrow> 'a \<Rightarrow> ('w \<Rightarrow> (('e ptr \<times> 'a) \<times> 'w) option) \<Rightarrow> 'w
    \<Rightarrow> (('e ptr \<times> 'a) \<times> 'w) option" where
  "ok_then error initial step w = (if error = NULL then step w else Some ((error, initial), w))"

definition ok_do :: "'e ptr \<Rightarrow> ('w \<Rightarrow> ('e ptr \<times> 'w) option) \<Rightarrow> 'w \<Rightarrow> ('e ptr \<times> 'w) option" where
  "ok_do error step w = (if error = NULL then step w else Some (error, w))"

section \<open>What objects own\<close>

text \<open>
  \<open>owns f p\<close> is the part of the ledger that \<open>p\<close> stands for: its block and what the object in
  it owns.
\<close>

definition owns :: "('a \<Rightarrow> res multiset) \<Rightarrow> 'a ptr \<Rightarrow> res multiset" where
  "owns f p = (case p of NULL \<Rightarrow> {#} | Heap n x \<Rightarrow> add_mset (Mem, n) (f x) | Static x \<Rightarrow> {#})"

definition blk :: "'a ptr \<Rightarrow> res multiset" where
  "blk p = owns (\<lambda>_. {#}) p"

fun is_static :: "'a ptr \<Rightarrow> bool" where
  "is_static (Static x) = True"
| "is_static p = False"

text \<open>
  Identities in the ledger are below the next one and occur once: a block is live or not, and a
  new block is never one that is in use.
\<close>

definition fresh :: "'w world_scheme \<Rightarrow> bool" where
  "fresh w \<longleftrightarrow> (\<forall>r \<in># live w. snd r < next_id w) \<and> (\<forall>r. count (live w) r \<le> 1)"

text \<open>
  What no call does to the world: identities are not reused, and the fields that extend the
  record are left alone.
\<close>

definition later :: "'w world_scheme \<Rightarrow> 'w world_scheme \<Rightarrow> bool" where
  "later w w' \<longleftrightarrow>
     next_id w \<le> next_id w' \<and> world.more w' = world.more w"

section \<open>Total correctness of calls\<close>

text \<open>\<open>runs m Q\<close>: the call is defined (no fault) and its result and final world satisfy \<open>Q\<close>.\<close>

definition runs :: "('a \<times> 'w) option \<Rightarrow> ('a \<Rightarrow> 'w \<Rightarrow> bool) \<Rightarrow> bool" where
  "runs m Q = (case m of None \<Rightarrow> False | Some (r, w) \<Rightarrow> Q r w)"

named_theorems wp \<open>weakest precondition rules of the library's calls\<close>

lemma runs_Some [simp]: "runs (Some (r, w)) Q = Q r w"
  by (simp add: runs_def)

lemma runs_None [simp]: "\<not> runs None Q"
  by (simp add: runs_def)

lemma runsD: "runs m Q \<Longrightarrow> \<exists>r w. m = Some (r, w) \<and> Q r w"
  by (auto simp: runs_def split: option.splits)

lemma runsE: "runs m Q \<Longrightarrow> (\<And>r w. m = Some (r, w) \<Longrightarrow> Q r w \<Longrightarrow> P) \<Longrightarrow> P"
  by (auto simp: runs_def split: option.splits)

lemma runs_mono: "runs m Q \<Longrightarrow> (\<And>r w. Q r w \<Longrightarrow> Q' r w) \<Longrightarrow> runs m Q'"
  by (auto simp: runs_def split: option.splits)

lemma runs_both:
  "runs m P \<Longrightarrow> (A \<Longrightarrow> runs m Q) \<Longrightarrow> (\<And>r w. P r w \<Longrightarrow> (A \<longrightarrow> Q r w) \<Longrightarrow> R r w) \<Longrightarrow> runs m R"
  by (auto simp: runs_def split: option.splits)

lemma runs_bind [wp]: "runs m (\<lambda>r w. runs (f (r, w)) Q) \<Longrightarrow> runs (Option.bind m f) Q"
  by (auto simp: runs_def split: option.splits)

lemma runs_ok_then [wp]:
  "(error = NULL \<Longrightarrow> runs (step w) Q) \<Longrightarrow> (error \<noteq> NULL \<Longrightarrow> Q (error, initial) w)
   \<Longrightarrow> runs (ok_then error initial step w) Q"
  by (simp add: ok_then_def)

lemma runs_ok_do [wp]:
  "(error = NULL \<Longrightarrow> runs (step w) Q) \<Longrightarrow> (error \<noteq> NULL \<Longrightarrow> Q error w)
   \<Longrightarrow> runs (ok_do error step w) Q"
  by (simp add: ok_do_def)

lemma ok_then_NULL [simp]: "ok_then NULL i f w = f w"
  by (simp add: ok_then_def)

lemma ok_do_NULL [simp]: "ok_do NULL f w = f w"
  by (simp add: ok_do_def)

lemma ok_then_error: "e \<noteq> NULL \<Longrightarrow> ok_then e i f w = Some ((e, i), w)"
  by (simp add: ok_then_def)

lemma ok_do_error: "e \<noteq> NULL \<Longrightarrow> ok_do e f w = Some (e, w)"
  by (simp add: ok_do_def)

section \<open>The ledger\<close>

lemma live_tick [simp]: "live (tick w) = live w"
  by (simp add: tick_def)

lemma live_take_res [simp]: "live (take_res k w) = add_mset (k, next_id w) (live w)"
  by (simp add: take_res_def)

lemma live_drop_res [simp]: "live (drop_res R w) = live w - R"
  by (simp add: drop_res_def)

lemma next_id_simps [simp]:
  "next_id (tick w) = Suc (next_id w)"
  "next_id (take_res k w) = Suc (next_id w)"
  "next_id (drop_res R w) = next_id w"
  by (simp_all add: tick_def take_res_def drop_res_def)

lemma more_simps [simp]:
  "world.more (tick w) = world.more w"
  "world.more (take_res k w) = world.more w"
  "world.more (drop_res R w) = world.more w"
  by (simp_all add: tick_def take_res_def drop_res_def)

lemma fresh_tick [simp]: "fresh w \<Longrightarrow> fresh (tick w)"
  by (auto simp: fresh_def less_Suc_eq)

lemma fresh_take_res [simp]:
  assumes "fresh w"
  shows "fresh (take_res k w)"
proof -
  have "(k, next_id w) \<notin># live w"
    using assms by (auto simp: fresh_def)
  then show ?thesis
    using assms by (auto simp: fresh_def less_Suc_eq not_in_iff)
qed

lemma fresh_drop_res [simp]: "fresh w \<Longrightarrow> fresh (drop_res R w)"
  by (auto simp: fresh_def dest: in_diffD intro: order_trans [OF diff_le_self])

lemma later_refl [simp]: "later w w"
  by (simp add: later_def)

lemma later_step [simp]: "later w (tick w)" "later w (take_res k w)" "later w (drop_res R w)"
  by (simp_all add: later_def)

lemma later_trans: "later u v \<Longrightarrow> later v w \<Longrightarrow> later u w"
  by (auto simp: later_def)

lemma drop_res_empty [simp]: "drop_res {#} w = w"
  by (simp add: drop_res_def)

lemma drop_res_drop_res [simp]: "drop_res S (drop_res R w) = drop_res (R + S) w"
  by (simp add: drop_res_def diff_diff_add)

lemma release_ok [simp]: "r \<in># live w \<Longrightarrow> release r w = Some (drop_res {#r#} w)"
  by (simp add: release_def)

lemma borrow_ok [simp]: "r \<in># live w \<Longrightarrow> borrow r w = Some ()"
  by (simp add: borrow_def)

lemma owns_simps [simp]:
  "owns f NULL = {#}" "owns f (Heap n x) = add_mset (Mem, n) (f x)" "owns f (Static x) = {#}"
  by (simp_all add: owns_def)

lemma blk_simps [simp]: "blk NULL = {#}" "blk (Heap n x) = {#(Mem, n)#}" "blk (Static x) = {#}"
  by (simp_all add: blk_def)

lemma deref_simps [simp]:
  "deref NULL w = None"
  "(Mem, n) \<in># live w \<Longrightarrow> deref (Heap n x) w = Some x"
  "deref (Static x) w = Some x"
  by (simp_all add: deref_def)

lemma store_simps [simp]:
  "store NULL x w = None"
  "(Mem, n) \<in># live w \<Longrightarrow> store (Heap n y) x w = Some (Heap n x)"
  by (simp_all add: store_def)

lemma free_ok: "\<not> is_static p \<Longrightarrow> blk p \<subseteq># live w \<Longrightarrow> free p w = Some (drop_res (blk p) w)"
  by (cases p) (simp_all add: free_def)

lemma free_simps [simp]:
  "free NULL w = Some w"
  "(Mem, n) \<in># live w \<Longrightarrow> free (Heap n x) w = Some (drop_res {#(Mem, n)#} w)"
  "free (Static x) w = None"
  by (simp_all add: free_def)

lemma malloc_wp [wp]:
  assumes "\<And>n w'. live w' = add_mset (Mem, n) (live w) \<Longrightarrow> later w w' \<Longrightarrow>
      Q (Heap n ()) w'"
    and "\<And>w'. live w' = live w \<Longrightarrow> later w w' \<Longrightarrow> \<not> memory_ok E \<Longrightarrow> Q NULL w'"
  shows "runs (malloc E w) Q"
proof (cases "malloc_ok E (next_id w)")
  case True
  then show ?thesis
    using assms(1) [of "take_res Mem w" "next_id w"] by (simp add: malloc_def later_def)
next
  case False
  then have "\<not> memory_ok E" by (auto simp: memory_ok_def)
  with False show ?thesis
    using assms(2) [of "tick w"] by (simp add: malloc_def later_def)
qed

lemma sub_diffI: "A + B \<subseteq># C \<Longrightarrow> B \<subseteq># C - (A :: 'a multiset)"
  by (metis add_diff_cancel_left' mset_subset_eq_add_left mset_subset_eq_exists_conv
      add.assoc)

lemma realloc_wp [wp]:
  assumes p: "\<not> is_static p" "blk p \<subseteq># live w"
    and ok: "\<And>n w'. live w' = add_mset (Mem, n) (live w - blk p) \<Longrightarrow> later w w' \<Longrightarrow>
      Q (Heap n ()) w'"
    and fail: "\<And>w'. live w' = live w \<Longrightarrow> later w w' \<Longrightarrow> \<not> memory_ok E \<Longrightarrow> Q NULL w'"
  shows "runs (realloc E p w) Q"
proof (cases p)
  case NULL
  then show ?thesis
    using ok fail by (auto simp: realloc_def intro!: malloc_wp)
next
  case (Heap n x)
  with p(2) have "(Mem, n) \<in># live w" by simp
  with Heap show ?thesis
    using ok [of "drop_res {#(Mem, n)#} (take_res Mem w)" "next_id w"] fail [of "tick w"]
    by (auto simp: realloc_def later_def memory_ok_def)
qed (use p(1) in simp)

section \<open>The contract of a release operation\<close>

text \<open>
  Every kind of object of the library comes with an operation that gives back exactly what the
  object owns.  The contract is stated once; each component interprets it for its own objects.
\<close>

locale releases =
  fixes rel :: "'p \<Rightarrow> 'w world_scheme \<Rightarrow> 'w world_scheme option"
    and res_of :: "'p \<Rightarrow> res multiset"
    and valid :: "'p \<Rightarrow> bool"
  assumes rel_ok: "valid p \<Longrightarrow> res_of p \<subseteq># live w \<Longrightarrow> rel p w = Some (drop_res (res_of p) w)"
begin

lemma rel_after_acquire:
  "valid p \<Longrightarrow> live w' = live w + res_of p \<Longrightarrow>
   \<exists>w''. rel p w' = Some w'' \<and> live w'' = live w"
  by (simp add: rel_ok)

fun rel_list :: "'p list \<Rightarrow> 'w world_scheme \<Rightarrow> 'w world_scheme option" where
  "rel_list [] w = Some w"
| "rel_list (p # ps) w = Option.bind (rel p w) (rel_list ps)"

lemma rel_list_ok:
  "\<forall>p \<in> set ps. valid p \<Longrightarrow> sum_list (map res_of ps) \<subseteq># live w \<Longrightarrow>
   rel_list ps w = Some (drop_res (sum_list (map res_of ps)) w)"
proof (induction ps arbitrary: w)
  case Nil
  then show ?case by simp
next
  case (Cons p ps)
  then have p: "rel p w = Some (drop_res (res_of p) w)"
    by (auto intro!: rel_ok elim: subset_mset.order_trans [rotated])
  have "sum_list (map res_of ps) \<subseteq># live (drop_res (res_of p) w)"
    using Cons.prems(2) by (simp add: sub_diffI)
  with Cons show ?case by (simp add: p)
qed

end

interpretation block: releases "free :: 'a ptr \<Rightarrow> 'w world_scheme \<Rightarrow> _" blk "\<lambda>p. \<not> is_static p"
  by unfold_locales (rule free_ok)

section \<open>Objects of the system\<close>

text \<open>
  A call of the system that may give a new object (\<open>None\<close> is NULL or an invalid handle), and the
  call that gives one back (such as \<open>udev_unref\<close> or \<open>CloseHandle\<close>, which the sources call on valid
  objects only).
\<close>

definition open_res :: "kind \<Rightarrow> (nat \<Rightarrow> bool) \<Rightarrow> 'w world_scheme \<Rightarrow> (nat option \<times> 'w world_scheme) option" where
  "open_res k ok w =
     (if ok (next_id w) then Some (Some (next_id w), take_res k w) else Some (None, tick w))"

definition unref_if :: "kind \<Rightarrow> nat option \<Rightarrow> 'w world_scheme \<Rightarrow> 'w world_scheme option" where
  "unref_if k r w = (case r of None \<Rightarrow> Some w | Some n \<Rightarrow> release (k, n) w)"

definition opt_res :: "kind \<Rightarrow> nat option \<Rightarrow> res multiset" where
  "opt_res k r = (case r of None \<Rightarrow> {#} | Some n \<Rightarrow> {#(k, n)#})"

lemma opt_res_simps [simp]: "opt_res k None = {#}" "opt_res k (Some n) = {#(k, n)#}"
  by (simp_all add: opt_res_def)

lemma unref_if_simps [simp]:
  "unref_if k None w = Some w"
  "(k, n) \<in># live w \<Longrightarrow> unref_if k (Some n) w = Some (drop_res {#(k, n)#} w)"
  by (simp_all add: unref_if_def)

lemma unref_if_ok: "opt_res k r \<subseteq># live w \<Longrightarrow> unref_if k r w = Some (drop_res (opt_res k r) w)"
  by (cases r) simp_all

interpretation system_object: releases "unref_if k" "opt_res k" "\<lambda>_. True"
  by unfold_locales (rule unref_if_ok)

lemma open_res_wp [wp]:
  assumes "\<And>n w'. ok n \<Longrightarrow> later w w' \<Longrightarrow> live w' = add_mset (k, n) (live w) \<Longrightarrow> Q (Some n) w'"
    and "\<And>w'. later w w' \<Longrightarrow> live w' = live w \<Longrightarrow> Q None w'"
  shows "runs (open_res k ok w) Q"
  using assms(1) [of "next_id w" "take_res k w"] assms(2) [of "tick w"]
  by (simp add: open_res_def later_def)

text \<open>A question to the system that takes and gives nothing.\<close>

definition ask :: "(nat \<Rightarrow> 'a) \<Rightarrow> 'w world_scheme \<Rightarrow> ('a \<times> 'w world_scheme) option" where
  "ask q w = Some (q (next_id w), tick w)"

lemma ask_wp [wp]:
  assumes "\<And>k w'. later w w' \<Longrightarrow> live w' = live w \<Longrightarrow> Q (q k) w'"
  shows "runs (ask q w) Q"
  using assms [of "tick w" "next_id w"] by (simp add: ask_def)

text \<open>
  Counting up an index of 32 bits that does not wrap before the end: a statement holds of every index
  if it holds as soon as it holds of the next.
\<close>

lemma index_induct:
  fixes i :: "32 word"
  assumes n: "n < 2 ^ 32" and "unat i \<le> n"
    and step: "\<And>i. unat i \<le> n \<Longrightarrow> (unat i < n \<Longrightarrow> P (i + 1)) \<Longrightarrow> P i"
  shows "P i"
  using assms(2)
proof (induction "n - unat i" arbitrary: i rule: less_induct)
  case less
  show ?case
  proof (rule step [OF less.prems])
    assume i: "unat i < n"
    with n have "unat (i + 1) = unat i + 1"
      by (simp add: unat_word_ariths)
    with i show "P (i + 1)" by (intro less.hyps) simp_all
  qed
qed

text \<open>Reading makes nothing that has to be given back.\<close>

abbreviation nothing :: "'r \<Rightarrow> res multiset" where
  "nothing \<equiv> \<lambda>_. {#}"

end
