(* ===== verification/Errors.thy ===== *)
theory Errors
  imports Prelude
begin

text \<open>
  The error objects of \<open>src/src/error.c\<close>: what they hold, the static errors, copying, adding
  messages and codes, reading them and freeing them.  A format string with its arguments is
  represented by the text \<open>vsnprintf\<close> makes of them (\<open>None\<close> is a NULL format).  The lemmas
  give each operation's effect on the message and codes of an error and on the ledger.
\<close>

section \<open>Character buffers\<close>

text \<open>
  A cell of a buffer is a character or the terminating NUL (\<open>None\<close>).  Writing past the end of
  the buffer is a fault.
\<close>

type_synonym buffer = "char option list"

definition buf_write :: "nat \<Rightarrow> buffer \<Rightarrow> buffer \<Rightarrow> buffer option" where
  "buf_write off cs buf =
     (if off + length cs \<le> length buf
      then Some (take off buf @ cs @ drop (off + length cs) buf) else None)"

definition strncpy_cells :: "string \<Rightarrow> nat \<Rightarrow> buffer" where
  "strncpy_cells s n = take n (map Some s @ replicate n None)"

definition vsnprintf_cells :: "string \<Rightarrow> nat \<Rightarrow> buffer" where
  "vsnprintf_cells s n = (if n = 0 then [] else map Some (take (n - 1) s) @ [None])"

definition c_str :: "buffer \<Rightarrow> string" where
  "c_str buf = map the (takeWhile (\<lambda>c. c \<noteq> None) buf)"

lemma strncpy_cells_exact [simp]: "strncpy_cells s (Suc (length s)) = map Some s @ [None]"
  by (simp add: strncpy_cells_def)

lemma vsnprintf_cells_exact [simp]: "vsnprintf_cells s (Suc (length s)) = map Some s @ [None]"
  by (simp add: vsnprintf_cells_def)

lemma c_str_Some [simp]: "c_str (map Some s @ xs) = s @ c_str xs"
  by (induction s) (simp_all add: c_str_def)

lemma c_str_simps [simp]:
  "c_str [] = []" "c_str (None # xs) = []" "c_str (Some c # xs) = c # c_str xs"
  by (simp_all add: c_str_def)

section \<open>Error objects\<close>

datatype libusbp_error_code =
    LIBUSBP_ERROR_MEMORY
  | LIBUSBP_ERROR_NOT_READY
  | LIBUSBP_ERROR_ACCESS_DENIED
  | LIBUSBP_ERROR_NO_SERIAL_NUMBER
  | LIBUSBP_ERROR_TIMEOUT
  | LIBUSBP_ERROR_DEVICE_DISCONNECTED
  | LIBUSBP_ERROR_STALL
  | LIBUSBP_ERROR_CANCELLED

fun code_of :: "libusbp_error_code \<Rightarrow> 32 word" where
  "code_of LIBUSBP_ERROR_MEMORY = 1"
| "code_of LIBUSBP_ERROR_NOT_READY = 2"
| "code_of LIBUSBP_ERROR_ACCESS_DENIED = 3"
| "code_of LIBUSBP_ERROR_NO_SERIAL_NUMBER = 4"
| "code_of LIBUSBP_ERROR_TIMEOUT = 5"
| "code_of LIBUSBP_ERROR_DEVICE_DISCONNECTED = 6"
| "code_of LIBUSBP_ERROR_STALL = 7"
| "code_of LIBUSBP_ERROR_CANCELLED = 8"

lemma code_of_inject [simp]: "code_of a = code_of b \<longleftrightarrow> a = b"
  by (cases a; cases b) simp_all

text \<open>The codes are ordered by their numbers.\<close>

instantiation libusbp_error_code :: linorder
begin

definition less_eq_libusbp_error_code :: "libusbp_error_code \<Rightarrow> libusbp_error_code \<Rightarrow> bool" where
  "less_eq_libusbp_error_code a b \<longleftrightarrow> code_of a \<le> code_of b"

definition less_libusbp_error_code :: "libusbp_error_code \<Rightarrow> libusbp_error_code \<Rightarrow> bool" where
  "less_libusbp_error_code a b \<longleftrightarrow> code_of a < code_of b"

instance
  by standard (auto simp: less_eq_libusbp_error_code_def less_libusbp_error_code_def less_le)

end

record libusbp_error =
  do_not_free :: bool
  message :: cstr
  code_count :: nat
  code_array :: "32 word list ptr"

type_synonym err = "libusbp_error ptr"

definition SIZE_MAX :: nat where
  "SIZE_MAX = 2 ^ 64 - 1"

definition mem_error_code_array :: "32 word list ptr" where
  "mem_error_code_array = Static [code_of LIBUSBP_ERROR_MEMORY]"

definition error_no_memory :: err where
  "error_no_memory = Static \<lparr>do_not_free = True,
     message = Static ''Failed to allocate memory.'',
     code_count = 1, code_array = mem_error_code_array\<rparr>"

definition error_masked_by_no_memory :: err where
  "error_masked_by_no_memory = Static \<lparr>do_not_free = True,
     message = Static ''Failed to allocate memory for reporting an error.'',
     code_count = 1, code_array = mem_error_code_array\<rparr>"

definition error_blank :: err where
  "error_blank = Static \<lparr>do_not_free = True, message = NULL, code_count = 0, code_array = NULL\<rparr>"

section \<open>The operations of error.c\<close>

definition libusbp_error_free :: "err \<Rightarrow> 'w world_scheme \<Rightarrow> 'w world_scheme option" where
  "libusbp_error_free error w =
     (if error = NULL then Some w
      else do {
        e \<leftarrow> deref error w;
        if do_not_free e then Some w
        else do {
          w \<leftarrow> free (message e) w;
          w \<leftarrow> free (code_array e) w;
          free error w
        }
      })"

definition libusbp_error_copy ::
    "'e environment_scheme \<Rightarrow> err \<Rightarrow> 'w world_scheme \<Rightarrow> (err \<times> 'w world_scheme) option" where
  "libusbp_error_copy E src_error w =
     (if src_error = NULL then Some (NULL, w)
      else do {
        src \<leftarrow> deref src_error w;
        src_message \<leftarrow> (if message src = NULL then Some '''' else deref (message src) w);
        let message_length = length src_message;
        let count = (if code_array src = NULL then 0 else code_count src);
        (new_error, w) \<leftarrow> malloc E w;
        (new_message, w) \<leftarrow> malloc E w;
        (new_code_array, w) \<leftarrow> malloc E w;
        if new_error = NULL \<or> new_message = NULL \<or> (count \<noteq> 0 \<and> new_code_array = NULL)
        then do {
          w \<leftarrow> free new_error w;
          w \<leftarrow> free new_message w;
          w \<leftarrow> free new_code_array w;
          Some (error_masked_by_no_memory, w)
        }
        else do {
          codes \<leftarrow> (if count \<noteq> 0
            then do {
              a \<leftarrow> deref (code_array src) w;
              if count \<le> length a then Some (take count a) else None
            }
            else Some []);
          buf \<leftarrow> buf_write 0 (strncpy_cells src_message (message_length + 1))
            (replicate (message_length + 1) None);
          new_message \<leftarrow> store new_message (c_str buf) w;
          new_error \<leftarrow> store new_error \<lparr>do_not_free = False, message = new_message,
            code_count = count, code_array = map_ptr (\<lambda>_. codes) new_code_array\<rparr> w;
          Some (new_error, w)
        }
      })"

definition error_make_mutable ::
    "'e environment_scheme \<Rightarrow> err \<Rightarrow> 'w world_scheme \<Rightarrow> (err \<times> 'w world_scheme) option" where
  "error_make_mutable E error w = do {
     let error = (if error = NULL then error_blank else error);
     e \<leftarrow> deref error w;
     if do_not_free e then libusbp_error_copy E error w else Some (error, w)
   }"

text \<open>
  The assembly of the new message in a buffer of \<open>message_length + 1\<close> bytes: the outer text,
  the separator, the inner message.
\<close>

definition assemble_message :: "string \<Rightarrow> nat \<Rightarrow> nat \<Rightarrow> string \<Rightarrow> nat \<Rightarrow> nat \<Rightarrow> string option" where
  "assemble_message outer outer_message_length separator_length inner inner_message_length
      message_length = do {
     buf \<leftarrow> buf_write 0 (vsnprintf_cells outer (outer_message_length + 1))
       (replicate (message_length + 1) None);
     buf \<leftarrow> (if separator_length \<noteq> 0
       then buf_write outer_message_length (strncpy_cells ''  '' (separator_length + 1)) buf
       else Some buf);
     buf \<leftarrow> buf_write (outer_message_length + separator_length)
       (strncpy_cells inner (inner_message_length + 1)) buf;
     buf \<leftarrow> buf_write message_length [None] buf;
     Some (c_str buf)
   }"

definition error_add_v :: "'e environment_scheme \<Rightarrow> err \<Rightarrow> string option \<Rightarrow> 'w world_scheme
    \<Rightarrow> (err \<times> 'w world_scheme) option" where
  "error_add_v E error format w =
     (case format of None \<Rightarrow> Some (error, w)
      | Some text \<Rightarrow> do {
          (error, w) \<leftarrow> error_make_mutable E error w;
          if error = NULL then Some (error, w)
          else do {
            e \<leftarrow> deref error w;
            if do_not_free e then Some (error, w)
            else do {
              let e = (if message e = NULL then e\<lparr>message := Static ''''\<rparr> else e);
              inner \<leftarrow> deref (message e) w;
              let outer_message_length = length text;
              let inner_message_length = length inner;
              let separator_length =
                (if inner_message_length \<noteq> 0 \<and> outer_message_length \<noteq> 0 then 2 else 0);
              let message_length =
                outer_message_length + separator_length + inner_message_length;
              (new_message, w) \<leftarrow> malloc E w;
              if new_message = NULL
              then do {
                error \<leftarrow> store error e w;
                w \<leftarrow> libusbp_error_free error w;
                Some (error_masked_by_no_memory, w)
              }
              else do {
                assembled \<leftarrow> assemble_message text outer_message_length separator_length
                  inner inner_message_length message_length;
                new_message \<leftarrow> store new_message assembled w;
                w \<leftarrow> free (message e) w;
                error \<leftarrow> store error (e\<lparr>message := new_message\<rparr>) w;
                Some (error, w)
              }
            }
          }
        })"

definition error_add_code :: "'e environment_scheme \<Rightarrow> err \<Rightarrow> 32 word \<Rightarrow> 'w world_scheme
    \<Rightarrow> (err \<times> 'w world_scheme) option" where
  "error_add_code E error code w = do {
     (error, w) \<leftarrow> error_make_mutable E error w;
     if error = NULL then Some (error, w)
     else do {
       e \<leftarrow> deref error w;
       if do_not_free e then Some (error, w)
       else if SIZE_MAX div 4 \<le> code_count e then Some (error, w)
       else do {
         old \<leftarrow> (if code_array e = NULL then Some [] else deref (code_array e) w);
         (new_array, w) \<leftarrow> realloc E (code_array e) w;
         if new_array = NULL
         then do {
           w \<leftarrow> libusbp_error_free error w;
           Some (error_masked_by_no_memory, w)
         }
         else do {
           new_array \<leftarrow> store new_array (take (code_count e) old @ [code]) w;
           error \<leftarrow> store error
             (e\<lparr>code_array := new_array, code_count := code_count e + 1\<rparr>) w;
           Some (error, w)
         }
       }
     }
   }"

definition error_add :: "'e environment_scheme \<Rightarrow> err \<Rightarrow> string \<Rightarrow> 'w world_scheme
    \<Rightarrow> (err \<times> 'w world_scheme) option" where
  "error_add E error text w = error_add_v E error (Some text) w"

definition error_create ::
    "'e environment_scheme \<Rightarrow> string \<Rightarrow> 'w world_scheme \<Rightarrow> (err \<times> 'w world_scheme) option" where
  "error_create E text w = error_add_v E NULL (Some text) w"

text \<open>The loop of \<open>libusbp_error_has_code\<close> with \<open>n\<close> iterations left, at index \<open>i\<close>.\<close>

fun has_code_loop :: "32 word list ptr \<Rightarrow> 32 word \<Rightarrow> nat \<Rightarrow> nat \<Rightarrow> 'w world_scheme \<Rightarrow> bool option" where
  "has_code_loop arr code 0 i w = Some False"
| "has_code_loop arr code (Suc n) i w = do {
     a \<leftarrow> deref arr w;
     if i < length a
     then if a ! i = code then Some True else has_code_loop arr code n (i + 1) w
     else None
   }"

definition libusbp_error_has_code :: "err \<Rightarrow> 32 word \<Rightarrow> 'w world_scheme \<Rightarrow> bool option" where
  "libusbp_error_has_code error code w =
     (if error = NULL then Some False
      else do {
        e \<leftarrow> deref error w;
        has_code_loop (code_array e) code (code_count e) 0 w
      })"

definition libusbp_error_get_message :: "err \<Rightarrow> 'w world_scheme \<Rightarrow> string option" where
  "libusbp_error_get_message error w =
     (if error = NULL then Some ''No error.''
      else do {
        e \<leftarrow> deref error w;
        if message e = NULL then Some '''' else deref (message e) w
      })"

section \<open>What an error says and owns\<close>

definition err_res :: "err \<Rightarrow> res multiset" where
  "err_res e = owns (\<lambda>x. blk (message x) + blk (code_array x)) e"

fun contents :: "'a \<Rightarrow> 'a ptr \<Rightarrow> 'a" where
  "contents d NULL = d"
| "contents d (Heap n x) = x"
| "contents d (Static x) = x"

definition err_text :: "err \<Rightarrow> string" where
  "err_text e = (case e of NULL \<Rightarrow> '''' | Heap n x \<Rightarrow> contents '''' (message x)
     | Static x \<Rightarrow> contents '''' (message x))"

definition err_codes :: "err \<Rightarrow> 32 word list" where
  "err_codes e = (case e of NULL \<Rightarrow> [] | Heap n x \<Rightarrow> contents [] (code_array x)
     | Static x \<Rightarrow> contents [] (code_array x))"

definition wf_err :: "err \<Rightarrow> bool" where
  "wf_err e = (case e of NULL \<Rightarrow> True
     | Static x \<Rightarrow> do_not_free x \<and> is_static (message x) \<and> is_static (code_array x) \<and>
         length (contents [] (code_array x)) = code_count x \<and> code_count x \<le> SIZE_MAX div 4
     | Heap n x \<Rightarrow> \<not> do_not_free x \<and> (\<exists>m s. message x = Heap m s) \<and> \<not> is_static (code_array x) \<and>
         length (contents [] (code_array x)) = code_count x \<and> code_count x \<le> SIZE_MAX div 4)"

definition join_message :: "string \<Rightarrow> string \<Rightarrow> string" where
  "join_message outer inner =
     (if outer \<noteq> [] \<and> inner \<noteq> [] then outer @ ''  '' @ inner else outer @ inner)"

lemma is_static_conv: "is_static p \<longleftrightarrow> (\<exists>x. p = Static x)"
  by (cases p) auto

lemma not_static_conv: "\<not> is_static p \<longleftrightarrow> p = NULL \<or> (\<exists>n x. p = Heap n x)"
  by (cases p) auto

lemma map_ptr_NULL [simp]: "map_ptr f p = NULL \<longleftrightarrow> p = NULL"
  by (cases p) auto

lemma err_view_simps [simp]:
  "err_text NULL = ''''" "err_codes NULL = []"
  "err_text (Heap n x) = contents '''' (message x)" "err_codes (Heap n x) = contents [] (code_array x)"
  "err_text (Static x) = contents '''' (message x)" "err_codes (Static x) = contents [] (code_array x)"
  by (simp_all add: err_text_def err_codes_def)

lemma wf_err_simps [simp]:
  "wf_err NULL"
  "wf_err (Heap n x) \<longleftrightarrow> \<not> do_not_free x \<and> (\<exists>m s. message x = Heap m s) \<and>
     \<not> is_static (code_array x) \<and> length (contents [] (code_array x)) = code_count x \<and>
     code_count x \<le> SIZE_MAX div 4"
  by (simp_all add: wf_err_def)

lemma err_res_simps [simp]:
  "err_res NULL = {#}" "err_res (Static x) = {#}"
  "err_res (Heap n x) = add_mset (Mem, n) (blk (message x) + blk (code_array x))"
  by (simp_all add: err_res_def)

lemma static_errors [simp]:
  "wf_err error_masked_by_no_memory" "err_res error_masked_by_no_memory = {#}"
  "error_masked_by_no_memory \<noteq> NULL" "error_masked_by_no_memory \<noteq> Heap n x"
  "wf_err error_no_memory" "err_res error_no_memory = {#}"
  "error_no_memory \<noteq> NULL" "err_res error_blank = {#}" "err_text error_blank = ''''"
  "err_codes error_blank = []" "error_blank \<noteq> NULL"
  by (simp_all add: error_masked_by_no_memory_def error_no_memory_def error_blank_def wf_err_def
      mem_error_code_array_def SIZE_MAX_def)

lemma libusbp_error_free_ok:
  assumes "wf_err e" and "err_res e \<subseteq># live w"
  shows "libusbp_error_free e w = Some (drop_res (err_res e) w)"
proof (cases e)
  case (Heap n x)
  obtain L where "live w = err_res e + L"
    using assms(2) by (auto simp: mset_subset_eq_exists_conv)
  then show ?thesis
    using assms(1) Heap by (auto simp: libusbp_error_free_def not_static_conv)
qed (use assms in \<open>auto simp: libusbp_error_free_def wf_err_def\<close>)

lemma buf_write_0: "length cs \<le> length buf \<Longrightarrow> buf_write 0 cs buf = Some (cs @ drop (length cs) buf)"
  by (simp add: buf_write_def)

lemma assemble_message_ok:
  "k = (if inner \<noteq> [] \<and> outer \<noteq> [] then 2 else 0) \<Longrightarrow> l = length outer \<Longrightarrow> i = length inner \<Longrightarrow>
   t = l + k + i \<Longrightarrow> assemble_message outer l k inner i t = Some (join_message outer inner)"
  by (auto simp: assemble_message_def buf_write_def join_message_def strncpy_cells_def)

lemma libusbp_error_copy_spec:
  assumes "wf_err e \<or> e = error_blank" "err_res e \<subseteq># live w"
  shows "runs (libusbp_error_copy E e w) (\<lambda>e' w'. later w w' \<and> live w' = live w + err_res e' \<and>
     (if e = NULL then e' = NULL
      else e' = error_masked_by_no_memory \<and> \<not> memory_ok E \<or>
        (wf_err e' \<and> (\<exists>n x. e' = Heap n x) \<and> err_text e' = err_text e \<and> err_codes e' = err_codes e)))"
proof (cases e)
  case NULL
  then show ?thesis by (simp add: libusbp_error_copy_def)
next
  case (Heap n x)
  obtain L where L: "live w = err_res e + L"
    using assms(2) by (auto simp: mset_subset_eq_exists_conv)
  from assms(1) Heap show ?thesis
    by (auto simp: libusbp_error_copy_def error_blank_def not_static_conv L Let_def later_def
        buf_write_0 intro!: wp)
next
  case (Static x)
  show ?thesis
  proof (cases "e = error_blank")
    case True
    then show ?thesis
      by (auto simp: libusbp_error_copy_def error_blank_def Let_def later_def
          buf_write_0 strncpy_cells_def intro!: wp)
  next
    case False
    with assms(1) Static show ?thesis
      by (auto simp: libusbp_error_copy_def is_static_conv Let_def later_def
          buf_write_0 wf_err_def SIZE_MAX_def intro!: wp)
  qed
qed

lemmas libusbp_error_copy_wp [wp] = libusbp_error_copy_spec [THEN runs_mono]

text \<open>
  The shape of an error after a message or a code was added: the text and codes it should have,
  or the static error that reports the memory shortage.
\<close>

definition err_becomes ::
    "'e environment_scheme \<Rightarrow> string \<Rightarrow> 32 word list \<Rightarrow> err \<Rightarrow> bool" where
  "err_becomes E text codes e \<longleftrightarrow> wf_err e \<and> e \<noteq> NULL \<and>
     (if is_static e then e = error_masked_by_no_memory \<and> \<not> memory_ok E
      else err_text e = text \<and> err_codes e = codes)"

lemma err_becomes_masked [simp]:
  "err_becomes E t c error_masked_by_no_memory \<longleftrightarrow> \<not> memory_ok E"
  by (simp add: err_becomes_def error_masked_by_no_memory_def wf_err_def mem_error_code_array_def SIZE_MAX_def)

lemma err_becomes_Heap [simp]:
  "err_becomes E t c (Heap n x) \<longleftrightarrow>
     wf_err (Heap n x) \<and> err_text (Heap n x) = t \<and> err_codes (Heap n x) = c"
  by (simp add: err_becomes_def)

lemma error_make_mutable_spec:
  assumes "wf_err e" "err_res e \<subseteq># live w"
  shows "runs (error_make_mutable E e w) (\<lambda>e' w'. later w w' \<and>
     live w' = live w - err_res e + err_res e' \<and> err_becomes E (err_text e) (err_codes e) e')"
proof (cases e)
  case NULL
  then show ?thesis
    by (auto simp: error_make_mutable_def error_blank_def Let_def later_def intro!: wp)
next
  case (Heap n x)
  obtain L where L: "live w = err_res e + L"
    using assms(2) by (auto simp: mset_subset_eq_exists_conv)
  from assms(1) Heap show ?thesis
    by (auto simp: error_make_mutable_def L)
next
  case (Static x)
  with assms(1) show ?thesis
    by (auto simp: error_make_mutable_def later_def wf_err_def intro!: wp)
qed

lemmas error_make_mutable_wp = error_make_mutable_spec [THEN runs_mono]


lemma err_becomes_iff:
  "err_becomes E t c e \<longleftrightarrow>
     e = error_masked_by_no_memory \<and> \<not> memory_ok E \<or>
     (\<exists>n x. e = Heap n x \<and> wf_err (Heap n x) \<and> contents [] (message x) = t \<and>
        contents [] (code_array x) = c)"
  by (cases e) (auto simp: err_becomes_def error_masked_by_no_memory_def wf_err_def
      mem_error_code_array_def SIZE_MAX_def)

lemma deref_masked [simp]:
  "deref error_masked_by_no_memory w = Some \<lparr>do_not_free = True,
     message = Static ''Failed to allocate memory for reporting an error.'',
     code_count = 1, code_array = mem_error_code_array\<rparr>"
  by (simp add: error_masked_by_no_memory_def)


lemma error_add_v_spec:
  assumes "wf_err e" "err_res e \<subseteq># live w"
  shows "runs (error_add_v E e (Some fmt) w) (\<lambda>e' w'. later w w' \<and>
     live w' = live w - err_res e + err_res e' \<and>
     err_becomes E (join_message fmt (err_text e)) (err_codes e) e')"
proof -
  obtain L where L: "live w = err_res e + L"
    using assms(2) by (auto simp: mset_subset_eq_exists_conv)
  then show ?thesis
    using assms
    by (auto simp: error_add_v_def Let_def later_def err_becomes_iff libusbp_error_free_ok
        assemble_message_ok intro!: error_make_mutable_wp wp)
qed

lemma error_add_code_spec:
  assumes "wf_err e" "err_res e \<subseteq># live w"
  shows "runs (error_add_code E e code w) (\<lambda>e' w'. later w w' \<and>
     live w' = live w - err_res e + err_res e' \<and>
     err_becomes E (err_text e)
       (if length (err_codes e) < SIZE_MAX div 4 then err_codes e @ [code] else err_codes e) e')"
proof -
  obtain L where L: "live w = err_res e + L"
    using assms(2) by (auto simp: mset_subset_eq_exists_conv)
  then show ?thesis
  using assms
  by (auto simp: error_add_code_def Let_def later_def err_becomes_iff libusbp_error_free_ok not_static_conv
      intro!: error_make_mutable_wp wp)
qed


lemma error_create_spec:
  "runs (error_create E fmt w) (\<lambda>e' w'. later w w' \<and> live w' = live w + err_res e' \<and>
     err_becomes E fmt [] e')"
proof -
  have "runs (error_add_v E NULL (Some fmt) w) (\<lambda>e' w'. later w w' \<and>
     live w' = live w - err_res NULL + err_res e' \<and>
     err_becomes E (join_message fmt (err_text NULL)) (err_codes NULL) e')"
    by (rule error_add_v_spec) simp_all
  then show ?thesis by (simp add: error_create_def join_message_def)
qed

lemma err_becomes_wf: "err_becomes E t c e \<Longrightarrow> wf_err e" "err_becomes E t c e \<Longrightarrow> e \<noteq> NULL"
  by (simp_all add: err_becomes_def)

text \<open>Two errors said the same way say the same, or memory ran out.\<close>

lemma err_becomes_memory:
  "err_becomes E t c e \<Longrightarrow> memory_ok E \<Longrightarrow> err_text e = t \<and> err_codes e = c"
  by (auto simp: err_becomes_iff)

lemma masked_codes [simp]:
  "err_codes error_masked_by_no_memory = [code_of LIBUSBP_ERROR_MEMORY]"
  "err_codes error_no_memory = [code_of LIBUSBP_ERROR_MEMORY]"
  "err_text error_no_memory = ''Failed to allocate memory.''"
  by (simp_all add: error_masked_by_no_memory_def error_no_memory_def mem_error_code_array_def)

lemma err_becomes_cases:
  "err_becomes E t c e \<Longrightarrow> wf_err e \<and> e \<noteq> NULL \<and>
     (e = error_masked_by_no_memory \<and> \<not> memory_ok E \<or> err_text e = t \<and> err_codes e = c)"
  by (simp add: err_becomes_def split: if_splits)

text \<open>
  What clients need to know of an error they made: it is well-formed and not NULL, and unless
  memory can run out it says what it should.
\<close>

definition says :: "'e environment_scheme \<Rightarrow> string \<Rightarrow> 32 word list \<Rightarrow> err \<Rightarrow> bool" where
  "says E t cs e \<longleftrightarrow> wf_err e \<and> e \<noteq> NULL \<and> (memory_ok E \<longrightarrow> err_text e = t \<and> err_codes e = cs)"

lemma err_becomes_says: "err_becomes E t c e \<Longrightarrow> says E t c e"
  by (auto simp: says_def dest: err_becomes_cases)

lemma says_wf: "says E t c e \<Longrightarrow> wf_err e \<and> e \<noteq> NULL"
  by (simp add: says_def)

lemma says_no_memory: "\<not> memory_ok E \<Longrightarrow> says E t c error_no_memory"
  by (simp add: says_def)

lemma room_for_codes [simp]:
  "0 < SIZE_MAX div 4" "Suc 0 < SIZE_MAX div 4" "Suc (Suc 0) < SIZE_MAX div 4"
  by (simp_all add: SIZE_MAX_def)

lemma error_create_wp [wp]:
  assumes "\<And>e' w'. later w w' \<Longrightarrow> live w' = live w + err_res e' \<Longrightarrow> says E fmt [] e' \<Longrightarrow> Q e' w'"
  shows "runs (error_create E fmt w) Q"
  by (rule runs_mono [OF error_create_spec]) (auto intro: assms err_becomes_says)

lemma error_add_v_wp [wp]:
  assumes "wf_err e" "err_res e \<subseteq># live w"
    and "\<And>e' w'. later w w' \<Longrightarrow> live w' = live w - err_res e + err_res e' \<Longrightarrow>
      says E (join_message fmt (err_text e)) (err_codes e) e' \<Longrightarrow> Q e' w'"
  shows "runs (error_add_v E e (Some fmt) w) Q"
  by (rule runs_mono [OF error_add_v_spec [OF assms(1,2)]])
    (auto intro: assms(3) err_becomes_says)

lemmas error_add_wp [wp] = error_add_v_wp [folded error_add_def]

lemma error_add_code_wp [wp]:
  assumes "wf_err e" "err_res e \<subseteq># live w"
    and "\<And>e' w'. later w w' \<Longrightarrow> live w' = live w - err_res e + err_res e' \<Longrightarrow>
      says E (err_text e)
        (if length (err_codes e) < SIZE_MAX div 4 then err_codes e @ [code] else err_codes e) e'
      \<Longrightarrow> Q e' w'"
  shows "runs (error_add_code E e code w) Q"
  by (rule runs_mono [OF error_add_code_spec [OF assms(1,2)]])
    (auto intro: assms(3) err_becomes_says)

section \<open>Reading errors\<close>

lemma has_code_loop_ok:
  assumes "deref arr w = Some a" and "i + n = length a"
  shows "has_code_loop arr code n i w = Some (code \<in> set (drop i a))"
  using assms(2)
proof (induction n arbitrary: i)
  case 0
  then show ?case by simp
next
  case (Suc n)
  then have "drop i a = a ! i # drop (i + 1) a"
    by (simp add: Cons_nth_drop_Suc)
  with Suc assms(1) show ?case by auto
qed

lemma libusbp_error_has_code_ok:
  assumes "wf_err e" and "err_res e \<subseteq># live w"
  shows "libusbp_error_has_code e code w = Some (code \<in> set (err_codes e))"
proof (cases e)
  case (Heap n x)
  obtain L where L: "live w = err_res e + L"
    using assms(2) by (auto simp: mset_subset_eq_exists_conv)
  show ?thesis
  proof (cases "code_array x")
    case NULL
    with Heap assms(1) L show ?thesis by (simp add: libusbp_error_has_code_def)
  next
    case (Heap k a)
    with \<open>e = ptr.Heap n x\<close> assms(1) L show ?thesis
      by (simp add: libusbp_error_has_code_def has_code_loop_ok [where a = a])
  qed (use Heap assms(1) in simp)
next
  case (Static x)
  with assms(1) obtain a where "code_array x = Static a" "length a = code_count x"
    by (auto simp: wf_err_def is_static_conv)
  with Static show ?thesis
    by (simp add: libusbp_error_has_code_def has_code_loop_ok [where a = a])
qed (simp add: libusbp_error_has_code_def)

lemma libusbp_error_has_code_NULL [simp]: "libusbp_error_has_code NULL code w = Some False"
  by (simp add: libusbp_error_has_code_def)

lemma libusbp_error_get_message_ok:
  assumes "wf_err e" and "err_res e \<subseteq># live w"
  shows "libusbp_error_get_message e w = Some (if e = NULL then ''No error.'' else err_text e)"
proof (cases e)
  case (Heap n x)
  obtain L where L: "live w = err_res e + L"
    using assms(2) by (auto simp: mset_subset_eq_exists_conv)
  with Heap assms(1) show ?thesis by (auto simp: libusbp_error_get_message_def)
next
  case (Static x)
  with assms(1) show ?thesis
    by (auto simp: libusbp_error_get_message_def wf_err_def is_static_conv)
qed (simp add: libusbp_error_get_message_def)

interpretation error: releases libusbp_error_free err_res wf_err
  by unfold_locales (rule libusbp_error_free_ok)

section \<open>Contracts of constructors and checks\<close>

text \<open>
  Every operation of the library that makes an object follows one contract: it returns no error
  and one object that satisfies \<open>P\<close>, or an error that satisfies \<open>F\<close> and no object (\<open>none\<close>).  In
  both cases everything it used on the way has been given back: the ledger grows by what the
  result owns and nothing else.
\<close>

definition gives :: "('r \<Rightarrow> res multiset) \<Rightarrow> 'r \<Rightarrow> ('r \<Rightarrow> bool) \<Rightarrow> (err \<Rightarrow> bool) \<Rightarrow> 'w world_scheme
    \<Rightarrow> err \<times> 'r \<Rightarrow> 'w world_scheme \<Rightarrow> bool" where
  "gives own none P F w = (\<lambda>(e, r) w'. later w w' \<and>
     (if e = NULL then P r \<and> live w' = live w + own r
      else wf_err e \<and> F e \<and> r = none \<and> live w' = live w + err_res e))"

text \<open>A check makes no object.\<close>

definition checks :: "bool \<Rightarrow> (err \<Rightarrow> bool) \<Rightarrow> 'w world_scheme \<Rightarrow> err \<Rightarrow> 'w world_scheme \<Rightarrow> bool" where
  "checks P F w = (\<lambda>e w'. later w w' \<and> live w' = live w + err_res e \<and> wf_err e \<and>
     (if e = NULL then P else F e))"

lemma gives_wp:
  assumes "runs m (gives own none P F w)"
    and "\<And>r w'. later w w' \<Longrightarrow> P r \<Longrightarrow> live w' = live w + own r \<Longrightarrow> Q (NULL, r) w'"
    and "\<And>e w'. e \<noteq> NULL \<Longrightarrow> later w w' \<Longrightarrow> wf_err e \<Longrightarrow> F e \<Longrightarrow> live w' = live w + err_res e \<Longrightarrow>
      Q (e, none) w'"
  shows "runs m Q"
proof (rule runs_mono [OF assms(1)])
  fix x w'
  assume g: "gives own none P F w x w'"
  obtain e r where x: "x = (e, r)" by (cases x)
  show "Q x w'"
    using g assms(2) [of w' r] assms(3) [of e w'] by (cases "e = NULL") (simp_all add: x gives_def)
qed

lemma checks_wp:
  assumes "runs m (checks P F w)"
    and "\<And>w'. later w w' \<Longrightarrow> P \<Longrightarrow> live w' = live w \<Longrightarrow> Q NULL w'"
    and "\<And>e w'. e \<noteq> NULL \<Longrightarrow> later w w' \<Longrightarrow> wf_err e \<Longrightarrow> F e \<Longrightarrow> live w' = live w + err_res e \<Longrightarrow> Q e w'"
  shows "runs m Q"
  by (rule runs_mono [OF assms(1)]) (auto simp: checks_def assms(2,3) split: if_splits)

lemma gives_NULL [simp]:
  "gives own none P F w (NULL, r) w' \<longleftrightarrow> later w w' \<and> P r \<and> live w' = live w + own r"
  by (simp add: gives_def)

lemma gives_error [simp]:
  "e \<noteq> NULL \<Longrightarrow> gives own none P F w (e, r) w' \<longleftrightarrow>
     later w w' \<and> wf_err e \<and> F e \<and> r = none \<and> live w' = live w + err_res e"
  by (simp add: gives_def)

lemma checks_NULL [simp]: "checks P F w NULL w' \<longleftrightarrow> later w w' \<and> live w' = live w \<and> P"
  by (auto simp: checks_def)

lemma checks_error [simp]:
  "e \<noteq> NULL \<Longrightarrow> checks P F w e w' \<longleftrightarrow>
     later w w' \<and> live w' = live w + err_res e \<and> wf_err e \<and> F e"
  by (auto simp: checks_def)

text \<open>
  Constructors and the release operation of what they make: making an object and giving it back
  leaves nothing behind but the error, if there was one.
\<close>

locale constructor = releases rel own valid
  for rel :: "'r \<Rightarrow> 'w world_scheme \<Rightarrow> 'w world_scheme option"
    and own :: "'r \<Rightarrow> res multiset" and valid :: "'r \<Rightarrow> bool" +
  fixes make :: "'a \<Rightarrow> 'w world_scheme \<Rightarrow> ((err \<times> 'r) \<times> 'w world_scheme) option"
    and none :: 'r
    and ready :: "'a \<Rightarrow> 'w world_scheme \<Rightarrow> bool"
    and made :: "'a \<Rightarrow> 'r \<Rightarrow> bool"
  assumes make_gives: "ready a w \<Longrightarrow> runs (make a w) (gives own none (made a) (\<lambda>_. True) w)"
    and made_valid: "made a r \<Longrightarrow> valid r"
    and none_valid: "valid none" and none_owns: "own none = {#}"
begin

lemma make_total: "ready a w \<Longrightarrow> make a w \<noteq> None"
  using runsD [OF make_gives] by fastforce

lemma make_release:
  assumes "ready a w"
  shows "runs (make a w) (\<lambda>(e, r) w'. (e = NULL \<longrightarrow> made a r) \<and>
     (\<exists>w''. rel r w' = Some w'' \<and> live w'' = live w + err_res e))"
  by (rule gives_wp [OF make_gives [OF assms]])
    (auto simp: made_valid none_valid none_owns rel_ok)

lemma make_no_leak:
  assumes "ready a w"
  shows "runs (make a w) (\<lambda>(e, r) w'. \<exists>w1 w2. rel r w' = Some w1 \<and>
     libusbp_error_free e w1 = Some w2 \<and> live w2 = live w)"
  by (rule gives_wp [OF make_gives [OF assms]])
    (auto simp: made_valid none_valid none_owns rel_ok libusbp_error_free_ok)

end

section \<open>Properties\<close>

text \<open>A machine with enough memory and an empty ledger, for concrete runs.\<close>

definition plenty :: environment where
  "plenty = \<lparr>malloc_ok = (\<lambda>n. True)\<rparr>"

definition start :: world where
  "start = \<lparr>next_id = 0, live = {#}\<rparr>"

lemma plenty_start [simp]: "memory_ok plenty" "live start = {#}"
  by (simp_all add: memory_ok_def plenty_def start_def)

text \<open>
  C32: Adding a message to an error never faults: whatever allocations fail, the result is a
  well-formed non-NULL error, the old error has been given up, the ledger holds exactly what the
  result owns, and the result either says "message, two spaces, old message" with the old codes,
  or is the static error that reports a memory shortage, which happens only when an allocation
  can fail.
\<close>

theorem error_add_v_correct:
  assumes "wf_err e" and "live w = L + err_res e"
  shows "runs (error_add_v E e (Some fmt) w) (\<lambda>e' w'. wf_err e' \<and> e' \<noteq> NULL \<and>
    live w' = L + err_res e' \<and>
    (e' = error_masked_by_no_memory \<and> \<not> memory_ok E \<or>
     err_text e' = join_message fmt (err_text e) \<and> err_codes e' = err_codes e))"
  by (rule runs_mono [OF error_add_v_spec]) (auto simp: assms dest: err_becomes_cases)

theorem error_add_v_correct_witness:
  "runs (error_add_v plenty error_no_memory (Some ''Cannot open.'') start) (\<lambda>e' w'.
     live w' = err_res e' \<and> err_text e' = ''Cannot open.  Failed to allocate memory.'')"
  by (rule runs_mono [OF error_add_v_correct [where L = "{#}"]])
    (auto simp: join_message_def)

text \<open>
  Adding a code to an error never faults, keeps the message, and puts the code after the
  ones the error has; an error that is full keeps its codes, and when memory is short the static
  memory error is returned instead.  Afterwards \<open>libusbp_error_has_code\<close> finds exactly the codes
  of the result.
\<close>

theorem error_add_code_has_code:
  assumes "wf_err e" and "live w = L + err_res e"
  shows "runs (error_add_code E e code w) (\<lambda>e' w'. wf_err e' \<and> live w' = L + err_res e' \<and>
     (e' = error_masked_by_no_memory \<and> \<not> memory_ok E \<or>
      err_text e' = err_text e \<and> err_codes e' =
        (if length (err_codes e) < SIZE_MAX div 4 then err_codes e @ [code] else err_codes e)) \<and>
     (\<forall>c. libusbp_error_has_code e' c w' = Some (c \<in> set (err_codes e'))))"
  by (rule runs_mono [OF error_add_code_spec])
    (auto simp: assms libusbp_error_has_code_ok dest: err_becomes_cases)

theorem error_add_code_has_code_witness:
  "runs (error_add_code plenty error_no_memory (code_of LIBUSBP_ERROR_TIMEOUT) start)
     (\<lambda>e' w'. err_codes e' = [1, 5] \<and> libusbp_error_has_code e' 5 w' = Some True)"
  by (rule runs_mono [OF error_add_code_has_code [where L = "{#}"]]) (auto simp: SIZE_MAX_def)

text \<open>
  A copy of an error is either NULL exactly when the source is, or says the same as the
  source (or is the static memory error); freeing the copy brings the ledger back to what it was
  before copying, and the source is untouched.
\<close>

theorem error_copy_free_roundtrip:
  assumes "wf_err e" and "live w = L + err_res e"
  shows "runs (libusbp_error_copy E e w) (\<lambda>e' w'.
     (e' = NULL \<longleftrightarrow> e = NULL) \<and>
     (e' = error_masked_by_no_memory \<and> \<not> memory_ok E \<or>
      err_text e' = err_text e \<and> err_codes e' = err_codes e) \<and>
     (\<exists>w''. libusbp_error_free e' w' = Some w'' \<and> live w'' = live w))"
  by (rule runs_mono [OF libusbp_error_copy_spec])
    (auto simp: assms error.rel_ok split: if_splits)

theorem error_copy_free_roundtrip_witness:
  "runs (libusbp_error_copy plenty error_no_memory start) (\<lambda>e' w'.
     err_codes e' = [1] \<and> (\<exists>w''. libusbp_error_free e' w' = Some w'' \<and> live w'' = {#}))"
  by (rule runs_mono [OF error_copy_free_roundtrip [where L = "{#}"]]) auto

end
