(* ===== verification/CFormat.thy ===== *)
theory CFormat
  imports Prelude
begin

text \<open>
  The conversions of the C library that the sources use: \<open>%d\<close>, \<open>%x\<close> with a zero-padded width,
  and the \<open>%4hx\<close> and \<open>%4hhx\<close> of \<open>sscanf\<close>.  A printed \<open>%04x\<close> field scans back to the value it
  was printed from, which is how the kernel hands IDs to the library through sysfs.
\<close>

section \<open>Printing\<close>

definition digit_char :: "nat \<Rightarrow> char" where
  "digit_char d = (if d < 10 then char_of (48 + d) else char_of (87 + d))"

fun digits_of :: "nat \<Rightarrow> nat \<Rightarrow> string" where
  "digits_of b n =
     (if n < b \<or> b < 2 then [digit_char n] else digits_of b (n div b) @ [digit_char (n mod b)])"

declare digits_of.simps [simp del]

definition fmt_d :: "int \<Rightarrow> string" where
  "fmt_d i = (if i < 0 then CHR ''-'' # digits_of 10 (nat (- i)) else digits_of 10 (nat i))"

definition fmt_x :: "nat \<Rightarrow> nat \<Rightarrow> string" where
  "fmt_x width n = (let s = digits_of 16 n in replicate (width - length s) (CHR ''0'') @ s)"

section \<open>Scanning\<close>

definition is_space :: "char \<Rightarrow> bool" where
  "is_space c \<longleftrightarrow> c \<in> {CHR '' '', CHR 0x09, CHR 0x0A, CHR 0x0B, CHR 0x0C, CHR 0x0D}"

definition hex_value :: "char \<Rightarrow> nat option" where
  "hex_value c = (let n = of_char c :: nat in
     if 48 \<le> n \<and> n \<le> 57 then Some (n - 48)
     else if 97 \<le> n \<and> n \<le> 102 then Some (n - 87)
     else if 65 \<le> n \<and> n \<le> 70 then Some (n - 55)
     else None)"

fun hex_number :: "nat \<Rightarrow> string \<Rightarrow> nat" where
  "hex_number acc [] = acc"
| "hex_number acc (c # cs) =
     (case hex_value c of None \<Rightarrow> acc | Some d \<Rightarrow> hex_number (16 * acc + d) cs)"

definition strip_0x :: "string \<Rightarrow> string" where
  "strip_0x s = (case s of c0 # c1 # cs \<Rightarrow>
       if c0 = CHR ''0'' \<and> (c1 = CHR ''x'' \<or> c1 = CHR ''X'') then cs else s
     | _ \<Rightarrow> s)"

text \<open>
  \<open>sscanf(str, "%<width>hx", value)\<close>: white space is skipped, at most \<open>width\<close> characters are
  taken, an optional sign and \<open>0x\<close> are followed by at least one hexadecimal digit.  \<open>None\<close> is a
  return value other than 1.  The result is cut down to the width of the target, as glibc does.
\<close>

definition scan_hex :: "nat \<Rightarrow> string \<Rightarrow> ('a :: len) word option" where
  "scan_hex width str =
     (let field = take width (dropWhile is_space str);
          negative = (case field of c # _ \<Rightarrow> c = CHR ''-'' | [] \<Rightarrow> False);
          unsigned = (case field of c # cs \<Rightarrow>
            if c = CHR ''-'' \<or> c = CHR ''+'' then cs else field | [] \<Rightarrow> []);
          digits = strip_0x unsigned
      in case digits of [] \<Rightarrow> None
         | c # _ \<Rightarrow> if hex_value c = None then None
             else Some (if negative then - of_nat (hex_number 0 digits)
                        else of_nat (hex_number 0 digits)))"

text \<open>
  \<open>sscanf\<close> with several directives threads the rest of the input: \<open>scan_lit\<close> is ordinary characters
  of the format, \<open>scan_hex_item\<close> a conversion and what is left after it.
\<close>

definition scan_lit :: "string \<Rightarrow> string \<Rightarrow> string option" where
  "scan_lit lit str = (if take (length lit) str = lit then Some (drop (length lit) str) else None)"

definition scan_hex_length :: "nat \<Rightarrow> string \<Rightarrow> nat" where
  "scan_hex_length width str =
     (let spaces = length (takeWhile is_space str);
          field = take width (drop spaces str);
          sign = (case field of c # _ \<Rightarrow> if c = CHR ''-'' \<or> c = CHR ''+'' then 1 else 0 | [] \<Rightarrow> 0);
          unsigned = drop sign field;
          digits = strip_0x unsigned
      in spaces + sign + (length unsigned - length digits) +
         length (takeWhile (\<lambda>c. hex_value c \<noteq> None) digits))"

definition scan_hex_item :: "nat \<Rightarrow> string \<Rightarrow> (('a :: len) word \<times> string) option" where
  "scan_hex_item width str = (case scan_hex width str of None \<Rightarrow> None
     | Some v \<Rightarrow> Some (v, drop (scan_hex_length width str) str))"

section \<open>Round trip\<close>

definition hex_string :: "string \<Rightarrow> bool" where
  "hex_string s \<longleftrightarrow> (\<forall>c \<in> set s. hex_value c \<noteq> None)"

lemma hex_digit_cases:
  "d < 16 \<Longrightarrow> d = 0 \<or> d = 1 \<or> d = 2 \<or> d = 3 \<or> d = 4 \<or> d = 5 \<or> d = 6 \<or> d = 7 \<or> d = 8 \<or>
     d = 9 \<or> d = 10 \<or> d = 11 \<or> d = 12 \<or> d = 13 \<or> d = 14 \<or> d = (15 :: nat)"
  by presburger

lemma hex_value_digit_char [simp]: "d < 16 \<Longrightarrow> hex_value (digit_char d) = Some d"
  by (auto dest!: hex_digit_cases simp: hex_value_def digit_char_def Let_def)

lemma hex_number_append:
  "hex_string s \<Longrightarrow> hex_number acc (s @ t) = hex_number (hex_number acc s) t"
  by (induction s arbitrary: acc) (auto simp: hex_string_def)

lemma hex_digits_of:
  "hex_string (digits_of 16 n) \<and> (\<forall>acc. hex_number acc (digits_of 16 n) =
     acc * 16 ^ length (digits_of 16 n) + n)"
proof (induction n rule: less_induct)
  case (less n)
  show ?case
  proof (cases "n < 16")
    case True
    then show ?thesis by (simp add: digits_of.simps [of 16 n] hex_string_def)
  next
    case False
    then have "n div 16 < n" by simp
    note IH = less [OF this]
    have "hex_string (digits_of 16 (n div 16) @ [digit_char (n mod 16)])"
      using IH by (simp add: hex_string_def)
    moreover have "hex_number acc (digits_of 16 (n div 16) @ [digit_char (n mod 16)]) =
        acc * 16 ^ Suc (length (digits_of 16 (n div 16))) + n" for acc
      using IH by (simp add: hex_number_append algebra_simps)
    ultimately show ?thesis
      using False by (simp add: digits_of.simps [of 16 n])
  qed
qed

lemma length_digits_of: "0 < k \<Longrightarrow> n < 16 ^ k \<Longrightarrow> length (digits_of 16 n) \<le> k"
proof (induction k arbitrary: n)
  case 0
  then show ?case by simp
next
  case (Suc k)
  show ?case
  proof (cases "n < 16")
    case True
    then show ?thesis by (simp add: digits_of.simps [of 16 n])
  next
    case False
    with Suc.prems have k: "0 < k" by (cases k) auto
    have "n div 16 < 16 ^ k"
      using Suc.prems(2) by (simp add: less_mult_imp_div_less mult.commute)
    with Suc.IH k have "length (digits_of 16 (n div 16)) \<le> k" by blast
    with False show ?thesis by (simp add: digits_of.simps [of 16 n])
  qed
qed

lemma hex_number_zeros: "hex_number 0 (replicate k (CHR ''0'') @ s) = hex_number 0 s"
  by (induction k) (simp_all add: hex_value_def)

lemma length_fmt_x: "0 < k \<Longrightarrow> n < 16 ^ k \<Longrightarrow> length (fmt_x k n) = k"
  using length_digits_of [of k n] by (simp add: fmt_x_def Let_def)

lemma hex_fmt_x: "hex_string (fmt_x k n)" "hex_number 0 (fmt_x k n) = n"
  using hex_digits_of [of n]
  by (auto simp: fmt_x_def Let_def hex_number_zeros hex_string_def hex_value_def
      simp del: split_paired_All split: if_splits)

lemma hex_not_special:
  assumes "hex_value c \<noteq> None"
  shows "\<not> is_space c" "c \<noteq> CHR ''-''" "c \<noteq> CHR ''+''" "c \<noteq> CHR ''x''" "c \<noteq> CHR ''X''"
  using assms by (auto simp: is_space_def hex_value_def)

lemma hex_number_stop:
  "hex_string s \<Longrightarrow> hex_value c = None \<Longrightarrow> hex_number acc (s @ c # t) = hex_number acc s"
  by (induction s arbitrary: acc) (auto simp: hex_string_def split: option.splits)

lemma strip_0x_hex: "hex_string s \<Longrightarrow> strip_0x s = s"
  by (auto simp: strip_0x_def hex_string_def hex_value_def split: list.splits)

lemma scan_hex_fmt_x:
  assumes "0 < k" and "n < 16 ^ k"
  shows "scan_hex k (fmt_x k n @ rest) = Some (of_nat n :: 'a :: len word)"
proof -
  obtain c cs where s: "fmt_x k n = c # cs"
    using length_fmt_x [OF assms] assms(1) by (cases "fmt_x k n") auto
  have hex: "hex_string (c # cs)" "hex_number 0 (c # cs) = n" "length (c # cs) = k"
    using hex_fmt_x [of k n] length_fmt_x [OF assms] by (simp_all only: s)
  then have c: "hex_value c \<noteq> None" by (simp add: hex_string_def)
  have "take k ((c # cs) @ rest) = c # cs"
    using hex(3) by (simp only: take_append) simp
  then have "take k (dropWhile is_space (fmt_x k n @ rest)) = c # cs"
    using hex_not_special(1) [OF c] by (simp add: s)
  then show ?thesis
    using c hex hex_not_special [OF c]
    by (simp add: scan_hex_def Let_def strip_0x_hex)
qed

text \<open>
  Fields of hexadecimal digits in either case: \<open>capitalize\<close> is the conversion to upper case that the
  sources apply to the IDs Windows gives them.
\<close>

definition capitalize :: "char \<Rightarrow> char" where
  "capitalize c = (let n = of_char c :: nat in if 97 \<le> n \<and> n \<le> 122 then char_of (n - 32) else c)"

lemma hex_value_capitalize [simp]: "hex_value c \<noteq> None \<Longrightarrow> hex_value (capitalize c) = hex_value c"
  by (simp add: hex_value_def capitalize_def Let_def split: if_splits) linarith

lemma hex_string_capitalize:
  "hex_string s \<Longrightarrow> hex_string (map capitalize s) \<and> hex_number acc (map capitalize s) = hex_number acc s"
  by (induction s arbitrary: acc) (auto simp: hex_string_def)

lemma scan_lit_append [simp]: "scan_lit s (s @ rest) = Some rest"
  by (simp add: scan_lit_def)

lemma scan_hex_item_hex:
  assumes "hex_string s" "s \<noteq> []" 
  shows "scan_hex_item (length s) (s @ rest) = Some (of_nat (hex_number 0 s) :: 'a :: len word, rest)"
proof -
  obtain c cs where s: "s = c # cs" using assms(2) by (cases s) auto
  have c: "hex_value c \<noteq> None" using assms(1) s by (simp add: hex_string_def)
  note n = hex_not_special [OF c]
  have f: "take (length s) (s @ rest) = s" by simp
  have "scan_hex (length s) (s @ rest) = Some (of_nat (hex_number 0 s) :: 'a word)"
    using n c assms(1) strip_0x_hex [OF assms(1)] by (simp add: scan_hex_def Let_def s)
  moreover have "takeWhile (\<lambda>c. hex_value c \<noteq> None) s = s"
    using assms(1) by (simp add: hex_string_def)
  then have "scan_hex_length (length s) (s @ rest) = length s"
    using n assms(1) strip_0x_hex [OF assms(1)] by (simp add: scan_hex_length_def Let_def s)
  ultimately show ?thesis by (simp add: scan_hex_item_def)
qed

end
