(* ===== verification/Basics.thy ===== *)
theory Basics
  imports Errors CFormat
begin

text \<open>
  \<open>src/src/string.c\<close> and \<open>src/src/pipe_id.c\<close>: copies of strings, and the checks of endpoint
  addresses that guard every access to the per-endpoint arrays of a handle.
\<close>

unbundle bit_operations_syntax

section \<open>string.c\<close>

definition string_copy :: "'e environment_scheme \<Rightarrow> cstr \<Rightarrow> 'w world_scheme
    \<Rightarrow> ((err \<times> cstr) \<times> 'w world_scheme) option" where
  "string_copy E input_string w = do {
     s \<leftarrow> deref input_string w;
     (new_string, w) \<leftarrow> malloc E w;
     if new_string = NULL then Some ((error_no_memory, NULL), w)
     else do {
       output_string \<leftarrow> store new_string s w;
       Some ((NULL, output_string), w)
     }
   }"

definition libusbp_string_free :: "cstr \<Rightarrow> 'w world_scheme \<Rightarrow> 'w world_scheme option" where
  "libusbp_string_free string w = free string w"

text \<open>
  A call that writes its result through \<open>&object->field\<close>: \<open>set_field mk put object\<close> runs \<open>mk\<close>
  and stores what it gives with \<open>put\<close>.
\<close>

definition set_field :: "('w world_scheme \<Rightarrow> ((err \<times> 'v) \<times> 'w world_scheme) option)
    \<Rightarrow> ('v \<Rightarrow> 'a \<Rightarrow> 'a) \<Rightarrow> 'a ptr \<Rightarrow> 'w world_scheme \<Rightarrow> ((err \<times> 'a ptr) \<times> 'w world_scheme) option" where
  "set_field mk put object w = do {
     ((error, v), w) \<leftarrow> mk w;
     x \<leftarrow> deref object w;
     object \<leftarrow> store object (put v x) w;
     Some ((error, object), w)
   }"

text \<open>A fresh copy of \<open>s\<close>, or nothing and an error.\<close>

definition copied :: "'e environment_scheme \<Rightarrow> string \<Rightarrow> err \<Rightarrow> cstr \<Rightarrow> bool" where
  "copied E s e p \<longleftrightarrow>
     e = NULL \<and> (\<exists>n. p = Heap n s) \<or> e = error_no_memory \<and> p = NULL \<and> \<not> memory_ok E"

lemma string_copy_spec:
  assumes "deref input w = Some s"
  shows "runs (string_copy E input w) (\<lambda>(e, p) w'. later w w' \<and> live w' = live w + blk p \<and>
     copied E s e p)"
  using assms by (auto simp: string_copy_def copied_def later_def intro!: wp)

lemmas string_copy_wp = string_copy_spec [THEN runs_mono]

lemma string_copy_gives:
  "deref p w \<noteq> None \<Longrightarrow>
   runs (string_copy E p w) (gives blk NULL (\<lambda>r. \<exists>n. r = Heap n (the (deref p w)))
     (\<lambda>e. e = error_no_memory \<and> \<not> memory_ok E) w)"
  by (cases "deref p w") (auto simp: copied_def dest!: string_copy_spec [of p w _ E] elim!: runs_mono)

lemmas string_copy_gives_wp [wp] = gives_wp [OF string_copy_gives]

text \<open>The text of a string, if there is one.\<close>

definition str_view :: "cstr \<Rightarrow> string option" where
  "str_view p = (case p of NULL \<Rightarrow> None | Heap n s \<Rightarrow> Some s | Static s \<Rightarrow> Some s)"

lemma str_view_simps [simp]: "str_view NULL = None" "str_view (Heap n s) = Some s"
  by (simp_all add: str_view_def)

interpretation string: releases libusbp_string_free blk "\<lambda>p. \<not> is_static p"
  by unfold_locales (simp add: libusbp_string_free_def free_ok)

section \<open>pipe_id.c\<close>

definition MAX_ENDPOINT_NUMBER :: "8 word" where
  "MAX_ENDPOINT_NUMBER = 15"

definition error_invalid_pipe_id ::
    "'e environment_scheme \<Rightarrow> 8 word \<Rightarrow> 'w world_scheme \<Rightarrow> (err \<times> 'w world_scheme) option" where
  "error_invalid_pipe_id E pipe_id w =
     error_create E (''Invalid pipe ID 0x'' @ fmt_x 2 (unat pipe_id) @ ''.'') w"

definition check_pipe_id ::
    "'e environment_scheme \<Rightarrow> 8 word \<Rightarrow> 'w world_scheme \<Rightarrow> (err \<times> 'w world_scheme) option" where
  "check_pipe_id E pipe_id w =
     (if pipe_id AND NOT 0x80 > MAX_ENDPOINT_NUMBER \<or> pipe_id = 0x80
      then error_invalid_pipe_id E pipe_id w else Some (NULL, w))"

definition check_pipe_id_in ::
    "'e environment_scheme \<Rightarrow> 8 word \<Rightarrow> 'w world_scheme \<Rightarrow> (err \<times> 'w world_scheme) option" where
  "check_pipe_id_in E pipe_id w =
     (if pipe_id AND 0x80 = 0 then error_invalid_pipe_id E pipe_id w
      else check_pipe_id E pipe_id w)"

definition check_pipe_id_out ::
    "'e environment_scheme \<Rightarrow> 8 word \<Rightarrow> 'w world_scheme \<Rightarrow> (err \<times> 'w world_scheme) option" where
  "check_pipe_id_out E pipe_id w =
     (if pipe_id AND 0x80 \<noteq> 0 then error_invalid_pipe_id E pipe_id w
      else check_pipe_id E pipe_id w)"

text \<open>The endpoint addresses USB has: 0 to 15 for OUT endpoints, 0x81 to 0x8F for IN endpoints.\<close>

definition pipe_out :: "8 word \<Rightarrow> bool" where
  "pipe_out p \<longleftrightarrow> unat p \<le> 15"

definition pipe_in :: "8 word \<Rightarrow> bool" where
  "pipe_in p \<longleftrightarrow> 129 \<le> unat p \<and> unat p \<le> 143"

lemma unat_and_not_80: "unat (p AND NOT 0x80 :: 8 word) = unat p mod 128"
proof -
  have "(NOT 0x80 :: 8 word) = mask 7" by (simp add: mask_eq_exp_minus_1)
  then have "p AND NOT 0x80 = take_bit 7 p" by (simp add: take_bit_eq_mask)
  then show ?thesis by (simp only: unsigned_take_bit_eq) (simp add: take_bit_eq_mod)
qed

lemma and_80_iff: "(p AND 0x80 :: 8 word) = 0 \<longleftrightarrow> unat p < 128"
proof -
  have "unat p < 256" using unsigned_less [of p] by simp
  then have "unat p div 128 = (if 128 \<le> unat p then 1 else 0)"
    by (auto intro: div_nat_eqI)
  moreover have "(p AND 2 ^ 7 = 0) \<longleftrightarrow> \<not> bit p 7" by (rule and_exp_eq_0_iff_not_bit)
  moreover have "bit (unat p) 7 = bit p 7" by (simp add: bit_unsigned_iff)
  moreover have "bit (unat p) 7 = odd (unat p div 128)" by (simp add: bit_iff_odd)
  ultimately show ?thesis by (simp split: if_splits)
qed

lemma pipe_in_iff: "pipe_in p \<longleftrightarrow> \<not> (p AND NOT 0x80 > MAX_ENDPOINT_NUMBER \<or> p = 0x80) \<and> p AND 0x80 \<noteq> 0"
  and pipe_out_iff: "pipe_out p \<longleftrightarrow> \<not> (p AND NOT 0x80 > MAX_ENDPOINT_NUMBER \<or> p = 0x80) \<and> p AND 0x80 = 0"
proof -
  have "unat p < 256" using unsigned_less [of p] by simp
  then have "unat p mod 128 = (if unat p < 128 then unat p else unat p - 128)"
    by (simp add: le_mod_geq)
  moreover have "p = 0x80 \<longleftrightarrow> unat p = 128" by (simp add: word_unat_eq_iff)
  moreover have "p AND NOT 0x80 > MAX_ENDPOINT_NUMBER \<longleftrightarrow> 15 < unat p mod 128"
    using unat_and_not_80 [of p] by (simp add: word_less_nat_alt MAX_ENDPOINT_NUMBER_def)
  ultimately show
    "pipe_in p \<longleftrightarrow> \<not> (p AND NOT 0x80 > MAX_ENDPOINT_NUMBER \<or> p = 0x80) \<and> p AND 0x80 \<noteq> 0"
    "pipe_out p \<longleftrightarrow> \<not> (p AND NOT 0x80 > MAX_ENDPOINT_NUMBER \<or> p = 0x80) \<and> p AND 0x80 = 0"
    unfolding pipe_in_def pipe_out_def and_80_iff by (auto split: if_splits)
qed

lemma endpoint_number_less: "unat (p AND MAX_ENDPOINT_NUMBER) < 16"
proof -
  have "MAX_ENDPOINT_NUMBER = (mask 4 :: 8 word)"
    by (simp add: MAX_ENDPOINT_NUMBER_def mask_eq_exp_minus_1)
  then have "p AND MAX_ENDPOINT_NUMBER = take_bit 4 p" by (simp add: take_bit_eq_mask)
  then show ?thesis by (simp only: unsigned_take_bit_eq) (simp add: take_bit_eq_mod)
qed

text \<open>What a check returns: nothing for a good address, else an error that names the address.\<close>

definition pipe_check :: "'e environment_scheme \<Rightarrow> bool \<Rightarrow> 8 word \<Rightarrow> err \<Rightarrow> bool" where
  "pipe_check E ok p e \<longleftrightarrow>
     (if ok then e = NULL
      else says E (''Invalid pipe ID 0x'' @ fmt_x 2 (unat p) @ ''.'') [] e)"

lemma check_pipe_id_spec:
  "runs (check_pipe_id E p w) (\<lambda>e w'. later w w' \<and> live w' = live w + err_res e \<and>
     pipe_check E (pipe_in p \<or> pipe_out p) p e)"
  by (auto simp: check_pipe_id_def error_invalid_pipe_id_def pipe_check_def pipe_in_iff
      pipe_out_iff later_def intro!: wp)

lemma check_pipe_id_in_spec:
  "runs (check_pipe_id_in E p w) (\<lambda>e w'. later w w' \<and> live w' = live w + err_res e \<and>
     pipe_check E (pipe_in p) p e)"
  by (auto simp: check_pipe_id_in_def check_pipe_id_def error_invalid_pipe_id_def pipe_check_def
      pipe_in_iff later_def intro!: wp)

lemma check_pipe_id_out_spec:
  "runs (check_pipe_id_out E p w) (\<lambda>e w'. later w w' \<and> live w' = live w + err_res e \<and>
     pipe_check E (pipe_out p) p e)"
  by (auto simp: check_pipe_id_out_def check_pipe_id_def error_invalid_pipe_id_def pipe_check_def
      pipe_out_iff later_def intro!: wp)

lemmas check_pipe_id_wp = check_pipe_id_spec [THEN runs_mono]
lemmas check_pipe_id_in_wp = check_pipe_id_in_spec [THEN runs_mono]
lemmas check_pipe_id_out_wp = check_pipe_id_out_spec [THEN runs_mono]

section \<open>Properties\<close>

text \<open>
  The three checks of an endpoint address accept exactly the addresses USB defines: an IN
  check accepts 0x81 to 0x8F, an OUT check accepts 0x00 to 0x0F and the general check accepts
  both; every other byte is refused with an error that names it, nothing leaks, and the endpoint
  number of any byte is a valid index of a 16-element array.
\<close>

theorem pipe_id_checks:
  "runs (check_pipe_id_in E p w) (\<lambda>e w'. live w' = live w + err_res e \<and>
     (e = NULL \<longleftrightarrow> 0x81 \<le> unat p \<and> unat p \<le> 0x8F)) \<and>
   runs (check_pipe_id_out E p w) (\<lambda>e w'. live w' = live w + err_res e \<and>
     (e = NULL \<longleftrightarrow> unat p \<le> 0x0F)) \<and>
   runs (check_pipe_id E p w) (\<lambda>e w'. live w' = live w + err_res e \<and>
     (e = NULL \<longleftrightarrow> 0x81 \<le> unat p \<and> unat p \<le> 0x8F \<or> unat p \<le> 0x0F)) \<and>
   unat (p AND MAX_ENDPOINT_NUMBER) < 16"
  by (intro conjI endpoint_number_less)
    (auto simp: pipe_check_def pipe_in_def pipe_out_def dest: says_wf split: if_splits
      intro!: check_pipe_id_in_wp check_pipe_id_out_wp check_pipe_id_wp)

end
