(* ===== verification/LinuxErrors.thy ===== *)
theory LinuxErrors
  imports Basics
begin

text \<open>
  \<open>src/src/linux/error_linux.c\<close>: the conversion of \<open>errno\<close> values, of the status of a completed
  USB request block and of libudev return codes into error objects.  The text of \<open>strerror_r\<close> is
  a parameter (it depends on the C library and the locale).
\<close>

section \<open>errno\<close>

text \<open>The values of \<open>errno.h\<close> on Linux.\<close>

abbreviation (input) "ENOENT \<equiv> (2 :: int)"
abbreviation (input) "EAGAIN \<equiv> (11 :: int)"
abbreviation (input) "ENOMEM \<equiv> (12 :: int)"
abbreviation (input) "EACCES \<equiv> (13 :: int)"
abbreviation (input) "ENODEV \<equiv> (19 :: int)"
abbreviation (input) "EINVAL \<equiv> (22 :: int)"
abbreviation (input) "EPIPE \<equiv> (32 :: int)"
abbreviation (input) "ETIME \<equiv> (62 :: int)"
abbreviation (input) "EPROTO \<equiv> (71 :: int)"
abbreviation (input) "EOVERFLOW \<equiv> (75 :: int)"
abbreviation (input) "EILSEQ \<equiv> (84 :: int)"
abbreviation (input) "ESHUTDOWN \<equiv> (108 :: int)"
abbreviation (input) "ETIMEDOUT \<equiv> (110 :: int)"

record posix = environment +
  strerror_r :: "int \<Rightarrow> string option"

section \<open>The operations of error_linux.c\<close>

text \<open>
  The switch of \<open>error_create_errno\<close>: the error after the case for \<open>error_code\<close>, and
  \<open>skip_standard_message\<close>.
\<close>

definition errno_case :: "'e posix_scheme \<Rightarrow> err \<Rightarrow> int \<Rightarrow> 'w world_scheme
    \<Rightarrow> ((err \<times> bool) \<times> 'w world_scheme) option" where
  "errno_case E error error_code w =
     (if error_code = EACCES then do {
        (error, w) \<leftarrow> error_add_code E error (code_of LIBUSBP_ERROR_ACCESS_DENIED) w;
        Some ((error, False), w)
      }
      else if error_code = ENOMEM then do {
        (error, w) \<leftarrow> error_add_code E error (code_of LIBUSBP_ERROR_MEMORY) w;
        Some ((error, False), w)
      }
      else if error_code = EPIPE then do {
        (error, w) \<leftarrow> error_add E error ''The request was invalid or there was an I/O problem.'' w;
        (error, w) \<leftarrow> error_add_code E error (code_of LIBUSBP_ERROR_STALL) w;
        (error, w) \<leftarrow> error_add_code E error (code_of LIBUSBP_ERROR_DEVICE_DISCONNECTED) w;
        Some ((error, True), w)
      }
      else if error_code = ENODEV \<or> error_code = ESHUTDOWN then do {
        (error, w) \<leftarrow> error_add E error ''The device was removed.'' w;
        (error, w) \<leftarrow> error_add_code E error (code_of LIBUSBP_ERROR_DEVICE_DISCONNECTED) w;
        Some ((error, True), w)
      }
      else if error_code = EPROTO \<or> error_code = ETIME then do {
        (error, w) \<leftarrow> error_add_code E error (code_of LIBUSBP_ERROR_DEVICE_DISCONNECTED) w;
        Some ((error, False), w)
      }
      else if error_code = ETIMEDOUT then do {
        (error, w) \<leftarrow> error_add E error ''The operation timed out.'' w;
        (error, w) \<leftarrow> error_add_code E error (code_of LIBUSBP_ERROR_TIMEOUT) w;
        Some ((error, True), w)
      }
      else if error_code = EOVERFLOW then do {
        (error, w) \<leftarrow> error_add E error ''The transfer overflowed.'' w;
        Some ((error, True), w)
      }
      else if error_code = EILSEQ then do {
        (error, w) \<leftarrow> error_add E error
          ''Illegal byte sequence: the device may have been disconnected or the request may have been cancelled.'' w;
        (error, w) \<leftarrow> error_add_code E error (code_of LIBUSBP_ERROR_DEVICE_DISCONNECTED) w;
        (error, w) \<leftarrow> error_add_code E error (code_of LIBUSBP_ERROR_CANCELLED) w;
        Some ((error, True), w)
      }
      else Some ((error, False), w))"

definition error_create_errno :: "'e posix_scheme \<Rightarrow> int \<Rightarrow> string \<Rightarrow> 'w world_scheme
    \<Rightarrow> (err \<times> 'w world_scheme) option" where
  "error_create_errno E errno format w = do {
     let error_code = errno;
     (error, w) \<leftarrow> error_create E (''Error code '' @ fmt_d error_code @ ''.'') w;
     ((error, skip_standard_message), w) \<leftarrow> errno_case E error error_code w;
     (error, w) \<leftarrow> (if \<not> skip_standard_message
       then (case strerror_r E error_code of
               Some buffer \<Rightarrow> error_add E error (buffer @ ''.'') w
             | None \<Rightarrow> Some (error, w))
       else Some (error, w));
     error_add_v E error (Some format) w
   }"

definition error_from_urb_status ::
    "'e posix_scheme \<Rightarrow> int \<Rightarrow> 'w world_scheme \<Rightarrow> (err \<times> 'w world_scheme) option" where
  "error_from_urb_status E status w = do {
     let error_code = - status;
     if error_code = 0 then Some (NULL, w)
     else if error_code = ENOENT then do {
       (error, w) \<leftarrow> error_create E (''Error code '' @ fmt_d error_code @ ''.'') w;
       (error, w) \<leftarrow> error_add E error ''The operation was cancelled.'' w;
       (error, w) \<leftarrow> error_add_code E error (code_of LIBUSBP_ERROR_CANCELLED) w;
       Some (error, w)
     }
     else error_create_errno E error_code '''' w
   }"

definition error_create_udev :: "'e environment_scheme \<Rightarrow> int \<Rightarrow> string \<Rightarrow> 'w world_scheme
    \<Rightarrow> (err \<times> 'w world_scheme) option" where
  "error_create_udev E error_code format w = do {
     (error, w) \<leftarrow> error_create E (''Error from libudev: '' @ fmt_d error_code @ ''.'') w;
     error_add_v E error (Some format) w
   }"

section \<open>What the errors say\<close>

text \<open>The table the conversion implements: codes, and the sentence that stands for the standard one.\<close>

definition errno_codes :: "int \<Rightarrow> libusbp_error_code list" where
  "errno_codes n =
     (if n = EACCES then [LIBUSBP_ERROR_ACCESS_DENIED]
      else if n = ENOMEM then [LIBUSBP_ERROR_MEMORY]
      else if n = EPIPE then [LIBUSBP_ERROR_STALL, LIBUSBP_ERROR_DEVICE_DISCONNECTED]
      else if n \<in> {ENODEV, ESHUTDOWN, EPROTO, ETIME} then [LIBUSBP_ERROR_DEVICE_DISCONNECTED]
      else if n = ETIMEDOUT then [LIBUSBP_ERROR_TIMEOUT]
      else if n = EILSEQ then [LIBUSBP_ERROR_DEVICE_DISCONNECTED, LIBUSBP_ERROR_CANCELLED]
      else [])"

text \<open>The sentence that takes the place of the one from \<open>strerror_r\<close>.\<close>

definition errno_sentence :: "int \<Rightarrow> string option" where
  "errno_sentence n =
     (if n = EPIPE then Some ''The request was invalid or there was an I/O problem.''
      else if n \<in> {ENODEV, ESHUTDOWN} then Some ''The device was removed.''
      else if n = ETIMEDOUT then Some ''The operation timed out.''
      else if n = EOVERFLOW then Some ''The transfer overflowed.''
      else if n = EILSEQ then Some ''Illegal byte sequence: the device may have been disconnected or the request may have been cancelled.''
      else None)"

definition errno_text :: "'e posix_scheme \<Rightarrow> int \<Rightarrow> string" where
  "errno_text E n =
     (let first = ''Error code '' @ fmt_d n @ ''.'' in
      case errno_sentence n of Some s \<Rightarrow> join_message s first
      | None \<Rightarrow> (case strerror_r E n of Some s \<Rightarrow> join_message (s @ ''.'') first | None \<Rightarrow> first))"

lemma join_message_empty [simp]: "join_message [] s = s"
  by (simp add: join_message_def)

lemma errno_case_spec:
  assumes e: "says E t [] e" "err_res e \<subseteq># live w"
  shows "runs (errno_case E e n w) (\<lambda>(e', skip) w'. later w w' \<and>
     live w' = live w - err_res e + err_res e' \<and> skip = (errno_sentence n \<noteq> None) \<and>
     says E (case errno_sentence n of None \<Rightarrow> t | Some s \<Rightarrow> join_message s t)
       (map code_of (errno_codes n)) e')"
proof -
  obtain L where "live w = err_res e + L"
    using e(2) by (auto simp: mset_subset_eq_exists_conv)
  then show ?thesis
    using e(1)
    by (auto simp: errno_case_def errno_sentence_def errno_codes_def says_def later_def intro!: wp)
qed

lemmas errno_case_wp = errno_case_spec [THEN runs_mono]

lemma error_create_errno_wp [wp]:
  assumes "\<And>e' w'. later w w' \<Longrightarrow> live w' = live w + err_res e' \<Longrightarrow>
    says E (join_message fmt (errno_text E n)) (map code_of (errno_codes n)) e' \<Longrightarrow> Q e' w'"
  shows "runs (error_create_errno E n fmt w) Q"
  using assms
  by (auto simp: error_create_errno_def errno_text_def Let_def later_def says_def
      split: option.splits intro!: errno_case_wp wp)

lemma error_create_udev_wp [wp]:
  assumes "\<And>e' w'. later w w' \<Longrightarrow> live w' = live w + err_res e' \<Longrightarrow>
    says E (join_message fmt (''Error from libudev: '' @ fmt_d n @ ''.'')) [] e' \<Longrightarrow> Q e' w'"
  shows "runs (error_create_udev E n fmt w) Q"
  using assms by (auto simp: error_create_udev_def later_def says_def intro!: wp)

text \<open>The codes of a completed request: cancelled requests have the status \<open>- ENOENT\<close>.\<close>

definition status_codes :: "int \<Rightarrow> libusbp_error_code list" where
  "status_codes s = (if s = - ENOENT then [LIBUSBP_ERROR_CANCELLED] else errno_codes (- s))"

definition status_text :: "'e posix_scheme \<Rightarrow> int \<Rightarrow> string" where
  "status_text E s =
     (if s = - ENOENT
      then join_message ''The operation was cancelled.'' (''Error code '' @ fmt_d 2 @ ''.'')
      else errno_text E (- s))"

lemma error_from_urb_status_wp [wp]:
  assumes "status = 0 \<Longrightarrow> Q NULL w"
    and "\<And>e' w'. status \<noteq> 0 \<Longrightarrow> later w w' \<Longrightarrow> live w' = live w + err_res e' \<Longrightarrow>
      says E (status_text E status) (map code_of (status_codes status)) e' \<Longrightarrow> Q e' w'"
  shows "runs (error_from_urb_status E status w) Q"
proof (cases "- status = ENOENT")
  case True
  then have "status = - ENOENT" by simp
  then show ?thesis
    using assms(2)
    by (auto simp: error_from_urb_status_def status_codes_def status_text_def Let_def later_def
        says_def intro!: wp)
next
  case False
  then have "status \<noteq> - ENOENT" by simp
  with False show ?thesis
    using assms
    by (auto simp: error_from_urb_status_def status_codes_def status_text_def Let_def intro!: wp)
qed

section \<open>Properties\<close>

definition plenty_posix :: posix where
  "plenty_posix = \<lparr>malloc_ok = (\<lambda>n. True), strerror_r = (\<lambda>n. Some ''Unknown error'')\<rparr>"

lemma memory_ok_plenty_posix [simp]: "memory_ok plenty_posix"
  by (simp add: memory_ok_def plenty_posix_def)

text \<open>
  The conversion of an \<open>errno\<close> value always gives an error (never NULL, never a fault, nothing
  leaked).  With memory available it says the caller's context, then the sentence for the value,
  then the number; and it has the code for a disconnected device exactly for EPIPE, ENODEV,
  ESHUTDOWN, EPROTO, ETIME and EILSEQ, and the codes for stall, timeout, cancellation, access and
  memory exactly for EPIPE, ETIMEDOUT, EILSEQ, EACCES and ENOMEM.
\<close>

theorem error_create_errno_correct:
  assumes "memory_ok E"
  shows "runs (error_create_errno E n fmt w) (\<lambda>e w'. e \<noteq> NULL \<and> live w' = live w + err_res e \<and>
     err_text e = join_message fmt (errno_text E n) \<and>
     (\<forall>c. libusbp_error_has_code e (code_of c) w' = Some (case c of
          LIBUSBP_ERROR_MEMORY \<Rightarrow> n = ENOMEM
        | LIBUSBP_ERROR_NOT_READY \<Rightarrow> False
        | LIBUSBP_ERROR_ACCESS_DENIED \<Rightarrow> n = EACCES
        | LIBUSBP_ERROR_NO_SERIAL_NUMBER \<Rightarrow> False
        | LIBUSBP_ERROR_TIMEOUT \<Rightarrow> n = ETIMEDOUT
        | LIBUSBP_ERROR_DEVICE_DISCONNECTED \<Rightarrow>
            n \<in> {EPIPE, ENODEV, ESHUTDOWN, EPROTO, ETIME, EILSEQ}
        | LIBUSBP_ERROR_STALL \<Rightarrow> n = EPIPE
        | LIBUSBP_ERROR_CANCELLED \<Rightarrow> n = EILSEQ)))"
proof (rule error_create_errno_wp, intro conjI allI)
  fix e w' c
  assume 1: "live w' = live w + err_res e"
    and "says E (join_message fmt (errno_text E n)) (map code_of (errno_codes n)) e"
  with assms have e: "wf_err e" "e \<noteq> NULL" "err_text e = join_message fmt (errno_text E n)"
    "err_codes e = map code_of (errno_codes n)"
    by (simp_all add: says_def)
  then show "e \<noteq> NULL" "err_text e = join_message fmt (errno_text E n)" by simp_all
  show "live w' = live w + err_res e" by (rule 1)
  have "libusbp_error_has_code e (code_of c) w' = Some (c \<in> set (errno_codes n))"
    using e(1) 1 by (auto simp: libusbp_error_has_code_ok e(4) image_iff)
  then show "libusbp_error_has_code e (code_of c) w' = Some (case c of
          LIBUSBP_ERROR_MEMORY \<Rightarrow> n = ENOMEM
        | LIBUSBP_ERROR_NOT_READY \<Rightarrow> False
        | LIBUSBP_ERROR_ACCESS_DENIED \<Rightarrow> n = EACCES
        | LIBUSBP_ERROR_NO_SERIAL_NUMBER \<Rightarrow> False
        | LIBUSBP_ERROR_TIMEOUT \<Rightarrow> n = ETIMEDOUT
        | LIBUSBP_ERROR_DEVICE_DISCONNECTED \<Rightarrow>
            n \<in> {EPIPE, ENODEV, ESHUTDOWN, EPROTO, ETIME, EILSEQ}
        | LIBUSBP_ERROR_STALL \<Rightarrow> n = EPIPE
        | LIBUSBP_ERROR_CANCELLED \<Rightarrow> n = EILSEQ)"
    by (cases c) (auto simp: errno_codes_def)
qed

theorem error_create_errno_correct_witness:
  "runs (error_create_errno plenty_posix EPIPE ''Failed.'' start) (\<lambda>e w'.
     err_text e = join_message ''Failed.'' (errno_text plenty_posix EPIPE) \<and>
     libusbp_error_has_code e 7 w' = Some True)"
  by (rule runs_mono [OF error_create_errno_correct])
    (auto dest: spec [where x = LIBUSBP_ERROR_STALL])

text \<open>
  The status of a completed request block is reported as no error exactly when it is 0;
  otherwise the error has the cancellation code exactly when the kernel reports \<open>-ENOENT\<close>
  (unlinked by the host) or \<open>-EILSEQ\<close>.  Nothing leaks and nothing faults.
\<close>

theorem error_from_urb_status_correct:
  assumes "memory_ok E"
  shows "runs (error_from_urb_status E status w) (\<lambda>e w'. live w' = live w + err_res e \<and>
     (e = NULL \<longleftrightarrow> status = 0) \<and>
     libusbp_error_has_code e (code_of LIBUSBP_ERROR_CANCELLED) w' =
       Some (status \<in> {- ENOENT, - EILSEQ}))"
proof (rule error_from_urb_status_wp)
  fix e w'
  assume 1: "status \<noteq> 0" "live w' = live w + err_res e"
    and "says E (status_text E status) (map code_of (status_codes status)) e"
  with assms have e: "wf_err e" "e \<noteq> NULL" "err_codes e = map code_of (status_codes status)"
    by (simp_all add: says_def)
  then have "libusbp_error_has_code e (code_of LIBUSBP_ERROR_CANCELLED) w' =
      Some (LIBUSBP_ERROR_CANCELLED \<in> set (status_codes status))"
    using 1(2) by (auto simp: libusbp_error_has_code_ok image_iff simp del: code_of.simps)
  also have "LIBUSBP_ERROR_CANCELLED \<in> set (status_codes status) \<longleftrightarrow> status \<in> {- ENOENT, - EILSEQ}"
    by (auto simp: status_codes_def errno_codes_def)
  finally show "live w' = live w + err_res e \<and> (e = NULL \<longleftrightarrow> status = 0) \<and>
     libusbp_error_has_code e (code_of LIBUSBP_ERROR_CANCELLED) w' =
       Some (status \<in> {- ENOENT, - EILSEQ})"
    using 1 e(2) by simp
qed simp

theorem error_from_urb_status_correct_witness:
  "runs (error_from_urb_status plenty_posix (- ENOENT) start) (\<lambda>e w'.
     e \<noteq> NULL \<and> libusbp_error_has_code e 8 w' = Some True)"
  by (rule runs_mono [OF error_from_urb_status_correct]) auto

end
