(* ===== verification/Udev.thy ===== *)
theory Udev
  imports LinuxErrors
begin

text \<open>
  \<open>src/src/linux/udev_linux.c\<close>: the wrappers around libudev.  libudev is a parameter: the record
  \<open>libudev\<close> has one field per function the wrappers call.  Objects of libudev (contexts,
  enumerations, device references) are identities in the ledger; what a device object answers is
  a function of the object, since libudev caches attributes per object.
\<close>

section \<open>libudev\<close>

record libudev = posix +
  udev_new :: "nat \<Rightarrow> bool"
  udev_enumerate_new :: "nat \<Rightarrow> bool"
  udev_enumerate_add_match_parent :: "nat \<Rightarrow> nat \<Rightarrow> int"
  udev_enumerate_add_match_subsystem :: "nat \<Rightarrow> string \<Rightarrow> int"
  udev_enumerate_scan_devices :: "nat \<Rightarrow> int"
  udev_enumerate_get_list_entry :: "nat \<Rightarrow> string list"
  udev_device_new_from_syspath :: "nat \<Rightarrow> string \<Rightarrow> bool"
  udev_device_get_devtype :: "nat \<Rightarrow> string option"
  udev_device_get_sysattr_value :: "nat \<Rightarrow> string \<Rightarrow> string option"
  udev_device_get_is_initialized :: "nat \<Rightarrow> bool"
  udev_device_get_parent_with_subsystem_devtype :: "nat \<Rightarrow> string \<Rightarrow> string \<Rightarrow> nat option"
  udev_device_get_syspath :: "nat \<Rightarrow> string"
  udev_device_get_subsystem :: "nat \<Rightarrow> string option"
  udev_device_get_driver :: "nat \<Rightarrow> string option"
  udev_device_get_devnode :: "nat \<Rightarrow> string option"
  udev_device_get_property_value :: "nat \<Rightarrow> string \<Rightarrow> string option"

section \<open>The operations of udev_linux.c\<close>

definition udevw_create_context :: "'e libudev_scheme \<Rightarrow> 'w world_scheme
    \<Rightarrow> ((err \<times> nat option) \<times> 'w world_scheme) option" where
  "udevw_create_context E w = do {
     (context, w) \<leftarrow> open_res UdevContext (udev_new E) w;
     if context = None then do {
       (error, w) \<leftarrow> error_create E ''Failed to create a udev context.'' w;
       Some ((error, None), w)
     }
     else Some ((NULL, context), w)
   }"

definition new_enumerate :: "'e libudev_scheme \<Rightarrow> nat option \<Rightarrow> 'w world_scheme
    \<Rightarrow> ((err \<times> nat option) \<times> 'w world_scheme) option" where
  "new_enumerate E udev w = do {
     u \<leftarrow> udev;
     borrow (UdevContext, u) w;
     (new_list, w) \<leftarrow> open_res UdevEnumerate (udev_enumerate_new E) w;
     if new_list = None then do {
       (error, w) \<leftarrow> error_create E ''Failed to create a udev enumeration context.'' w;
       Some ((error, None), w)
     }
     else Some ((NULL, new_list), w)
   }"

definition scan_devices :: "'e libudev_scheme \<Rightarrow> nat option \<Rightarrow> 'w world_scheme
    \<Rightarrow> (err \<times> 'w world_scheme) option" where
  "scan_devices E new_list w = do {
     l \<leftarrow> new_list;
     borrow (UdevEnumerate, l) w;
     let result = udev_enumerate_scan_devices E l;
     if result \<noteq> 0 then error_create_udev E result ''Failed to scan devices.'' w
     else Some (NULL, w)
   }"

definition udevw_create_child_list :: "'e libudev_scheme \<Rightarrow> nat option \<Rightarrow> nat option
    \<Rightarrow> 'w world_scheme \<Rightarrow> ((err \<times> nat option) \<times> 'w world_scheme) option" where
  "udevw_create_child_list E udev parent w = do {
     p \<leftarrow> parent;
     ((error, new_list), w) \<leftarrow> new_enumerate E udev w;
     (error, w) \<leftarrow> ok_do error (\<lambda>w. do {
       l \<leftarrow> new_list;
       borrow (UdevEnumerate, l) w;
       borrow (UdevDevice, p) w;
       let result = udev_enumerate_add_match_parent E l p;
       if result \<noteq> 0 then error_create_udev E result ''Failed to match by parent device.'' w
       else Some (NULL, w)
     }) w;
     (error, w) \<leftarrow> ok_do error (scan_devices E new_list) w;
     let (list, new_list) = (if error = NULL then (new_list, None) else (None, new_list));
     w \<leftarrow> unref_if UdevEnumerate new_list w;
     Some ((error, list), w)
   }"

definition udevw_create_usb_list :: "'e libudev_scheme \<Rightarrow> nat option
    \<Rightarrow> 'w world_scheme \<Rightarrow> ((err \<times> nat option) \<times> 'w world_scheme) option" where
  "udevw_create_usb_list E udev w = do {
     ((error, new_list), w) \<leftarrow> new_enumerate E udev w;
     (error, w) \<leftarrow> ok_do error (\<lambda>w. do {
       l \<leftarrow> new_list;
       borrow (UdevEnumerate, l) w;
       let result = udev_enumerate_add_match_subsystem E l ''usb'';
       if result \<noteq> 0 then error_create_udev E result ''Failed to add a subsystem match.'' w
       else Some (NULL, w)
     }) w;
     (error, w) \<leftarrow> ok_do error (scan_devices E new_list) w;
     let (list, new_list) = (if error = NULL then (new_list, None) else (None, new_list));
     w \<leftarrow> unref_if UdevEnumerate new_list w;
     Some ((error, list), w)
   }"

definition udevw_get_device_from_syspath :: "'e libudev_scheme \<Rightarrow> nat option \<Rightarrow> string
    \<Rightarrow> 'w world_scheme \<Rightarrow> ((err \<times> nat option) \<times> 'w world_scheme) option" where
  "udevw_get_device_from_syspath E context syspath w = do {
     c \<leftarrow> context;
     borrow (UdevContext, c) w;
     (dev, w) \<leftarrow> open_res UdevDevice (\<lambda>n. udev_device_new_from_syspath E n syspath) w;
     if dev = None then do {
       (error, w) \<leftarrow> error_create E
         (''Failed to get udev device from syspath: '' @ syspath @ ''.'') w;
       Some ((error, None), w)
     }
     else Some ((NULL, dev), w)
   }"

definition udevw_get_device_type :: "'e libudev_scheme \<Rightarrow> nat option
    \<Rightarrow> 'w world_scheme \<Rightarrow> ((err \<times> string option) \<times> 'w world_scheme) option" where
  "udevw_get_device_type E dev w = do {
     d \<leftarrow> dev;
     borrow (UdevDevice, d) w;
     let devtype = udev_device_get_devtype E d;
     if devtype = None then do {
       (error, w) \<leftarrow> error_create E ''Failed to get device type.'' w;
       Some ((error, None), w)
     }
     else Some ((NULL, devtype), w)
   }"

text \<open>
  \<open>udevw_get_sysattr_uint8\<close> and \<open>udevw_get_sysattr_uint16\<close> differ in the type the attribute is
  scanned into only.  An output variable that was not written is \<open>None\<close>.
\<close>

definition get_sysattr_hex :: "'e libudev_scheme \<Rightarrow> nat option \<Rightarrow> string
    \<Rightarrow> 'w world_scheme \<Rightarrow> ((err \<times> ('a :: len) word option) \<times> 'w world_scheme) option" where
  "get_sysattr_hex E dev name w = do {
     d \<leftarrow> dev;
     borrow (UdevDevice, d) w;
     case udev_device_get_sysattr_value E d name of
       None \<Rightarrow> do {
         (error, w) \<leftarrow> error_create E (''Device does not have sysattr '' @ name @ ''.'') w;
         Some ((error, None), w)
       }
     | Some str \<Rightarrow>
         (case scan_hex 4 str of
            None \<Rightarrow> do {
              (error, w) \<leftarrow> error_create E (''Failed to parse sysattr '' @ name @ ''.'') w;
              Some ((error, None), w)
            }
          | Some v \<Rightarrow> Some ((NULL, Some v), w))
   }"

definition udevw_get_sysattr_uint8 :: "'e libudev_scheme \<Rightarrow> nat option \<Rightarrow> string
    \<Rightarrow> 'w world_scheme \<Rightarrow> ((err \<times> 8 word option) \<times> 'w world_scheme) option" where
  "udevw_get_sysattr_uint8 = get_sysattr_hex"

definition udevw_get_sysattr_uint16 :: "'e libudev_scheme \<Rightarrow> nat option \<Rightarrow> string
    \<Rightarrow> 'w world_scheme \<Rightarrow> ((err \<times> 16 word option) \<times> 'w world_scheme) option" where
  "udevw_get_sysattr_uint16 = get_sysattr_hex"

definition udevw_get_sysattr_if_exists_copy :: "'e libudev_scheme \<Rightarrow> nat option \<Rightarrow> string
    \<Rightarrow> 'w world_scheme \<Rightarrow> ((err \<times> cstr) \<times> 'w world_scheme) option" where
  "udevw_get_sysattr_if_exists_copy E dev name w = do {
     d \<leftarrow> dev;
     borrow (UdevDevice, d) w;
     case udev_device_get_sysattr_value E d name of
       None \<Rightarrow> Some ((NULL, NULL), w)
     | Some str \<Rightarrow> string_copy E (Static str) w
   }"

definition udevw_get_parent_usb_device :: "'e libudev_scheme \<Rightarrow> nat option
    \<Rightarrow> 'w world_scheme \<Rightarrow> ((err \<times> nat option) \<times> 'w world_scheme) option" where
  "udevw_get_parent_usb_device E dev w = do {
     d \<leftarrow> dev;
     borrow (UdevDevice, d) w;
     let parent = udev_device_get_parent_with_subsystem_devtype E d ''usb'' ''usb_device'';
     if parent = None then do {
       (error, w) \<leftarrow> error_create E ''Failed to get parent USB device.'' w;
       Some ((error, None), w)
     }
     else Some ((NULL, parent), w)
   }"

text \<open>
  The parent is not a reference of its own: libudev keeps it as long as the child, so reading its
  path borrows the child.
\<close>

definition udevw_check_if_device_is_specific_interface :: "'e libudev_scheme \<Rightarrow> nat option
    \<Rightarrow> string \<Rightarrow> 8 word \<Rightarrow> 'w world_scheme \<Rightarrow> ((err \<times> bool) \<times> 'w world_scheme) option" where
  "udevw_check_if_device_is_specific_interface E dev device_syspath interface_number w = do {
     ((error, devtype), w) \<leftarrow> udevw_get_device_type E dev w;
     if error \<noteq> NULL then Some ((error, False), w)
     else do {
       t \<leftarrow> devtype;
       if t \<noteq> ''usb_interface'' then Some ((NULL, False), w)
       else do {
         ((error, actual_interface_number), w) \<leftarrow>
           udevw_get_sysattr_uint8 E dev ''bInterfaceNumber'' w;
         if error \<noteq> NULL then Some ((error, False), w)
         else do {
           n \<leftarrow> actual_interface_number;
           if n \<noteq> interface_number then Some ((NULL, False), w)
           else do {
             ((error, parent), w) \<leftarrow> udevw_get_parent_usb_device E dev w;
             if error \<noteq> NULL then Some ((error, False), w)
             else do {
               p \<leftarrow> parent;
               d \<leftarrow> dev;
               borrow (UdevDevice, d) w;
               Some ((NULL, udev_device_get_syspath E p = device_syspath), w)
             }
           }
         }
       }
     }
   }"

text \<open>The search loops: over the entries of the enumeration, stopping at the first hit or error.\<close>

fun get_interface_loop :: "'e libudev_scheme \<Rightarrow> nat option \<Rightarrow> string \<Rightarrow> 8 word \<Rightarrow> string list
    \<Rightarrow> 'w world_scheme \<Rightarrow> ((err \<times> nat option) \<times> 'w world_scheme) option" where
  "get_interface_loop E udev device_syspath interface_number [] w = Some ((NULL, None), w)"
| "get_interface_loop E udev device_syspath interface_number (path # paths) w = do {
     ((error, dev), w) \<leftarrow> udevw_get_device_from_syspath E udev path w;
     if error \<noteq> NULL then Some ((error, None), w)
     else do {
       ((error, correct_device), w) \<leftarrow> udevw_check_if_device_is_specific_interface E dev
         device_syspath interface_number w;
       if error \<noteq> NULL then do {
         w \<leftarrow> unref_if UdevDevice dev w;
         Some ((error, None), w)
       }
       else if correct_device then Some ((NULL, dev), w)
       else do {
         w \<leftarrow> unref_if UdevDevice dev w;
         get_interface_loop E udev device_syspath interface_number paths w
       }
     }
   }"

definition udevw_get_interface :: "'e libudev_scheme \<Rightarrow> nat option \<Rightarrow> string \<Rightarrow> 8 word
    \<Rightarrow> 'w world_scheme \<Rightarrow> ((err \<times> nat option) \<times> 'w world_scheme) option" where
  "udevw_get_interface E udev device_syspath interface_number w = do {
     ((error, list), w) \<leftarrow> udevw_create_usb_list E udev w;
     ((error, found_device), w) \<leftarrow> ok_then error None (\<lambda>w. do {
       l \<leftarrow> list;
       borrow (UdevEnumerate, l) w;
       get_interface_loop E udev device_syspath interface_number
         (udev_enumerate_get_list_entry E l) w
     }) w;
     (error, w) \<leftarrow> (if error = NULL \<and> found_device = None then do {
         (error, w) \<leftarrow> error_create E
           (''Could not find interface '' @ fmt_d (uint interface_number) @ ''.'') w;
         error_add_code E error (code_of LIBUSBP_ERROR_NOT_READY) w
       }
       else Some (error, w));
     let device = (if error = NULL then found_device else None);
     w \<leftarrow> unref_if UdevEnumerate list w;
     Some ((error, device), w)
   }"

fun get_tty_loop :: "'e libudev_scheme \<Rightarrow> nat option \<Rightarrow> string list
    \<Rightarrow> 'w world_scheme \<Rightarrow> ((err \<times> nat option) \<times> 'w world_scheme) option" where
  "get_tty_loop E udev [] w = Some ((NULL, None), w)"
| "get_tty_loop E udev (path # paths) w = do {
     ((error, dev), w) \<leftarrow> udevw_get_device_from_syspath E udev path w;
     if error \<noteq> NULL then Some ((error, None), w)
     else do {
       d \<leftarrow> dev;
       borrow (UdevDevice, d) w;
       let correct_device = (udev_device_get_subsystem E d = Some ''tty'');
       if correct_device then Some ((NULL, dev), w)
       else do {
         w \<leftarrow> unref_if UdevDevice dev w;
         get_tty_loop E udev paths w
       }
     }
   }"

definition udevw_get_tty :: "'e libudev_scheme \<Rightarrow> nat option \<Rightarrow> nat option
    \<Rightarrow> 'w world_scheme \<Rightarrow> ((err \<times> nat option) \<times> 'w world_scheme) option" where
  "udevw_get_tty E udev parent w = do {
     ((error, list), w) \<leftarrow> udevw_create_child_list E udev parent w;
     ((error, found_device), w) \<leftarrow> ok_then error None (\<lambda>w. do {
       l \<leftarrow> list;
       borrow (UdevEnumerate, l) w;
       get_tty_loop E udev (udev_enumerate_get_list_entry E l) w
     }) w;
     (error, w) \<leftarrow> (if error = NULL \<and> found_device = None then do {
         (error, w) \<leftarrow> error_create E ''Could not find tty device.'' w;
         error_add_code E error (code_of LIBUSBP_ERROR_NOT_READY) w
       }
       else Some (error, w));
     let device = (if error = NULL then found_device else None);
     w \<leftarrow> unref_if UdevEnumerate list w;
     Some ((error, device), w)
   }"

definition udevw_get_syspath :: "'e libudev_scheme \<Rightarrow> nat option
    \<Rightarrow> 'w world_scheme \<Rightarrow> ((err \<times> cstr) \<times> 'w world_scheme) option" where
  "udevw_get_syspath E device w = do {
     d \<leftarrow> device;
     borrow (UdevDevice, d) w;
     Some ((NULL, Static (udev_device_get_syspath E d)), w)
   }"

definition udevw_get_syspath_copy :: "'e libudev_scheme \<Rightarrow> nat option
    \<Rightarrow> 'w world_scheme \<Rightarrow> ((err \<times> cstr) \<times> 'w world_scheme) option" where
  "udevw_get_syspath_copy E device w = do {
     ((error, tmp), w) \<leftarrow> udevw_get_syspath E device w;
     ok_then error NULL (string_copy E tmp) w
   }"

definition udevw_get_devnode :: "'e libudev_scheme \<Rightarrow> nat option
    \<Rightarrow> 'w world_scheme \<Rightarrow> ((err \<times> cstr) \<times> 'w world_scheme) option" where
  "udevw_get_devnode E device w = do {
     d \<leftarrow> device;
     borrow (UdevDevice, d) w;
     case udev_device_get_devnode E d of
       None \<Rightarrow> do {
         (error, w) \<leftarrow> error_create E ''No device node exists.'' w;
         Some ((error, NULL), w)
       }
     | Some devnode \<Rightarrow> Some ((NULL, Static devnode), w)
   }"

definition udevw_get_devnode_copy :: "'e libudev_scheme \<Rightarrow> nat option
    \<Rightarrow> 'w world_scheme \<Rightarrow> ((err \<times> cstr) \<times> 'w world_scheme) option" where
  "udevw_get_devnode_copy E device w = do {
     ((error, tmp), w) \<leftarrow> udevw_get_devnode E device w;
     ok_then error NULL (string_copy E tmp) w
   }"

definition udevw_get_devnode_copy_from_syspath :: "'e libudev_scheme \<Rightarrow> string
    \<Rightarrow> 'w world_scheme \<Rightarrow> ((err \<times> cstr) \<times> 'w world_scheme) option" where
  "udevw_get_devnode_copy_from_syspath E syspath w = do {
     ((error, context), w) \<leftarrow> udevw_create_context E w;
     ((error, device), w) \<leftarrow> ok_then error None
       (udevw_get_device_from_syspath E context syspath) w;
     ((error, devnode), w) \<leftarrow> ok_then error NULL (udevw_get_devnode_copy E device) w;
     w \<leftarrow> unref_if UdevDevice device w;
     w \<leftarrow> unref_if UdevContext context w;
     Some ((error, devnode), w)
   }"

section \<open>Contracts\<close>

text \<open>The errors of libudev have no code; only a memory shortage adds one.\<close>

definition no_codes :: "'e environment_scheme \<Rightarrow> err \<Rightarrow> bool" where
  "no_codes E e \<longleftrightarrow> (memory_ok E \<longrightarrow> err_codes e = [])"

lemma udevw_create_context_gives:
  "runs (udevw_create_context E w) (gives (opt_res UdevContext) None (\<lambda>r. r \<noteq> None) (no_codes E) w)"
  by (auto simp: udevw_create_context_def later_def says_def no_codes_def intro!: wp)

lemmas udevw_create_context_wp [wp] = gives_wp [OF udevw_create_context_gives]

lemma new_enumerate_gives:
  "(UdevContext, c) \<in># live w \<Longrightarrow>
   runs (new_enumerate E (Some c) w) (gives (opt_res UdevEnumerate) None (\<lambda>r. r \<noteq> None) (no_codes E) w)"
  by (auto simp: new_enumerate_def later_def says_def no_codes_def intro!: wp)

lemmas new_enumerate_wp [wp] = gives_wp [OF new_enumerate_gives]

lemma scan_devices_checks:
  "(UdevEnumerate, n) \<in># live w \<Longrightarrow>
   runs (scan_devices E (Some n) w) (checks True (no_codes E) w)"
  by (auto simp: scan_devices_def Let_def later_def says_def no_codes_def intro!: wp)

lemmas scan_devices_wp [wp] = checks_wp [OF scan_devices_checks]

lemma udevw_create_usb_list_gives:
  "(UdevContext, c) \<in># live w \<Longrightarrow>
   runs (udevw_create_usb_list E (Some c) w) (gives (opt_res UdevEnumerate) None (\<lambda>r. r \<noteq> None) (no_codes E) w)"
  by (auto simp: udevw_create_usb_list_def Let_def later_def says_def no_codes_def intro!: wp)

lemma udevw_create_child_list_gives:
  "(UdevContext, c) \<in># live w \<Longrightarrow> (UdevDevice, p) \<in># live w \<Longrightarrow>
   runs (udevw_create_child_list E (Some c) (Some p) w) (gives (opt_res UdevEnumerate) None (\<lambda>r. r \<noteq> None) (no_codes E) w)"
  by (auto simp: udevw_create_child_list_def Let_def later_def says_def no_codes_def intro!: wp)

lemmas udevw_create_list_wp [wp] =
  gives_wp [OF udevw_create_usb_list_gives] gives_wp [OF udevw_create_child_list_gives]

lemma udevw_get_device_from_syspath_gives:
  "(UdevContext, c) \<in># live w \<Longrightarrow>
   runs (udevw_get_device_from_syspath E (Some c) path w)
     (gives (opt_res UdevDevice) None
       (\<lambda>r. \<exists>n. r = Some n \<and> udev_device_new_from_syspath E n path) (no_codes E) w)"
  by (auto simp: udevw_get_device_from_syspath_def later_def says_def no_codes_def intro!: wp)

lemmas udevw_get_device_from_syspath_wp [wp] = gives_wp [OF udevw_get_device_from_syspath_gives]

lemma udevw_get_device_type_gives:
  "(UdevDevice, n) \<in># live w \<Longrightarrow>
   runs (udevw_get_device_type E (Some n) w)
     (gives nothing None (\<lambda>r. r = udev_device_get_devtype E n \<and> r \<noteq> None) (no_codes E) w)"
  by (auto simp: udevw_get_device_type_def Let_def later_def says_def no_codes_def intro!: wp)

lemma get_sysattr_hex_gives:
  "(UdevDevice, n) \<in># live w \<Longrightarrow>
   runs (get_sysattr_hex E (Some n) name w) (gives nothing None
     (\<lambda>r. r \<noteq> None \<and> (\<exists>s. udev_device_get_sysattr_value E n name = Some s \<and> scan_hex 4 s = r))
     (no_codes E) w)"
  by (auto simp: get_sysattr_hex_def later_def says_def no_codes_def split: option.splits intro!: wp)

lemma udevw_get_parent_usb_device_gives:
  "(UdevDevice, n) \<in># live w \<Longrightarrow>
   runs (udevw_get_parent_usb_device E (Some n) w) (gives nothing None
     (\<lambda>r. r = udev_device_get_parent_with_subsystem_devtype E n ''usb'' ''usb_device'' \<and> r \<noteq> None)
     (no_codes E) w)"
  by (auto simp: udevw_get_parent_usb_device_def Let_def later_def says_def no_codes_def intro!: wp)

lemmas udevw_read_wp [wp] = gives_wp [OF udevw_get_device_type_gives]
  gives_wp [OF get_sysattr_hex_gives]
  gives_wp [OF udevw_get_parent_usb_device_gives]

text \<open>What makes a device object the interface \<open>i\<close> of the USB device at \<open>path\<close>.\<close>

definition is_interface :: "'e libudev_scheme \<Rightarrow> string \<Rightarrow> 8 word \<Rightarrow> nat \<Rightarrow> bool" where
  "is_interface E path i n \<longleftrightarrow>
     udev_device_get_devtype E n = Some ''usb_interface'' \<and>
     (\<exists>s. udev_device_get_sysattr_value E n ''bInterfaceNumber'' = Some s \<and> scan_hex 4 s = Some i) \<and>
     (\<exists>p. udev_device_get_parent_with_subsystem_devtype E n ''usb'' ''usb_device'' = Some p \<and>
        udev_device_get_syspath E p = path)"

lemma udevw_check_interface_gives:
  "(UdevDevice, n) \<in># live w \<Longrightarrow>
   runs (udevw_check_if_device_is_specific_interface E (Some n) path i w)
     (gives nothing False (\<lambda>r. r = is_interface E path i n) (no_codes E) w)"
  by (auto simp: udevw_check_if_device_is_specific_interface_def udevw_get_sysattr_uint8_def Let_def is_interface_def later_def no_codes_def intro!: wp)

lemmas udevw_check_interface_wp [wp] = gives_wp [OF udevw_check_interface_gives]

text \<open>The search looked at every path and found nothing.\<close>

definition none_found :: "'e libudev_scheme \<Rightarrow> (nat \<Rightarrow> bool) \<Rightarrow> string list \<Rightarrow> bool" where
  "none_found E P paths \<longleftrightarrow>
     (\<forall>path \<in> set paths. \<exists>n. udev_device_new_from_syspath E n path \<and> \<not> P n)"

lemma none_found_simps [simp]:
  "none_found E P []"
  "none_found E P (path # paths) \<longleftrightarrow>
     (\<exists>n. udev_device_new_from_syspath E n path \<and> \<not> P n) \<and> none_found E P paths"
  by (simp_all add: none_found_def)

text \<open>The error of an unsuccessful search: ready or not, by the code.\<close>

definition search_error :: "'e libudev_scheme \<Rightarrow> (nat \<Rightarrow> bool) \<Rightarrow> err \<Rightarrow> bool" where
  "search_error E P e \<longleftrightarrow> (memory_ok E \<longrightarrow> err_codes e = [] \<or>
     err_codes e = [code_of LIBUSBP_ERROR_NOT_READY] \<and>
     (\<exists>l. none_found E P (udev_enumerate_get_list_entry E l)))"

abbreviation found :: "'e libudev_scheme \<Rightarrow> (nat \<Rightarrow> bool) \<Rightarrow> string list \<Rightarrow> nat option \<Rightarrow> bool" where
  "found E P paths r \<equiv> (case r of None \<Rightarrow> none_found E P paths | Some n \<Rightarrow> P n)"

abbreviation is_tty :: "'e libudev_scheme \<Rightarrow> nat \<Rightarrow> bool" where
  "is_tty E n \<equiv> udev_device_get_subsystem E n = Some ''tty''"

lemma get_interface_loop_gives:
  "(UdevContext, c) \<in># live w \<Longrightarrow>
   runs (get_interface_loop E (Some c) path i paths w)
     (gives (opt_res UdevDevice) None (found E (is_interface E path i) paths) (no_codes E) w)"
proof (induction paths arbitrary: w)
  case Nil
  then show ?case by simp
next
  case (Cons p ps)
  note IH = gives_wp [OF Cons.IH]
  show ?case using Cons.prems
    by (auto simp: later_def no_codes_def split: option.splits intro!: IH wp) blast
qed

lemmas get_interface_loop_wp [wp] = gives_wp [OF get_interface_loop_gives]

lemma get_tty_loop_gives:
  "(UdevContext, c) \<in># live w \<Longrightarrow>
   runs (get_tty_loop E (Some c) paths w)
     (gives (opt_res UdevDevice) None
       (found E (is_tty E) paths) (no_codes E) w)"
proof (induction paths arbitrary: w)
  case Nil
  then show ?case by simp
next
  case (Cons p ps)
  note IH = gives_wp [OF Cons.IH]
  show ?case using Cons.prems
    by (auto simp: later_def no_codes_def Let_def split: option.splits intro!: IH wp) blast
qed

lemmas get_tty_loop_wp [wp] = gives_wp [OF get_tty_loop_gives]

lemma udevw_get_interface_gives:
  "(UdevContext, c) \<in># live w \<Longrightarrow>
   runs (udevw_get_interface E (Some c) path i w)
     (gives (opt_res UdevDevice) None (\<lambda>r. \<exists>n. r = Some n \<and> is_interface E path i n)
       (search_error E (is_interface E path i)) w)"
  by (auto simp: udevw_get_interface_def search_error_def later_def Let_def says_def no_codes_def intro!: wp) blast

lemma udevw_get_tty_gives:
  "(UdevContext, c) \<in># live w \<Longrightarrow> (UdevDevice, p) \<in># live w \<Longrightarrow>
   runs (udevw_get_tty E (Some c) (Some p) w)
     (gives (opt_res UdevDevice) None
       (\<lambda>r. \<exists>n. r = Some n \<and> is_tty E n) (search_error E (is_tty E)) w)"
  by (auto simp: udevw_get_tty_def search_error_def later_def Let_def says_def no_codes_def intro!: wp) blast

lemmas udevw_get_wp [wp] =
  gives_wp [OF udevw_get_interface_gives] gives_wp [OF udevw_get_tty_gives]

lemma udevw_get_syspath_copy_gives:
  "(UdevDevice, n) \<in># live w \<Longrightarrow>
   runs (udevw_get_syspath_copy E (Some n) w)
     (gives blk NULL (\<lambda>r. \<exists>k. r = Heap k (udev_device_get_syspath E n)) (no_codes E) w)"
  by (auto simp: udevw_get_syspath_copy_def udevw_get_syspath_def later_def no_codes_def intro!: wp)

lemma udevw_get_sysattr_if_exists_copy_gives:
  "(UdevDevice, n) \<in># live w \<Longrightarrow>
   runs (udevw_get_sysattr_if_exists_copy E (Some n) name w)
     (gives blk NULL (\<lambda>r. case udev_device_get_sysattr_value E n name of None \<Rightarrow> r = NULL
        | Some s \<Rightarrow> (\<exists>k. r = Heap k s)) (no_codes E) w)"
  by (auto simp: udevw_get_sysattr_if_exists_copy_def later_def no_codes_def split: option.splits intro!: wp)

lemma udevw_get_devnode_copy_gives:
  "(UdevDevice, n) \<in># live w \<Longrightarrow>
   runs (udevw_get_devnode_copy E (Some n) w)
     (gives blk NULL (\<lambda>r. \<exists>s k. udev_device_get_devnode E n = Some s \<and> r = Heap k s) (no_codes E) w)"
  by (auto simp: udevw_get_devnode_copy_def udevw_get_devnode_def later_def says_def no_codes_def
      split: option.splits intro!: wp)

lemmas udevw_copy_wp [wp] = gives_wp [OF udevw_get_syspath_copy_gives]
  gives_wp [OF udevw_get_sysattr_if_exists_copy_gives] gives_wp [OF udevw_get_devnode_copy_gives]

lemma udevw_get_devnode_copy_from_syspath_gives:
  "runs (udevw_get_devnode_copy_from_syspath E path w)
     (gives blk NULL (\<lambda>r. \<exists>n s k. udev_device_get_devnode E n = Some s \<and> r = Heap k s) (no_codes E) w)"
  by (auto simp: udevw_get_devnode_copy_from_syspath_def later_def no_codes_def intro!: wp)

lemmas udevw_get_devnode_copy_from_syspath_wp [wp] =
  gives_wp [OF udevw_get_devnode_copy_from_syspath_gives]
section \<open>Properties\<close>

text \<open>
  A machine with one interface of a USB device: every lookup of libudev succeeds and finds
  interface 0 of the device at \<open>/sys/d\<close>.
\<close>

definition plenty_udev :: libudev where
  "plenty_udev = \<lparr>malloc_ok = (\<lambda>n. True), strerror_r = (\<lambda>n. Some ''Unknown error''),
     udev_new = (\<lambda>n. True), udev_enumerate_new = (\<lambda>n. True),
     udev_enumerate_add_match_parent = (\<lambda>l p. 0),
     udev_enumerate_add_match_subsystem = (\<lambda>l s. 0), udev_enumerate_scan_devices = (\<lambda>l. 0),
     udev_enumerate_get_list_entry = (\<lambda>l. [''/sys/d/i'']),
     udev_device_new_from_syspath = (\<lambda>n s. True),
     udev_device_get_devtype = (\<lambda>n. Some ''usb_interface''),
     udev_device_get_sysattr_value = (\<lambda>n s. Some ''00''),
     udev_device_get_is_initialized = (\<lambda>n. True),
     udev_device_get_parent_with_subsystem_devtype = (\<lambda>n s t. Some 0),
     udev_device_get_syspath = (\<lambda>n. ''/sys/d''), udev_device_get_subsystem = (\<lambda>n. Some ''tty''),
     udev_device_get_driver = (\<lambda>n. Some ''usbfs''), udev_device_get_devnode = (\<lambda>n. Some ''/dev/d''),
     udev_device_get_property_value = (\<lambda>n s. None)\<rparr>"

lemma memory_ok_plenty_udev [simp]: "memory_ok plenty_udev"
  by (simp add: memory_ok_def plenty_udev_def)

lemma plenty_udev_simps [simp]:
  "malloc_ok plenty_udev n" "udev_new plenty_udev n" "udev_enumerate_new plenty_udev n"
  "udev_enumerate_add_match_parent plenty_udev l p = 0"
  "udev_enumerate_add_match_subsystem plenty_udev l s = 0"
  "udev_enumerate_scan_devices plenty_udev l = 0"
  "udev_enumerate_get_list_entry plenty_udev l = [''/sys/d/i'']"
  "udev_device_new_from_syspath plenty_udev n s"
  "udev_device_get_devtype plenty_udev n = Some ''usb_interface''"
  "udev_device_get_sysattr_value plenty_udev n s = Some ''00''"
  "udev_device_get_is_initialized plenty_udev n"
  "udev_device_get_parent_with_subsystem_devtype plenty_udev n s t = Some 0"
  "udev_device_get_syspath plenty_udev n = ''/sys/d''"
  "udev_device_get_subsystem plenty_udev n = Some ''tty''"
  "udev_device_get_driver plenty_udev n = Some ''usbfs''"
  "udev_device_get_devnode plenty_udev n = Some ''/dev/d''"
  "udev_device_get_property_value plenty_udev n s = None"
  by (simp_all add: plenty_udev_def)

lemma scan_hex_00 [simp]: "scan_hex 4 ''00'' = Some (0 :: 'a :: len word)"
  by (simp add: scan_hex_def Let_def is_space_def strip_0x_def hex_value_def)

lemma plenty_udev_run:
  "udevw_get_interface plenty_udev (Some 0) ''/sys/d'' 0
      \<lparr>next_id = 1, live = {#(UdevContext, 0)#}\<rparr> =
   Some ((NULL, Some 2), \<lparr>next_id = 3, live = {#(UdevContext, 0), (UdevDevice, 2)#}\<rparr>)"
  by (simp add: udevw_get_interface_def udevw_create_usb_list_def new_enumerate_def open_res_def
       scan_devices_def Let_def unref_if_def release_def drop_res_def take_res_def tick_def
      udevw_get_device_from_syspath_def udevw_check_if_device_is_specific_interface_def borrow_def
      udevw_get_device_type_def udevw_get_sysattr_uint8_def get_sysattr_hex_def udevw_get_parent_usb_device_def
      )


end
