(* ===== verification/DeviceLinux.thy ===== *)
theory DeviceLinux
  imports Udev
begin

text \<open>
  \<open>src/src/linux/device_linux.c\<close>: device objects, made from a libudev device, copied, read and
  freed.  A pointer argument that receives a result is represented by whether it is given (not
  NULL); the result of a call with an output that is not given is the initial value of the output.
\<close>

section \<open>Device objects\<close>

record libusbp_device =
  syspath :: cstr
  serial_number :: cstr
  product_id :: "16 word"
  vendor_id :: "16 word"
  revision :: "16 word"

type_synonym device = "libusbp_device ptr"

definition device_create :: "'e libudev_scheme \<Rightarrow> nat option \<Rightarrow> 'w world_scheme
    \<Rightarrow> ((err \<times> device) \<times> 'w world_scheme) option" where
  "device_create E dev w = do {
     d \<leftarrow> dev;
     (new_device, w) \<leftarrow> malloc E w;
     let error = (if new_device = NULL then error_no_memory else NULL);
     ((error, new_syspath), w) \<leftarrow> ok_then error NULL (udevw_get_syspath_copy E dev) w;
     ((error, vendor_id), w) \<leftarrow> ok_then error None
       (udevw_get_sysattr_uint16 E dev ''idVendor'') w;
     ((error, product_id), w) \<leftarrow> ok_then error None
       (udevw_get_sysattr_uint16 E dev ''idProduct'') w;
     ((error, revision), w) \<leftarrow> ok_then error None
       (udevw_get_sysattr_uint16 E dev ''bcdDevice'') w;
     ((error, new_serial_number), w) \<leftarrow> ok_then error NULL
       (udevw_get_sysattr_if_exists_copy E dev ''serial'') w;
     (device, new_syspath, new_serial_number, new_device) \<leftarrow>
       (if error = NULL then do {
          v \<leftarrow> vendor_id;
          p \<leftarrow> product_id;
          r \<leftarrow> revision;
          device \<leftarrow> store new_device \<lparr>syspath = new_syspath,
            serial_number = new_serial_number, product_id = p, vendor_id = v, revision = r\<rparr> w;
          Some (device, NULL, NULL, NULL)
        }
        else Some (NULL, new_syspath, new_serial_number, new_device));
     w \<leftarrow> free new_serial_number w;
     w \<leftarrow> free new_syspath w;
     w \<leftarrow> free new_device w;
     Some ((error, device), w)
   }"

definition libusbp_device_free :: "device \<Rightarrow> 'w world_scheme \<Rightarrow> 'w world_scheme option" where
  "libusbp_device_free device w =
     (if device = NULL then Some w
      else do {
        x \<leftarrow> deref device w;
        w \<leftarrow> free (serial_number x) w;
        w \<leftarrow> free (syspath x) w;
        free device w
      })"

definition libusbp_device_copy :: "'e environment_scheme \<Rightarrow> device \<Rightarrow> bool \<Rightarrow> 'w world_scheme
    \<Rightarrow> ((err \<times> device) \<times> 'w world_scheme) option" where
  "libusbp_device_copy E source dest_given w =
     (if \<not> dest_given then do {
        (error, w) \<leftarrow> error_create E ''Device output pointer is null.'' w;
        Some ((error, NULL), w)
      }
      else if source = NULL then Some ((NULL, NULL), w)
      else do {
        x \<leftarrow> deref source w;
        (new_device, w) \<leftarrow> malloc E w;
        let error = (if new_device = NULL then error_no_memory else NULL);
        ((error, new_syspath), w) \<leftarrow> ok_then error NULL (string_copy E (syspath x)) w;
        ((error, new_serial_number), w) \<leftarrow> ok_then error NULL (\<lambda>w.
          if serial_number x \<noteq> NULL then string_copy E (serial_number x) w
          else Some ((NULL, NULL), w)) w;
        (dest, new_device, new_syspath, new_serial_number) \<leftarrow>
          (if error = NULL then do {
             dest \<leftarrow> store new_device
               (x\<lparr>syspath := new_syspath, serial_number := new_serial_number\<rparr>) w;
             Some (dest, NULL, NULL, NULL)
           }
           else Some (NULL, new_device, new_syspath, new_serial_number));
        w \<leftarrow> free new_device w;
        w \<leftarrow> free new_syspath w;
        w \<leftarrow> free new_serial_number w;
        Some ((error, dest), w)
      })"

definition libusbp_device_get_vendor_id :: "'e environment_scheme \<Rightarrow> device \<Rightarrow> bool
    \<Rightarrow> 'w world_scheme \<Rightarrow> ((err \<times> 16 word) \<times> 'w world_scheme) option" where
  "libusbp_device_get_vendor_id E device given w =
     (if \<not> given then do {
        (error, w) \<leftarrow> error_create E ''Vendor ID output pointer is null.'' w;
        Some ((error, 0), w)
      }
      else if device = NULL then do {
        (error, w) \<leftarrow> error_create E ''Device is null.'' w;
        Some ((error, 0), w)
      }
      else do { x \<leftarrow> deref device w; Some ((NULL, vendor_id x), w) })"

definition libusbp_device_get_product_id :: "'e environment_scheme \<Rightarrow> device \<Rightarrow> bool
    \<Rightarrow> 'w world_scheme \<Rightarrow> ((err \<times> 16 word) \<times> 'w world_scheme) option" where
  "libusbp_device_get_product_id E device given w =
     (if \<not> given then do {
        (error, w) \<leftarrow> error_create E ''Product ID output pointer is null.'' w;
        Some ((error, 0), w)
      }
      else if device = NULL then do {
        (error, w) \<leftarrow> error_create E ''Device is null.'' w;
        Some ((error, 0), w)
      }
      else do { x \<leftarrow> deref device w; Some ((NULL, product_id x), w) })"

definition libusbp_device_get_revision :: "'e environment_scheme \<Rightarrow> device \<Rightarrow> bool
    \<Rightarrow> 'w world_scheme \<Rightarrow> ((err \<times> 16 word) \<times> 'w world_scheme) option" where
  "libusbp_device_get_revision E device given w =
     (if \<not> given then do {
        (error, w) \<leftarrow> error_create E ''Device revision output pointer is null.'' w;
        Some ((error, 0), w)
      }
      else if device = NULL then do {
        (error, w) \<leftarrow> error_create E ''Device is null.'' w;
        Some ((error, 0), w)
      }
      else do { x \<leftarrow> deref device w; Some ((NULL, revision x), w) })"

definition libusbp_device_get_serial_number :: "'e environment_scheme \<Rightarrow> device \<Rightarrow> bool
    \<Rightarrow> 'w world_scheme \<Rightarrow> ((err \<times> cstr) \<times> 'w world_scheme) option" where
  "libusbp_device_get_serial_number E device given w =
     (if \<not> given then do {
        (error, w) \<leftarrow> error_create E ''Serial number output pointer is null.'' w;
        Some ((error, NULL), w)
      }
      else if device = NULL then do {
        (error, w) \<leftarrow> error_create E ''Device is null.'' w;
        Some ((error, NULL), w)
      }
      else do {
        x \<leftarrow> deref device w;
        if serial_number x = NULL then do {
          (error, w) \<leftarrow> error_create E ''Device does not have a serial number.'' w;
          (error, w) \<leftarrow> error_add_code E error (code_of LIBUSBP_ERROR_NO_SERIAL_NUMBER) w;
          Some ((error, NULL), w)
        }
        else string_copy E (serial_number x) w
      })"

definition libusbp_device_get_os_id :: "'e environment_scheme \<Rightarrow> device \<Rightarrow> bool
    \<Rightarrow> 'w world_scheme \<Rightarrow> ((err \<times> cstr) \<times> 'w world_scheme) option" where
  "libusbp_device_get_os_id E device given w =
     (if \<not> given then do {
        (error, w) \<leftarrow> error_create E ''Device OS ID output pointer is null.'' w;
        Some ((error, NULL), w)
      }
      else if device = NULL then do {
        (error, w) \<leftarrow> error_create E ''Device is null.'' w;
        Some ((error, NULL), w)
      }
      else do { x \<leftarrow> deref device w; string_copy E (syspath x) w })"

section \<open>What devices own and say\<close>

definition dev_res :: "device \<Rightarrow> res multiset" where
  "dev_res d = owns (\<lambda>x. blk (serial_number x) + blk (syspath x)) d"

definition wf_device :: "device \<Rightarrow> bool" where
  "wf_device d = (case d of NULL \<Rightarrow> True
     | Heap n x \<Rightarrow> (\<exists>m s. syspath x = Heap m s) \<and> \<not> is_static (serial_number x)
     | Static x \<Rightarrow> False)"

text \<open>What a caller can see of a device: its path, serial number and IDs.\<close>

type_synonym device_info = "(string \<times> string option) \<times> 16 word \<times> 16 word \<times> 16 word"

definition dev_view :: "device \<Rightarrow> device_info option" where
  "dev_view d = (case d of
     Heap n x \<Rightarrow> Some ((contents '''' (syspath x), str_view (serial_number x)),
       product_id x, vendor_id x, revision x)
   | _ \<Rightarrow> None)"

lemma dev_simps [simp]:
  "dev_res NULL = {#}" "wf_device NULL" "dev_view NULL = None"
  "dev_res (Heap n x) = add_mset (Mem, n) (blk (serial_number x) + blk (syspath x))"
  "wf_device (Heap n x) \<longleftrightarrow> (\<exists>m s. syspath x = Heap m s) \<and> \<not> is_static (serial_number x)"
  "\<not> wf_device (Static x)"
  "dev_view (Heap n x) = Some ((contents '''' (syspath x), str_view (serial_number x)),
       product_id x, vendor_id x, revision x)"
  by (simp_all add: dev_res_def wf_device_def dev_view_def)

lemma libusbp_device_free_ok:
  assumes "wf_device d" and "dev_res d \<subseteq># live w"
  shows "libusbp_device_free d w = Some (drop_res (dev_res d) w)"
proof -
  obtain L where "live w = dev_res d + L"
    using assms(2) by (auto simp: mset_subset_eq_exists_conv)
  with assms(1) show ?thesis
    by (cases d) (auto simp: libusbp_device_free_def not_static_conv add_mset_commute)
qed

interpretation device: releases libusbp_device_free dev_res wf_device
  by unfold_locales (rule libusbp_device_free_ok)

text \<open>The device that libudev's object \<open>n\<close> stands for.\<close>

definition describes :: "'e libudev_scheme \<Rightarrow> nat \<Rightarrow> device_info \<Rightarrow> bool" where
  "describes E n = (\<lambda>((path, serial), p, v, r).
     path = udev_device_get_syspath E n \<and>
     serial = udev_device_get_sysattr_value E n ''serial'' \<and>
     Option.bind (udev_device_get_sysattr_value E n ''idProduct'') (scan_hex 4) = Some p \<and>
     Option.bind (udev_device_get_sysattr_value E n ''idVendor'') (scan_hex 4) = Some v \<and>
     Option.bind (udev_device_get_sysattr_value E n ''bcdDevice'') (scan_hex 4) = Some r)"

lemma device_create_gives:
  "(UdevDevice, n) \<in># live w \<Longrightarrow>
   runs (device_create E (Some n) w) (gives dev_res NULL
     (\<lambda>d. wf_device d \<and> (\<exists>i. dev_view d = Some i \<and> describes E n i)) (\<lambda>_. True) w)"
  by (auto simp: device_create_def describes_def udevw_get_sysattr_uint16_def Let_def later_def
      split: option.splits intro!: wp)

lemmas device_create_wp [wp] = gives_wp [OF device_create_gives]

lemma libusbp_device_copy_gives:
  assumes "wf_device d" and "dev_res d \<subseteq># live w"
  shows "runs (libusbp_device_copy E d True w) (gives dev_res NULL
     (\<lambda>c. wf_device c \<and> dev_view c = dev_view d) (\<lambda>e. e = error_no_memory \<and> \<not> memory_ok E) w)"
proof -
  obtain L where "live w = dev_res d + L"
    using assms(2) by (auto simp: mset_subset_eq_exists_conv)
  with assms(1) show ?thesis
    by (cases d) (auto simp: libusbp_device_copy_def Let_def later_def not_static_conv intro!: wp)
qed

lemmas libusbp_device_copy_wp [wp] = gives_wp [OF libusbp_device_copy_gives]

lemma dev_viewD:
  "dev_view d = Some ((path, serial), p, v, r) \<Longrightarrow> wf_device d \<Longrightarrow> dev_res d \<subseteq># live w \<Longrightarrow>
   \<exists>n x m. d = Heap n x \<and> deref d w = Some x \<and> syspath x = Heap m path \<and>
     deref (syspath x) w = Some path \<and> str_view (serial_number x) = serial \<and>
     product_id x = p \<and> vendor_id x = v \<and> revision x = r \<and>
     (serial_number x = NULL \<longleftrightarrow> serial = None) \<and>
     (\<forall>s. serial = Some s \<longrightarrow> deref (serial_number x) w = Some s)"
  by (cases d) (auto simp: not_static_conv mset_subset_eq_exists_conv)

interpretation device_new: constructor libusbp_device_free dev_res wf_device "device_create E" NULL
    "\<lambda>d w. \<exists>n. d = Some n \<and> (UdevDevice, n) \<in># live w"
    "\<lambda>d r. wf_device r \<and> (\<exists>n i. d = Some n \<and> dev_view r = Some i \<and> describes E n i)"
    for E :: "'e libudev_scheme"
  by unfold_locales (auto intro!: device_create_wp)

section \<open>Properties\<close>

text \<open>
  Making a device object from a live libudev device never faults.  It gives a device whose
  path, serial number, vendor, product and revision are the ones libudev reports for that device
  (IDs parsed as hexadecimal), or an error and no device; freeing whatever was made brings the
  ledger back, apart from the error.
\<close>

theorem device_create_correct:
  assumes "(UdevDevice, n) \<in># live w"
  shows "runs (device_create E (Some n) w) (\<lambda>(e, d) w'.
    (if e = NULL then \<exists>i. dev_view d = Some i \<and> describes E n i else d = NULL) \<and>
    (\<exists>w''. libusbp_device_free d w' = Some w'' \<and> live w'' = live w + err_res e))"
  by (rule device_create_wp [OF assms]) (auto simp: device.rel_ok)

theorem device_create_correct_witness:
  "runs (device_create plenty_udev (Some 0) \<lparr>next_id = 1, live = {#(UdevDevice, 0)#}\<rparr>)
     (\<lambda>(e, d) w'. \<exists>w''. libusbp_device_free d w' = Some w'' \<and>
        live w'' = {#(UdevDevice, 0)#} + err_res e)"
  by (rule runs_mono [OF device_create_correct]) auto

text \<open>
  A copy of a device is independent of its source: after copying, the source can be freed,
  and what remains is exactly the copy, which shows the same path, serial number and IDs; the
  only error is the static memory error, given with no copy when an allocation failed.
\<close>

theorem device_copy_outlives_source:
  assumes "wf_device d" and "live w = L + dev_res d"
  shows "runs (do {
      ((error, copy), w) \<leftarrow> libusbp_device_copy E d True w;
      w \<leftarrow> libusbp_device_free d w;
      Some ((error, copy), w)
    }) (\<lambda>(e, c) w'. live w' = L + dev_res c \<and>
      (if e = NULL then wf_device c \<and> dev_view c = dev_view d
       else e = error_no_memory \<and> c = NULL \<and> \<not> memory_ok E))"
  using assms by (auto simp: libusbp_device_free_ok intro!: wp)

definition demo_device :: device where
  "demo_device = Heap 0 \<lparr>syspath = Heap 1 ''/sys/d'', serial_number = NULL,
     product_id = 0x9502, vendor_id = 0x1FFB, revision = 0x0100\<rparr>"

lemma demo_device_simps [simp]:
  "wf_device demo_device" "dev_res demo_device = {#(Mem, 0), (Mem, 1)#}"
  "dev_view demo_device = Some ((''/sys/d'', None), 0x9502, 0x1FFB, 0x0100)"
  by (simp_all add: demo_device_def)

theorem device_copy_outlives_source_witness:
  "runs (do {
      ((error, copy), w) \<leftarrow> libusbp_device_copy plenty demo_device True
        \<lparr>next_id = 2, live = {#(Mem, 0), (Mem, 1)#}\<rparr>;
      w \<leftarrow> libusbp_device_free demo_device w;
      Some ((error, copy), w)
    }) (\<lambda>(e, c) w'. live w' = dev_res c \<and> e = NULL \<and>
      dev_view c = Some ((''/sys/d'', None), 0x9502, 0x1FFB, 0x0100))"
  by (rule runs_mono [OF device_copy_outlives_source [where L = "{#}"]]) (auto split: if_splits)

text \<open>
  The getters of a device report exactly what the device holds.  The IDs are returned
  without touching the world; the OS ID is a fresh copy of the path; the serial number is a fresh
  copy when there is one, and otherwise no string and an error with the code
  \<open>LIBUSBP_ERROR_NO_SERIAL_NUMBER\<close>.
\<close>

theorem device_getters:
  assumes "wf_device d" and "dev_res d \<subseteq># live w"
    and "dev_view d = Some ((path, serial), p, v, r)" and "memory_ok E"
  shows "libusbp_device_get_vendor_id E d True w = Some ((NULL, v), w) \<and>
    libusbp_device_get_product_id E d True w = Some ((NULL, p), w) \<and>
    libusbp_device_get_revision E d True w = Some ((NULL, r), w) \<and>
    runs (libusbp_device_get_os_id E d True w) (\<lambda>(e, s) w'.
      e = NULL \<and> str_view s = Some path \<and> live w' = live w + blk s) \<and>
    runs (libusbp_device_get_serial_number E d True w) (\<lambda>(e, s) w'. str_view s = serial \<and>
      live w' = live w + blk s + err_res e \<and> (e = NULL \<longleftrightarrow> serial \<noteq> None) \<and>
      libusbp_error_has_code e (code_of LIBUSBP_ERROR_NO_SERIAL_NUMBER) w' = Some (serial = None))"
proof -
  from dev_viewD [OF assms(3,1,2)] show ?thesis
    using assms(4)
    by (auto simp: libusbp_device_get_vendor_id_def libusbp_device_get_product_id_def
        libusbp_device_get_revision_def libusbp_device_get_os_id_def
        libusbp_device_get_serial_number_def libusbp_error_has_code_ok says_def
        simp flip: not_None_eq intro!: wp split: option.splits)
qed

theorem device_getters_witness:
  "libusbp_device_get_vendor_id plenty demo_device True
      \<lparr>next_id = 2, live = {#(Mem, 0), (Mem, 1)#}\<rparr> =
     Some ((NULL, 0x1FFB), \<lparr>next_id = 2, live = {#(Mem, 0), (Mem, 1)#}\<rparr>)"
  by (rule device_getters [where path = "''/sys/d''" and serial = None and p = "0x9502" and r = "0x0100",
        THEN conjunct1]) simp_all

end
