(* ===== verification/Usbfd.thy ===== *)
theory Usbfd
  imports Udev
begin

text \<open>
  \<open>src/src/linux/usbfd_linux.c\<close>: the calls on USB device node files, with the system calls as a
  parameter, and the part of the kernel's state they change: the request blocks that were
  submitted and not reaped yet.  A request block is embedded in the transfer that submits it, so
  the address of the transfer stands for both.
\<close>

section \<open>Requests\<close>

text \<open>
  \<open>struct usbdevfs_urb\<close> (the fields the library reads or writes) and the transfer it is part of.
  A reference to a transfer is the identity of its block; \<open>None\<close> is NULL.
\<close>

record usbdevfs_urb =
  urb_type :: "8 word"
  endpoint :: "8 word"
  status :: int
  buffer :: "8 word list ptr"
  buffer_length :: int
  actual_length :: int
  error_count :: int
  usercontext :: "nat option"

record async_in_transfer =
  urb :: usbdevfs_urb
  pending :: bool
  t_error :: err
  t_fd :: "nat option"

text \<open>
  Transfers are shared with the kernel and changed in place, so they live in a store.
  \<open>kernel_urbs\<close> lists what the kernel holds: the file descriptor and the transfer.
\<close>

record usb_world = world +
  transfers :: "nat \<Rightarrow> async_in_transfer option"
  kernel_urbs :: "(nat \<times> nat) list"

record libusbp_setup_packet =
  bmRequestType :: "8 word"
  bRequest :: "8 word"
  wValue :: "16 word"
  wIndex :: "16 word"
  wLength :: "16 word"

record usb_device_descriptor =
  idVendor :: "16 word"
  idProduct :: "16 word"
  bcdDevice :: "16 word"

section \<open>System calls\<close>

text \<open>
  \<open>heap_bytes\<close> gives the bytes a fresh block of \<open>malloc\<close> happens to hold.
  Every system call is an event with a number of its own (it takes the next identity), and the
  environment says for every event what the kernel answers: an \<open>errno\<close> value, or the results.
  So any behaviour over time is some environment.
\<close>

datatype reap = Reap_errno int | Reap_urb nat int int int "8 word list"

record usb_system = libudev +
  heap_bytes :: "nat \<Rightarrow> nat \<Rightarrow> 8 word"
  sys_access :: "nat \<Rightarrow> string \<Rightarrow> int"
  sys_open :: "nat \<Rightarrow> string \<Rightarrow> int"
  sys_lseek :: "nat \<Rightarrow> nat \<Rightarrow> int"
  sys_read :: "nat \<Rightarrow> nat \<Rightarrow> int + int \<times> usb_device_descriptor"
  ioctl_control :: "nat \<Rightarrow> nat \<Rightarrow> libusbp_setup_packet \<Rightarrow> 32 word \<Rightarrow> 8 word list option \<Rightarrow>
    int + nat \<times> 8 word list"
  ioctl_bulk :: "nat \<Rightarrow> nat \<Rightarrow> 8 word \<Rightarrow> nat \<Rightarrow> 32 word \<Rightarrow> 8 word list option \<Rightarrow>
    int + nat \<times> 8 word list"
  ioctl_submiturb :: "nat \<Rightarrow> nat \<Rightarrow> usbdevfs_urb \<Rightarrow> int"
  ioctl_reapurbndelay :: "nat \<Rightarrow> nat \<Rightarrow> reap"
  ioctl_discardurb :: "nat \<Rightarrow> nat \<Rightarrow> nat \<Rightarrow> int"

abbreviation (input) "EBADF \<equiv> (9 :: int)"

definition fd_open :: "nat option \<Rightarrow> 'w world_scheme \<Rightarrow> nat option" where
  "fd_open f w = (case f of None \<Rightarrow> None
     | Some n \<Rightarrow> if (FileDescriptor, n) \<in># live w then Some n else None)"

text \<open>
  \<open>open\<close> gives a new descriptor.  \<open>close\<close> of a descriptor that is not open is an error the
  library never makes; it counts as a fault.  When a descriptor is closed the kernel unlinks the
  requests submitted on it, and they cannot be reaped any more.
\<close>

definition open_fd :: "'e usb_system_scheme \<Rightarrow> string \<Rightarrow> 'w world_scheme
    \<Rightarrow> ((int + nat) \<times> 'w world_scheme) option" where
  "open_fd E filename w = (let errno = sys_open E (next_id w) filename in
     if errno = 0 then Some (Inr (next_id w), take_res FileDescriptor w)
     else Some (Inl errno, tick w))"

definition close_fd :: "nat \<Rightarrow> 'w usb_world_scheme \<Rightarrow> 'w usb_world_scheme option" where
  "close_fd f w = do {
     w \<leftarrow> release (FileDescriptor, f) w;
     Some (w\<lparr>kernel_urbs := filter (\<lambda>(g, t). g \<noteq> f) (kernel_urbs w)\<rparr>)
   }"

text \<open>The transfer at an address: reading or writing a transfer that is not live is a fault.\<close>

definition get_transfer :: "nat option \<Rightarrow> 'w usb_world_scheme \<Rightarrow> (nat \<times> async_in_transfer) option" where
  "get_transfer t w = (case t of None \<Rightarrow> None
     | Some n \<Rightarrow> if (Mem, n) \<in># live w then map_option (Pair n) (transfers w n) else None)"

definition put_transfer :: "nat \<Rightarrow> async_in_transfer \<Rightarrow> 'w usb_world_scheme \<Rightarrow> 'w usb_world_scheme" where
  "put_transfer n x w = w\<lparr>transfers := (transfers w)(n \<mapsto> x)\<rparr>"

text \<open>
  What the kernel writes to a caller's buffer on an IN transfer: at most \<open>limit\<close> bytes.  A buffer
  shorter than what is written is a fault; nothing is written through a NULL pointer.
\<close>

definition kernel_write :: "nat \<Rightarrow> 8 word list \<Rightarrow> 8 word list option \<Rightarrow> 8 word list option option" where
  "kernel_write limit bytes data = (case data of None \<Rightarrow> Some None
     | Some old \<Rightarrow> (let b = take limit bytes in
         if length b \<le> length old then Some (Some (b @ drop (length b) old)) else None))"

text \<open>
  The reaping of a request block: the kernel picks one of the blocks submitted on the descriptor,
  writes the results to the transfer and its buffer, and forgets it.
\<close>

definition reap_fd :: "'e usb_system_scheme \<Rightarrow> nat option \<Rightarrow> 'w usb_world_scheme
    \<Rightarrow> ((int + nat) \<times> 'w usb_world_scheme) option" where
  "reap_fd E f w =
     (case fd_open f w of None \<Rightarrow> Some (Inl EBADF, tick w)
      | Some g \<Rightarrow>
          (case ioctl_reapurbndelay E (next_id w) g of
             Reap_errno n \<Rightarrow> Some (Inl n, tick w)
           | Reap_urb k st al ec bytes \<Rightarrow>
               (let mine = filter (\<lambda>(h, t). h = g) (kernel_urbs w) in
                if mine = [] then Some (Inl EAGAIN, tick w)
                else do {
                  let i = snd (mine ! (k mod length mine));
                  (i, x) \<leftarrow> get_transfer (Some i) w;
                  old \<leftarrow> deref (buffer (urb x)) w;
                  let b = take (nat (buffer_length (urb x))) bytes;
                  buf \<leftarrow> (if length b \<le> length old
                    then store (buffer (urb x)) (b @ drop (length b) old) w else None);
                  let x = x\<lparr>urb := (urb x)\<lparr>status := st, actual_length := al,
                    error_count := ec, buffer := buf\<rparr>\<rparr>;
                  let w = put_transfer i x w;
                  let w = tick (w\<lparr>kernel_urbs := remove1 (g, i) (kernel_urbs w)\<rparr>);
                  Some (Inr i, w)
                })))"

section \<open>The operations of usbfd_linux.c\<close>

definition usbfd_check_existence :: "'e usb_system_scheme \<Rightarrow> string \<Rightarrow> 'w world_scheme
    \<Rightarrow> (err \<times> 'w world_scheme) option" where
  "usbfd_check_existence E filename w = do {
     let errno = sys_access E (next_id w) filename;
     let w = tick w;
     if errno \<noteq> 0 then
       (if errno = ENOENT then do {
          (error, w) \<leftarrow> error_create E (''File does not exist: '' @ filename @ ''.'') w;
          error_add_code E error (code_of LIBUSBP_ERROR_NOT_READY) w
        }
        else error_create_errno E errno (''Failed to check file: '' @ filename @ ''.'') w)
     else Some (NULL, w)
   }"

definition usbfd_open :: "'e usb_system_scheme \<Rightarrow> string \<Rightarrow> 'w world_scheme
    \<Rightarrow> ((err \<times> nat option) \<times> 'w world_scheme) option" where
  "usbfd_open E filename w = do {
     (r, w) \<leftarrow> open_fd E filename w;
     case r of
       Inl errno \<Rightarrow> do {
         (error, w) \<leftarrow> error_create_errno E errno
           (''Failed to open USB device '' @ filename @ ''.'') w;
         Some ((error, None), w)
       }
     | Inr n \<Rightarrow> Some ((NULL, Some n), w)
   }"

definition usbfd_get_device_descriptor :: "'e usb_system_scheme \<Rightarrow> nat \<Rightarrow> 'w world_scheme
    \<Rightarrow> ((err \<times> usb_device_descriptor option) \<times> 'w world_scheme) option" where
  "usbfd_get_device_descriptor E f w = do {
     let errno = (if fd_open (Some f) w = None then EBADF else sys_lseek E (next_id w) f);
     let w = tick w;
     if errno \<noteq> 0 then do {
       (error, w) \<leftarrow> error_create_errno E errno
         ''Failed to go to beginning of USB device file.'' w;
       Some ((error, None), w)
     }
     else do {
       let expected_size = 18;
       let r = sys_read E (next_id w) f;
       let w = tick w;
       case r of
         Inl errno \<Rightarrow> do {
           (error, w) \<leftarrow> error_create_errno E errno ''Failed to read device descriptor.'' w;
           Some ((error, None), w)
         }
       | Inr (n, desc) \<Rightarrow>
           (if n \<noteq> expected_size then do {
              (error, w) \<leftarrow> error_create E
                (''Failed to read device descriptor.  Expected '' @ fmt_d expected_size @
                 ''-byte device descriptor, read '' @ fmt_d n @ '' bytes.'') w;
              Some ((error, None), w)
            }
            else Some ((NULL, Some desc), w))
     }
   }"

text \<open>
  The transfer calls return the number of bytes transferred (\<open>*transferred\<close>) and the caller's
  buffer as the kernel leaves it.
\<close>

definition usbfd_control_transfer :: "'e usb_system_scheme \<Rightarrow> nat \<Rightarrow> libusbp_setup_packet
    \<Rightarrow> 32 word \<Rightarrow> 8 word list option \<Rightarrow> 'w world_scheme
    \<Rightarrow> ((err \<times> nat \<times> 8 word list option) \<times> 'w world_scheme) option" where
  "usbfd_control_transfer E f setup timeout data w = do {
     let r = (if fd_open (Some f) w = None then Inl EBADF
       else ioctl_control E (next_id w) f setup timeout data);
     let w = tick w;
     case r of
       Inl errno \<Rightarrow> do {
         (error, w) \<leftarrow> error_create_errno E errno ''Control transfer failed.'' w;
         Some ((error, 0, data), w)
       }
     | Inr (result, bytes) \<Rightarrow> do {
         data \<leftarrow> (if bmRequestType setup AND 0x80 \<noteq> 0
           then kernel_write (unat (wLength setup)) bytes data else Some data);
         Some ((NULL, result, data), w)
       }
   }"

definition UINT_MAX :: nat where
  "UINT_MAX = 2 ^ 32 - 1"

definition usbfd_bulk_or_interrupt_transfer :: "'e usb_system_scheme \<Rightarrow> nat \<Rightarrow> 8 word
    \<Rightarrow> 32 word \<Rightarrow> 8 word list option \<Rightarrow> nat \<Rightarrow> 'w world_scheme
    \<Rightarrow> ((err \<times> nat \<times> 8 word list option) \<times> 'w world_scheme) option" where
  "usbfd_bulk_or_interrupt_transfer E f pipe timeout data n w =
     (if n = 0 \<and> pipe AND 0x80 \<noteq> 0 then do {
        (error, w) \<leftarrow> error_create E ''Transfer size 0 is not allowed.'' w;
        Some ((error, 0, data), w)
      }
      else if n > UINT_MAX then do {
        (error, w) \<leftarrow> error_create E ''Transfer size is too large.'' w;
        Some ((error, 0, data), w)
      }
      else if data = None \<and> n \<noteq> 0 then do {
        (error, w) \<leftarrow> error_create E ''Buffer is null.'' w;
        Some ((error, 0, data), w)
      }
      else do {
        let r = (if fd_open (Some f) w = None then Inl EBADF
          else ioctl_bulk E (next_id w) f pipe n timeout data);
        let w = tick w;
        case r of
          Inl errno \<Rightarrow> do {
            (error, w) \<leftarrow> error_create_errno E errno '''' w;
            Some ((error, 0, data), w)
          }
        | Inr (result, bytes) \<Rightarrow> do {
            data \<leftarrow> (if pipe AND 0x80 \<noteq> 0 then kernel_write n bytes data else Some data);
            Some ((NULL, result, data), w)
          }
      })"

definition usbfd_submit_urb :: "'e usb_system_scheme \<Rightarrow> nat option \<Rightarrow> nat
    \<Rightarrow> 'w usb_world_scheme \<Rightarrow> (err \<times> 'w usb_world_scheme) option" where
  "usbfd_submit_urb E f t w = do {
     (t, x) \<leftarrow> get_transfer (Some t) w;
     case fd_open f w of
       None \<Rightarrow> error_create_errno E EBADF ''Submitting USB request block failed.'' (tick w)
     | Some g \<Rightarrow> do {
         let errno = ioctl_submiturb E (next_id w) g (urb x);
         let w = tick w;
         if errno \<noteq> 0
         then error_create_errno E errno ''Submitting USB request block failed.'' w
         else Some (NULL, w\<lparr>kernel_urbs := kernel_urbs w @ [(g, t)]\<rparr>)
       }
   }"

definition usbfd_reap_urb :: "'e usb_system_scheme \<Rightarrow> nat option \<Rightarrow> 'w usb_world_scheme
    \<Rightarrow> ((err \<times> nat option) \<times> 'w usb_world_scheme) option" where
  "usbfd_reap_urb E f w = do {
     (r, w) \<leftarrow> reap_fd E f w;
     case r of
       Inl errno \<Rightarrow>
         (if errno = EAGAIN then Some ((NULL, None), w)
          else do {
            (error, w) \<leftarrow> error_create_errno E errno
              ''Failed to reap an asynchronous transfer.'' w;
            Some ((error, None), w)
          })
     | Inr t \<Rightarrow> Some ((NULL, Some t), w)
   }"

definition usbfd_discard_urb :: "'e usb_system_scheme \<Rightarrow> nat option \<Rightarrow> nat
    \<Rightarrow> 'w usb_world_scheme \<Rightarrow> (err \<times> 'w usb_world_scheme) option" where
  "usbfd_discard_urb E f t w = do {
     let errno = (case fd_open f w of None \<Rightarrow> EBADF
       | Some g \<Rightarrow> ioctl_discardurb E (next_id w) g t);
     let w = tick w;
     if errno \<noteq> 0 then
       (if errno = EINVAL then Some (NULL, w)
        else error_create_errno E errno ''Failed to cancel asynchronous transfer.'' w)
     else Some (NULL, w)
   }"

section \<open>Contracts\<close>

lemma usb_fields_of_more:
  fixes w w' :: "'w usb_world_scheme"
  assumes "world.more w' = world.more w"
  shows "transfers w' = transfers w" "kernel_urbs w' = kernel_urbs w"
  using assms by (cases w; cases w'; simp)+

lemma usb_fields_tick [simp]:
  "transfers (tick w) = transfers w" "kernel_urbs (tick w) = kernel_urbs w"
  by (simp_all add: tick_def)

lemma usb_fields_res [simp]:
  "transfers (take_res k w) = transfers w" "kernel_urbs (take_res k w) = kernel_urbs w"
  "transfers (drop_res R w) = transfers w" "kernel_urbs (drop_res R w) = kernel_urbs w"
  by (simp_all add: take_res_def drop_res_def)

lemma runs_case_sum [wp]:
  "(\<And>a. r = Inl a \<Longrightarrow> runs (f a) Q) \<Longrightarrow> (\<And>b. r = Inr b \<Longrightarrow> runs (g b) Q) \<Longrightarrow>
   runs (case r of Inl a \<Rightarrow> f a | Inr b \<Rightarrow> g b) Q"
  by (cases r) simp_all

lemma usbfd_check_existence_checks:
  "runs (usbfd_check_existence E filename w) (checks True (\<lambda>_. True) w)"
  by (auto simp: usbfd_check_existence_def Let_def later_def says_def intro!: wp)

lemmas usbfd_check_existence_wp [wp] = checks_wp [OF usbfd_check_existence_checks]

lemma open_fd_wp [wp]:
  assumes "\<And>n w'. next_id w \<le> n \<Longrightarrow> later w w' \<Longrightarrow>
      live w' = add_mset (FileDescriptor, n) (live w) \<Longrightarrow> Q (Inr n) w'"
    and "\<And>n w'. later w w' \<Longrightarrow> live w' = live w \<Longrightarrow> Q (Inl n) w'"
  shows "runs (open_fd E filename w) Q"
  using assms(1) [of "next_id w" "take_res FileDescriptor w"] assms(2) [of "tick w"]
  by (simp add: open_fd_def Let_def later_def)

lemma usbfd_open_gives:
  "runs (usbfd_open E filename w)
     (gives (opt_res FileDescriptor) None (\<lambda>r. \<exists>n. r = Some n \<and> next_id w \<le> n) (\<lambda>_. True) w)"
  by (auto simp: usbfd_open_def later_def says_def intro!: wp)

lemmas usbfd_open_wp [wp] = gives_wp [OF usbfd_open_gives]

lemma usbfd_get_device_descriptor_gives:
  "runs (usbfd_get_device_descriptor E f w) (gives nothing None
     (\<lambda>r. \<exists>d n. r = Some d \<and> sys_read E n f = Inr (18, d)) (\<lambda>_. True) w)"
  by (auto simp: usbfd_get_device_descriptor_def Let_def later_def says_def intro!: wp)

lemmas usbfd_get_device_descriptor_wp [wp] = gives_wp [OF usbfd_get_device_descriptor_gives]

text \<open>A buffer that the kernel may write up to \<open>n\<close> bytes to, and one it has written to.\<close>

definition room_for :: "nat \<Rightarrow> 8 word list option \<Rightarrow> bool" where
  "room_for n data \<longleftrightarrow> (\<forall>old. data = Some old \<longrightarrow> n \<le> length old)"

definition written :: "bool \<Rightarrow> nat \<Rightarrow> 8 word list option \<Rightarrow> 8 word list option \<Rightarrow> bool" where
  "written is_in n data data' \<longleftrightarrow> (if is_in
     then map_option length data' = map_option length data \<and>
       map_option (drop n) data' = map_option (drop n) data
     else data' = data)"

lemma kernel_write_bind [wp]:
  assumes "room_for n data" "\<And>data'. kernel_write n bytes data = Some data' \<Longrightarrow>
      written True n data data' \<Longrightarrow> runs (f data') Q"
  shows "runs (Option.bind (kernel_write n bytes data) f) Q"
  using assms by (cases data) (auto simp: kernel_write_def room_for_def written_def Let_def)

lemma written_out [simp]: "written False n data data"
  by (simp add: written_def)

text \<open>What a successful transfer returns: what the kernel answered, with an IN buffer written.\<close>

definition control_result :: "'e usb_system_scheme \<Rightarrow> nat \<Rightarrow> libusbp_setup_packet \<Rightarrow> 32 word
    \<Rightarrow> 8 word list option \<Rightarrow> nat \<times> 8 word list option \<Rightarrow> bool" where
  "control_result E f setup timeout data = (\<lambda>(k, data'). \<exists>i bytes.
     ioctl_control E i f setup timeout data = Inr (k, bytes) \<and>
     (if bmRequestType setup AND 0x80 \<noteq> 0
      then kernel_write (unat (wLength setup)) bytes data = Some data' else data' = data))"

definition bulk_result :: "'e usb_system_scheme \<Rightarrow> nat \<Rightarrow> 8 word \<Rightarrow> 32 word
    \<Rightarrow> 8 word list option \<Rightarrow> nat \<Rightarrow> nat \<times> 8 word list option \<Rightarrow> bool" where
  "bulk_result E f pipe timeout data n = (\<lambda>(k, data'). \<exists>i bytes.
     ioctl_bulk E i f pipe n timeout data = Inr (k, bytes) \<and>
     (if pipe AND 0x80 \<noteq> 0 then kernel_write n bytes data = Some data' else data' = data))"

lemma usbfd_control_transfer_gives:
  assumes "bmRequestType setup AND 0x80 \<noteq> 0 \<longrightarrow> room_for (unat (wLength setup)) data"
  shows "runs (usbfd_control_transfer E f setup timeout data w) (gives nothing (0, data)
     (control_result E f setup timeout data) (\<lambda>_. True) w)"
proof (cases "if fd_open (Some f) w = None then Inl EBADF
    else ioctl_control E (next_id w) f setup timeout data")
  case (Inl n)
  then show ?thesis
    by (auto simp: usbfd_control_transfer_def Let_def later_def says_def intro!: wp)
next
  case (Inr r)
  obtain k bytes where r: "r = (k, bytes)" by (cases r)
  with Inr have k: "ioctl_control E (next_id w) f setup timeout data = Inr (k, bytes)"
    by (simp split: if_splits)
  have "control_result E f setup timeout data (k, data')"
    if "if bmRequestType setup AND 0x80 \<noteq> 0
      then kernel_write (unat (wLength setup)) bytes data = Some data' else data' = data" for data'
    unfolding control_result_def prod.case using k that by blast
  then show ?thesis
    using assms Inr r
    by (auto simp: usbfd_control_transfer_def Let_def later_def intro!: wp)
qed

lemma usbfd_bulk_or_interrupt_transfer_gives:
  assumes "pipe AND 0x80 \<noteq> 0 \<longrightarrow> room_for n data"
  shows "runs (usbfd_bulk_or_interrupt_transfer E f pipe timeout data n w) (gives nothing (0, data)
     (bulk_result E f pipe timeout data n) (\<lambda>_. True) w)"
proof (cases "if fd_open (Some f) w = None then Inl EBADF
    else ioctl_bulk E (next_id w) f pipe n timeout data")
  case (Inl m)
  then show ?thesis
    by (auto simp: usbfd_bulk_or_interrupt_transfer_def Let_def later_def says_def intro!: wp)
next
  case (Inr r)
  obtain k bytes where r: "r = (k, bytes)" by (cases r)
  with Inr have k: "ioctl_bulk E (next_id w) f pipe n timeout data = Inr (k, bytes)"
    by (simp split: if_splits)
  have "bulk_result E f pipe timeout data n (k, data')"
    if "if pipe AND 0x80 \<noteq> 0 then kernel_write n bytes data = Some data' else data' = data" for data'
    unfolding bulk_result_def prod.case using k that by blast
  then show ?thesis
    using assms Inr r
    by (auto simp: usbfd_bulk_or_interrupt_transfer_def Let_def later_def says_def intro!: wp)
qed

lemmas usbfd_transfer_wp [wp] = gives_wp [OF usbfd_control_transfer_gives]
  gives_wp [OF usbfd_bulk_or_interrupt_transfer_gives]

section \<open>Properties\<close>

text \<open>A machine on which every system call succeeds; nothing completes until it is asked for.\<close>

definition plenty_system :: usb_system where
  "plenty_system = libudev.extend plenty_udev (usb_system.fields (\<lambda>n i. 0) (\<lambda>n f. 0) (\<lambda>n f. 0) (\<lambda>n f. 0)
     (\<lambda>n f. Inr (18, \<lparr>idVendor = 0, idProduct = 0, bcdDevice = 0\<rparr>))
     (\<lambda>n f s t d. Inr (unat (wLength s), replicate (unat (wLength s)) 0))
     (\<lambda>n f p k t d. Inr (k, replicate k 1)) (\<lambda>n f u. 0)
     (\<lambda>n f. Reap_urb 0 0 2 0 [1, 2]) (\<lambda>n f t. 0))"

lemma memory_ok_plenty_system [simp]: "memory_ok plenty_system"
  by (simp add: memory_ok_def plenty_system_def plenty_udev_def libudev.defs)

lemma plenty_system_simps [simp]:
  "malloc_ok plenty_system n" "sys_access plenty_system n s = 0" "sys_open plenty_system n s = 0"
  "sys_lseek plenty_system n f = 0"
  "sys_read plenty_system n f = Inr (18, \<lparr>idVendor = 0, idProduct = 0, bcdDevice = 0\<rparr>)"
  "ioctl_bulk plenty_system n f p k t d = Inr (k, replicate k 1)"
  "ioctl_submiturb plenty_system n f u = 0"
  "ioctl_reapurbndelay plenty_system n f = Reap_urb 0 0 2 0 [1, 2]"
  "ioctl_discardurb plenty_system n f i = 0"
  by (simp_all add: plenty_system_def plenty_udev_def libudev.defs usb_system.defs)

text \<open>
  A bulk or interrupt transfer never overruns the caller's buffer: an IN transfer of \<open>n\<close>
  bytes into a buffer of at least \<open>n\<close> bytes does not fault, keeps the length of the buffer and
  everything after the first \<open>n\<close> bytes, and an OUT transfer changes nothing.  Empty IN requests,
  sizes that do not fit an unsigned int and missing buffers are always refused, with 0 bytes
  transferred and the buffer untouched, as on every other error.
\<close>

theorem bulk_transfer_bounds:
  assumes "pipe AND 0x80 \<noteq> 0 \<longrightarrow> (\<forall>old. data = Some old \<longrightarrow> n \<le> length old)"
  shows "runs (usbfd_bulk_or_interrupt_transfer E f pipe timeout data n w) (\<lambda>(e, k, data') w'.
    live w' = live w + err_res e \<and>
    map_option length data' = map_option length data \<and>
    map_option (drop n) data' = map_option (drop n) data \<and>
    (pipe AND 0x80 = 0 \<or> e \<noteq> NULL \<longrightarrow> data' = data) \<and>
    (e \<noteq> NULL \<longrightarrow> k = 0) \<and>
    (n = 0 \<and> pipe AND 0x80 \<noteq> 0 \<or> n > UINT_MAX \<or> data = None \<and> n \<noteq> 0 \<longrightarrow> e \<noteq> NULL))"
  using assms
  by (auto simp: usbfd_bulk_or_interrupt_transfer_def Let_def later_def says_def written_def
      room_for_def split: if_splits intro!: wp)

theorem bulk_transfer_bounds_witness:
  "runs (usbfd_bulk_or_interrupt_transfer plenty_system 0 0x81 100 (Some [7, 8, 9]) 2
       \<lparr>next_id = 1, live = {#(FileDescriptor, 0)#}\<rparr>)
     (\<lambda>(e, k, data) w'. map_option (drop 2) data = Some [9]) \<and>
   usbfd_bulk_or_interrupt_transfer plenty_system 0 0x81 100 (Some [7, 8, 9]) 2
       \<lparr>next_id = 1, live = {#(FileDescriptor, 0)#}\<rparr> =
     Some ((NULL, 2, Some [1, 1, 9]), \<lparr>next_id = 2, live = {#(FileDescriptor, 0)#}\<rparr>)"
proof
  show "runs (usbfd_bulk_or_interrupt_transfer plenty_system 0 0x81 100 (Some [7, 8, 9]) 2
       \<lparr>next_id = 1, live = {#(FileDescriptor, 0)#}\<rparr>)
     (\<lambda>(e, k, data) w'. map_option (drop 2) data = Some [9])"
    by (rule runs_mono [OF bulk_transfer_bounds]) auto
  show "usbfd_bulk_or_interrupt_transfer plenty_system 0 0x81 100 (Some [7, 8, 9]) 2
       \<lparr>next_id = 1, live = {#(FileDescriptor, 0)#}\<rparr> =
     Some ((NULL, 2, Some [1, 1, 9]), \<lparr>next_id = 2, live = {#(FileDescriptor, 0)#}\<rparr>)"
    by (simp add: usbfd_bulk_or_interrupt_transfer_def UINT_MAX_def fd_open_def kernel_write_def
        Let_def tick_def)
      (simp add: numeral_2_eq_2)
qed

end
