(* ===== verification/GenericInterface.thy ===== *)
theory GenericInterface
  imports DeviceLinux Usbfd
begin

text \<open>
  \<open>src/src/linux/generic_interface_linux.c\<close>: generic interfaces, which name one interface of a
  device and the node file that gives access to it.
\<close>

section \<open>The operations of generic_interface_linux.c\<close>

record libusbp_generic_interface =
  gi_device :: device
  gi_interface_number :: "8 word"
  gi_syspath :: cstr
  gi_filename :: cstr

type_synonym generic_interface = "libusbp_generic_interface ptr"

definition check_driver_installation :: "'e libudev_scheme \<Rightarrow> nat option \<Rightarrow> 'w world_scheme
    \<Rightarrow> (err \<times> 'w world_scheme) option" where
  "check_driver_installation E device w = do {
     d \<leftarrow> device;
     borrow (UdevDevice, d) w;
     case udev_device_get_driver E d of
       None \<Rightarrow> Some (NULL, w)
     | Some driver_name \<Rightarrow>
         (if driver_name \<noteq> ''usbfs'' \<and> driver_name \<noteq> ''cp210x''
          then error_create E
            (''Device is attached to an incorrect driver: '' @ driver_name @ ''.'') w
          else Some (NULL, w))
   }"

definition libusbp_generic_interface_create :: "'e usb_system_scheme \<Rightarrow> device \<Rightarrow> 8 word \<Rightarrow> bool
    \<Rightarrow> 'w world_scheme \<Rightarrow> ((err \<times> generic_interface) \<times> 'w world_scheme) option" where
  "libusbp_generic_interface_create E device interface_number gi_given w =
     (if \<not> gi_given then do {
        (error, w) \<leftarrow> error_create E ''Generic interface output pointer is null.'' w;
        Some ((error, NULL), w)
      }
      else if device = NULL then do {
        (error, w) \<leftarrow> error_create E ''Device is null.'' w;
        Some ((error, NULL), w)
      }
      else do {
        (new_gi, w) \<leftarrow> malloc E w;
        let error = (if new_gi = NULL then error_no_memory else NULL);
        ((error, new_device), w) \<leftarrow> ok_then error NULL (libusbp_device_copy E device True) w;
        ((error, new_device_syspath), w) \<leftarrow> ok_then error NULL
          (libusbp_device_get_os_id E new_device True) w;
        ((error, new_udev), w) \<leftarrow> ok_then error None (udevw_create_context E) w;
        ((error, new_dev), w) \<leftarrow> ok_then error None (\<lambda>w. do {
          path \<leftarrow> deref new_device_syspath w;
          udevw_get_interface E new_udev path interface_number w
        }) w;
        (error, w) \<leftarrow> ok_do error (check_driver_installation E new_dev) w;
        ((error, new_interface_syspath), w) \<leftarrow> ok_then error NULL
          (udevw_get_syspath_copy E new_dev) w;
        ((error, new_filename), w) \<leftarrow> ok_then error NULL (\<lambda>w. do {
          path \<leftarrow> deref new_device_syspath w;
          udevw_get_devnode_copy_from_syspath E path w
        }) w;
        (error, w) \<leftarrow> ok_do error (\<lambda>w. do {
          filename \<leftarrow> deref new_filename w;
          usbfd_check_existence E filename w
        }) w;
        (gi, new_device, new_interface_syspath, new_filename, new_gi) \<leftarrow>
          (if error = NULL then do {
             gi \<leftarrow> store new_gi \<lparr>gi_device = new_device,
               gi_interface_number = interface_number, gi_syspath = new_interface_syspath,
               gi_filename = new_filename\<rparr> w;
             Some (gi, NULL, NULL, NULL, NULL)
           }
           else Some (NULL, new_device, new_interface_syspath, new_filename, new_gi));
        (error, w) \<leftarrow> (if error \<noteq> NULL
          then error_add E error ''Failed to initialize generic interface.'' w
          else Some (error, w));
        w \<leftarrow> libusbp_string_free new_filename w;
        w \<leftarrow> libusbp_string_free new_interface_syspath w;
        w \<leftarrow> libusbp_string_free new_device_syspath w;
        w \<leftarrow> libusbp_device_free new_device w;
        w \<leftarrow> free new_gi w;
        w \<leftarrow> unref_if UdevDevice new_dev w;
        w \<leftarrow> unref_if UdevContext new_udev w;
        Some ((error, gi), w)
      })"

definition libusbp_generic_interface_free ::
    "generic_interface \<Rightarrow> 'w world_scheme \<Rightarrow> 'w world_scheme option" where
  "libusbp_generic_interface_free gi w =
     (if gi = NULL then Some w
      else do {
        x \<leftarrow> deref gi w;
        w \<leftarrow> libusbp_device_free (gi_device x) w;
        w \<leftarrow> libusbp_string_free (gi_syspath x) w;
        w \<leftarrow> libusbp_string_free (gi_filename x) w;
        free gi w
      })"

text \<open>The last statement of the function is \<open>return NULL\<close>, whatever \<open>error\<close> is.\<close>

definition libusbp_generic_interface_copy :: "'e environment_scheme \<Rightarrow> generic_interface \<Rightarrow> bool
    \<Rightarrow> 'w world_scheme \<Rightarrow> ((err \<times> generic_interface) \<times> 'w world_scheme) option" where
  "libusbp_generic_interface_copy E source dest_given w =
     (if \<not> dest_given then do {
        (error, w) \<leftarrow> error_create E ''Generic interface output pointer is null.'' w;
        Some ((error, NULL), w)
      }
      else if source = NULL then Some ((NULL, NULL), w)
      else do {
        x \<leftarrow> deref source w;
        (new_gi, w) \<leftarrow> malloc E w;
        let error = (if new_gi = NULL then error_no_memory else NULL);
        ((error, new_device), w) \<leftarrow> ok_then error NULL
          (libusbp_device_copy E (gi_device x) True) w;
        ((error, new_syspath), w) \<leftarrow> ok_then error NULL (string_copy E (gi_syspath x)) w;
        ((error, new_filename), w) \<leftarrow> ok_then error NULL (string_copy E (gi_filename x)) w;
        (dest, new_filename, new_syspath, new_device, new_gi) \<leftarrow>
          (if error = NULL then do {
             dest \<leftarrow> store new_gi (x\<lparr>gi_device := new_device, gi_syspath := new_syspath,
               gi_filename := new_filename\<rparr>) w;
             Some (dest, NULL, NULL, NULL, NULL)
           }
           else Some (NULL, new_filename, new_syspath, new_device, new_gi));
        w \<leftarrow> libusbp_string_free new_filename w;
        w \<leftarrow> libusbp_string_free new_syspath w;
        w \<leftarrow> libusbp_device_free new_device w;
        w \<leftarrow> free new_gi w;
        Some ((NULL, dest), w)
      })"

definition libusbp_generic_interface_get_os_id :: "'e environment_scheme \<Rightarrow> generic_interface
    \<Rightarrow> bool \<Rightarrow> 'w world_scheme \<Rightarrow> ((err \<times> cstr) \<times> 'w world_scheme) option" where
  "libusbp_generic_interface_get_os_id E gi given w =
     (if \<not> given then do {
        (error, w) \<leftarrow> error_create E ''String output pointer is null.'' w;
        Some ((error, NULL), w)
      }
      else if gi = NULL then do {
        (error, w) \<leftarrow> error_create E ''Generic interface is null.'' w;
        Some ((error, NULL), w)
      }
      else do { x \<leftarrow> deref gi w; string_copy E (gi_syspath x) w })"

definition libusbp_generic_interface_get_os_filename :: "'e environment_scheme
    \<Rightarrow> generic_interface \<Rightarrow> bool \<Rightarrow> 'w world_scheme
    \<Rightarrow> ((err \<times> cstr) \<times> 'w world_scheme) option" where
  "libusbp_generic_interface_get_os_filename E gi given w =
     (if \<not> given then do {
        (error, w) \<leftarrow> error_create E ''String output pointer is null.'' w;
        Some ((error, NULL), w)
      }
      else if gi = NULL then do {
        (error, w) \<leftarrow> error_create E ''Generic interface is null.'' w;
        Some ((error, NULL), w)
      }
      else do { x \<leftarrow> deref gi w; string_copy E (gi_filename x) w })"

definition generic_interface_get_device_copy :: "'e environment_scheme \<Rightarrow> generic_interface
    \<Rightarrow> 'w world_scheme \<Rightarrow> ((err \<times> device) \<times> 'w world_scheme) option" where
  "generic_interface_get_device_copy E gi w = do {
     x \<leftarrow> deref gi w;
     libusbp_device_copy E (gi_device x) True w
   }"

section \<open>What generic interfaces own\<close>

definition gi_res :: "generic_interface \<Rightarrow> res multiset" where
  "gi_res gi = owns (\<lambda>x. dev_res (gi_device x) + blk (gi_syspath x) + blk (gi_filename x)) gi"

definition wf_gi :: "generic_interface \<Rightarrow> bool" where
  "wf_gi gi = (case gi of NULL \<Rightarrow> True
     | Heap n x \<Rightarrow> wf_device (gi_device x) \<and> gi_device x \<noteq> NULL \<and>
         (\<exists>m s. gi_syspath x = Heap m s) \<and> (\<exists>m s. gi_filename x = Heap m s)
     | Static x \<Rightarrow> False)"

text \<open>What a caller can see of a generic interface: device, number, path and file name.\<close>

definition gi_view :: "generic_interface \<Rightarrow> (device_info option \<times> 8 word \<times> string \<times> string) option" where
  "gi_view gi = (case gi of
     Heap n x \<Rightarrow> Some (dev_view (gi_device x), gi_interface_number x,
       contents '''' (gi_syspath x), contents '''' (gi_filename x))
   | _ \<Rightarrow> None)"

lemma gi_simps [simp]:
  "gi_res NULL = {#}" "wf_gi NULL" "gi_view NULL = None" "\<not> wf_gi (Static x)"
  "gi_res (Heap n x) =
     add_mset (Mem, n) (dev_res (gi_device x) + blk (gi_syspath x) + blk (gi_filename x))"
  "wf_gi (Heap n x) \<longleftrightarrow> wf_device (gi_device x) \<and> gi_device x \<noteq> NULL \<and>
         (\<exists>m s. gi_syspath x = Heap m s) \<and> (\<exists>m s. gi_filename x = Heap m s)"
  "gi_view (Heap n x) = Some (dev_view (gi_device x), gi_interface_number x,
       contents '''' (gi_syspath x), contents '''' (gi_filename x))"
  by (simp_all add: gi_res_def wf_gi_def gi_view_def)

lemma libusbp_generic_interface_free_ok:
  assumes "wf_gi gi" and "gi_res gi \<subseteq># live w"
  shows "libusbp_generic_interface_free gi w = Some (drop_res (gi_res gi) w)"
proof -
  obtain L where "live w = gi_res gi + L"
    using assms(2) by (auto simp: mset_subset_eq_exists_conv)
  with assms(1) show ?thesis
    by (cases gi) (auto simp: libusbp_generic_interface_free_def device.rel_ok
        libusbp_string_free_def ac_simps)
qed

interpretation generic_interface: releases libusbp_generic_interface_free gi_res wf_gi
  by unfold_locales (rule libusbp_generic_interface_free_ok)

section \<open>Contracts\<close>

definition driver_ok :: "'e libudev_scheme \<Rightarrow> nat \<Rightarrow> bool" where
  "driver_ok E n \<longleftrightarrow> udev_device_get_driver E n \<in> {None, Some ''usbfs'', Some ''cp210x''}"

lemma check_driver_installation_checks:
  "(UdevDevice, n) \<in># live w \<Longrightarrow>
   runs (check_driver_installation E (Some n) w) (checks (driver_ok E n) (\<lambda>_. True) w)"
  by (auto simp: check_driver_installation_def driver_ok_def later_def says_def
      split: option.splits intro!: wp)

lemmas check_driver_installation_wp [wp] = checks_wp [OF check_driver_installation_checks]

lemma libusbp_device_get_os_id_gives:
  assumes "wf_device d" "d \<noteq> NULL" "dev_res d \<subseteq># live w"
  shows "runs (libusbp_device_get_os_id E d True w)
    (gives blk NULL (\<lambda>s. \<exists>k path. s = Heap k path \<and> map_option (fst \<circ> fst) (dev_view d) = Some path)
      (\<lambda>_. True) w)"
  using assms
  by (cases d) (auto simp: libusbp_device_get_os_id_def mset_subset_eq_exists_conv later_def intro!: wp)

lemmas libusbp_device_get_os_id_wp [wp] = gives_wp [OF libusbp_device_get_os_id_gives]

lemma dev_view_None [simp]:
  "wf_device d \<Longrightarrow> dev_view d = None \<longleftrightarrow> d = NULL" "wf_device d \<Longrightarrow> None = dev_view d \<longleftrightarrow> d = NULL"
  by (cases d; simp)+

text \<open>
  The generic interface that stands for libudev's object \<open>n\<close>: interface \<open>i\<close> of the device with
  the view \<open>v\<close>, on an acceptable driver.
\<close>

definition gi_for :: "'e libudev_scheme \<Rightarrow> device_info option \<Rightarrow> 8 word \<Rightarrow> nat \<Rightarrow> generic_interface \<Rightarrow> bool" where
  "gi_for E v i n gi \<longleftrightarrow> (\<exists>path filename. map_option (fst \<circ> fst) v = Some path \<and>
     is_interface E path i n \<and> driver_ok E n \<and>
     gi_view gi = Some (v, i, udev_device_get_syspath E n, filename))"

lemma libusbp_generic_interface_create_gives:
  assumes "wf_device d" "d \<noteq> NULL" "dev_res d \<subseteq># live w"
  shows "runs (libusbp_generic_interface_create E d i True w) (gives gi_res NULL
    (\<lambda>gi. wf_gi gi \<and> (\<exists>n. gi_for E (dev_view d) i n gi)) (\<lambda>_. True) w)"
proof -
  obtain L where "live w = dev_res d + L"
    using assms(3) by (auto simp: mset_subset_eq_exists_conv)
  then show ?thesis
    using assms(1,2)
    by (auto simp: libusbp_generic_interface_create_def Let_def later_def
        libusbp_string_free_def gi_for_def device.rel_ok says_def intro!: wp) metis
qed

lemma libusbp_generic_interface_copy_gives:
  assumes "wf_gi gi" "gi_res gi \<subseteq># live w"
  shows "runs (libusbp_generic_interface_copy E gi True w) (\<lambda>(e, c) w'. later w w' \<and> e = NULL \<and>
    wf_gi c \<and> live w' = live w + gi_res c \<and>
    (gi_view c = gi_view gi \<or> c = NULL \<and> gi \<noteq> NULL \<and> \<not> memory_ok E))"
proof -
  obtain L where "live w = gi_res gi + L"
    using assms(2) by (auto simp: mset_subset_eq_exists_conv)
  then show ?thesis
    using assms(1)
    by (cases gi) (auto simp: libusbp_generic_interface_copy_def Let_def later_def
        libusbp_string_free_def device.rel_ok intro!: wp)
qed

lemmas libusbp_generic_interface_create_wp [wp] = gives_wp [OF libusbp_generic_interface_create_gives]

lemma generic_interface_get_device_copy_gives:
  assumes "wf_gi gi" "gi \<noteq> NULL" "gi_res gi \<subseteq># live w"
  shows "runs (generic_interface_get_device_copy E gi w) (gives dev_res NULL
    (\<lambda>d. wf_device d \<and> d \<noteq> NULL \<and> map_option fst (gi_view gi) = Some (dev_view d)) (\<lambda>_. True) w)"
proof -
  obtain L where "live w = gi_res gi + L"
    using assms(3) by (auto simp: mset_subset_eq_exists_conv)
  then show ?thesis
    using assms(1,2)
    by (cases gi) (auto simp: generic_interface_get_device_copy_def intro!: wp)
qed

lemma libusbp_generic_interface_get_os_filename_gives:
  assumes "wf_gi gi" "gi \<noteq> NULL" "gi_res gi \<subseteq># live w"
  shows "runs (libusbp_generic_interface_get_os_filename E gi True w) (gives blk NULL
    (\<lambda>s. \<exists>k f. s = Heap k f \<and> map_option (snd \<circ> snd \<circ> snd) (gi_view gi) = Some f) (\<lambda>_. True) w)"
proof -
  obtain L where "live w = gi_res gi + L"
    using assms(3) by (auto simp: mset_subset_eq_exists_conv)
  then show ?thesis
    using assms(1,2)
    by (cases gi) (auto simp: libusbp_generic_interface_get_os_filename_def intro!: wp)
qed

lemmas generic_interface_get_wp [wp] = gives_wp [OF generic_interface_get_device_copy_gives]
  gives_wp [OF libusbp_generic_interface_get_os_filename_gives]

interpretation generic_interface_new: constructor libusbp_generic_interface_free gi_res wf_gi
    "\<lambda>(d, i). libusbp_generic_interface_create E d i True" NULL
    "\<lambda>(d, i) w. wf_device d \<and> d \<noteq> NULL \<and> dev_res d \<subseteq># live w"
    "\<lambda>(d, i) gi. wf_gi gi \<and> (\<exists>n. gi_for E (dev_view d) i n gi)" for E :: "'e usb_system_scheme"
  by unfold_locales (auto intro!: libusbp_generic_interface_create_wp)

section \<open>Properties\<close>



text \<open>
  Copying a generic interface never faults and leaks nothing, and with enough memory gives a
  well-formed copy with the same device, number, path and file name.
\<close>

theorem generic_interface_copy_correct:
  assumes "wf_gi gi" and "live w = L + gi_res gi" and "memory_ok E"
  shows "runs (libusbp_generic_interface_copy E gi True w) (\<lambda>(e, c) w'. e = NULL \<and>
    gi_view c = gi_view gi \<and> wf_gi c \<and>
    (\<exists>w''. libusbp_generic_interface_free c w' = Some w'' \<and> live w'' = live w))"
  by (rule runs_mono [OF libusbp_generic_interface_copy_gives])
    (use assms in \<open>auto simp: generic_interface.rel_ok\<close>)

definition demo_gi :: generic_interface where
  "demo_gi = Heap 2 \<lparr>gi_device = demo_device, gi_interface_number = 0,
     gi_syspath = Heap 3 ''/sys/d/i'', gi_filename = Heap 4 ''/dev/d''\<rparr>"

lemma demo_gi_simps [simp]:
  "wf_gi demo_gi" "gi_res demo_gi = {#(Mem, 2), (Mem, 3), (Mem, 4), (Mem, 0), (Mem, 1)#}"
  "gi_view demo_gi = Some (dev_view demo_device, 0, ''/sys/d/i'', ''/dev/d'')"
  "demo_gi \<noteq> NULL"
  by (simp_all add: demo_gi_def) (simp add: demo_device_def)

theorem generic_interface_copy_correct_witness:
  "runs (libusbp_generic_interface_copy plenty demo_gi True
       \<lparr>next_id = 5, live = gi_res demo_gi\<rparr>) (\<lambda>(e, c) w'.
     e = NULL \<and> gi_view c = Some (dev_view demo_device, 0, ''/sys/d/i'', ''/dev/d''))"
  by (rule runs_mono [OF generic_interface_copy_correct [where L = "{#}"]]) auto

text \<open>
  C40: The copy operation does not report a failure: when the first allocation of a copy fails,
  it returns no error although it made no copy of the (non-NULL) source.
\<close>

theorem generic_interface_copy_failure_unreported:
  assumes "wf_gi gi" and "gi \<noteq> NULL" and "gi_res gi \<subseteq># live w" and "\<not> malloc_ok E (next_id w)"
  shows "libusbp_generic_interface_copy E gi True w = Some ((NULL, NULL), tick w)"
proof -
  obtain L where "live w = gi_res gi + L"
    using assms(3) by (auto simp: mset_subset_eq_exists_conv)
  then show ?thesis
    using assms(1,2,4)
    by (cases gi) (auto simp: libusbp_generic_interface_copy_def malloc_def ok_then_error
        libusbp_string_free_def libusbp_device_free_def)
qed

theorem generic_interface_copy_failure_unreported_witness:
  "libusbp_generic_interface_copy (plenty\<lparr>malloc_ok := (\<lambda>n. False)\<rparr>) demo_gi True
       \<lparr>next_id = 5, live = gi_res demo_gi\<rparr> =
     Some ((NULL, NULL), \<lparr>next_id = 6, live = gi_res demo_gi\<rparr>)"
  using generic_interface_copy_failure_unreported [of demo_gi "\<lparr>next_id = 5, live = gi_res demo_gi\<rparr>"
      "plenty\<lparr>malloc_ok := (\<lambda>n. False)\<rparr>"]
  by (simp add: tick_def)

end
