(* ===== verification/Buffers.thy ===== *)
theory Buffers
  imports Basics
begin

text \<open>
  The arrays of a handle and the buffers of its transfers, as the back ends share them: elements by
  index, the caller's buffer and what a transfer may change of it.
\<close>

unbundle bit_operations_syntax

section \<open>Arrays\<close>

text \<open>Reading and writing an element of an array; an index out of range is a fault.\<close>

definition array_get :: "'a list \<Rightarrow> nat \<Rightarrow> 'a option" where
  "array_get xs i = (if i < length xs then Some (xs ! i) else None)"

definition array_set :: "'a list \<Rightarrow> nat \<Rightarrow> 'a \<Rightarrow> 'a list option" where
  "array_set xs i x = (if i < length xs then Some (xs[i := x]) else None)"

lemma array_get_ok [simp]: "i < length xs \<Longrightarrow> array_get xs i = Some (xs ! i)"
  by (simp add: array_get_def)

lemma array_set_ok [simp]: "i < length xs \<Longrightarrow> array_set xs i x = Some (xs[i := x])"
  by (simp add: array_set_def)

lemma unat_endpoint: "unat (p AND MAX_ENDPOINT_NUMBER) = unat p mod 16"
proof -
  have "MAX_ENDPOINT_NUMBER = (mask 4 :: 8 word)"
    by (simp add: MAX_ENDPOINT_NUMBER_def mask_eq_exp_minus_1)
  then have "p AND MAX_ENDPOINT_NUMBER = take_bit 4 p" by (simp add: take_bit_eq_mask)
  then show ?thesis by (simp only: unsigned_take_bit_eq) (simp add: take_bit_eq_mod)
qed

section \<open>Buffers of callers\<close>

definition UINT32_MAX :: nat where
  "UINT32_MAX = 2 ^ 32 - 1"

text \<open>
  The caller's buffer after the system has written \<open>bytes\<close> to its beginning; a buffer that is too
  short is a fault.
\<close>

definition fill_buffer :: "8 word list option \<Rightarrow> 8 word list \<Rightarrow> 8 word list option option" where
  "fill_buffer data bytes = (case data of
     None \<Rightarrow> if bytes = [] then Some None else None
   | Some old \<Rightarrow> if length bytes \<le> length old then Some (Some (bytes @ drop (length bytes) old)) else None)"

lemma fill_buffer_ok:
  "length b \<le> length old \<Longrightarrow> fill_buffer (Some old) b = Some (Some (b @ drop (length b) old))"
  by (simp add: fill_buffer_def)

text \<open>A request that is refused before the system is asked.\<close>

definition bad_read :: "8 word \<Rightarrow> 8 word list option \<Rightarrow> nat \<Rightarrow> bool" where
  "bad_read p data n \<longleftrightarrow> \<not> pipe_in p \<or> n = 0 \<or> n > UINT32_MAX \<or> data = None"

definition bad_write :: "8 word \<Rightarrow> 8 word list option \<Rightarrow> nat \<Rightarrow> bool" where
  "bad_write p data n \<longleftrightarrow> \<not> pipe_out p \<or> n > UINT32_MAX \<or> data = None \<and> n \<noteq> 0"

definition buffer_for :: "8 word list option \<Rightarrow> nat \<Rightarrow> bool" where
  "buffer_for data n \<longleftrightarrow> (case data of None \<Rightarrow> True | Some b \<Rightarrow> n \<le> length b)"

text \<open>The caller's buffer after \<open>m\<close> bytes were written to it.\<close>

definition filled :: "8 word list option \<Rightarrow> nat \<Rightarrow> 8 word list option \<Rightarrow> bool" where
  "filled data m d \<longleftrightarrow> (case data of None \<Rightarrow> m = 0 \<and> d = None
     | Some old \<Rightarrow> (\<exists>b. length b = m \<and> m \<le> length old \<and> d = Some (b @ drop m old)))"

lemma filled_simps [simp]:
  "filled None m d \<longleftrightarrow> m = 0 \<and> d = None"
  "filled data 0 d \<longleftrightarrow> d = data"
  by (auto simp: filled_def split: option.splits)


text \<open>A control transfer changes only an IN buffer, and only its first \<open>len\<close> bytes.\<close>

definition touched :: "8 word list option \<Rightarrow> nat \<Rightarrow> 8 word list option \<Rightarrow> bool" where
  "touched data n d \<longleftrightarrow> (\<exists>m \<le> n. filled data m d)"

lemma filled_take [simp]:
  "n \<le> length old \<Longrightarrow>
   filled (Some old) (min (length a) n) (Some (take n a @ drop (min (length a) n) old))"
  by (simp add: filled_def min.coboundedI2)

lemma touched_take [simp]:
  "n \<le> length old \<Longrightarrow> touched (Some old) n (Some (take n a @ drop (min (length a) n) old))"
  unfolding touched_def by (rule exI [of _ "min (length a) n"]) simp

lemma touched_same [simp]: "touched data n data"
  unfolding touched_def by (rule exI [of _ 0]) simp

end
