(* ===== verification/GenericHandle.thy ===== *)
theory GenericHandle
  imports GenericInterface Buffers
begin

text \<open>
  \<open>src/src/linux/generic_handle_linux.c\<close>, up to the asynchronous events: opening and closing
  handles, checking that the device is still the same, timeouts, and synchronous transfers.
\<close>

section \<open>Handles\<close>

text \<open>A file descriptor is the number of the event that opened it; \<open>None\<close> is -1.\<close>

record libusbp_generic_handle =
  gh_device :: device
  gh_fd :: "nat option"
  in_timeout :: "32 word list"
  out_timeout :: "32 word list"

type_synonym generic_handle = "libusbp_generic_handle ptr"

definition close_if :: "nat option \<Rightarrow> 'w usb_world_scheme \<Rightarrow> 'w usb_world_scheme option" where
  "close_if f w = (case f of None \<Rightarrow> Some w | Some n \<Rightarrow> close_fd n w)"

text \<open>
  The test after \<open>calloc\<close> looks at \<open>handle\<close>, the output pointer, which is not NULL: a failed
  allocation is not noticed, and \<open>new_handle->fd = new_fd\<close> writes through NULL.
\<close>

definition generic_handle_setup :: "'e usb_system_scheme \<Rightarrow> generic_interface
    \<Rightarrow> 'w usb_world_scheme \<Rightarrow> ((err \<times> generic_handle) \<times> 'w usb_world_scheme) option" where
  "generic_handle_setup E gi w = do {
     (new_handle, w) \<leftarrow> malloc E w;
     ((error, new_device), w) \<leftarrow> ok_then NULL NULL (generic_interface_get_device_copy E gi) w;
     ((error, new_filename), w) \<leftarrow> ok_then error NULL
       (libusbp_generic_interface_get_os_filename E gi True) w;
     ((error, new_fd), w) \<leftarrow> ok_then error None (\<lambda>w. do {
       filename \<leftarrow> deref new_filename w;
       usbfd_open E filename w
     }) w;
     (handle, new_fd, new_device, new_handle) \<leftarrow>
       (if error = NULL then do {
          handle \<leftarrow> store new_handle \<lparr>gh_device = new_device, gh_fd = new_fd,
            in_timeout = replicate 16 0, out_timeout = replicate 16 0\<rparr> w;
          Some (handle, None, NULL, NULL)
        }
        else Some (NULL, new_fd, new_device, new_handle));
     w \<leftarrow> close_if new_fd w;
     w \<leftarrow> libusbp_string_free new_filename w;
     w \<leftarrow> libusbp_device_free new_device w;
     w \<leftarrow> free new_handle w;
     Some ((error, handle), w)
   }"

definition mismatch :: "'e environment_scheme \<Rightarrow> string \<Rightarrow> 16 word \<Rightarrow> 16 word \<Rightarrow> 'w world_scheme
    \<Rightarrow> (err \<times> 'w world_scheme) option" where
  "mismatch E what actual expected w =
     (if actual \<noteq> expected then error_create E (what @ '' mismatch: 0x'' @ fmt_x 4 (unat actual) @
        '' != 0x'' @ fmt_x 4 (unat expected) @ ''.'') w
      else Some (NULL, w))"

definition check_device_descriptor :: "'e usb_system_scheme \<Rightarrow> generic_handle
    \<Rightarrow> 'w world_scheme \<Rightarrow> (err \<times> 'w world_scheme) option" where
  "check_device_descriptor E handle w = do {
     h \<leftarrow> deref handle w;
     f \<leftarrow> gh_fd h;
     ((error, desc), w) \<leftarrow> usbfd_get_device_descriptor E f w;
     ((error, vid), w) \<leftarrow> ok_then error 0 (libusbp_device_get_vendor_id E (gh_device h) True) w;
     (error, w) \<leftarrow> ok_do error (\<lambda>w. do {
       d \<leftarrow> desc; mismatch E ''Vendor ID'' (idVendor d) vid w }) w;
     ((error, pid), w) \<leftarrow> ok_then error 0 (libusbp_device_get_product_id E (gh_device h) True) w;
     (error, w) \<leftarrow> ok_do error (\<lambda>w. do {
       d \<leftarrow> desc; mismatch E ''Product ID'' (idProduct d) pid w }) w;
     ((error, rev), w) \<leftarrow> ok_then error 0 (libusbp_device_get_revision E (gh_device h) True) w;
     ok_do error (\<lambda>w. do {
       d \<leftarrow> desc; mismatch E ''Device revision'' (bcdDevice d) rev w }) w
   }"

definition libusbp_generic_handle_close ::
    "generic_handle \<Rightarrow> 'w usb_world_scheme \<Rightarrow> 'w usb_world_scheme option" where
  "libusbp_generic_handle_close handle w =
     (if handle = NULL then Some w
      else do {
        h \<leftarrow> deref handle w;
        w \<leftarrow> close_if (gh_fd h) w;
        w \<leftarrow> libusbp_device_free (gh_device h) w;
        free handle w
      })"

definition libusbp_generic_handle_open :: "'e usb_system_scheme \<Rightarrow> generic_interface \<Rightarrow> bool
    \<Rightarrow> 'w usb_world_scheme \<Rightarrow> ((err \<times> generic_handle) \<times> 'w usb_world_scheme) option" where
  "libusbp_generic_handle_open E gi handle_given w =
     (if \<not> handle_given then do {
        (error, w) \<leftarrow> error_create E ''Generic handle output pointer is null.'' w;
        Some ((error, NULL), w)
      }
      else if gi = NULL then do {
        (error, w) \<leftarrow> error_create E ''Generic interface is null.'' w;
        Some ((error, NULL), w)
      }
      else do {
        ((error, new_handle), w) \<leftarrow> generic_handle_setup E gi w;
        (error, w) \<leftarrow> ok_do error (check_device_descriptor E new_handle) w;
        let (handle, new_handle) = (if error = NULL then (new_handle, NULL) else (NULL, new_handle));
        w \<leftarrow> libusbp_generic_handle_close new_handle w;
        Some ((error, handle), w)
      })"

definition libusbp_generic_handle_set_timeout :: "'e environment_scheme \<Rightarrow> generic_handle
    \<Rightarrow> 8 word \<Rightarrow> 32 word \<Rightarrow> 'w world_scheme \<Rightarrow> ((err \<times> generic_handle) \<times> 'w world_scheme) option" where
  "libusbp_generic_handle_set_timeout E handle pipe_id timeout w =
     (if handle = NULL then do {
        (error, w) \<leftarrow> error_create E ''Generic handle is null.'' w;
        Some ((error, handle), w)
      }
      else do {
        (error, w) \<leftarrow> check_pipe_id E pipe_id w;
        ok_then error handle (\<lambda>w. do {
          h \<leftarrow> deref handle w;
          let endpoint_number = unat (pipe_id AND MAX_ENDPOINT_NUMBER);
          h \<leftarrow> (if pipe_id AND 0x80 \<noteq> 0
            then do {
              ts \<leftarrow> array_set (in_timeout h) endpoint_number timeout;
              Some (h\<lparr>in_timeout := ts\<rparr>)
            }
            else do {
              ts \<leftarrow> array_set (out_timeout h) endpoint_number timeout;
              Some (h\<lparr>out_timeout := ts\<rparr>)
            });
          handle \<leftarrow> store handle h w;
          Some ((NULL, handle), w)
        }) w
      })"

definition libusbp_control_transfer :: "'e usb_system_scheme \<Rightarrow> generic_handle \<Rightarrow> 8 word
    \<Rightarrow> 8 word \<Rightarrow> 16 word \<Rightarrow> 16 word \<Rightarrow> 8 word list option \<Rightarrow> 16 word \<Rightarrow> 'w world_scheme
    \<Rightarrow> ((err \<times> nat \<times> 8 word list option) \<times> 'w world_scheme) option" where
  "libusbp_control_transfer E handle request_type request v i data len w =
     (if handle = NULL then do {
        (error, w) \<leftarrow> error_create E ''Generic handle is null.'' w;
        Some ((error, 0, data), w)
      }
      else do {
        h \<leftarrow> deref handle w;
        let setup = \<lparr>bmRequestType = request_type, bRequest = request, wValue = v, wIndex = i,
          wLength = len\<rparr>;
        f \<leftarrow> gh_fd h;
        timeout \<leftarrow> array_get (out_timeout h) 0;
        usbfd_control_transfer E f setup timeout data w
      })"

definition libusbp_read_pipe :: "'e usb_system_scheme \<Rightarrow> generic_handle \<Rightarrow> 8 word
    \<Rightarrow> 8 word list option \<Rightarrow> nat \<Rightarrow> 'w world_scheme
    \<Rightarrow> ((err \<times> nat \<times> 8 word list option) \<times> 'w world_scheme) option" where
  "libusbp_read_pipe E handle pipe_id data n w =
     (if handle = NULL then do {
        (error, w) \<leftarrow> error_create E ''Generic handle is null.'' w;
        Some ((error, 0, data), w)
      }
      else do {
        (error, w) \<leftarrow> check_pipe_id_in E pipe_id w;
        ((error, transferred, data), w) \<leftarrow> ok_then error (0, data) (\<lambda>w. do {
          h \<leftarrow> deref handle w;
          let endpoint_number = unat (pipe_id AND MAX_ENDPOINT_NUMBER);
          timeout \<leftarrow> array_get (in_timeout h) endpoint_number;
          f \<leftarrow> gh_fd h;
          usbfd_bulk_or_interrupt_transfer E f pipe_id timeout data n w
        }) w;
        (error, w) \<leftarrow> (if error \<noteq> NULL then error_add E error ''Failed to read from pipe.'' w
          else Some (error, w));
        Some ((error, transferred, data), w)
      })"

definition libusbp_write_pipe :: "'e usb_system_scheme \<Rightarrow> generic_handle \<Rightarrow> 8 word
    \<Rightarrow> 8 word list option \<Rightarrow> nat \<Rightarrow> 'w world_scheme
    \<Rightarrow> ((err \<times> nat \<times> 8 word list option) \<times> 'w world_scheme) option" where
  "libusbp_write_pipe E handle pipe_id data n w =
     (if handle = NULL then do {
        (error, w) \<leftarrow> error_create E ''Generic handle is null.'' w;
        Some ((error, 0, data), w)
      }
      else do {
        (error, w) \<leftarrow> check_pipe_id_out E pipe_id w;
        ((error, transferred, data), w) \<leftarrow> ok_then error (0, data) (\<lambda>w. do {
          h \<leftarrow> deref handle w;
          let endpoint_number = unat (pipe_id AND MAX_ENDPOINT_NUMBER);
          timeout \<leftarrow> array_get (out_timeout h) endpoint_number;
          f \<leftarrow> gh_fd h;
          usbfd_bulk_or_interrupt_transfer E f pipe_id timeout data n w
        }) w;
        (error, w) \<leftarrow> (if error \<noteq> NULL then error_add E error ''Failed to write to pipe.'' w
          else Some (error, w));
        Some ((error, transferred, data), w)
      })"

definition libusbp_generic_handle_get_fd :: "generic_handle \<Rightarrow> 'w world_scheme \<Rightarrow> nat option option" where
  "libusbp_generic_handle_get_fd handle w =
     (if handle = NULL then Some None else do { h \<leftarrow> deref handle w; Some (gh_fd h) })"

section \<open>What handles own\<close>

definition gh_res :: "generic_handle \<Rightarrow> res multiset" where
  "gh_res h = owns (\<lambda>x. opt_res FileDescriptor (gh_fd x) + dev_res (gh_device x)) h"

definition wf_gh :: "generic_handle \<Rightarrow> bool" where
  "wf_gh h = (case h of NULL \<Rightarrow> True
     | Heap n x \<Rightarrow> wf_device (gh_device x) \<and> gh_device x \<noteq> NULL \<and> gh_fd x \<noteq> None \<and>
         length (in_timeout x) = 16 \<and> length (out_timeout x) = 16
     | Static x \<Rightarrow> False)"

lemma gh_simps [simp]:
  "gh_res NULL = {#}" "wf_gh NULL" "\<not> wf_gh (Static x)"
  "gh_res (Heap n x) = add_mset (Mem, n) (opt_res FileDescriptor (gh_fd x) + dev_res (gh_device x))"
  "wf_gh (Heap n x) \<longleftrightarrow> wf_device (gh_device x) \<and> gh_device x \<noteq> NULL \<and> gh_fd x \<noteq> None \<and>
         length (in_timeout x) = 16 \<and> length (out_timeout x) = 16"
  by (simp_all add: gh_res_def wf_gh_def)

text \<open>A descriptor on which nothing was submitted leaves the kernel's list alone when closed.\<close>

definition close_urbs :: "nat \<Rightarrow> 'w usb_world_scheme \<Rightarrow> 'w usb_world_scheme" where
  "close_urbs f w = w\<lparr>kernel_urbs := filter (\<lambda>(g, t). g \<noteq> f) (kernel_urbs w)\<rparr>"

definition urbs_old :: "'w usb_world_scheme \<Rightarrow> bool" where
  "urbs_old w \<longleftrightarrow> (\<forall>(f, t) \<in> set (kernel_urbs w). f < next_id w)"

lemma close_urbs_simps [simp]:
  "live (close_urbs f w) = live w" "next_id (close_urbs f w) = next_id w"
  "transfers (close_urbs f w) = transfers w"
  "kernel_urbs (close_urbs f w) = filter (\<lambda>(g, t). g \<noteq> f) (kernel_urbs w)"
  by (simp_all add: close_urbs_def)

lemma close_fd_ok: "(FileDescriptor, f) \<in># live w \<Longrightarrow>
    close_fd f w = Some (close_urbs f (drop_res {#(FileDescriptor, f)#} w))"
  by (simp add: close_fd_def close_urbs_def)

lemma close_urbs_id:
  assumes "urbs_old w0" "next_id w0 \<le> f" "world.more w = world.more w0"
  shows "close_urbs f w = w"
proof -
  have "filter (\<lambda>(g, t). g \<noteq> f) (kernel_urbs w) = kernel_urbs w"
    using assms(1,2) usb_fields_of_more [OF assms(3)] by (auto simp: urbs_old_def intro!: filter_True)
  then show ?thesis by (simp add: close_urbs_def)
qed

lemma libusbp_generic_handle_close_ok:
  assumes "wf_gh (Heap n x)" "gh_res (Heap n x) \<subseteq># live w"
  shows "libusbp_generic_handle_close (Heap n x) w =
    Some (close_urbs (the (gh_fd x)) (drop_res (gh_res (Heap n x)) w))"
proof -
  obtain f where f: "gh_fd x = Some f" using assms(1) by auto
  obtain L where L: "live w = gh_res (Heap n x) + L"
    using assms(2) by (auto simp: mset_subset_eq_exists_conv)
  have eq: "drop_res R (close_urbs f w) = close_urbs f (drop_res R w)" for R and w :: "'a usb_world_scheme"
    by (simp add: drop_res_def close_urbs_def)
  show ?thesis
    using assms(1) f L
    by (simp add: libusbp_generic_handle_close_def close_if_def close_fd_ok device.rel_ok eq)
qed

lemma libusbp_generic_handle_close_NULL [simp]: "libusbp_generic_handle_close NULL w = Some w"
  by (simp add: libusbp_generic_handle_close_def)

section \<open>Contracts\<close>

lemma close_if_None [simp]: "close_if None w = Some w"
  by (simp add: close_if_def)

text \<open>What a handle made for an interface with a view is like.\<close>

definition gh_for :: "generic_interface \<Rightarrow> nat \<Rightarrow> generic_handle \<Rightarrow> bool" where
  "gh_for gi k h \<longleftrightarrow> wf_gh h \<and> (\<exists>n x f. h = Heap n x \<and> gh_fd x = Some f \<and> k \<le> f \<and>
     map_option fst (gi_view gi) = Some (dev_view (gh_device x)) \<and>
     in_timeout x = replicate 16 0 \<and> out_timeout x = replicate 16 0)"

lemma generic_handle_setup_gives:
  assumes "wf_gi gi" "gi \<noteq> NULL" "gi_res gi \<subseteq># live w" "malloc_ok E (next_id w)"
  shows "runs (generic_handle_setup E gi w) (gives gh_res NULL (gh_for gi (next_id w)) (\<lambda>_. True) w)"
proof -
  obtain L where "live w = gi_res gi + L"
    using assms(3) by (auto simp: mset_subset_eq_exists_conv)
  then show ?thesis
    using assms(1,2,4)
    by (auto simp: generic_handle_setup_def malloc_def Let_def later_def gh_for_def
        libusbp_string_free_def device.rel_ok intro!: wp)
qed

lemmas generic_handle_setup_wp [wp] = gives_wp [OF generic_handle_setup_gives]

lemma mismatch_checks: "runs (mismatch E what a b w) (checks (a = b) (\<lambda>_. True) w)"
  by (auto simp: mismatch_def later_def says_def intro!: wp)

lemmas mismatch_wp [wp] = checks_wp [OF mismatch_checks]

lemma get_ids [simp]:
  "(Mem, n) \<in># live w \<Longrightarrow> libusbp_device_get_vendor_id E (Heap n x) True w = Some ((NULL, vendor_id x), w)"
  "(Mem, n) \<in># live w \<Longrightarrow> libusbp_device_get_product_id E (Heap n x) True w = Some ((NULL, product_id x), w)"
  "(Mem, n) \<in># live w \<Longrightarrow> libusbp_device_get_revision E (Heap n x) True w = Some ((NULL, revision x), w)"
  by (simp_all add: libusbp_device_get_vendor_id_def libusbp_device_get_product_id_def
      libusbp_device_get_revision_def)

text \<open>The descriptor that was read is the one of the device.\<close>

definition same_device :: "'e usb_system_scheme \<Rightarrow> nat \<Rightarrow> device_info option \<Rightarrow> bool" where
  "same_device E f v \<longleftrightarrow> (\<exists>n d s. sys_read E n f = Inr (18, d) \<and>
     v = Some (s, idProduct d, idVendor d, bcdDevice d))"

lemma check_device_descriptor_checks:
  assumes "wf_gh (Heap n x)" "gh_res (Heap n x) \<subseteq># live w"
  shows "runs (check_device_descriptor E (Heap n x) w)
    (checks (same_device E (the (gh_fd x)) (dev_view (gh_device x))) (\<lambda>_. True) w)"
proof -
  obtain L where L: "live w = gh_res (Heap n x) + L"
    using assms(2) by (auto simp: mset_subset_eq_exists_conv)
  obtain m d where d: "gh_device x = Heap m d"
    using assms(1) by (cases "gh_device x") auto
  show ?thesis
    using assms(1) L d
    by (auto simp: check_device_descriptor_def later_def same_device_def intro!: wp) metis
qed

lemmas check_device_descriptor_wp [wp] = checks_wp [OF check_device_descriptor_checks]

lemma libusbp_generic_handle_open_gives:
  assumes "wf_gi gi" "gi \<noteq> NULL" "gi_res gi \<subseteq># live w" "malloc_ok E (next_id w)" "urbs_old w"
  shows "runs (libusbp_generic_handle_open E gi True w) (gives gh_res NULL
    (\<lambda>h. gh_for gi (next_id w) h \<and> (\<exists>n x f. h = Heap n x \<and> gh_fd x = Some f \<and>
      same_device E f (dev_view (gh_device x)))) (\<lambda>_. True) w)"
proof -
  obtain L where L: "live w = gi_res gi + L"
    using assms(3) by (auto simp: mset_subset_eq_exists_conv)
  show ?thesis
    using assms
    by (auto simp: libusbp_generic_handle_open_def Let_def later_def gh_for_def
        libusbp_generic_handle_close_ok close_urbs_id [OF assms(5)]
        intro!: wp)
qed

lemmas libusbp_generic_handle_open_wp [wp] = gives_wp [OF libusbp_generic_handle_open_gives]

text \<open>The timeout that transfers on an endpoint address use.\<close>

definition timeout_for :: "libusbp_generic_handle \<Rightarrow> 8 word \<Rightarrow> 32 word" where
  "timeout_for h p = (if p AND 0x80 \<noteq> 0 then in_timeout h ! unat (p AND MAX_ENDPOINT_NUMBER)
     else out_timeout h ! unat (p AND MAX_ENDPOINT_NUMBER))"

lemma mod_16_in: "129 \<le> x \<Longrightarrow> x \<le> 143 \<Longrightarrow> x mod 16 = x - (128 :: nat)"
  by presburger

text \<open>Valid addresses are told apart by direction and endpoint number.\<close>

lemma endpoint_inject:
  assumes "pipe_in p \<or> pipe_out p" "pipe_in q \<or> pipe_out q"
  shows "(p AND 0x80 = 0 \<longleftrightarrow> q AND 0x80 = 0) \<and>
      unat (p AND MAX_ENDPOINT_NUMBER) = unat (q AND MAX_ENDPOINT_NUMBER) \<longleftrightarrow> p = q"
proof -
  have "p = q \<longleftrightarrow> unat p = unat q" by (rule word_unat_eq_iff)
  with assms show ?thesis
    unfolding and_80_iff unat_endpoint by (auto simp: pipe_in_def pipe_out_def mod_16_in)
qed

section \<open>Properties\<close>

text \<open>A machine whose device has the descriptor of the demonstration device.\<close>

definition demo_system :: usb_system where
  "demo_system = plenty_system\<lparr>sys_read :=
     (\<lambda>n f. Inr (18, \<lparr>idVendor = 0x1FFB, idProduct = 0x9502, bcdDevice = 0x0100\<rparr>))\<rparr>"

definition demo_world :: usb_world where
  "demo_world = \<lparr>next_id = 5, live = gi_res demo_gi, transfers = (\<lambda>_. None), kernel_urbs = []\<rparr>"

definition demo_handle :: libusbp_generic_handle where
  "demo_handle = \<lparr>gh_device = Heap 6 \<lparr>syspath = Heap 7 ''/sys/d'', serial_number = NULL,
       product_id = 0x9502, vendor_id = 0x1FFB, revision = 0x0100\<rparr>,
     gh_fd = Some 9, in_timeout = replicate 16 0, out_timeout = replicate 16 0\<rparr>"

lemma demo_open_run:
  "libusbp_generic_handle_open demo_system demo_gi True demo_world =
     Some ((NULL, Heap 5 demo_handle), \<lparr>next_id = 12,
       live = {#(FileDescriptor, 9), (Mem, 7), (Mem, 6), (Mem, 5)#} + gi_res demo_gi,
       transfers = (\<lambda>_. None), kernel_urbs = []\<rparr>)"
  by (simp add: libusbp_generic_handle_open_def generic_handle_setup_def malloc_def Let_def
      demo_gi_def demo_device_def demo_world_def demo_system_def demo_handle_def
      generic_interface_get_device_copy_def libusbp_device_copy_def string_copy_def
      libusbp_generic_interface_get_os_filename_def usbfd_open_def open_fd_def
      libusbp_string_free_def libusbp_device_free_def take_res_def drop_res_def tick_def
      check_device_descriptor_def usbfd_get_device_descriptor_def fd_open_def mismatch_def)

lemma demo_simps [simp]:
  "wf_device (gh_device demo_handle)" "gh_device demo_handle \<noteq> NULL"
  "length (in_timeout demo_handle) = 16" "length (out_timeout demo_handle) = 16"
  "gh_fd demo_handle = Some 9"
  "live demo_world = gi_res demo_gi" "next_id demo_world = 5" "kernel_urbs demo_world = []"
  "urbs_old demo_world" "malloc_ok demo_system n" "sys_open demo_system n s = 0"
  by (simp_all add: demo_handle_def demo_world_def urbs_old_def demo_system_def)

text \<open>
  C33: Opening a handle, when the handle itself can be allocated, never faults and leaks nothing.
  A handle refers to a copy of the interface's device, to a new open file descriptor whose device
  descriptor has the vendor ID, product ID and revision of that device, and has infinite timeouts;
  any other outcome is an error and no handle, with the descriptor closed again.
\<close>

theorem generic_handle_open_correct:
  assumes "wf_gi gi" and "gi \<noteq> NULL" and "gi_res gi \<subseteq># live w"
    and "malloc_ok E (next_id w)" and "urbs_old w"
  shows "runs (libusbp_generic_handle_open E gi True w) (\<lambda>(e, h) w'.
    if e = NULL
    then (\<exists>k x f. h = Heap k x \<and> gh_fd x = Some f \<and>
      map_option fst (gi_view gi) = Some (dev_view (gh_device x)) \<and>
      same_device E f (dev_view (gh_device x)) \<and>
      in_timeout x = replicate 16 0 \<and> out_timeout x = replicate 16 0 \<and>
      live w' = live w + {#(Mem, k), (FileDescriptor, f)#} + dev_res (gh_device x))
    else h = NULL \<and> live w' = live w + err_res e)"
  by (rule libusbp_generic_handle_open_wp [OF assms])
    (auto simp: gh_for_def)

theorem generic_handle_open_correct_witness:
  "\<exists>h w'. libusbp_generic_handle_open demo_system demo_gi True demo_world =
      Some ((NULL, Heap 5 h), w') \<and> same_device demo_system 9 (dev_view (gh_device h))"
  using generic_handle_open_correct [of demo_gi demo_world demo_system]
  by (auto simp: demo_open_run)

text \<open>
  C39: Opening a handle crashes when the allocation of the handle fails and everything else
  succeeds: the code checks the wrong pointer and writes through NULL.
\<close>

theorem generic_handle_setup_null_write:
  assumes "wf_gi gi" and "gi_res gi \<subseteq># live w"
    and "gi_view gi = Some (v, i, path, filename)"
    and "\<not> malloc_ok E (next_id w)" and "\<forall>n > next_id w. malloc_ok E n"
    and "\<forall>n. sys_open E n filename = 0"
  shows "generic_handle_setup E gi w = None"
proof -
  obtain L where "live w = gi_res gi + L"
    using assms(2) by (auto simp: mset_subset_eq_exists_conv)
  then show ?thesis
    using assms(1,3-)
    by (cases gi; cases "gi_device (the (deref gi w))")
      (auto simp: generic_handle_setup_def generic_interface_get_device_copy_def malloc_def
        libusbp_device_copy_def string_copy_def Let_def not_static_conv
        libusbp_generic_interface_get_os_filename_def usbfd_open_def open_fd_def)
qed

theorem generic_handle_setup_null_write_witness:
  "generic_handle_setup (demo_system\<lparr>malloc_ok := (\<lambda>n. n \<noteq> 5)\<rparr>) demo_gi demo_world = None"
  by (rule generic_handle_setup_null_write [OF _ _ demo_gi_simps(3)]) (simp_all add: demo_system_def)

lemma open_close_spec:
  assumes "wf_gi gi" and "gi \<noteq> NULL" and "gi_res gi \<subseteq># live w"
    and "malloc_ok E (next_id w)" and "urbs_old w"
  shows "runs (do {
      ((error, handle), w) \<leftarrow> libusbp_generic_handle_open E gi True w;
      w \<leftarrow> libusbp_generic_handle_close handle w;
      Some (error, w)
    }) (\<lambda>e w'. live w' = live w + err_res e \<and> kernel_urbs w' = kernel_urbs w)"
proof (rule runs_bind, rule libusbp_generic_handle_open_wp [OF assms], goal_cases)
  case (1 h w1)
  then obtain k x f where h: "h = Heap k x" "wf_gh h" "gh_fd x = Some f" "next_id w \<le> f"
    by (auto simp: gh_for_def)
  have "libusbp_generic_handle_close h w1 = Some (close_urbs f (drop_res (gh_res h) w1))"
    using h 1(3) libusbp_generic_handle_close_ok [of k x w1] by simp
  moreover have "close_urbs f (drop_res (gh_res h) w1) = drop_res (gh_res h) w1"
    by (rule close_urbs_id [OF assms(5)]) (use h 1(1) in \<open>simp_all add: later_def\<close>)
  ultimately show ?case
    using 1(1,3) usb_fields_of_more(2) [of w1 w] by (simp add: later_def)
next
  case (2 e w1)
  then show ?case
    using usb_fields_of_more(2) [of w1 w] by (simp add: later_def)
qed

text \<open>
  Opening a handle and closing it brings the ledger back, apart from the error of a failed
  open: descriptor, device copy and memory are all given back.
\<close>

theorem generic_handle_open_close:
  assumes "wf_gi gi" and "gi \<noteq> NULL" and "gi_res gi \<subseteq># live w"
    and "malloc_ok E (next_id w)" and "urbs_old w"
  shows "runs (do {
      ((error, handle), w) \<leftarrow> libusbp_generic_handle_open E gi True w;
      w \<leftarrow> libusbp_generic_handle_close handle w;
      Some (error, w)
    }) (\<lambda>e w'. live w' = live w + err_res e \<and> kernel_urbs w' = kernel_urbs w)"
  by (rule open_close_spec [OF assms])

theorem generic_handle_open_close_witness:
  "runs (do {
      ((error, handle), w) \<leftarrow> libusbp_generic_handle_open demo_system demo_gi True demo_world;
      w \<leftarrow> libusbp_generic_handle_close handle w;
      Some (error, w)
    }) (\<lambda>e w'. live w' = gi_res demo_gi + err_res e)"
  by (rule runs_mono [OF generic_handle_open_close]) simp_all

text \<open>
  Setting a timeout changes the timeout of exactly one endpoint: of the addresses that are
  valid, the one given, and no other.  For an address that is not valid there is an error and the
  handle is as before.
\<close>

theorem set_timeout_correct:
  assumes "wf_gh (Heap k h)" and "(Mem, k) \<in># live w"
  shows "runs (libusbp_generic_handle_set_timeout E (Heap k h) p t w) (\<lambda>(e, h') w'.
    live w' = live w + err_res e \<and>
    (if pipe_in p \<or> pipe_out p
     then e = NULL \<and> (\<exists>x. h' = Heap k x \<and> wf_gh (Heap k x) \<and> gh_fd x = gh_fd h \<and>
       (\<forall>q. pipe_in q \<or> pipe_out q \<longrightarrow> timeout_for x q = (if q = p then t else timeout_for h q)))
     else e \<noteq> NULL \<and> h' = Heap k h))"
proof (cases "pipe_in p \<or> pipe_out p")
  case True
  let ?i = "unat (p AND MAX_ENDPOINT_NUMBER)"
  let ?x = "if p AND 0x80 \<noteq> 0 then h\<lparr>in_timeout := (in_timeout h)[?i := t]\<rparr>
    else h\<lparr>out_timeout := (out_timeout h)[?i := t]\<rparr>"
  have i: "?i < 16" by (rule endpoint_number_less)
  have "timeout_for ?x q = (if q = p then t else timeout_for h q)" if "pipe_in q \<or> pipe_out q" for q
    using endpoint_inject [OF True that] i assms(1)
    by (auto simp: timeout_for_def nth_list_update)
  moreover have "wf_gh (Heap k ?x)" "gh_fd ?x = gh_fd h"
    using assms(1) by auto
  moreover have "runs (libusbp_generic_handle_set_timeout E (Heap k h) p t w)
      (\<lambda>(e, h') w'. live w' = live w \<and> e = NULL \<and> h' = Heap k ?x)"
    using True assms i
    by (auto simp: libusbp_generic_handle_set_timeout_def pipe_check_def Let_def
        intro!: runs_bind check_pipe_id_wp)
  ultimately show ?thesis
    using True by (elim runs_mono) (auto simp del: gh_simps split del: if_split)
next
  case False
  then show ?thesis
    using assms
    by (auto simp: libusbp_generic_handle_set_timeout_def pipe_check_def says_def ok_then_error
        intro!: runs_bind check_pipe_id_wp)
qed

theorem set_timeout_correct_witness:
  "runs (libusbp_generic_handle_set_timeout plenty (Heap 5 demo_handle) 0x81 100
       \<lparr>next_id = 12, live = {#(Mem, 5)#}\<rparr>) (\<lambda>(e, h) w'. e = NULL \<and>
     (\<exists>x. h = Heap 5 x \<and> timeout_for x 0x81 = 100 \<and> timeout_for x 0x01 = timeout_for demo_handle 0x01))"
  by (rule runs_mono [OF set_timeout_correct]) (auto simp: pipe_in_def pipe_out_def)

text \<open>
  A synchronous read uses the descriptor of the handle and the timeout of the endpoint, and
  the buffer holds what the kernel wrote; addresses that are not IN endpoints are refused.  On
  every error nothing was transferred and the buffer is untouched.
\<close>

theorem read_pipe_correct:
  assumes "wf_gh (Heap k h)" and "gh_fd h = Some f" and "(Mem, k) \<in># live w"
    and "\<forall>old. data = Some old \<longrightarrow> n \<le> length old"
  shows "runs (libusbp_read_pipe E (Heap k h) p data n w) (\<lambda>(e, m, data') w'.
    live w' = live w + err_res e \<and> (\<not> pipe_in p \<longrightarrow> e \<noteq> NULL) \<and>
    (if e = NULL
     then \<exists>i bytes. ioctl_bulk E i f p n (timeout_for h p) data = Inr (m, bytes) \<and>
       kernel_write n bytes data = Some data'
     else m = 0 \<and> data' = data))"
proof (cases "pipe_in p")
  case True
  have "unat (p AND MAX_ENDPOINT_NUMBER) < 16" by (rule endpoint_number_less)
  moreover have "p AND 0x80 \<noteq> 0" using True by (simp add: pipe_in_iff)
  ultimately show ?thesis
    using assms True
    by (auto simp: libusbp_read_pipe_def pipe_check_def Let_def timeout_for_def room_for_def
      bulk_result_def later_def says_def intro!: runs_bind check_pipe_id_in_wp wp)
next
  case False
  then show ?thesis
    by (auto simp: libusbp_read_pipe_def pipe_check_def says_def ok_then_error
      intro!: runs_bind check_pipe_id_in_wp wp)
qed

theorem read_pipe_correct_witness:
  "runs (libusbp_read_pipe plenty_system (Heap 5 demo_handle) 0x01 (Some [7]) 1
       \<lparr>next_id = 12, live = {#(Mem, 5)#}\<rparr>) (\<lambda>(e, m, data) w'. e \<noteq> NULL \<and> data = Some [7])"
  by (rule runs_mono [OF read_pipe_correct]) (auto simp: pipe_in_def)

text \<open>
  A synchronous write uses the descriptor of the handle and the timeout of the endpoint, and
  never changes the buffer; addresses that are not OUT endpoints are refused.
\<close>

theorem write_pipe_correct:
  assumes "wf_gh (Heap k h)" and "gh_fd h = Some f" and "(Mem, k) \<in># live w"
  shows "runs (libusbp_write_pipe E (Heap k h) p data n w) (\<lambda>(e, m, data') w'.
    live w' = live w + err_res e \<and> (\<not> pipe_out p \<longrightarrow> e \<noteq> NULL) \<and> data' = data \<and>
    (if e = NULL
     then \<exists>i bytes. ioctl_bulk E i f p n (timeout_for h p) data = Inr (m, bytes)
     else m = 0))"
proof (cases "pipe_out p")
  case True
  have "unat (p AND MAX_ENDPOINT_NUMBER) < 16" by (rule endpoint_number_less)
  moreover have "p AND 0x80 = 0" using True by (simp add: pipe_out_iff)
  ultimately show ?thesis
    using assms True
    by (auto simp: libusbp_write_pipe_def pipe_check_def Let_def timeout_for_def room_for_def
      bulk_result_def later_def says_def intro!: runs_bind check_pipe_id_out_wp wp)
next
  case False
  then show ?thesis
    by (auto simp: libusbp_write_pipe_def pipe_check_def says_def ok_then_error
      intro!: runs_bind check_pipe_id_out_wp wp)
qed

theorem write_pipe_correct_witness:
  "runs (libusbp_write_pipe plenty_system (Heap 5 demo_handle) 0x81 (Some [7]) 1
       \<lparr>next_id = 12, live = {#(Mem, 5)#}\<rparr>) (\<lambda>(e, m, data) w'. e \<noteq> NULL \<and> data = Some [7])"
  by (rule runs_mono [OF write_pipe_correct]) (auto simp: pipe_out_def)

end
