(* ===== verification/TransferStore.thy ===== *)
theory TransferStore
  imports Prelude
begin

text \<open>
  Objects that the code shares with the system, as asynchronous transfers are: a store of the objects by
  their identity, a list of the jobs that the system has on them, and the invariant that ties the two.
  Linux and macOS use it with their own transfers and jobs.
\<close>

section \<open>Stores of objects\<close>

text \<open>
  Objects that the code and the system share by their identity are kept in a store; it owns what they own.
\<close>

definition store_res_of :: "(nat \<Rightarrow> 'x \<Rightarrow> res multiset) \<Rightarrow> (nat \<Rightarrow> 'x option) \<Rightarrow> res multiset" where
  "store_res_of f m = (\<Sum>t \<in> dom m. f t (the (m t)))"

lemma store_res_of_remove:
  assumes "finite (dom m)" "m t = Some x"
  shows "store_res_of f m = f t x + store_res_of f (m(t := None))"
proof -
  have "store_res_of f m = f t (the (m t)) + (\<Sum>s \<in> dom m - {t}. f s (the (m s)))"
    unfolding store_res_of_def using assms by (intro sum.remove) auto
  also have "(\<Sum>s \<in> dom m - {t}. f s (the (m s))) = store_res_of f (m(t := None))"
    unfolding store_res_of_def by (intro sum.cong) auto
  finally show ?thesis using assms(2) by simp
qed

lemma store_res_of_upd:
  "finite (dom m) \<Longrightarrow> store_res_of f (m(t \<mapsto> x)) = f t x + store_res_of f (m(t := None))"
  using store_res_of_remove [of "m(t \<mapsto> x)" t x] by simp

lemma store_res_of_empty [simp]: "store_res_of f (\<lambda>_. None) = {#}"
  by (simp add: store_res_of_def)

section \<open>Objects and jobs\<close>

text \<open>
  \<open>own\<close> is what an object owns, \<open>good\<close> its well-formedness, \<open>job\<close> says of an object which jobs the system
  has on it, and \<open>key\<close> which object a job is on.  The invariant: the identities of the objects were
  given out before, the ledger \<open>R\<close> is what the objects own and the rest \<open>L\<close>, all objects are well-formed,
  and the system has exactly their jobs, each once.
\<close>

definition shared_inv :: "(nat \<Rightarrow> 'x \<Rightarrow> res multiset) \<Rightarrow> (nat \<Rightarrow> 'x \<Rightarrow> bool) \<Rightarrow> ('x \<Rightarrow> 'k \<Rightarrow> bool)
    \<Rightarrow> ('k \<Rightarrow> nat) \<Rightarrow> (nat \<Rightarrow> 'x option) \<Rightarrow> 'k list \<Rightarrow> nat \<Rightarrow> res multiset \<Rightarrow> res multiset \<Rightarrow> bool" where
  "shared_inv own good job key m ks n R L \<longleftrightarrow> dom m \<subseteq> {..<n} \<and> R = store_res_of own m + L \<and>
     (\<forall>t x. m t = Some x \<longrightarrow> good t x \<and> (\<forall>k. key k = t \<longrightarrow> (k \<in> set ks \<longleftrightarrow> job x k))) \<and>
     distinct ks \<and> key ` set ks \<subseteq> dom m"

lemma shared_finite: "shared_inv own good job key m ks n R L \<Longrightarrow> finite (dom m)"
  unfolding shared_inv_def by (blast intro: finite_subset)

lemma shared_split:
  assumes "shared_inv own good job key m ks n R L" "m t = Some x"
  shows "R = own t x + store_res_of own (m(t := None)) + L" "good t x"
    "key k = t \<Longrightarrow> k \<in> set ks \<longleftrightarrow> job x k"
  using assms store_res_of_remove [OF shared_finite [OF assms(1)] assms(2), of own]
  by (auto simp: shared_inv_def)

text \<open>Changing one object, with the ledger and the jobs changed to match.\<close>

lemma shared_upd:
  assumes inv: "shared_inv own good job key m ks n R L" and x: "m t = Some x" "good t x'"
    and R: "R' = own t x' + store_res_of own (m(t := None)) + L'" and n: "n \<le> n'"
    and ks: "distinct ks'" "\<And>k. k \<in> set ks' \<longleftrightarrow> (if key k = t then job x' k else k \<in> set ks)"
  shows "shared_inv own good job key (m(t \<mapsto> x')) ks' n' R' L'"
  unfolding shared_inv_def
proof (intro conjI allI impI)
  have dom: "dom m \<subseteq> {..<n}" "key ` set ks \<subseteq> dom m" using inv unfolding shared_inv_def by blast+
  show "dom (m(t \<mapsto> x')) \<subseteq> {..<n'}" using dom(1) x(1) n by (auto split: if_splits)
  show "R' = store_res_of own (m(t \<mapsto> x')) + L'"
    using R store_res_of_upd [OF shared_finite [OF inv], of own t x'] by simp
  show "key ` set ks' \<subseteq> dom (m(t \<mapsto> x'))"
  proof
    fix s assume "s \<in> key ` set ks'"
    then obtain k where "s = key k" "key k = t \<or> k \<in> set ks" using ks(2) by (auto split: if_splits)
    with dom(2) show "s \<in> dom (m(t \<mapsto> x'))" by auto
  qed
  show "distinct ks'" by (rule ks(1))
next
  fix s y assume s: "(m(t \<mapsto> x')) s = Some y"
  show "good s y" using s x(2) inv unfolding shared_inv_def by (auto split: if_splits)
  fix k assume "key k = s"
  then show "k \<in> set ks' \<longleftrightarrow> job y k"
    using s ks(2) inv unfolding shared_inv_def by (auto split: if_splits)
qed

lemma shared_new:
  assumes inv: "shared_inv own good job key m ks n R L" and t: "m t = None" "n \<le> n'" "t < n'"
    and x: "good t x" "\<And>k. \<not> job x k" and R: "R' = R + own t x"
  shows "shared_inv own good job key (m(t \<mapsto> x)) ks n' R' L"
proof -
  have "m(t := None) = m" using t(1) by auto
  then have "store_res_of own (m(t \<mapsto> x)) = own t x + store_res_of own m"
    using store_res_of_upd [OF shared_finite [OF inv], of own t x] by simp
  moreover have "k \<notin> set ks" if "key k = t" for k
    using inv t(1) that unfolding shared_inv_def by (auto simp: dom_def image_subset_iff)
  ultimately show ?thesis
    using inv t x R unfolding shared_inv_def by (auto split: if_splits)
qed

lemma shared_remove:
  assumes inv: "shared_inv own good job key m ks n R L" and x: "m t = Some x" "\<And>k. \<not> job x k"
  shows "shared_inv own good job key (m(t := None)) ks n (R - own t x) L"
proof -
  note s = shared_split [OF inv x(1)]
  have "key k \<noteq> t" if "k \<in> set ks" for k using s(3) x(2) that by blast
  moreover have "R - own t x = store_res_of own (m(t := None)) + L"
    by (subst s(1)) (simp add: union_assoc)
  ultimately show ?thesis
    using inv unfolding shared_inv_def by auto
qed

lemma shared_keep:
  assumes "shared_inv own good job key m ks n R L" "n \<le> n'"
  shows "shared_inv own good job key m ks n' (R + S) (L + S)"
  using assms unfolding shared_inv_def by auto

end
