(* ===== verification/AsyncTransfer.thy ===== *)
theory AsyncTransfer
  imports GenericHandle TransferStore
begin

text \<open>
  \<open>src/src/linux/async_in_transfer_linux.c\<close>, the asynchronous IN transfers, and the event loop of
  \<open>src/src/linux/generic_handle_linux.c\<close> that completes them.  The lemmas establish the invariant
  that ties the \<open>pending\<close> flags to what the kernel holds, so that no memory is freed that the
  kernel will write to.
\<close>

section \<open>The operations of async_in_transfer_linux.c\<close>

abbreviation (input) "USBDEVFS_URB_TYPE_BULK \<equiv> (3 :: 8 word)"

definition INT_MAX :: nat where
  "INT_MAX = 2 ^ 31 - 1"

definition async_in_pipe_setup :: "generic_handle \<Rightarrow> 8 word \<Rightarrow> 'w world_scheme
    \<Rightarrow> (err \<times> 'w world_scheme) option" where
  "async_in_pipe_setup handle pipe_id w = Some (NULL, w)"

definition async_in_transfer_create :: "'e usb_system_scheme \<Rightarrow> generic_handle \<Rightarrow> 8 word \<Rightarrow> nat
    \<Rightarrow> 'w usb_world_scheme \<Rightarrow> ((err \<times> nat option) \<times> 'w usb_world_scheme) option" where
  "async_in_transfer_create E handle pipe_id transfer_size w =
     (if transfer_size = 0 then None
      else if transfer_size > INT_MAX then do {
        (error, w) \<leftarrow> error_create E ''Transfer size is too large.'' w;
        Some ((error, None), w)
      }
      else do {
        (new_transfer, w) \<leftarrow> malloc E w;
        let error = (if new_transfer = NULL then error_no_memory else NULL);
        ((error, new_buffer), w) \<leftarrow> ok_then error NULL (\<lambda>w. do {
          (new_buffer, w) \<leftarrow> malloc E w;
          Some ((if new_buffer = NULL then error_no_memory else NULL, new_buffer), w)
        }) w;
        (transfer, new_buffer, new_transfer, w) \<leftarrow>
          (if error = NULL then do {
             f \<leftarrow> libusbp_generic_handle_get_fd handle w;
             (case (new_transfer, new_buffer) of
                (Heap n _, Heap b _) \<Rightarrow>
                  Some (Some n, NULL, NULL, put_transfer n \<lparr>
                    urb = \<lparr>urb_type = USBDEVFS_URB_TYPE_BULK, endpoint = pipe_id, status = 0,
                      buffer = Heap b (map (heap_bytes E b) [0..<transfer_size]),
                      buffer_length = int transfer_size, actual_length = 0, error_count = 0,
                      usercontext = Some n\<rparr>,
                    pending = False, t_error = NULL, t_fd = f\<rparr> w)
              | _ \<Rightarrow> None)
           }
           else Some (None, new_buffer, new_transfer, w));
        w \<leftarrow> free new_buffer w;
        w \<leftarrow> free new_transfer w;
        Some ((error, transfer), w)
      })"

definition async_in_transfer_free :: "nat option \<Rightarrow> 'w usb_world_scheme \<Rightarrow> 'w usb_world_scheme option" where
  "async_in_transfer_free transfer w =
     (if transfer = None then Some w
      else do {
        (t, x) \<leftarrow> get_transfer transfer w;
        if pending x then Some w
        else do {
          w \<leftarrow> libusbp_error_free (t_error x) w;
          w \<leftarrow> free (buffer (urb x)) w;
          w \<leftarrow> release (Mem, t) w;
          Some (w\<lparr>transfers := (transfers w)(t := None)\<rparr>)
        }
      })"

definition async_in_transfer_submit :: "'e usb_system_scheme \<Rightarrow> nat option
    \<Rightarrow> 'w usb_world_scheme \<Rightarrow> 'w usb_world_scheme option" where
  "async_in_transfer_submit E transfer w = do {
     (t, x) \<leftarrow> get_transfer transfer w;
     if pending x then None
     else do {
       w \<leftarrow> libusbp_error_free (t_error x) w;
       let x = x\<lparr>t_error := NULL, pending := True\<rparr>;
       let w = put_transfer t x w;
       (error, w) \<leftarrow> usbfd_submit_urb E (t_fd x) t w;
       if error \<noteq> NULL then Some (put_transfer t (x\<lparr>pending := False, t_error := error\<rparr>) w)
       else Some w
     }
   }"

text \<open>The error of a completed request block, and its delivery to the transfer.\<close>

definition completion_error :: "'e posix_scheme \<Rightarrow> usbdevfs_urb \<Rightarrow> 'w world_scheme
    \<Rightarrow> (err \<times> 'w world_scheme) option" where
  "completion_error E u w = do {
     (error, w) \<leftarrow> error_from_urb_status E (status u) w;
     (error, w) \<leftarrow> (if error = NULL \<and> error_count u \<noteq> 0
       then error_create E (''Non-zero error count for USB request: '' @
         fmt_d (error_count u) @ ''.'') w
       else Some (error, w));
     if error \<noteq> NULL then error_add E error ''Asynchronous IN transfer failed.'' w
     else Some (error, w)
   }"

definition async_in_transfer_handle_completion :: "'e usb_system_scheme \<Rightarrow> nat option
    \<Rightarrow> 'w usb_world_scheme \<Rightarrow> 'w usb_world_scheme option" where
  "async_in_transfer_handle_completion E transfer w = do {
     (t, x) \<leftarrow> get_transfer transfer w;
     (error, w) \<leftarrow> completion_error E (urb x) w;
     Some (put_transfer t (x\<lparr>pending := False, t_error := error\<rparr>) w)
   }"

text \<open>
  \<open>actual_length\<close> is converted to \<open>size_t\<close>, so a negative length becomes a huge one before it is
  cut down to the length of the buffer.  The copy needs that many bytes on both sides.
\<close>

definition async_in_transfer_get_results :: "'e environment_scheme \<Rightarrow> nat option
    \<Rightarrow> 8 word list option \<Rightarrow> bool \<Rightarrow> bool \<Rightarrow> 'w usb_world_scheme
    \<Rightarrow> ((err \<times> 8 word list option \<times> nat \<times> err) \<times> 'w usb_world_scheme) option" where
  "async_in_transfer_get_results E transfer buf transferred_given error_given w = do {
     (t, x) \<leftarrow> get_transfer transfer w;
     if pending x then None
     else do {
       let tmp = nat (actual_length (urb x) mod 2 ^ 64);
       let len = nat (buffer_length (urb x) mod 2 ^ 64);
       let tmp_transferred = (if tmp > len then len else tmp);
       buf \<leftarrow> (case buf of None \<Rightarrow> Some None
         | Some dest \<Rightarrow> do {
             src \<leftarrow> deref (buffer (urb x)) w;
             if tmp_transferred \<le> length src \<and> tmp_transferred \<le> length dest
             then Some (Some (take tmp_transferred src @ drop tmp_transferred dest)) else None
           });
       (transfer_error, w) \<leftarrow> (if error_given then libusbp_error_copy E (t_error x) w
         else Some (NULL, w));
       Some ((NULL, buf, if transferred_given then tmp_transferred else 0, transfer_error), w)
     }
   }"

definition async_in_transfer_cancel :: "'e usb_system_scheme \<Rightarrow> nat option
    \<Rightarrow> 'w usb_world_scheme \<Rightarrow> (err \<times> 'w usb_world_scheme) option" where
  "async_in_transfer_cancel E transfer w =
     (if transfer = None then Some (NULL, w)
      else do {
        (t, x) \<leftarrow> get_transfer transfer w;
        usbfd_discard_urb E (t_fd x) t w
      })"

definition async_in_transfer_pending :: "nat option \<Rightarrow> 'w usb_world_scheme \<Rightarrow> bool option" where
  "async_in_transfer_pending transfer w = do {
     (t, x) \<leftarrow> get_transfer transfer w;
     Some (pending x)
   }"

section \<open>The event loop of generic_handle_linux.c\<close>

definition handle_completed_urb :: "'e usb_system_scheme \<Rightarrow> nat \<Rightarrow> 'w usb_world_scheme
    \<Rightarrow> (err \<times> 'w usb_world_scheme) option" where
  "handle_completed_urb E t w = do {
     (t, x) \<leftarrow> get_transfer (Some t) w;
     if usercontext (urb x) = None
     then error_create E ''A completed USB request block has a NULL usercontext.'' w
     else if urb_type (urb x) = USBDEVFS_URB_TYPE_BULK \<and> endpoint (urb x) AND 0x80 \<noteq> 0
     then do {
       w \<leftarrow> async_in_transfer_handle_completion E (usercontext (urb x)) w;
       Some (NULL, w)
     }
     else error_create E ''A completed USB request block was unrecognized.'' w
   }"

text \<open>The loop has no bound of its own: not returning is \<open>None\<close>, and has to be excluded by proof.\<close>

partial_function (option) events_loop :: "'e usb_system_scheme \<Rightarrow> generic_handle
    \<Rightarrow> 'w usb_world_scheme \<Rightarrow> (err \<times> 'w usb_world_scheme) option" where
  "events_loop E handle w = do {
     h \<leftarrow> deref handle w;
     ((error, urb), w) \<leftarrow> usbfd_reap_urb E (gh_fd h) w;
     if error \<noteq> NULL then Some (error, w)
     else if urb = None then Some (NULL, w)
     else do {
       t \<leftarrow> urb;
       (error, w) \<leftarrow> handle_completed_urb E t w;
       if error \<noteq> NULL then Some (error, w) else events_loop E handle w
     }
   }"

definition generic_handle_events :: "'e usb_system_scheme \<Rightarrow> generic_handle
    \<Rightarrow> 'w usb_world_scheme \<Rightarrow> (err \<times> 'w usb_world_scheme) option" where
  "generic_handle_events E handle w =
     (if handle = NULL then error_create E ''Generic handle argument is null.'' w
      else events_loop E handle w)"

section \<open>The invariant of the transfers\<close>

definition trans_res :: "nat \<Rightarrow> async_in_transfer \<Rightarrow> res multiset" where
  "trans_res t x = add_mset (Mem, t) (blk (buffer (urb x)) + err_res (t_error x))"

abbreviation store_res :: "(nat \<Rightarrow> async_in_transfer option) \<Rightarrow> res multiset" where
  "store_res \<equiv> store_res_of trans_res"

lemmas store_res_def = store_res_of_def [where f = trans_res]

definition wf_transfer :: "nat \<Rightarrow> async_in_transfer \<Rightarrow> bool" where
  "wf_transfer t x \<longleftrightarrow>
     (\<exists>b d. buffer (urb x) = Heap b d \<and> int (length d) = buffer_length (urb x) \<and>
        length d \<le> INT_MAX) \<and>
     usercontext (urb x) = Some t \<and> urb_type (urb x) = USBDEVFS_URB_TYPE_BULK \<and>
     endpoint (urb x) AND 0x80 \<noteq> 0 \<and> wf_err (t_error x) \<and>
     (pending x \<longrightarrow> t_error x = NULL \<and> t_fd x \<noteq> None)"

text \<open>
  All transfers are well-formed, a transfer is pending exactly when the kernel holds its request
  block, the kernel holds each block once and on the descriptor of its transfer, and the ledger
  is what the transfers own and the rest, \<open>L\<close>.
\<close>

definition async_inv :: "'w usb_world_scheme \<Rightarrow> res multiset \<Rightarrow> bool" where
  "async_inv w L \<longleftrightarrow> dom (transfers w) \<subseteq> {..<next_id w} \<and> live w = store_res (transfers w) + L \<and>
     (\<forall>t x. transfers w t = Some x \<longrightarrow> wf_transfer t x \<and>
        (\<forall>f. (f, t) \<in> set (kernel_urbs w) \<longleftrightarrow> pending x \<and> t_fd x = Some f)) \<and>
     distinct (kernel_urbs w) \<and> snd ` set (kernel_urbs w) \<subseteq> dom (transfers w)"

lemma async_inv_shared:
  "async_inv w L \<longleftrightarrow> shared_inv trans_res wf_transfer (\<lambda>x (f, t). pending x \<and> t_fd x = Some f) snd
     (transfers w) (kernel_urbs w) (next_id w) (live w) L"
  by (simp add: async_inv_def shared_inv_def split_paired_All)

lemma async_inv_split:
  assumes "async_inv w L" "transfers w t = Some x"
  shows "live w = trans_res t x + store_res ((transfers w)(t := None)) + L"
    "get_transfer (Some t) w = Some (t, x)" "wf_transfer t x"
    "(f, t) \<in> set (kernel_urbs w) \<longleftrightarrow> pending x \<and> t_fd x = Some f"
proof -
  note s = shared_split [OF assms(1) [unfolded async_inv_shared] assms(2)]
  show "live w = trans_res t x + store_res ((transfers w)(t := None)) + L" "wf_transfer t x"
    by (rule s)+
  then show "get_transfer (Some t) w = Some (t, x)"
    using assms(2) by (simp add: get_transfer_def trans_res_def)
  show "(f, t) \<in> set (kernel_urbs w) \<longleftrightarrow> pending x \<and> t_fd x = Some f"
    using s(3) [of "(f, t)"] by simp
qed

text \<open>Changing one transfer, with the ledger and the kernel's list changed to match.\<close>

lemma async_inv_upd:
  assumes "async_inv w L" "transfers w t = Some x" "transfers w' = (transfers w)(t \<mapsto> x')"
    and "live w' = trans_res t x' + store_res ((transfers w)(t := None)) + L'"
    and "next_id w \<le> next_id w'" "wf_transfer t x'" "distinct (kernel_urbs w')"
    and "\<And>f s. (f, s) \<in> set (kernel_urbs w') \<longleftrightarrow>
      (if s = t then pending x' \<and> t_fd x' = Some f else (f, s) \<in> set (kernel_urbs w))"
  shows "async_inv w' L'"
  unfolding async_inv_shared assms(3)
  by (rule shared_upd [OF assms(1) [unfolded async_inv_shared] assms(2,6,4,5,7)]) (auto simp: assms(8))

lemma usbfd_submit_urb_spec:
  assumes "get_transfer (Some t) w = Some (t, x)"
  shows "runs (usbfd_submit_urb E f t w) (\<lambda>e w'. next_id w \<le> next_id w' \<and> transfers w' = transfers w \<and>
    (e = NULL \<longrightarrow> (\<exists>g. f = Some g \<and> live w' = live w \<and> kernel_urbs w' = kernel_urbs w @ [(g, t)])) \<and>
    (e \<noteq> NULL \<longrightarrow> wf_err e \<and> live w' = live w + err_res e \<and> kernel_urbs w' = kernel_urbs w))"
  using assms
  by (auto simp: usbfd_submit_urb_def later_def says_def Let_def fd_open_def
      dest: usb_fields_of_more split: option.splits if_splits intro!: wp)

lemma put_transfer_simps [simp]:
  "transfers (put_transfer t x w) = (transfers w)(t \<mapsto> x)" "live (put_transfer t x w) = live w"
  "next_id (put_transfer t x w) = next_id w" "kernel_urbs (put_transfer t x w) = kernel_urbs w"
  by (simp_all add: put_transfer_def)

lemma async_in_transfer_submit_ok:
  assumes inv: "async_inv w L" and x: "transfers w t = Some x" and p: "\<not> pending x"
  shows "\<exists>w' x'. async_in_transfer_submit E (Some t) w = Some w' \<and> async_inv w' L \<and>
    next_id w \<le> next_id w' \<and> transfers w' = (transfers w)(t \<mapsto> x') \<and> urb x' = urb x \<and> t_fd x' = t_fd x \<and>
    (if pending x' then \<exists>f. t_fd x = Some f \<and> kernel_urbs w' = kernel_urbs w @ [(f, t)]
     else t_error x' \<noteq> NULL \<and> kernel_urbs w' = kernel_urbs w)"
proof -
  note s = async_inv_split [OF inv x]
  let ?x = "x\<lparr>t_error := NULL, pending := True\<rparr>"
  let ?w = "put_transfer t ?x (drop_res (err_res (t_error x)) w)"
  have wf: "wf_err (t_error x)" using s(3) by (simp add: wf_transfer_def)
  have f: "libusbp_error_free (t_error x) w = Some (drop_res (err_res (t_error x)) w)"
    by (rule libusbp_error_free_ok [OF wf]) (simp add: s(1) trans_res_def)
  have live: "live ?w = trans_res t ?x + store_res ((transfers w)(t := None)) + L"
    by (simp add: s(1) trans_res_def)
  then have "get_transfer (Some t) ?w = Some (t, ?x)"
    by (simp add: get_transfer_def trans_res_def)
  then obtain e w1 where sub: "usbfd_submit_urb E (t_fd ?x) t ?w = Some (e, w1)"
    and w1: "next_id w \<le> next_id w1" "transfers w1 = transfers ?w"
      "e = NULL \<longrightarrow> (\<exists>g. t_fd x = Some g \<and> live w1 = live ?w \<and> kernel_urbs w1 = kernel_urbs w @ [(g, t)])"
      "e \<noteq> NULL \<longrightarrow> wf_err e \<and> live w1 = live ?w + err_res e \<and> kernel_urbs w1 = kernel_urbs w"
    using runsD [OF usbfd_submit_urb_spec [of t ?w ?x E "t_fd ?x"]]
    by (auto simp del: live_drop_res)
  show ?thesis
  proof (cases "e = NULL")
    case True
    then obtain g where g: "t_fd x = Some g" "live w1 = live ?w" "kernel_urbs w1 = kernel_urbs w @ [(g, t)]"
      using w1(3) by blast
    have "async_inv w1 L"
      by (rule async_inv_upd [OF inv x, of _ ?x])
        (use g w1(1,2) live s(3,4) p inv in \<open>auto simp: wf_transfer_def async_inv_def\<close>)
    then show ?thesis
      using sub True f s(2) p w1(1,2) g by (auto simp: async_in_transfer_submit_def)
  next
    case False
    let ?y = "?x\<lparr>pending := False, t_error := e\<rparr>"
    have "async_inv (put_transfer t ?y w1) L"
      by (rule async_inv_upd [OF inv x, of _ ?y])
        (use False w1(1,2,4) live s(3,4) p inv in \<open>auto simp: wf_transfer_def async_inv_def trans_res_def\<close>)
    then show ?thesis
      using sub False f s(2) p w1 by (auto simp: async_in_transfer_submit_def intro!: exI [of _ ?y])
  qed
qed

text \<open>What the kernel changes of a transfer when its request block is reaped.\<close>

definition reaped :: "async_in_transfer \<Rightarrow> async_in_transfer \<Rightarrow> bool" where
  "reaped x x' \<longleftrightarrow> (\<exists>st al ec b d d'. buffer (urb x) = Heap b d \<and> length d' = length d \<and>
     x' = x\<lparr>urb := (urb x)\<lparr>status := st, actual_length := al, error_count := ec,
       buffer := Heap b d'\<rparr>\<rparr>)"

lemma reapedD:
  assumes "reaped x x'" "wf_transfer t x"
  shows "wf_transfer t x'" "trans_res t x' = trans_res t x" "pending x' = pending x"
    "t_fd x' = t_fd x" "t_error x' = t_error x" "buffer_length (urb x') = buffer_length (urb x)"
  using assms by (auto simp: reaped_def wf_transfer_def trans_res_def)

lemma reap_fd_spec:
  assumes inv: "async_inv w L"
  shows "runs (reap_fd E f w) (\<lambda>r w'. next_id w \<le> next_id w' \<and> live w' = live w \<and>
    (\<forall>n. r = Inl n \<longrightarrow> transfers w' = transfers w \<and> kernel_urbs w' = kernel_urbs w) \<and>
    (\<forall>t. r = Inr t \<longrightarrow> (\<exists>g x x'. f = Some g \<and> (g, t) \<in> set (kernel_urbs w) \<and>
      transfers w t = Some x \<and> reaped x x' \<and> transfers w' = (transfers w)(t \<mapsto> x') \<and>
      kernel_urbs w' = remove1 (g, t) (kernel_urbs w))))"
proof (cases "fd_open f w")
  case None
  then show ?thesis by (simp add: reap_fd_def)
next
  case (Some g)
  then have f: "f = Some g" by (auto simp: fd_open_def split: option.splits if_splits)
  show ?thesis
  proof (cases "ioctl_reapurbndelay E (next_id w) g")
    case (Reap_errno n)
    then show ?thesis using Some by (simp add: reap_fd_def)
  next
    case (Reap_urb k st al ec bytes)
    define mine where "mine = filter (\<lambda>(h, t). h = g) (kernel_urbs w)"
    show ?thesis
    proof (cases "mine = []")
      case True
      then show ?thesis using Some Reap_urb by (simp add: reap_fd_def mine_def)
    next
      case False
      define i where "i = snd (mine ! (k mod length mine))"
      have "mine ! (k mod length mine) \<in> set mine" using False by (intro nth_mem) simp
      then have i: "(g, i) \<in> set (kernel_urbs w)" by (auto simp: mine_def i_def)
      then obtain x where x: "transfers w i = Some x"
        using inv unfolding async_inv_def by force
      note s = async_inv_split [OF inv x]
      obtain b d where b: "buffer (urb x) = Heap b d" "int (length d) = buffer_length (urb x)"
        using s(3) by (auto simp: wf_transfer_def)
      have live: "(Mem, b) \<in># live w" using b by (simp add: s(1) trans_res_def)
      let ?b = "take (length d) bytes"
      have len: "nat (buffer_length (urb x)) = length d" using b(2) by linarith
      have "reap_fd E f w = Some (Inr i, tick ((put_transfer i (x\<lparr>urb := (urb x)\<lparr>status := st,
          actual_length := al, error_count := ec, buffer := Heap b (?b @ drop (length ?b) d)\<rparr>\<rparr>) w)
          \<lparr>kernel_urbs := remove1 (g, i) (kernel_urbs w)\<rparr>))"
        using Some Reap_urb False b live s(2) len
        by (simp add: reap_fd_def Let_def flip: mine_def i_def)
      moreover have "reaped x (x\<lparr>urb := (urb x)\<lparr>status := st, actual_length := al,
          error_count := ec, buffer := Heap b (?b @ drop (length ?b) d)\<rparr>\<rparr>)"
        unfolding reaped_def using b
        by (intro exI [of _ st] exI [of _ al] exI [of _ ec] exI [of _ b] exI [of _ d]
            exI [of _ "?b @ drop (length ?b) d"]) simp
      ultimately show ?thesis
        using f i x by auto
    qed
  qed
qed

text \<open>Completion: the transfer is no longer pending and holds the error of its request, if any.\<close>

lemma completion_error_spec:
  "runs (completion_error E u w) (\<lambda>e w'. later w w' \<and> wf_err e \<and> live w' = live w + err_res e \<and>
     (e = NULL \<longleftrightarrow> status u = 0 \<and> error_count u = 0))"
  by (auto simp: completion_error_def later_def says_def intro!: wp)

lemma handle_completed_urb_ok:
  assumes inv: "async_inv w L" and x: "transfers w t = Some x"
    and k: "(g, t) \<in> set (kernel_urbs w)" and r: "reaped x x1"
    and w1: "transfers w1 = (transfers w)(t \<mapsto> x1)" "live w1 = live w"
      "kernel_urbs w1 = remove1 (g, t) (kernel_urbs w)" "next_id w \<le> next_id w1"
  shows "\<exists>w2 x2. handle_completed_urb E t w1 = Some (NULL, w2) \<and> async_inv w2 L \<and>
    next_id w1 \<le> next_id w2 \<and> transfers w2 = (transfers w)(t \<mapsto> x2) \<and> \<not> pending x2 \<and>
    urb x2 = urb x1 \<and> t_fd x2 = t_fd x \<and> kernel_urbs w2 = kernel_urbs w1"
proof -
  note s = async_inv_split [OF inv x] and r' = reapedD [OF r async_inv_split(3) [OF inv x]]
  have p: "pending x" "t_fd x = Some g" using s(4) k by blast+
  then have err: "t_error x = NULL" using s(3) by (simp add: wf_transfer_def)
  have live1: "live w1 = trans_res t x1 + store_res ((transfers w)(t := None)) + L"
    using w1(2) s(1) r'(2) by simp
  then have g1: "get_transfer (Some t) w1 = Some (t, x1)"
    using w1(1) by (simp add: get_transfer_def trans_res_def)
  obtain e w2 where e: "completion_error E (urb x1) w1 = Some (e, w2)" "later w1 w2" "wf_err e"
    "live w2 = live w1 + err_res e"
    using runsD [OF completion_error_spec [of E "urb x1" w1]] by auto
  let ?x = "x1\<lparr>pending := False, t_error := e\<rparr>"
  let ?w = "put_transfer t ?x w2"
  have fields: "transfers w2 = transfers w1" "kernel_urbs w2 = kernel_urbs w1"
    using usb_fields_of_more [of w2 w1] e(2) by (simp_all add: later_def)
  have live: "live ?w = trans_res t ?x + store_res ((transfers w)(t := None)) + L"
    using e(4) live1 err r'(5) by (simp add: trans_res_def)
  have "(f, u) \<in> set (kernel_urbs ?w) \<longleftrightarrow>
      (if u = t then pending ?x \<and> t_fd ?x = Some f else (f, u) \<in> set (kernel_urbs w))" for f u
    using fields(2) w1(3) s(4) [of f] p inv by (auto simp: async_inv_def)
  moreover have "distinct (kernel_urbs ?w)"
    using fields(2) w1(3) inv by (simp add: async_inv_def)
  moreover have "wf_transfer t ?x" using r'(1) e(3) by (simp add: wf_transfer_def)
  ultimately have "async_inv ?w L"
    using fields(1) w1(1,4) live e(2) by (intro async_inv_upd [OF inv x, of ?w ?x L]) (simp_all add: later_def)
  moreover have "handle_completed_urb E t w1 = Some (NULL, ?w)"
    using g1 e(1) r'(1)
    by (simp add: handle_completed_urb_def async_in_transfer_handle_completion_def wf_transfer_def)
  ultimately show ?thesis
    using e(2) fields w1(1) r'(4) by (intro exI [of _ ?w] exI [of _ ?x]) (simp add: later_def)
qed

text \<open>What completions do to the transfers: finished ones stay, pending ones may finish.\<close>

definition completes :: "'w usb_world_scheme \<Rightarrow> 'w usb_world_scheme \<Rightarrow> bool" where
  "completes w w' \<longleftrightarrow> next_id w \<le> next_id w' \<and> dom (transfers w') = dom (transfers w) \<and>
     set (kernel_urbs w') \<subseteq> set (kernel_urbs w) \<and>
     (\<forall>t x. transfers w t = Some x \<longrightarrow> (\<exists>x'. transfers w' t = Some x' \<and> t_fd x' = t_fd x \<and>
        buffer_length (urb x') = buffer_length (urb x) \<and> (\<not> pending x \<longrightarrow> x' = x)))"

lemma completes_refl:
  "next_id w \<le> next_id w' \<Longrightarrow> transfers w' = transfers w \<Longrightarrow> kernel_urbs w' = kernel_urbs w \<Longrightarrow>
   completes w w'"
  by (simp add: completes_def)

lemma completes_trans:
  assumes "completes u v" "completes v w"
  shows "completes u w"
  unfolding completes_def
proof (intro conjI allI impI)
  fix t x
  assume "transfers u t = Some x"
  then obtain y where y: "transfers v t = Some y" "t_fd y = t_fd x"
    "buffer_length (urb y) = buffer_length (urb x)" "\<not> pending x \<longrightarrow> y = x"
    using assms(1) unfolding completes_def by blast
  then obtain z where "transfers w t = Some z" "t_fd z = t_fd y"
    "buffer_length (urb z) = buffer_length (urb y)" "\<not> pending y \<longrightarrow> z = y"
    using assms(2) unfolding completes_def by blast
  with y show "\<exists>x'. transfers w t = Some x' \<and> t_fd x' = t_fd x \<and>
      buffer_length (urb x') = buffer_length (urb x) \<and> (\<not> pending x \<longrightarrow> x' = x)"
    by auto
qed (use assms in \<open>auto simp: completes_def\<close>)

lemma async_inv_later:
  assumes "async_inv w L" "live w' = live w + R" "transfers w' = transfers w"
    "kernel_urbs w' = kernel_urbs w" "next_id w \<le> next_id w'"
  shows "async_inv w' (L + R)"
  using shared_keep assms by (simp add: async_inv_shared)

text \<open>The event loop ends, because every round takes a request block from the kernel.\<close>

lemma events_loop_spec:
  assumes "async_inv w L" "(Mem, k) \<in># L"
  shows "runs (events_loop E (Heap k h) w) (\<lambda>e w'. wf_err e \<and> async_inv w' (L + err_res e) \<and>
    completes w w')"
  using assms(1)
proof (induction "length (kernel_urbs w)" arbitrary: w rule: less_induct)
  case less
  have h: "deref (Heap k h) w = Some h"
    using less.prems assms(2) by (simp add: async_inv_def)
  from runsD [OF reap_fd_spec [OF less.prems, of E "gh_fd h"]] obtain r w1 where
    r: "reap_fd E (gh_fd h) w = Some (r, w1)" and w1: "next_id w \<le> next_id w1" "live w1 = live w"
    and inl: "\<And>n. r = Inl n \<Longrightarrow> transfers w1 = transfers w \<and> kernel_urbs w1 = kernel_urbs w"
    and inr: "\<And>t. r = Inr t \<Longrightarrow> (\<exists>g x x'. gh_fd h = Some g \<and> (g, t) \<in> set (kernel_urbs w) \<and>
      transfers w t = Some x \<and> reaped x x' \<and> transfers w1 = (transfers w)(t \<mapsto> x') \<and>
      kernel_urbs w1 = remove1 (g, t) (kernel_urbs w))"
    by blast
  show ?case
  proof (cases r)
    case (Inl n)
    have "runs (usbfd_reap_urb E (gh_fd h) w) (\<lambda>(e, u) w'. u = None \<and> wf_err e \<and> later w1 w' \<and>
        live w' = live w1 + err_res e)"
      using r Inl by (auto simp: usbfd_reap_urb_def says_def intro!: wp)
    then obtain e w2 where e: "usbfd_reap_urb E (gh_fd h) w = Some ((e, None), w2)" "wf_err e"
      "later w1 w2" "live w2 = live w1 + err_res e"
      by (auto elim!: runsE)
    then have f: "transfers w2 = transfers w" "kernel_urbs w2 = kernel_urbs w" "next_id w \<le> next_id w2"
      using usb_fields_of_more [of w2 w1] inl [OF Inl] w1(1) by (auto simp: later_def)
    have "async_inv w2 (L + err_res e)"
      by (rule async_inv_later [OF less.prems]) (use e w1 f in simp_all)
    then show ?thesis
      using h e f by (subst events_loop.simps) (auto intro: completes_refl)
  next
    case (Inr t)
    then obtain g x x1 where t: "gh_fd h = Some g" "(g, t) \<in> set (kernel_urbs w)"
      "transfers w t = Some x" "reaped x x1" "transfers w1 = (transfers w)(t \<mapsto> x1)"
      "kernel_urbs w1 = remove1 (g, t) (kernel_urbs w)"
      using inr by blast
    from handle_completed_urb_ok [OF less.prems t(3,2,4,5) w1(2) t(6) w1(1), of E] obtain w2 x2 where
      w2: "handle_completed_urb E t w1 = Some (NULL, w2)" "async_inv w2 L" "next_id w1 \<le> next_id w2"
        "transfers w2 = (transfers w)(t \<mapsto> x2)" "\<not> pending x2" "urb x2 = urb x1" "t_fd x2 = t_fd x"
        "kernel_urbs w2 = kernel_urbs w1"
      by blast
    have p: "pending x" using async_inv_split(4) [OF less.prems t(3)] t(2) by blast
    have "completes w w2"
      unfolding completes_def
      using w1(1) w2 t p reapedD(6) [OF t(4) async_inv_split(3) [OF less.prems t(3)]]
      by (auto dest: set_remove1_subset [THEN subsetD])
    moreover have "length (kernel_urbs w2) < length (kernel_urbs w)"
      using w2(8) t(6) length_pos_if_in_set [OF t(2)] t(2) by (simp add: length_remove1)
    then have "runs (events_loop E (Heap k h) w2) (\<lambda>e w'. wf_err e \<and> async_inv w' (L + err_res e) \<and>
        completes w2 w')"
      by (rule less.hyps [OF _ w2(2)])
    ultimately have "runs (events_loop E (Heap k h) w2) (\<lambda>e w'. wf_err e \<and> async_inv w' (L + err_res e) \<and>
        completes w w')"
      by (auto elim!: runs_mono intro: completes_trans)
    then show ?thesis
      using h r Inr w2(1) by (subst events_loop.simps) (simp add: usbfd_reap_urb_def)
  qed
qed

lemma generic_handle_events_spec:
  assumes "async_inv w L" "(Mem, k) \<in># L"
  shows "runs (generic_handle_events E (Heap k h) w) (\<lambda>e w'. wf_err e \<and>
    async_inv w' (L + err_res e) \<and> completes w w')"
  using events_loop_spec [OF assms] by (simp add: generic_handle_events_def)

lemma later_usb:
  fixes w w' :: "'w usb_world_scheme"
  shows "later w w' \<Longrightarrow>
   transfers w' = transfers w \<and> kernel_urbs w' = kernel_urbs w \<and> next_id w \<le> next_id w'"
  using usb_fields_of_more [of w' w] by (simp add: later_def)

lemma async_inv_keep:
  assumes "async_inv w L" "later w w'" "live w' = live w + R"
  shows "async_inv w' (L + R)"
  using async_inv_later [OF assms(1,3)] later_usb [OF assms(2)] by simp

text \<open>Creating a transfer adds it to the store; a failure changes nothing but the ledger.\<close>

lemma async_inv_new:
  assumes "async_inv w L" "transfers w t = None" "transfers w' = (transfers w)(t \<mapsto> x)"
    and "live w' = live w + trans_res t x" "next_id w \<le> next_id w'" "t < next_id w'"
    and "wf_transfer t x" "\<not> pending x" "kernel_urbs w' = kernel_urbs w"
  shows "async_inv w' L"
  using shared_new [OF assms(1) [unfolded async_inv_shared] assms(2,5,6,7)] assms
  by (auto simp: async_inv_shared)

lemma async_in_transfer_create_spec:
  assumes inv: "async_inv w L" and h: "(Mem, k) \<in># L" and n: "n \<noteq> 0" and p: "p AND 0x80 \<noteq> 0"
  shows "runs (async_in_transfer_create E (Heap k h) p n w) (\<lambda>(e, t) w'. wf_err e \<and>
    async_inv w' (L + err_res e) \<and> next_id w \<le> next_id w' \<and> kernel_urbs w' = kernel_urbs w \<and>
    (if e = NULL
     then \<exists>i x. t = Some i \<and> transfers w i = None \<and> transfers w' = (transfers w)(i \<mapsto> x) \<and>
       \<not> pending x \<and> t_error x = NULL \<and> t_fd x = gh_fd h \<and> buffer_length (urb x) = int n \<and>
       actual_length (urb x) = 0
     else t = None \<and> transfers w' = transfers w))"
proof (cases "n > INT_MAX")
  case True
  then show ?thesis
    using n
    by (auto simp: async_in_transfer_create_def says_def dest: later_usb
        intro!: wp intro: async_inv_keep [OF inv])
next
  case False
  let ?i = "next_id w"
  have fresh: "transfers w ?i = None" using inv unfolding async_inv_def by force
  have k: "(Mem, k) \<in># live w" using inv h by (simp add: async_inv_def)
  show ?thesis
  proof (cases "malloc_ok E ?i \<and> malloc_ok E (Suc ?i)")
    case True
    let ?x = "\<lparr>urb = \<lparr>urb_type = USBDEVFS_URB_TYPE_BULK, endpoint = p, status = 0,
      buffer = Heap (Suc ?i) (map (heap_bytes E (Suc ?i)) [0..<n]), buffer_length = int n,
      actual_length = 0, error_count = 0, usercontext = Some ?i\<rparr>,
      pending = False, t_error = NULL, t_fd = gh_fd h\<rparr>"
    let ?w = "put_transfer ?i ?x (take_res Mem (take_res Mem w))"
    have "async_in_transfer_create E (Heap k h) p n w = Some ((NULL, Some ?i), ?w)"
      using True False n k
      by (simp add: async_in_transfer_create_def malloc_def libusbp_generic_handle_get_fd_def)
    moreover have "async_inv ?w L"
      by (rule async_inv_new [OF inv fresh, of _ ?x])
        (use p False in \<open>simp_all add: wf_transfer_def trans_res_def\<close>)
    ultimately show ?thesis using fresh by auto
  next
    case bad: False
    have "runs (async_in_transfer_create E (Heap k h) p n w) (\<lambda>(e, t) w'. e = error_no_memory \<and>
        t = None \<and> later w w' \<and> live w' = live w)"
      using bad False n
      by (auto simp: async_in_transfer_create_def malloc_def ok_then_error later_def)
    then show ?thesis
      using async_inv_keep [OF inv, where R = "{#}"]
      by (auto dest: later_usb elim!: runs_mono)
  qed
qed

lemma async_in_transfer_free_ok:
  assumes inv: "async_inv w L" and x: "transfers w t = Some x"
  shows "\<exists>w'. async_in_transfer_free (Some t) w = Some w' \<and> async_inv w' L \<and>
    next_id w' = next_id w \<and> kernel_urbs w' = kernel_urbs w \<and>
    transfers w' = (if pending x then transfers w else (transfers w)(t := None))"
proof (cases "pending x")
  case True
  then show ?thesis
    using inv async_inv_split [OF inv x] by (simp add: async_in_transfer_free_def)
next
  case False
  note s = async_inv_split [OF inv x]
  obtain b d where b: "buffer (urb x) = Heap b d" using s(3) by (auto simp: wf_transfer_def)
  have e: "wf_err (t_error x)" using s(3) by (simp add: wf_transfer_def)
  let ?w = "drop_res (trans_res t x) w\<lparr>transfers := (transfers w)(t := None)\<rparr>"
  have f: "libusbp_error_free (t_error x) w = Some (drop_res (err_res (t_error x)) w)"
    by (rule libusbp_error_free_ok [OF e]) (simp add: s(1) trans_res_def)
  have "async_in_transfer_free (Some t) w = Some ?w"
    using False s(2) f b
    by (simp add: async_in_transfer_free_def s(1) trans_res_def ac_simps add_mset_commute)
  moreover have "async_inv ?w L"
    using shared_remove [OF inv [unfolded async_inv_shared] x] False by (auto simp: async_inv_shared)
  ultimately show ?thesis using False by simp
qed

text \<open>The number of bytes reported for a transfer: what the kernel says, cut to the buffer.\<close>

definition reported :: "async_in_transfer \<Rightarrow> nat" where
  "reported x = (let n = nat (actual_length (urb x) mod 2 ^ 64); len = nat (buffer_length (urb x))
     in if n > len then len else n)"

definition copied_from :: "async_in_transfer \<Rightarrow> 8 word list option \<Rightarrow> 8 word list option \<Rightarrow> bool" where
  "copied_from x buf buf' \<longleftrightarrow> (case buf of None \<Rightarrow> buf' = None
     | Some dest \<Rightarrow> buf' = Some (take (reported x) (contents [] (buffer (urb x))) @
         drop (reported x) dest))"

lemma async_in_transfer_get_results_spec:
  assumes inv: "async_inv w L" and x: "transfers w t = Some x" and p: "\<not> pending x"
    and buf: "\<forall>dest. buf = Some dest \<longrightarrow> nat (buffer_length (urb x)) \<le> length dest"
  shows "runs (async_in_transfer_get_results E (Some t) buf tg eg w) (\<lambda>(e, buf', n, te) w'.
    e = NULL \<and> later w w' \<and> wf_err te \<and> async_inv w' (L + err_res te) \<and>
    live w' = live w + err_res te \<and>
    copied_from x buf buf' \<and> n = (if tg then reported x else 0) \<and>
    (eg \<longrightarrow> (te = NULL \<longleftrightarrow> t_error x = NULL) \<and>
       (memory_ok E \<longrightarrow> err_text te = err_text (t_error x) \<and> err_codes te = err_codes (t_error x))) \<and>
    (\<not> eg \<longrightarrow> te = NULL))"
proof -
  note s = async_inv_split [OF inv x]
  obtain b d where b: "buffer (urb x) = Heap b d" "int (length d) = buffer_length (urb x)"
    "length d \<le> INT_MAX" and e: "wf_err (t_error x)"
    using s(3) by (auto simp: wf_transfer_def)
  have len: "nat (buffer_length (urb x) mod 2 ^ 64) = length d" "nat (buffer_length (urb x)) = length d"
    using b(2,3) by (simp_all add: INT_MAX_def mod_pos_pos_trivial)
  have r: "reported x \<le> length d" by (simp add: reported_def len Let_def)
  have d: "deref (buffer (urb x)) w = Some d"
    using b(1) by (simp add: s(1) trans_res_def)
  have copy: "runs (if eg then libusbp_error_copy E (t_error x) w else Some (NULL, w)) (\<lambda>te w'.
      later w w' \<and> wf_err te \<and> live w' = live w + err_res te \<and>
      (eg \<longrightarrow> (te = NULL \<longleftrightarrow> t_error x = NULL) \<and>
        (memory_ok E \<longrightarrow> err_text te = err_text (t_error x) \<and> err_codes te = err_codes (t_error x))) \<and>
      (\<not> eg \<longrightarrow> te = NULL))"
    using e
    by (auto simp: s(1) trans_res_def static_errors(3) [symmetric]
        intro!: libusbp_error_copy_wp split: if_splits)
  have tmp: "(let tmp = nat (actual_length (urb x) mod 2 ^ 64);
      len = nat (buffer_length (urb x) mod 2 ^ 64) in if tmp > len then len else tmp) = reported x"
    unfolding reported_def len Let_def by (rule refl)
  obtain te w1 where te: "(if eg then libusbp_error_copy E (t_error x) w else Some (NULL, w)) = Some (te, w1)"
    and post: "later w w1" "wf_err te" "live w1 = live w + err_res te"
      "eg \<longrightarrow> (te = NULL \<longleftrightarrow> t_error x = NULL) \<and>
        (memory_ok E \<longrightarrow> err_text te = err_text (t_error x) \<and> err_codes te = err_codes (t_error x))"
      "\<not> eg \<longrightarrow> te = NULL"
    using runsD [OF copy] by blast
  let ?buf = "map_option (\<lambda>dest. take (reported x) d @ drop (reported x) dest) buf"
  have "async_in_transfer_get_results E (Some t) buf tg eg w =
      Some ((NULL, ?buf, if tg then reported x else 0, te), w1)"
    unfolding async_in_transfer_get_results_def s(2) bind.bind_lunit prod.case
    using p te d tmp r buf len(2) by (cases buf) (simp_all add: Let_def)
  then show ?thesis
    using post b(1) async_inv_keep [OF inv post(1,3)]
    by (auto simp: copied_from_def split: option.splits)
qed

lemma async_in_transfer_cancel_spec:
  assumes inv: "async_inv w L" and x: "transfers w t = Some x"
  shows "runs (async_in_transfer_cancel E (Some t) w) (\<lambda>e w'. later w w' \<and> wf_err e \<and>
    live w' = live w + err_res e)"
  using async_inv_split(2) [OF inv x]
  by (auto simp: async_in_transfer_cancel_def usbfd_discard_urb_def Let_def later_def says_def
      intro!: wp)

lemma async_in_transfer_pending_ok:
  "async_inv w L \<Longrightarrow> transfers w t = Some x \<Longrightarrow>
   async_in_transfer_pending (Some t) w = Some (pending x)"
  using async_inv_split(2) by (fastforce simp: async_in_transfer_pending_def)

end
