(* ===== verification/AsyncPipe.thy ===== *)
theory AsyncPipe
  imports AsyncTransfer
begin

text \<open>
  \<open>src/src/async_in_pipe.c\<close>: asynchronous IN pipes.  A pipe owns an array of transfers that it
  uses as a ring: transfers are submitted at \<open>next_submit\<close> and handed to the user at \<open>next_finish\<close>,
  \<open>pending_count\<close> of them being under way.  The lemmas show that the ring is a first-in first-out
  queue, that no call on a pipe faults or loops forever, and that a transfer is never submitted or
  freed while the kernel holds it.
\<close>

section \<open>The operations of async_in_pipe.c\<close>

text \<open>A pipe on a platform whose handles are of type \<open>'h\<close> and whose arrays hold transfers as \<open>'c\<close>.\<close>

record ('h, 'c) libusbp_async_in_pipe =
  ap_handle :: "'h ptr"
  ap_pipe_id :: "8 word"
  transfer_array :: "'c list ptr"
  transfer_size :: nat
  transfer_count :: nat
  endless_transfers_enabled :: bool
  pending_count :: nat
  next_finish :: nat
  next_submit :: nat

type_synonym linux_pipe = "(libusbp_generic_handle, nat option) libusbp_async_in_pipe"

type_synonym async_in_pipe = "linux_pipe ptr"

text \<open>\<open>n++\<close> on a \<open>size_t\<close>.\<close>

definition size_inc :: "nat \<Rightarrow> nat" where
  "size_inc n = (n + 1) mod 2 ^ 64"

definition increment_and_wrap_size :: "nat \<Rightarrow> nat \<Rightarrow> nat" where
  "increment_and_wrap_size n bound = (let n = size_inc n in if n \<ge> bound then 0 else n)"

text \<open>The loop that frees the transfers, with \<open>n\<close> of them left, at index \<open>i\<close>.\<close>

fun array_free_loop :: "nat option list ptr \<Rightarrow> nat \<Rightarrow> nat \<Rightarrow> 'w usb_world_scheme
    \<Rightarrow> 'w usb_world_scheme option" where
  "array_free_loop array 0 i w = Some w"
| "array_free_loop array (Suc n) i w = do {
     cells \<leftarrow> deref array w;
     t \<leftarrow> array_get cells i;
     w \<leftarrow> async_in_transfer_free t w;
     array_free_loop array n (i + 1) w
   }"

definition async_in_transfer_array_free :: "nat option list ptr \<Rightarrow> nat \<Rightarrow> 'w usb_world_scheme
    \<Rightarrow> 'w usb_world_scheme option" where
  "async_in_transfer_array_free array n w =
     (if array = NULL then Some w
      else do {
        w \<leftarrow> array_free_loop array n 0 w;
        free array w
      })"

definition libusbp_async_in_pipe_close :: "async_in_pipe \<Rightarrow> 'w usb_world_scheme
    \<Rightarrow> 'w usb_world_scheme option" where
  "libusbp_async_in_pipe_close pipe w =
     (if pipe = NULL then Some w
      else do {
        p \<leftarrow> deref pipe w;
        w \<leftarrow> async_in_transfer_array_free (transfer_array p) (transfer_count p) w;
        free pipe w
      })"

text \<open>The setup of a pipe is a function of the platform.\<close>

definition async_in_pipe_create :: "('h ptr \<Rightarrow> 8 word \<Rightarrow> 'w world_scheme \<Rightarrow> (err \<times> 'w world_scheme) option)
    \<Rightarrow> 'e environment_scheme \<Rightarrow> 'h ptr \<Rightarrow> 8 word \<Rightarrow> bool \<Rightarrow> 'w world_scheme
    \<Rightarrow> ((err \<times> ('h, 'c) libusbp_async_in_pipe ptr) \<times> 'w world_scheme) option" where
  "async_in_pipe_create os_setup E handle pipe_id pipe_given w =
     (if \<not> pipe_given then do {
        (error, w) \<leftarrow> error_create E ''Pipe output pointer is null.'' w;
        Some ((error, NULL), w)
      }
      else if handle = NULL then do {
        (error, w) \<leftarrow> error_create E ''Generic handle is null.'' w;
        Some ((error, NULL), w)
      }
      else do {
        (error, w) \<leftarrow> check_pipe_id E pipe_id w;
        (error, w) \<leftarrow> (if error = NULL \<and> pipe_id AND 0x80 = 0
          then error_create E ''Asynchronous pipes for OUT endpoints are not supported.'' w
          else Some (error, w));
        (error, w) \<leftarrow> ok_do error (os_setup handle pipe_id) w;
        ((error, new_pipe), w) \<leftarrow> ok_then error NULL (\<lambda>w. do {
          (new_pipe, w) \<leftarrow> malloc E w;
          Some ((if new_pipe = NULL then error_no_memory else NULL, new_pipe), w)
        }) w;
        (pipe, new_pipe) \<leftarrow> (if error = NULL then do {
            pipe \<leftarrow> store new_pipe \<lparr>ap_handle = handle, ap_pipe_id = pipe_id,
              transfer_array = NULL, transfer_size = 0, transfer_count = 0,
              endless_transfers_enabled = False, pending_count = 0, next_finish = 0,
              next_submit = 0\<rparr> w;
            Some (pipe, NULL)
          }
          else Some (NULL, new_pipe));
        w \<leftarrow> free new_pipe w;
        Some ((error, pipe), w)
      })"

definition libusbp_generic_handle_open_async_in_pipe :: "'e usb_system_scheme \<Rightarrow> generic_handle
    \<Rightarrow> 8 word \<Rightarrow> bool \<Rightarrow> 'w usb_world_scheme
    \<Rightarrow> ((err \<times> async_in_pipe) \<times> 'w usb_world_scheme) option" where
  "libusbp_generic_handle_open_async_in_pipe = async_in_pipe_create async_in_pipe_setup"

text \<open>\<open>calloc\<close> of an array of pointers fails when the size does not fit a \<open>size_t\<close>.\<close>

definition calloc_array :: "'e environment_scheme \<Rightarrow> nat \<Rightarrow> 'w world_scheme
    \<Rightarrow> (nat option list ptr \<times> 'w world_scheme) option" where
  "calloc_array E n w =
     (if n * 8 > SIZE_MAX then Some (NULL, tick w)
      else do {
        (b, w) \<leftarrow> malloc E w;
        if b = NULL then Some (NULL, w)
        else do { b \<leftarrow> store b (replicate n None) w; Some (b, w) }
      })"

text \<open>The loop that makes the transfers, with \<open>n\<close> of them left, at index \<open>i\<close>.\<close>

fun create_loop :: "'e usb_system_scheme \<Rightarrow> generic_handle \<Rightarrow> 8 word \<Rightarrow> nat \<Rightarrow> nat \<Rightarrow> nat
    \<Rightarrow> nat option list ptr \<Rightarrow> 'w usb_world_scheme
    \<Rightarrow> ((err \<times> nat option list ptr) \<times> 'w usb_world_scheme) option" where
  "create_loop E handle pipe_id transfer_size' 0 i array w = Some ((NULL, array), w)"
| "create_loop E handle pipe_id transfer_size' (Suc n) i array w = do {
     ((error, t), w) \<leftarrow> async_in_transfer_create E handle pipe_id transfer_size' w;
     if error \<noteq> NULL then Some ((error, array), w)
     else do {
       cells \<leftarrow> deref array w;
       cells \<leftarrow> array_set cells i t;
       array \<leftarrow> store array cells w;
       create_loop E handle pipe_id transfer_size' n (i + 1) array w
     }
   }"

definition libusbp_async_in_pipe_allocate_transfers :: "'e usb_system_scheme \<Rightarrow> async_in_pipe
    \<Rightarrow> nat \<Rightarrow> nat \<Rightarrow> 'w usb_world_scheme
    \<Rightarrow> ((err \<times> async_in_pipe) \<times> 'w usb_world_scheme) option" where
  "libusbp_async_in_pipe_allocate_transfers E pipe count' size' w =
     (if pipe = NULL then do {
        (error, w) \<leftarrow> error_create E ''Pipe argument is null.'' w;
        Some ((error, pipe), w)
      }
      else do {
        p \<leftarrow> deref pipe w;
        if transfer_array p \<noteq> NULL then do {
          (error, w) \<leftarrow> error_create E ''Transfers were already allocated for this pipe.'' w;
          Some ((error, pipe), w)
        }
        else if count' = 0 then do {
          (error, w) \<leftarrow> error_create E ''Transfer count cannot be zero.'' w;
          Some ((error, pipe), w)
        }
        else if size' = 0 then do {
          (error, w) \<leftarrow> error_create E ''Transfer size cannot be zero.'' w;
          Some ((error, pipe), w)
        }
        else do {
          (new_array, w) \<leftarrow> calloc_array E count' w;
          let error = (if new_array = NULL then error_no_memory else NULL);
          ((error, new_array), w) \<leftarrow> ok_then error new_array
            (create_loop E (ap_handle p) (ap_pipe_id p) size' count' 0 new_array) w;
          (pipe, new_array) \<leftarrow> (if error = NULL then do {
              pipe \<leftarrow> store pipe (p\<lparr>transfer_array := new_array, transfer_count := count',
                transfer_size := size'\<rparr>) w;
              Some (pipe, NULL)
            }
            else Some (pipe, new_array));
          w \<leftarrow> async_in_transfer_array_free new_array count' w;
          (error, w) \<leftarrow> (if error \<noteq> NULL
            then error_add E error ''Failed to allocate transfers for asynchronous IN pipe.'' w
            else Some (error, w));
          Some ((error, pipe), w)
        }
      })"

text \<open>The changes of the counts and indices when a transfer is submitted and when one finishes.\<close>

definition ring_submit :: "linux_pipe \<Rightarrow> linux_pipe" where
  "ring_submit p = p\<lparr>pending_count := size_inc (pending_count p),
     next_submit := increment_and_wrap_size (next_submit p) (transfer_count p)\<rparr>"

definition ring_finish :: "linux_pipe \<Rightarrow> linux_pipe" where
  "ring_finish p = p\<lparr>pending_count := pending_count p - 1,
     next_finish := increment_and_wrap_size (next_finish p) (transfer_count p)\<rparr>"

definition async_in_pipe_submit_next_transfer :: "'e usb_system_scheme \<Rightarrow> async_in_pipe
    \<Rightarrow> 'w usb_world_scheme \<Rightarrow> (async_in_pipe \<times> 'w usb_world_scheme) option" where
  "async_in_pipe_submit_next_transfer E pipe w = do {
     p \<leftarrow> deref pipe w;
     if \<not> pending_count p < transfer_count p then None
     else do {
       cells \<leftarrow> deref (transfer_array p) w;
       t \<leftarrow> array_get cells (next_submit p);
       w \<leftarrow> async_in_transfer_submit E t w;
       pipe \<leftarrow> store pipe (ring_submit p) w;
       Some (pipe, w)
     }
   }"

partial_function (option) start_loop :: "'e usb_system_scheme \<Rightarrow> async_in_pipe
    \<Rightarrow> 'w usb_world_scheme \<Rightarrow> (async_in_pipe \<times> 'w usb_world_scheme) option" where
  "start_loop E pipe w = do {
     p \<leftarrow> deref pipe w;
     if pending_count p < transfer_count p
     then do {
       (pipe, w) \<leftarrow> async_in_pipe_submit_next_transfer E pipe w;
       start_loop E pipe w
     }
     else Some (pipe, w)
   }"

definition libusbp_async_in_pipe_start_endless_transfers :: "'e usb_system_scheme
    \<Rightarrow> async_in_pipe \<Rightarrow> 'w usb_world_scheme
    \<Rightarrow> ((err \<times> async_in_pipe) \<times> 'w usb_world_scheme) option" where
  "libusbp_async_in_pipe_start_endless_transfers E pipe w =
     (if pipe = NULL then do {
        (error, w) \<leftarrow> error_create E ''Pipe argument is null.'' w;
        Some ((error, pipe), w)
      }
      else do {
        p \<leftarrow> deref pipe w;
        if transfer_array p = NULL then do {
          (error, w) \<leftarrow> error_create E ''Pipe transfers have not been allocated yet.'' w;
          Some ((error, pipe), w)
        }
        else do {
          pipe \<leftarrow> store pipe (p\<lparr>endless_transfers_enabled := True\<rparr>) w;
          (pipe, w) \<leftarrow> start_loop E pipe w;
          Some ((NULL, pipe), w)
        }
      })"

definition libusbp_async_in_pipe_handle_events :: "'e usb_system_scheme \<Rightarrow> async_in_pipe
    \<Rightarrow> 'w usb_world_scheme \<Rightarrow> (err \<times> 'w usb_world_scheme) option" where
  "libusbp_async_in_pipe_handle_events E pipe w =
     (if pipe = NULL then error_create E ''Pipe argument is null.'' w
      else do { p \<leftarrow> deref pipe w; generic_handle_events E (ap_handle p) w })"

definition libusbp_async_in_pipe_has_pending_transfers :: "'e environment_scheme \<Rightarrow> async_in_pipe
    \<Rightarrow> bool \<Rightarrow> 'w world_scheme \<Rightarrow> ((err \<times> bool) \<times> 'w world_scheme) option" where
  "libusbp_async_in_pipe_has_pending_transfers E pipe result_given w =
     (if \<not> result_given then do {
        (error, w) \<leftarrow> error_create E ''Boolean output pointer is null.'' w;
        Some ((error, False), w)
      }
      else if pipe = NULL then do {
        (error, w) \<leftarrow> error_create E ''Pipe argument is null.'' w;
        Some ((error, False), w)
      }
      else do { p \<leftarrow> deref pipe w; Some ((NULL, pending_count p \<noteq> 0), w) })"

text \<open>
  The outputs of a call to \<open>libusbp_async_in_pipe_handle_finished_transfer\<close>: \<open>finished\<close>, the
  buffer, \<open>transferred\<close> and \<open>transfer_error\<close>.
\<close>

type_synonym finished = "bool \<times> 8 word list option \<times> nat \<times> err"

definition libusbp_async_in_pipe_handle_finished_transfer :: "'e usb_system_scheme
    \<Rightarrow> async_in_pipe \<Rightarrow> bool \<Rightarrow> 8 word list option \<Rightarrow> bool \<Rightarrow> bool \<Rightarrow> 'w usb_world_scheme
    \<Rightarrow> ((err \<times> async_in_pipe \<times> finished) \<times> 'w usb_world_scheme) option" where
  "libusbp_async_in_pipe_handle_finished_transfer E pipe finished_given buf transferred_given
      error_given w =
     (if pipe = NULL then do {
        (error, w) \<leftarrow> error_create E ''Pipe argument is null.'' w;
        Some ((error, pipe, False, buf, 0, NULL), w)
      }
      else do {
        p \<leftarrow> deref pipe w;
        if pending_count p = 0 then Some ((NULL, pipe, False, buf, 0, NULL), w)
        else do {
          cells \<leftarrow> deref (transfer_array p) w;
          transfer \<leftarrow> array_get cells (next_finish p);
          is_pending \<leftarrow> async_in_transfer_pending transfer w;
          if is_pending then Some ((NULL, pipe, False, buf, 0, NULL), w)
          else do {
            ((error, buf, transferred, transfer_error), w) \<leftarrow>
              async_in_transfer_get_results E transfer buf transferred_given error_given w;
            pipe \<leftarrow> (if error = NULL then store pipe (ring_finish p) w else Some pipe);
            (pipe, w) \<leftarrow> (if error = NULL \<and> endless_transfers_enabled p
              then async_in_pipe_submit_next_transfer E pipe w else Some (pipe, w));
            Some ((error, pipe, error = NULL \<and> finished_given, buf, transferred,
              transfer_error), w)
          }
        }
      })"

text \<open>The cancellation loop, with \<open>n\<close> transfers left, at index \<open>i\<close>; it stops at an error.\<close>

fun cancel_loop :: "'e usb_system_scheme \<Rightarrow> nat option list ptr \<Rightarrow> nat \<Rightarrow> nat
    \<Rightarrow> 'w usb_world_scheme \<Rightarrow> (err \<times> 'w usb_world_scheme) option" where
  "cancel_loop E array 0 i w = Some (NULL, w)"
| "cancel_loop E array (Suc n) i w = do {
     cells \<leftarrow> deref array w;
     t \<leftarrow> array_get cells i;
     (error, w) \<leftarrow> async_in_transfer_cancel E t w;
     if error \<noteq> NULL then Some (error, w) else cancel_loop E array n (i + 1) w
   }"

definition libusbp_async_in_pipe_cancel_transfers :: "'e usb_system_scheme \<Rightarrow> async_in_pipe
    \<Rightarrow> 'w usb_world_scheme \<Rightarrow> ((err \<times> async_in_pipe) \<times> 'w usb_world_scheme) option" where
  "libusbp_async_in_pipe_cancel_transfers E pipe w =
     (if pipe = NULL then do {
        (error, w) \<leftarrow> error_create E ''Pipe argument is null.'' w;
        Some ((error, pipe), w)
      }
      else do {
        p \<leftarrow> deref pipe w;
        pipe \<leftarrow> store pipe (p\<lparr>endless_transfers_enabled := False\<rparr>) w;
        (error, w) \<leftarrow> cancel_loop E (transfer_array p) (transfer_count p) 0 w;
        Some ((error, pipe), w)
      })"

section \<open>The ring as a queue\<close>

text \<open>
  What a user of the pipe relies on: a bounded first-in first-out queue of slots.  A slot can be
  pushed while there is room, and it is then not in use; slots are popped in the order in which
  they were pushed.
\<close>

locale slot_queue =
  fixes ok :: "'s \<Rightarrow> bool" and items :: "'s \<Rightarrow> nat list" and capacity :: "'s \<Rightarrow> nat"
    and slot :: "'s \<Rightarrow> nat" and push :: "'s \<Rightarrow> 's" and pop :: "'s \<Rightarrow> 's"
  assumes push_ok: "ok s \<Longrightarrow> length (items s) < capacity s \<Longrightarrow> ok (push s)"
    and push_items: "ok s \<Longrightarrow> length (items s) < capacity s \<Longrightarrow> items (push s) = items s @ [slot s]"
    and pop_ok: "ok s \<Longrightarrow> items s \<noteq> [] \<Longrightarrow> ok (pop s)"
    and pop_items: "ok s \<Longrightarrow> items s \<noteq> [] \<Longrightarrow> items (pop s) = tl (items s)"
    and capacity_push: "capacity (push s) = capacity s"
    and capacity_pop: "capacity (pop s) = capacity s"
    and bounded: "ok s \<Longrightarrow> length (items s) \<le> capacity s"
    and slot_free: "ok s \<Longrightarrow> length (items s) < capacity s \<Longrightarrow> slot s \<notin> set (items s)"
    and slot_range: "ok s \<Longrightarrow> length (items s) < capacity s \<Longrightarrow> slot s < capacity s"
begin

text \<open>
  A run of pushes (\<open>True\<close>) and pops (\<open>False\<close>), each left out when it is not possible, with the
  slots pushed and popped.
\<close>

fun run :: "bool list \<Rightarrow> 's \<Rightarrow> nat list \<times> nat list \<times> 's" where
  "run [] s = ([], [], s)"
| "run (True # ops) s =
     (if length (items s) < capacity s
      then (let (pushed, popped, s') = run ops (push s) in (slot s # pushed, popped, s'))
      else run ops s)"
| "run (False # ops) s =
     (if items s \<noteq> []
      then (let (pushed, popped, s') = run ops (pop s) in (pushed, hd (items s) # popped, s'))
      else run ops s)"

lemma run_fifo:
  "ok s \<Longrightarrow> run ops s = (pushed, popped, s') \<Longrightarrow>
   ok s' \<and> items s @ pushed = popped @ items s' \<and> capacity s' = capacity s"
proof (induction ops s arbitrary: pushed popped s' rule: run.induct)
  case (1 s)
  then show ?case by simp
next
  case (2 ops s)
  show ?case
  proof (cases "length (items s) < capacity s")
    case True
    obtain a b c where r: "run ops (push s) = (a, b, c)" by (cases "run ops (push s)")
    have "ok c \<and> items (push s) @ a = b @ items c \<and> capacity c = capacity (push s)"
      using 2(1) [OF True push_ok [OF 2(3) True] r] by simp
    with 2(3,4) True r show ?thesis by (simp add: push_items capacity_push)
  next
    case False
    with 2(2) [OF False 2(3)] 2(4) show ?thesis by simp
  qed
next
  case (3 ops s)
  show ?case
  proof (cases "items s \<noteq> []")
    case True
    obtain a b c where r: "run ops (pop s) = (a, b, c)" by (cases "run ops (pop s)")
    have "ok c \<and> items (pop s) @ a = b @ items c \<and> capacity c = capacity (pop s)"
      using 3(1) [OF True pop_ok [OF 3(3) True] r] by simp
    with 3(3,4) True r show ?thesis by (cases "items s") (auto simp: pop_items capacity_pop)
  next
    case False
    with 3(2) [OF False 3(3)] 3(4) show ?thesis by simp
  qed
qed

end

definition ring_ok :: "linux_pipe \<Rightarrow> bool" where
  "ring_ok p \<longleftrightarrow> transfer_count p < 2 ^ 64 \<and> pending_count p \<le> transfer_count p \<and>
     next_finish p < transfer_count p \<and>
     next_submit p = (next_finish p + pending_count p) mod transfer_count p"

definition ring_items :: "linux_pipe \<Rightarrow> nat list" where
  "ring_items p = map (\<lambda>k. (next_finish p + k) mod transfer_count p) [0..<pending_count p]"

lemma increment_and_wrap: "n < m \<Longrightarrow> m < 2 ^ 64 \<Longrightarrow> increment_and_wrap_size n m = Suc n mod m"
  by (simp add: increment_and_wrap_size_def size_inc_def Let_def mod_Suc)

lemma length_ring_items [simp]: "length (ring_items p) = pending_count p"
  by (simp add: ring_items_def)

lemma mod_add_inject: "i < n \<Longrightarrow> j < n \<Longrightarrow> (a + i) mod n = (a + j) mod n \<Longrightarrow> i = (j :: nat)"
proof (induction i j rule: linorder_wlog)
  case (le i j)
  have "n dvd (a + j) - (a + i)"
    by (rule mod_eq_dvd_iff_nat [THEN iffD1]) (use le in simp_all)
  with le show ?case by (auto dest: dvd_imp_le)
qed simp

interpretation ring: slot_queue ring_ok ring_items transfer_count next_submit ring_submit ring_finish
proof unfold_locales
  fix p :: linux_pipe
  show "transfer_count (ring_submit p) = transfer_count p" "transfer_count (ring_finish p) = transfer_count p"
    by (simp_all add: ring_submit_def ring_finish_def)
  assume ok: "ring_ok p"
  show "length (ring_items p) \<le> transfer_count p" using ok by (simp add: ring_ok_def)
  {
    assume "length (ring_items p) < transfer_count p"
    then have room: "pending_count p < transfer_count p" by simp
    then show "next_submit p < transfer_count p" using ok by (simp add: ring_ok_def)
    have inc: "size_inc (pending_count p) = Suc (pending_count p)"
      using room ok by (simp add: size_inc_def ring_ok_def)
    have "increment_and_wrap_size (next_submit p) (transfer_count p) = Suc (next_submit p) mod transfer_count p"
      using ok room by (intro increment_and_wrap) (simp_all add: ring_ok_def)
    then show "ring_ok (ring_submit p)"
      using ok room inc by (simp add: ring_ok_def ring_submit_def mod_Suc_eq)
    show "ring_items (ring_submit p) = ring_items p @ [next_submit p]"
      using ok inc by (simp add: ring_items_def ring_submit_def ring_ok_def)
    show "next_submit p \<notin> set (ring_items p)"
      using ok room by (auto simp: ring_items_def ring_ok_def dest!: mod_add_inject [rotated 2])
  next
    assume "ring_items p \<noteq> []"
    then have "0 < pending_count p" by (simp flip: length_greater_0_conv)
    then obtain n where n: "pending_count p = Suc n" by (cases "pending_count p") auto
    have inc: "increment_and_wrap_size (next_finish p) (transfer_count p) = Suc (next_finish p) mod transfer_count p"
      using ok by (intro increment_and_wrap) (simp_all add: ring_ok_def)
    show "ring_ok (ring_finish p)"
      using ok n inc by (simp add: ring_ok_def ring_finish_def mod_add_left_eq)
    show "ring_items (ring_finish p) = tl (ring_items p)"
      using n inc by (simp add: ring_items_def ring_finish_def upt_conv_Cons map_Suc_upt [symmetric] mod_add_left_eq
          del: upt_Suc)
  }
qed

section \<open>The invariant of a pipe\<close>

text \<open>
  A pipe at address \<open>k\<close> whose array holds the transfers \<open>ts\<close>: the ring is consistent, the array
  holds that many different transfers of the pipe's size, and a transfer outside of the ring's
  window is not pending.  \<open>L\<close> is the ledger without the transfers.
\<close>

definition pipe_inv :: "'w usb_world_scheme \<Rightarrow> res multiset \<Rightarrow> nat \<Rightarrow> linux_pipe
    \<Rightarrow> nat list \<Rightarrow> bool" where
  "pipe_inv w L k p ts \<longleftrightarrow> async_inv w L \<and> ring_ok p \<and>
     (\<exists>a m h. transfer_array p = Heap a (map Some ts) \<and> ap_handle p = Heap m h \<and>
        {#(Mem, k), (Mem, a), (Mem, m)#} \<subseteq># L) \<and>
     length ts = transfer_count p \<and> distinct ts \<and>
     (\<forall>i < transfer_count p. \<exists>x. transfers w (ts ! i) = Some x \<and>
        buffer_length (urb x) = int (transfer_size p) \<and>
        (i \<notin> set (ring_items p) \<longrightarrow> \<not> pending x))"

lemma pipe_inv_live:
  assumes "pipe_inv w L k p ts"
  shows "(Mem, k) \<in># live w" "deref (transfer_array p) w = Some (map Some ts)"
proof -
  obtain a m where a: "transfer_array p = Heap a (map Some ts)"
    and "{#(Mem, k), (Mem, a), (Mem, m)#} \<subseteq># L"
    using assms unfolding pipe_inv_def by blast
  then have "(Mem, k) \<in># L" "(Mem, a) \<in># L"
    by (auto simp: mset_subset_eq_exists_conv)
  moreover have "live w = store_res (transfers w) + L"
    using assms unfolding pipe_inv_def async_inv_def by blast
  ultimately show "(Mem, k) \<in># live w" "deref (transfer_array p) w = Some (map Some ts)"
    using a by simp_all
qed

lemma ring_submit_fields [simp]:
  "transfer_count (ring_submit p) = transfer_count p" "transfer_size (ring_submit p) = transfer_size p"
  "transfer_array (ring_submit p) = transfer_array p" "ap_handle (ring_submit p) = ap_handle p"
  "endless_transfers_enabled (ring_submit p) = endless_transfers_enabled p"
  by (simp_all add: ring_submit_def)

lemma ring_finish_fields [simp]:
  "transfer_count (ring_finish p) = transfer_count p" "transfer_size (ring_finish p) = transfer_size p"
  "transfer_array (ring_finish p) = transfer_array p" "ap_handle (ring_finish p) = ap_handle p"
  "endless_transfers_enabled (ring_finish p) = endless_transfers_enabled p"
  by (simp_all add: ring_finish_def)

lemma pipe_inv_transfers:
  assumes "pipe_inv w L k p ts" "async_inv w' L'" "L \<subseteq># L'"
    and "ring_ok p'" "transfer_array p' = transfer_array p" "ap_handle p' = ap_handle p"
    and "transfer_count p' = transfer_count p" "transfer_size p' = transfer_size p"
    and "\<And>i x. i < transfer_count p \<Longrightarrow> transfers w (ts ! i) = Some x \<Longrightarrow>
      \<exists>x'. transfers w' (ts ! i) = Some x' \<and> buffer_length (urb x') = buffer_length (urb x) \<and>
        (i \<notin> set (ring_items p') \<longrightarrow> (i \<notin> set (ring_items p) \<longrightarrow> \<not> pending x) \<longrightarrow> \<not> pending x')"
  shows "pipe_inv w' L' k p' ts"
proof -
  have "\<exists>x. transfers w' (ts ! i) = Some x \<and> buffer_length (urb x) = int (transfer_size p') \<and>
      (i \<notin> set (ring_items p') \<longrightarrow> \<not> pending x)" if "i < transfer_count p'" for i
  proof -
    have "i < transfer_count p" using that assms(7) by simp
    then obtain x where "transfers w (ts ! i) = Some x" "buffer_length (urb x) = int (transfer_size p)"
      "i \<notin> set (ring_items p) \<longrightarrow> \<not> pending x"
      using assms(1) unfolding pipe_inv_def by blast
    with assms(9) [of i x] assms(7,8) that show ?thesis by force
  qed
  moreover have "\<exists>a m h. transfer_array p' = Heap a (map Some ts) \<and> ap_handle p' = Heap m h \<and>
        {#(Mem, k), (Mem, a), (Mem, m)#} \<subseteq># L'"
    using assms(1,3,5,6) unfolding pipe_inv_def by (metis subset_mset.order_trans)
  ultimately show ?thesis
    using assms(1,2,4,7) by (simp add: pipe_inv_def)
qed

text \<open>A transfer that was submitted is with the kernel, or has an error that says why it is not.\<close>

definition tried :: "'w usb_world_scheme \<Rightarrow> nat \<Rightarrow> bool" where
  "tried w t \<longleftrightarrow> (\<exists>x. transfers w t = Some x \<and> (pending x \<or> t_error x \<noteq> NULL))"

lemma submit_next_ok:
  assumes inv: "pipe_inv w L k p ts" and room: "pending_count p < transfer_count p"
  shows "\<exists>w'. async_in_pipe_submit_next_transfer E (Heap k p) w = Some (Heap k (ring_submit p), w') \<and>
    pipe_inv w' L k (ring_submit p) ts \<and> next_id w \<le> next_id w' \<and>
    (\<forall>t. t \<noteq> ts ! next_submit p \<longrightarrow> transfers w' t = transfers w t) \<and>
    tried w' (ts ! next_submit p) \<and> set (kernel_urbs w) \<subseteq> set (kernel_urbs w')"
proof -
  let ?i = "next_submit p" and ?t = "ts ! next_submit p"
  have ok: "ring_ok p" and len: "length ts = transfer_count p" and d: "distinct ts" and a: "async_inv w L"
    using inv by (simp_all add: pipe_inv_def)
  have i: "?i < transfer_count p" "?i \<notin> set (ring_items p)"
    using ring.slot_range [OF ok] ring.slot_free [OF ok] room by simp_all
  then obtain x where x: "transfers w ?t = Some x" "\<not> pending x"
    using inv unfolding pipe_inv_def by blast
  obtain w' x' where s: "async_in_transfer_submit E (Some ?t) w = Some w'" "async_inv w' L"
    "next_id w \<le> next_id w'" "transfers w' = (transfers w)(?t \<mapsto> x')" "urb x' = urb x"
    "if pending x' then \<exists>f. t_fd x = Some f \<and> kernel_urbs w' = kernel_urbs w @ [(f, ?t)]
     else t_error x' \<noteq> NULL \<and> kernel_urbs w' = kernel_urbs w"
    using async_in_transfer_submit_ok [OF a x, of E] by blast
  have items: "ring_items (ring_submit p) = ring_items p @ [?i]" and ok': "ring_ok (ring_submit p)"
    using ring.push_items [OF ok] ring.push_ok [OF ok] room by simp_all
  have inv': "pipe_inv w' L k (ring_submit p) ts"
    by (rule pipe_inv_transfers [OF inv s(2)])
      (use ok' items s(4,5) x i len d in \<open>auto simp: nth_eq_iff_index_eq\<close>)
  have "async_in_pipe_submit_next_transfer E (Heap k p) w = Some (Heap k (ring_submit p), w')"
    using pipe_inv_live [OF inv] pipe_inv_live(1) [OF inv'] room i len s(1)
    by (simp add: async_in_pipe_submit_next_transfer_def)
  with inv' s show ?thesis by (auto simp: tried_def split: if_splits)
qed

text \<open>Starting the transfers ends with all of them submitted.\<close>

lemma start_loop_ok:
  "pipe_inv w L k p ts \<Longrightarrow>
   \<exists>p' w'. start_loop E (Heap k p) w = Some (Heap k p', w') \<and> pipe_inv w' L k p' ts \<and>
     pending_count p' = transfer_count p' \<and> transfer_count p' = transfer_count p \<and>
     transfer_array p' = transfer_array p \<and> transfer_size p' = transfer_size p \<and>
     next_finish p' = next_finish p \<and> next_id w \<le> next_id w' \<and>
     endless_transfers_enabled p' = endless_transfers_enabled p"
proof (induction "transfer_count p - pending_count p" arbitrary: p w rule: less_induct)
  case less
  note live = pipe_inv_live [OF less.prems]
  have ok: "ring_ok p" using less.prems by (simp add: pipe_inv_def)
  show ?case
  proof (cases "pending_count p < transfer_count p")
    case True
    obtain w1 where s: "async_in_pipe_submit_next_transfer E (Heap k p) w = Some (Heap k (ring_submit p), w1)"
      "pipe_inv w1 L k (ring_submit p) ts" "next_id w \<le> next_id w1"
      using submit_next_ok [OF less.prems True, of E] by blast
    have "length (ring_items (ring_submit p)) = Suc (pending_count p)"
      using ring.push_items [OF ok] True by simp
    then have n: "pending_count (ring_submit p) = Suc (pending_count p)" by simp
    have "next_finish (ring_submit p) = next_finish p" by (simp add: ring_submit_def)
    with less.hyps [OF _ s(2)] True n s(3) show ?thesis
      by (subst start_loop.simps) (fastforce simp: live s(1))
  next
    case False
    then have "pending_count p = transfer_count p" using ok by (simp add: ring_ok_def)
    with less.prems live show ?thesis by (subst start_loop.simps) simp
  qed
qed

lemma pipe_inv_keep:
  assumes "pipe_inv w L k p ts" "later w w'" "live w' = live w + R"
  shows "pipe_inv w' (L + R) k p ts"
proof (rule pipe_inv_transfers [OF assms(1)])
  show "async_inv w' (L + R)"
    using assms async_inv_keep [OF _ assms(2,3)] by (simp add: pipe_inv_def)
qed (use assms(1) later_usb [OF assms(2)] in \<open>auto simp: pipe_inv_def\<close>)

lemma ring_items_hd:
  "0 < pending_count p \<Longrightarrow> ring_ok p \<Longrightarrow> ring_items p = next_finish p # tl (ring_items p)"
  by (simp add: ring_items_def ring_ok_def upt_conv_Cons)

lemma pipe_inv_finish:
  assumes inv: "pipe_inv w L k p ts" and n: "0 < pending_count p"
    and x: "transfers w (ts ! next_finish p) = Some x" "\<not> pending x"
  shows "pipe_inv w L k (ring_finish p) ts"
proof -
  have ok: "ring_ok p" and a: "async_inv w L" using inv by (simp_all add: pipe_inv_def)
  have ne: "ring_items p \<noteq> []" using n by (simp flip: length_greater_0_conv)
  note items = ring.pop_items [OF ok ne] and ok' = ring.pop_ok [OF ok ne]
  have hd: "ring_items p = next_finish p # ring_items (ring_finish p)"
    using ring_items_hd [OF n ok] items by simp
  show ?thesis
  proof (rule pipe_inv_transfers [OF inv a subset_mset.order_refl ok'])
    fix i y
    assume "transfers w (ts ! i) = Some y"
    then show "\<exists>x'. transfers w (ts ! i) = Some x' \<and> buffer_length (urb x') = buffer_length (urb y) \<and>
        (i \<notin> set (ring_items (ring_finish p)) \<longrightarrow> (i \<notin> set (ring_items p) \<longrightarrow> \<not> pending y) \<longrightarrow>
          \<not> pending x')"
      using x hd by (cases "i = next_finish p") auto
  qed simp_all
qed

text \<open>What finishing the transfer \<open>x\<close> gives to the user.\<close>

definition finish_result :: "'e environment_scheme \<Rightarrow> async_in_transfer \<Rightarrow> bool \<Rightarrow> 8 word list option
    \<Rightarrow> bool \<Rightarrow> bool \<Rightarrow> finished \<Rightarrow> bool" where
  "finish_result E x fg buf tg eg = (\<lambda>(fin, buf', n, te). fin = fg \<and> copied_from x buf buf' \<and>
     n = (if tg then reported x else 0) \<and> (eg \<longrightarrow> (te = NULL \<longleftrightarrow> t_error x = NULL) \<and>
       (memory_ok E \<longrightarrow> err_text te = err_text (t_error x) \<and> err_codes te = err_codes (t_error x))) \<and>
     (\<not> eg \<longrightarrow> te = NULL))"

lemma finish_none:
  assumes inv: "pipe_inv w L k p ts"
    and "pending_count p = 0 \<or> (\<exists>x. transfers w (ts ! next_finish p) = Some x \<and> pending x)"
  shows "libusbp_async_in_pipe_handle_finished_transfer E (Heap k p) fg buf tg eg w =
    Some ((NULL, Heap k p, False, buf, 0, NULL), w)"
proof (cases "pending_count p = 0")
  case True
  then show ?thesis
    using pipe_inv_live [OF inv] by (simp add: libusbp_async_in_pipe_handle_finished_transfer_def)
next
  case False
  with assms(2) obtain x where x: "transfers w (ts ! next_finish p) = Some x" "pending x" by auto
  have a: "async_inv w L" "next_finish p < length ts" using inv by (auto simp: pipe_inv_def ring_ok_def)
  show ?thesis
    using False a(2) async_in_transfer_pending_ok [OF a(1) x(1)] x(2) pipe_inv_live [OF inv]
    by (simp add: libusbp_async_in_pipe_handle_finished_transfer_def)
qed

lemma finish_one:
  assumes inv: "pipe_inv w L k p ts" and n: "0 < pending_count p"
    and x: "transfers w (ts ! next_finish p) = Some x" "\<not> pending x"
    and buf: "\<forall>dest. buf = Some dest \<longrightarrow> transfer_size p \<le> length dest"
  shows "\<exists>p' r w'. libusbp_async_in_pipe_handle_finished_transfer E (Heap k p) fg buf tg eg w =
      Some ((NULL, Heap k p', r), w') \<and> finish_result E x fg buf tg eg r \<and>
    p' = (if endless_transfers_enabled p then ring_submit (ring_finish p) else ring_finish p) \<and>
    wf_err (snd (snd (snd r))) \<and> pipe_inv w' (L + err_res (snd (snd (snd r)))) k p' ts \<and>
    next_id w \<le> next_id w' \<and>
    (\<forall>t. t \<noteq> ts ! next_submit p \<longrightarrow> transfers w' t = transfers w t) \<and>
    (endless_transfers_enabled p \<longrightarrow> tried w' (ts ! next_submit p))"
proof -
  have ok: "ring_ok p" and a: "async_inv w L" "next_finish p < length ts"
    using inv by (auto simp: pipe_inv_def ring_ok_def)
  have bl: "buffer_length (urb x) = int (transfer_size p)"
    using inv x(1) a(2) by (auto simp: pipe_inv_def)
  then have buf': "\<forall>dest. buf = Some dest \<longrightarrow> nat (buffer_length (urb x)) \<le> length dest" using buf by simp
  obtain b m te w1 where g: "async_in_transfer_get_results E (Some (ts ! next_finish p)) buf tg eg w =
      Some ((NULL, b, m, te), w1)" "later w w1" "wf_err te" "live w1 = live w + err_res te"
    and r: "\<And>fin. fin = fg \<Longrightarrow> finish_result E x fg buf tg eg (fin, b, m, te)"
    using runsD [OF async_in_transfer_get_results_spec [OF a(1) x buf', of E tg eg]]
    unfolding finish_result_def by auto
  have inv1: "pipe_inv w1 (L + err_res te) k p ts"
    by (rule pipe_inv_keep [OF inv g(2,4)])
  have x1: "transfers w1 (ts ! next_finish p) = Some x" using x(1) later_usb [OF g(2)] by simp
  have inv2: "pipe_inv w1 (L + err_res te) k (ring_finish p) ts"
    by (rule pipe_inv_finish [OF inv1 n x1 x(2)])
  have pend: "async_in_transfer_pending (Some (ts ! next_finish p)) w = Some False"
    using async_in_transfer_pending_ok [OF a(1) x(1)] x(2) by simp
  have next1: "next_id w \<le> next_id w1" using later_usb [OF g(2)] by simp
  show ?thesis
  proof (cases "endless_transfers_enabled p")
    case False
    have "libusbp_async_in_pipe_handle_finished_transfer E (Heap k p) fg buf tg eg w =
      Some ((NULL, Heap k (ring_finish p), fg, b, m, te), w1)"
      using n a(2) pend g(1) False pipe_inv_live [OF inv] pipe_inv_live(1) [OF inv1]
      by (simp add: libusbp_async_in_pipe_handle_finished_transfer_def)
    with False inv2 r next1 g(3) show ?thesis using later_usb [OF g(2)] by auto
  next
    case True
    have "pending_count (ring_finish p) < transfer_count (ring_finish p)"
      using n ok by (auto simp: ring_finish_def ring_ok_def)
    from submit_next_ok [OF inv2 this, of E] obtain w2 where
      s: "async_in_pipe_submit_next_transfer E (Heap k (ring_finish p)) w1 =
        Some (Heap k (ring_submit (ring_finish p)), w2)"
      "pipe_inv w2 (L + err_res te) k (ring_submit (ring_finish p)) ts" "next_id w1 \<le> next_id w2"
      "\<forall>t. t \<noteq> ts ! next_submit p \<longrightarrow> transfers w2 t = transfers w1 t" "tried w2 (ts ! next_submit p)"
      by (auto simp: ring_finish_def)
    have "libusbp_async_in_pipe_handle_finished_transfer E (Heap k p) fg buf tg eg w =
      Some ((NULL, Heap k (ring_submit (ring_finish p)), fg, b, m, te), w2)"
      using n a(2) pend g(1) True s(1) pipe_inv_live [OF inv] pipe_inv_live(1) [OF inv1]
      by (simp add: libusbp_async_in_pipe_handle_finished_transfer_def)
    with True s r next1 g(3) show ?thesis using later_usb [OF g(2)] by auto
  qed
qed

lemma pipe_events_spec:
  assumes inv: "pipe_inv w L k p ts"
  shows "runs (libusbp_async_in_pipe_handle_events E (Heap k p) w) (\<lambda>e w'. wf_err e \<and>
    pipe_inv w' (L + err_res e) k p ts \<and> completes w w')"
proof -
  obtain m h where m: "ap_handle p = Heap m h" "(Mem, m) \<in># L"
    using inv unfolding pipe_inv_def by (auto simp: mset_subset_eq_exists_conv)
  have a: "async_inv w L" using inv by (simp add: pipe_inv_def)
  have "pipe_inv w' (L + err_res e) k p ts"
    if "async_inv w' (L + err_res e)" "completes w w'" for e w'
  proof (rule pipe_inv_transfers [OF inv that(1)])
    fix i x
    assume "transfers w (ts ! i) = Some x"
    then show "\<exists>x'. transfers w' (ts ! i) = Some x' \<and> buffer_length (urb x') = buffer_length (urb x) \<and>
        (i \<notin> set (ring_items p) \<longrightarrow> (i \<notin> set (ring_items p) \<longrightarrow> \<not> pending x) \<longrightarrow> \<not> pending x')"
      using that(2) unfolding completes_def by fastforce
  qed (use inv in \<open>simp_all add: pipe_inv_def\<close>)
  then show ?thesis
    using generic_handle_events_spec [OF a m(2), of E h] pipe_inv_live [OF inv] m(1)
    by (auto simp: libusbp_async_in_pipe_handle_events_def elim!: runs_mono)
qed

lemma cancel_loop_spec:
  assumes "pipe_inv w L k p ts" "i + n = length ts"
  shows "runs (cancel_loop E (transfer_array p) n i w) (\<lambda>e w'. later w w' \<and> wf_err e \<and>
    pipe_inv w' (L + err_res e) k p ts)"
  using assms
proof (induction n arbitrary: i w)
  case 0
  then show ?case by simp
next
  case (Suc n)
  have a: "async_inv w L" using Suc.prems(1) by (simp add: pipe_inv_def)
  have i: "i < length ts" using Suc.prems(2) by simp
  obtain x where x: "transfers w (ts ! i) = Some x"
    using Suc.prems(1) i unfolding pipe_inv_def by auto
  obtain e w1 where c: "async_in_transfer_cancel E (Some (ts ! i)) w = Some (e, w1)" "later w w1"
    "wf_err e" "live w1 = live w + err_res e"
    using runsD [OF async_in_transfer_cancel_spec [OF a x, of E]] by blast
  have inv1: "pipe_inv w1 (L + err_res e) k p ts"
    by (rule pipe_inv_keep [OF Suc.prems(1) c(2,4)])
  have step: "cancel_loop E (transfer_array p) (Suc n) i w =
      (if e \<noteq> NULL then Some (e, w1) else cancel_loop E (transfer_array p) n (i + 1) w1)"
    using i c(1) pipe_inv_live(2) [OF Suc.prems(1)] by simp
  show ?case
  proof (cases "e = NULL")
    case True
    have "runs (cancel_loop E (transfer_array p) n (i + 1) w1) (\<lambda>e w'. later w1 w' \<and> wf_err e \<and>
        pipe_inv w' (L + err_res e) k p ts)"
      by (rule Suc.IH) (use inv1 True Suc.prems(2) in simp_all)
    with True show ?thesis
      unfolding step by (auto elim!: runs_mono intro: later_trans [OF c(2)])
  next
    case False
    with inv1 c show ?thesis unfolding step by simp
  qed
qed

lemma cancel_transfers_spec:
  assumes inv: "pipe_inv w L k p ts"
  shows "runs (libusbp_async_in_pipe_cancel_transfers E (Heap k p) w) (\<lambda>(e, pipe') w'. later w w' \<and>
    wf_err e \<and> pipe' = Heap k (p\<lparr>endless_transfers_enabled := False\<rparr>) \<and>
    pipe_inv w' (L + err_res e) k (p\<lparr>endless_transfers_enabled := False\<rparr>) ts)"
proof -
  let ?p = "p\<lparr>endless_transfers_enabled := False\<rparr>"
  have ring: "ring_ok ?p = ring_ok p" "ring_items ?p = ring_items p"
    by (simp_all add: ring_ok_def ring_items_def)
  have "pipe_inv w L k ?p ts" using inv by (simp add: pipe_inv_def ring)
  then have "runs (cancel_loop E (transfer_array p) (transfer_count p) 0 w) (\<lambda>e w'. later w w' \<and>
      wf_err e \<and> pipe_inv w' (L + err_res e) k ?p ts)"
    using cancel_loop_spec [of w L k ?p ts 0 "transfer_count p" E] inv by (simp add: pipe_inv_def)
  then show ?thesis
    using pipe_inv_live [OF inv]
    by (auto simp: libusbp_async_in_pipe_cancel_transfers_def elim!: runsE)
qed

lemma start_transfers_ok:
  assumes inv: "pipe_inv w L k p ts"
  shows "\<exists>p' w'. libusbp_async_in_pipe_start_endless_transfers E (Heap k p) w =
      Some ((NULL, Heap k p'), w') \<and> pipe_inv w' L k p' ts \<and> next_id w \<le> next_id w' \<and>
    pending_count p' = transfer_count p' \<and> transfer_count p' = transfer_count p \<and>
    transfer_array p' = transfer_array p \<and> transfer_size p' = transfer_size p \<and>
    next_finish p' = next_finish p \<and> endless_transfers_enabled p'"
proof -
  let ?p = "p\<lparr>endless_transfers_enabled := True\<rparr>"
  have "pipe_inv w L k ?p ts" using inv by (simp add: pipe_inv_def ring_ok_def ring_items_def)
  moreover have "transfer_array p \<noteq> NULL" using inv by (auto simp: pipe_inv_def)
  ultimately show ?thesis
    using start_loop_ok [of w L k ?p ts E] pipe_inv_live [OF inv]
    by (auto simp: libusbp_async_in_pipe_start_endless_transfers_def)
qed

section \<open>Making and closing pipes\<close>

definition new_pipe :: "'h ptr \<Rightarrow> 8 word \<Rightarrow> ('h, 'c) libusbp_async_in_pipe" where
  "new_pipe handle pipe_id = \<lparr>ap_handle = handle, ap_pipe_id = pipe_id, transfer_array = NULL,
     transfer_size = 0, transfer_count = 0, endless_transfers_enabled = False, pending_count = 0,
     next_finish = 0, next_submit = 0\<rparr>"

text \<open>
  What \<open>async_in_pipe.c\<close> relies on from the setup of the platform: it returns, and takes nothing but
  the error it reports.
\<close>

locale pipe_platform =
  fixes os_setup :: "'h ptr \<Rightarrow> 8 word \<Rightarrow> 'w world_scheme \<Rightarrow> (err \<times> 'w world_scheme) option"
    and opened :: "'h ptr \<Rightarrow> 'w world_scheme \<Rightarrow> bool"
  assumes opened_handle: "opened handle w \<Longrightarrow> handle \<noteq> NULL"
    and setup_checks: "opened handle w \<Longrightarrow> runs (os_setup handle pipe_id w) (checks True (\<lambda>_. True) w)"
begin

lemma create_gives:
  assumes "opened handle w"
  shows "runs (async_in_pipe_create os_setup E handle pipe_id True w) (gives blk NULL
    (\<lambda>pipe. \<exists>k. pipe = Heap k (new_pipe handle pipe_id) \<and> pipe_in pipe_id) (\<lambda>_. True) w)"
proof (cases "pipe_in pipe_id \<or> pipe_out pipe_id")
  case True
  then have "pipe_in pipe_id \<longleftrightarrow> pipe_id AND 0x80 \<noteq> 0" by (auto simp: pipe_in_iff pipe_out_iff)
  moreover have "check_pipe_id E pipe_id w = Some (NULL, w)"
    using True by (auto simp: check_pipe_id_def pipe_in_iff pipe_out_iff)
  ultimately show ?thesis
    using opened_handle [OF assms]
    by (auto simp: async_in_pipe_create_def new_pipe_def later_def says_def ok_do_error ok_then_error
        checks_def intro!: wp runs_mono [OF setup_checks [OF assms]] split: if_splits)
next
  case False
  then show ?thesis
    using opened_handle [OF assms]
    by (auto simp: async_in_pipe_create_def pipe_check_def later_def says_def ok_do_error ok_then_error
        intro!: check_pipe_id_wp wp)
qed

lemma create_succeeds:
  assumes "opened handle w" "memory_ok E" "runs (os_setup handle pipe_id w) (\<lambda>e _. e = NULL)"
  shows "runs (async_in_pipe_create os_setup E handle pipe_id True w) (\<lambda>(e, pipe) w'.
    (e = NULL \<longleftrightarrow> pipe_in pipe_id) \<and>
    (pipe_out pipe_id \<longrightarrow> err_text e = ''Asynchronous pipes for OUT endpoints are not supported.''))"
proof (cases "pipe_in pipe_id \<or> pipe_out pipe_id")
  case True
  then have "pipe_in pipe_id \<longleftrightarrow> pipe_id AND 0x80 \<noteq> 0" "pipe_out pipe_id \<longleftrightarrow> pipe_id AND 0x80 = 0"
    by (auto simp: pipe_in_iff pipe_out_iff)
  moreover have "check_pipe_id E pipe_id w = Some (NULL, w)"
    using True by (auto simp: check_pipe_id_def pipe_in_iff pipe_out_iff)
  ultimately show ?thesis
    using opened_handle [OF assms(1)] assms(2)
    by (auto simp: async_in_pipe_create_def later_def says_def ok_do_error ok_then_error
        intro!: wp runs_mono [OF assms(3)])
next
  case False
  then show ?thesis
    using opened_handle [OF assms(1)] assms(2)
    by (auto simp: async_in_pipe_create_def pipe_check_def later_def says_def ok_do_error ok_then_error
        intro!: check_pipe_id_wp wp)
qed

end

interpretation linux_pipes: pipe_platform async_in_pipe_setup "\<lambda>handle _. handle \<noteq> NULL"
  by unfold_locales (simp_all add: async_in_pipe_setup_def checks_def)

lemma async_in_pipe_create_gives:
  "handle \<noteq> NULL \<Longrightarrow> runs (async_in_pipe_create async_in_pipe_setup E handle pipe_id True w) (gives blk NULL
    (\<lambda>pipe :: async_in_pipe. \<exists>k. pipe = Heap k (new_pipe handle pipe_id) \<and> pipe_in pipe_id) (\<lambda>_. True) w)"
  by (rule linux_pipes.create_gives)

text \<open>The transfers of \<open>w\<close> that freeing an array with these cells leaves.\<close>

definition left_by_free :: "'w usb_world_scheme \<Rightarrow> nat option list \<Rightarrow> nat \<Rightarrow> async_in_transfer option" where
  "left_by_free w cells t = (case transfers w t of None \<Rightarrow> None
     | Some x \<Rightarrow> if Some t \<in> set cells \<and> \<not> pending x then None else Some x)"

lemma left_by_free_Nil [simp]: "left_by_free w [] = transfers w"
  by (auto simp: left_by_free_def fun_eq_iff split: option.splits)

lemma array_free_loop_ok:
  assumes "async_inv w L" "(Mem, a) \<in># L" "i + n = length cells"
    and "distinct (filter (\<lambda>c. c \<noteq> None) (drop i cells))"
    and "\<And>t. Some t \<in> set (drop i cells) \<Longrightarrow> transfers w t \<noteq> None"
  shows "\<exists>w'. array_free_loop (Heap a cells) n i w = Some w' \<and> async_inv w' L \<and>
    kernel_urbs w' = kernel_urbs w \<and> next_id w' = next_id w \<and>
    transfers w' = left_by_free w (drop i cells)"
  using assms(1,3-)
proof (induction n arbitrary: i w)
  case 0
  then show ?case by simp
next
  case (Suc n)
  have i: "i < length cells" "drop i cells = cells ! i # drop (i + 1) cells"
    using Suc.prems(2) by (simp_all add: Cons_nth_drop_Suc)
  have d: "deref (Heap a cells) w = Some cells"
    using Suc.prems(1) assms(2) by (simp add: async_inv_def)
  obtain w1 where w1: "async_in_transfer_free (cells ! i) w = Some w1" "async_inv w1 L"
    "kernel_urbs w1 = kernel_urbs w" "next_id w1 = next_id w"
    "transfers w1 = left_by_free w [cells ! i]"
  proof (cases "cells ! i")
    case None
    then show ?thesis
      using that [of w] Suc.prems(1)
      by (auto simp: async_in_transfer_free_def left_by_free_def fun_eq_iff split: option.splits)
  next
    case (Some t)
    then obtain x where x: "transfers w t = Some x" using Suc.prems(4) i(2) by force
    from async_in_transfer_free_ok [OF Suc.prems(1) x] obtain w1 where
      "async_in_transfer_free (Some t) w = Some w1" "async_inv w1 L" "next_id w1 = next_id w"
      "kernel_urbs w1 = kernel_urbs w" "transfers w1 = (if pending x then transfers w else (transfers w)(t := None))"
      by blast
    with x Some show ?thesis
      by (intro that [of w1]) (auto simp: left_by_free_def fun_eq_iff split: option.splits)
  qed
  have dist: "Some t \<notin> set (drop (i + 1) cells)" if "cells ! i = Some t" for t
    using Suc.prems(3) i(2) that by auto
  have "\<exists>w'. array_free_loop (Heap a cells) n (i + 1) w1 = Some w' \<and> async_inv w' L \<and>
    kernel_urbs w' = kernel_urbs w1 \<and> next_id w' = next_id w1 \<and>
    transfers w' = left_by_free w1 (drop (i + 1) cells)"
  proof (rule Suc.IH [OF w1(2)])
    show "distinct (filter (\<lambda>c. c \<noteq> None) (drop (i + 1) cells))"
      using Suc.prems(3) i(2) by (auto split: if_splits)
    fix t
    assume t: "Some t \<in> set (drop (i + 1) cells)"
    then have "transfers w t \<noteq> None" using Suc.prems(4) i(2) by auto
    moreover have "cells ! i \<noteq> Some t" using t dist by blast
    ultimately show "transfers w1 t \<noteq> None"
      by (auto simp: w1(5) left_by_free_def split: option.splits)
  qed (use Suc.prems(2) in simp)
  moreover have "left_by_free w1 (drop (i + 1) cells) = left_by_free w (drop i cells)"
    by (auto simp: i(2) w1(5) left_by_free_def fun_eq_iff split: option.splits)
  moreover have "array_free_loop (Heap a cells) (Suc n) i w =
      array_free_loop (Heap a cells) n (i + 1) w1"
    using d i(1) w1(1) by simp
  ultimately show ?case by (simp add: w1(3,4))
qed

lemma async_inv_drop:
  assumes "async_inv w L" "R \<subseteq># L"
  shows "async_inv (drop_res R w) (L - R)"
proof -
  have "live w = store_res (transfers w) + L" using assms(1) unfolding async_inv_def by blast
  then have "live (drop_res R w) = store_res (transfers w) + (L - R)"
    by (simp only: live_drop_res multiset_diff_union_assoc [OF assms(2)])
  moreover have "transfers (drop_res R w) = transfers w" "kernel_urbs (drop_res R w) = kernel_urbs w"
    by (simp_all add: drop_res_def)
  ultimately show ?thesis
    using assms(1) unfolding async_inv_def next_id_simps by metis
qed

text \<open>Closing a pipe frees everything but the transfers the kernel still holds.\<close>

lemma pipe_close_ok:
  assumes inv: "pipe_inv w L k p ts"
  shows "\<exists>w' a. transfer_array p = Heap a (map Some ts) \<and>
    libusbp_async_in_pipe_close (Heap k p) w = Some w' \<and>
    async_inv w' (L - {#(Mem, k), (Mem, a)#}) \<and> kernel_urbs w' = kernel_urbs w \<and>
    transfers w' = left_by_free w (map Some ts)"
proof -
  obtain a m h where a: "transfer_array p = Heap a (map Some ts)"
    and L: "{#(Mem, k), (Mem, a), (Mem, m)#} \<subseteq># L"
    using inv unfolding pipe_inv_def by blast
  obtain M where M: "L = {#(Mem, k), (Mem, a), (Mem, m)#} + M"
    using L by (auto simp: mset_subset_eq_exists_conv)
  have inv': "async_inv w L" "length ts = transfer_count p" "distinct ts"
    using inv by (simp_all add: pipe_inv_def)
  have some: "transfers w t \<noteq> None" if "t \<in> set ts" for t
    using inv that inv'(2) unfolding pipe_inv_def by (auto simp: in_set_conv_nth)
  have "\<exists>w'. array_free_loop (Heap a (map Some ts)) (transfer_count p) 0 w = Some w' \<and> async_inv w' L \<and>
    kernel_urbs w' = kernel_urbs w \<and> next_id w' = next_id w \<and>
    transfers w' = left_by_free w (drop 0 (map Some ts))"
    by (rule array_free_loop_ok [OF inv'(1)])
      (use M inv'(2,3) some in \<open>auto simp: filter_map distinct_map comp_def\<close>)
  then obtain w1 where w1: "array_free_loop (Heap a (map Some ts)) (transfer_count p) 0 w = Some w1"
    "async_inv w1 L" "kernel_urbs w1 = kernel_urbs w" "transfers w1 = left_by_free w (map Some ts)"
    by auto
  have live1: "live w1 = store_res (transfers w1) + L" using w1(2) by (simp add: async_inv_def)
  let ?w = "drop_res {#(Mem, k), (Mem, a)#} w1"
  have "libusbp_async_in_pipe_close (Heap k p) w = Some ?w"
    using pipe_inv_live(1) [OF inv] a w1(1) live1 M
    by (simp add: libusbp_async_in_pipe_close_def async_in_transfer_array_free_def add_mset_commute)
  moreover have "async_inv ?w (L - {#(Mem, k), (Mem, a)#})"
    by (rule async_inv_drop [OF w1(2)]) (simp add: M)
  ultimately show ?thesis using a w1(3,4) by auto
qed

text \<open>The world \<open>w\<close> has the idle transfers \<open>ts\<close> of \<open>n\<close> bytes more than \<open>w0\<close>.\<close>

definition made :: "'w usb_world_scheme \<Rightarrow> nat \<Rightarrow> 'w usb_world_scheme \<Rightarrow> nat list \<Rightarrow> bool" where
  "made w0 n w ts \<longleftrightarrow> distinct ts \<and> kernel_urbs w = kernel_urbs w0 \<and> next_id w0 \<le> next_id w \<and>
     (\<forall>t. if t \<in> set ts
        then transfers w0 t = None \<and> (\<exists>x. transfers w t = Some x \<and> \<not> pending x \<and>
          buffer_length (urb x) = int n)
        else transfers w t = transfers w0 t)"

lemma madeD:
  assumes "made w0 n w ts"
  shows "t \<in> set ts \<Longrightarrow> transfers w0 t = None"
    "t \<in> set ts \<Longrightarrow> \<exists>x. transfers w t = Some x \<and> \<not> pending x \<and> buffer_length (urb x) = int n"
    "t \<notin> set ts \<Longrightarrow> transfers w t = transfers w0 t"
proof -
  have "if t \<in> set ts then transfers w0 t = None \<and> (\<exists>x. transfers w t = Some x \<and> \<not> pending x \<and>
      buffer_length (urb x) = int n) else transfers w t = transfers w0 t"
    using assms unfolding made_def by blast
  then show "t \<in> set ts \<Longrightarrow> transfers w0 t = None"
    "t \<in> set ts \<Longrightarrow> \<exists>x. transfers w t = Some x \<and> \<not> pending x \<and> buffer_length (urb x) = int n"
    "t \<notin> set ts \<Longrightarrow> transfers w t = transfers w0 t"
    by simp_all
qed

lemma made_Nil: "made w n w []"
  by (simp add: made_def)

lemma made_snoc:
  assumes "made w0 n w ts" "transfers w t = None" "transfers w' = (transfers w)(t \<mapsto> x)"
    and "\<not> pending x" "buffer_length (urb x) = int n" "next_id w \<le> next_id w'"
    and "kernel_urbs w' = kernel_urbs w"
  shows "made w0 n w' (ts @ [t])"
proof -
  have "t \<notin> set ts" using madeD(2) [OF assms(1), of t] assms(2) by auto
  moreover from this have "transfers w0 t = None" using madeD(3) [OF assms(1), of t] assms(2) by simp
  ultimately show ?thesis using assms unfolding made_def by auto
qed

lemma made_later:
  assumes "made w0 n w ts" "transfers w' = transfers w" "next_id w \<le> next_id w'"
    "kernel_urbs w' = kernel_urbs w"
  shows "made w0 n w' ts"
  using assms unfolding made_def by auto

lemma create_loop_spec:
  assumes "async_inv w L" "made w0 n w ts" "(Mem, m) \<in># L" "(Mem, a) \<in># L" "n \<noteq> 0"
    "pid AND 0x80 \<noteq> 0"
  shows "runs (create_loop E (Heap m h) pid n c (length ts) (Heap a (map Some ts @ replicate c None)) w)
    (\<lambda>(e, array) w'. wf_err e \<and> async_inv w' (L + err_res e) \<and>
      (\<exists>ts' d. array = Heap a (map Some ts' @ replicate d None) \<and> made w0 n w' ts' \<and>
        length ts' + d = length ts + c \<and> (e = NULL \<longrightarrow> d = 0)))"
  using assms(1,2)
proof (induction c arbitrary: w ts)
  case 0
  then show ?case by (auto intro!: exI [of _ ts])
next
  case (Suc c)
  from runsD [OF async_in_transfer_create_spec [OF Suc.prems(1) assms(3,5,6), of E h]]
  obtain e t w1 where c: "async_in_transfer_create E (Heap m h) pid n w = Some ((e, t), w1)"
    "wf_err e" "async_inv w1 (L + err_res e)" "next_id w \<le> next_id w1" "kernel_urbs w1 = kernel_urbs w"
    and t: "if e = NULL
     then \<exists>i x. t = Some i \<and> transfers w i = None \<and> transfers w1 = (transfers w)(i \<mapsto> x) \<and>
       \<not> pending x \<and> t_error x = NULL \<and> t_fd x = gh_fd h \<and> buffer_length (urb x) = int n \<and>
       actual_length (urb x) = 0
     else t = None \<and> transfers w1 = transfers w"
    by auto
  show ?case
  proof (cases "e = NULL")
    case False
    then have "made w0 n w1 ts" using t c(4,5) made_later [OF Suc.prems(2)] by simp
    with False c show ?thesis by (auto intro!: exI [of _ ts] exI [of _ "Suc c"])
  next
    case True
    then obtain i x where i: "t = Some i" "transfers w i = None" "transfers w1 = (transfers w)(i \<mapsto> x)"
      "\<not> pending x" "buffer_length (urb x) = int n"
      using t by auto
    have m1: "made w0 n w1 (ts @ [i])" by (rule made_snoc [OF Suc.prems(2) i(2-5) c(4,5)])
    have inv1: "async_inv w1 L" using c(3) True by simp
    have a1: "(Mem, a) \<in># live w1" using inv1 assms(4) by (simp add: async_inv_def)
    have "create_loop E (Heap m h) pid n (Suc c) (length ts)
        (Heap a (map Some ts @ replicate (Suc c) None)) w =
      create_loop E (Heap m h) pid n c (length (ts @ [i]))
        (Heap a (map Some (ts @ [i]) @ replicate c None)) w1"
      using c(1) True a1 i(1) by (simp add: array_set_def list_update_append)
    with Suc.IH [OF inv1 m1] show ?thesis by simp
  qed
qed

text \<open>A pipe without transfers.\<close>

definition pipe_empty :: "'w usb_world_scheme \<Rightarrow> res multiset \<Rightarrow> nat \<Rightarrow> linux_pipe \<Rightarrow> bool" where
  "pipe_empty w L k p \<longleftrightarrow> async_inv w L \<and>
     (\<exists>m h. p = new_pipe (Heap m h) (ap_pipe_id p) \<and> {#(Mem, k), (Mem, m)#} \<subseteq># L) \<and>
     pipe_in (ap_pipe_id p)"

text \<open>The pipe after a successful allocation.\<close>

definition with_transfers :: "linux_pipe \<Rightarrow> nat \<Rightarrow> nat list \<Rightarrow> nat \<Rightarrow> linux_pipe" where
  "with_transfers p a ts n = p\<lparr>transfer_array := Heap a (map Some ts), transfer_count := length ts,
     transfer_size := n\<rparr>"

lemma pipe_inv_made:
  assumes "pipe_empty w0 L k p" "async_inv w (add_mset (Mem, a) L)" "made w0 n w ts"
    and "ts \<noteq> []" "length ts < 2 ^ 64"
  shows "pipe_inv w (add_mset (Mem, a) L) k (with_transfers p a ts n) ts"
proof -
  obtain m h where p: "p = new_pipe (Heap m h) (ap_pipe_id p)" and L: "{#(Mem, k), (Mem, m)#} \<subseteq># L"
    using assms(1) unfolding pipe_empty_def by blast
  have "ring_ok (with_transfers p a ts n)"
    using assms(4,5) by (subst p) (simp add: ring_ok_def with_transfers_def new_pipe_def)
  moreover have "ap_handle (with_transfers p a ts n) = Heap m h"
    by (subst p) (simp add: with_transfers_def new_pipe_def)
  moreover have "{#(Mem, k), (Mem, a), (Mem, m)#} \<subseteq># add_mset (Mem, a) L"
    using L by (simp add: add_mset_commute)
  moreover have "\<exists>x. transfers w (ts ! i) = Some x \<and> buffer_length (urb x) = int n \<and> \<not> pending x"
    if "i < length ts" for i
    using madeD(2) [OF assms(3) nth_mem [OF that]] by blast
  ultimately show ?thesis
    using assms(2,3) unfolding pipe_inv_def made_def by (auto simp: with_transfers_def)
qed

lemma free_made:
  assumes "async_inv w (add_mset (Mem, a) L)" "made w0 n w ts"
  shows "\<exists>w'. async_in_transfer_array_free (Heap a (map Some ts @ replicate d None)) (length ts + d) w = Some w' \<and>
    async_inv w' L \<and> transfers w' = transfers w0 \<and> kernel_urbs w' = kernel_urbs w0 \<and>
    next_id w0 \<le> next_id w'"
proof -
  let ?c = "map Some ts @ replicate d None"
  have "\<exists>w'. array_free_loop (Heap a ?c) (length ts + d) 0 w = Some w' \<and> async_inv w' (add_mset (Mem, a) L) \<and>
    kernel_urbs w' = kernel_urbs w \<and> next_id w' = next_id w \<and> transfers w' = left_by_free w (drop 0 ?c)"
  proof (rule array_free_loop_ok [OF assms(1)])
    show "distinct (filter (\<lambda>c. c \<noteq> None) (drop 0 ?c))"
      using assms(2) by (simp add: made_def filter_map distinct_map comp_def)
    fix t
    assume "Some t \<in> set (drop 0 ?c)"
    then have "t \<in> set ts" by auto
    then show "transfers w t \<noteq> None" using madeD(2) [OF assms(2)] by blast
  qed simp_all
  then obtain w1 where w1: "array_free_loop (Heap a ?c) (length ts + d) 0 w = Some w1"
    "async_inv w1 (add_mset (Mem, a) L)" "kernel_urbs w1 = kernel_urbs w" "next_id w1 = next_id w"
    "transfers w1 = left_by_free w ?c"
    by auto
  have "left_by_free w ?c t = transfers w0 t" for t
    using madeD [OF assms(2), of t]
    by (cases "t \<in> set ts") (auto simp: left_by_free_def split: option.splits)
  then have "transfers w1 = transfers w0" using w1(5) by auto
  moreover have "(Mem, a) \<in># live w1" using w1(2) by (simp add: async_inv_def)
  moreover have "async_inv (drop_res {#(Mem, a)#} w1) L"
    using async_inv_drop [OF w1(2), of "{#(Mem, a)#}"] by simp
  ultimately show ?thesis
    using w1 assms(2) by (simp add: async_in_transfer_array_free_def made_def)
qed

lemma async_inv_take: "async_inv w L \<Longrightarrow> async_inv (take_res k w) (add_mset (k, next_id w) L)"
  using async_inv_later [of w L "take_res k w" "{#(k, next_id w)#}"]
  by (simp add: take_res_def)

lemma made_from:
  assumes "made w1 n w ts" "transfers w1 = transfers w0" "kernel_urbs w1 = kernel_urbs w0"
    and "next_id w0 \<le> next_id w1"
  shows "made w0 n w ts"
  using assms(1) order_trans [OF assms(4)] unfolding made_def assms(2,3) by blast

text \<open>
  Allocating transfers gives the pipe as many idle transfers of that size as it asked for, or gives
  back all it had made so far.
\<close>

lemma allocate_transfers_spec:
  assumes pipe: "pipe_empty w L k p" and c: "c \<noteq> 0" and n: "n \<noteq> 0"
  shows "runs (libusbp_async_in_pipe_allocate_transfers E (Heap k p) c n w) (\<lambda>(e, pipe') w'. wf_err e \<and>
    next_id w \<le> next_id w' \<and> kernel_urbs w' = kernel_urbs w \<and>
    (if e = NULL
     then \<exists>a ts. pipe' = Heap k (with_transfers p a ts n) \<and> length ts = c \<and> made w n w' ts \<and>
       pipe_inv w' (add_mset (Mem, a) L) k (with_transfers p a ts n) ts
     else pipe' = Heap k p \<and> async_inv w' (L + err_res e) \<and> transfers w' = transfers w))"
proof -
  obtain m h where p: "p = new_pipe (Heap m h) (ap_pipe_id p)" and L: "{#(Mem, k), (Mem, m)#} \<subseteq># L"
    and inv: "async_inv w L" and pin: "ap_pipe_id p AND 0x80 \<noteq> 0"
    using pipe unfolding pipe_empty_def by (auto simp: pipe_in_iff)
  have f: "transfer_array p = NULL" "ap_handle p = Heap m h"
    by (subst p, simp add: new_pipe_def)+
  have mem: "(Mem, k) \<in># L" "(Mem, m) \<in># L" using L by (auto simp: mset_subset_eq_exists_conv)
  then have d: "deref (Heap k p) w = Some p" using inv by (simp add: async_inv_def)
  show ?thesis
  proof (cases "c * 8 \<le> SIZE_MAX \<and> malloc_ok E (next_id w)")
    case False
    have "runs (libusbp_async_in_pipe_allocate_transfers E (Heap k p) c n w) (\<lambda>(e, pipe') w'. e \<noteq> NULL \<and> wf_err e \<and>
      pipe' = Heap k p \<and> later w w' \<and> live w' = live w + err_res e)"
      using False c n d f
      by (auto simp: libusbp_async_in_pipe_allocate_transfers_def calloc_array_def malloc_def
          ok_then_error async_in_transfer_array_free_def later_def says_def intro!: wp)
    then show ?thesis
      using async_inv_keep [OF inv] by (auto dest: later_usb elim!: runs_mono)
  next
    case True
    let ?a = "next_id w" and ?w = "take_res Mem w"
    have calloc: "calloc_array E c w = Some (Heap ?a (replicate c None), ?w)"
      using True by (simp add: calloc_array_def malloc_def)
    have w1: "transfers ?w = transfers w" "kernel_urbs ?w = kernel_urbs w" by (simp_all add: take_res_def)
    obtain e array w2 where loop: "create_loop E (Heap m h) (ap_pipe_id p) n c 0
        (Heap ?a (replicate c None)) ?w = Some ((e, array), w2)"
      and e: "wf_err e" "async_inv w2 (add_mset (Mem, ?a) L + err_res e)"
      and ex: "\<exists>ts d. array = Heap ?a (map Some ts @ replicate d None) \<and> made ?w n w2 ts \<and>
        length ts + d = c \<and> (e = NULL \<longrightarrow> d = 0)"
      using runsD [OF create_loop_spec [OF async_inv_take [OF inv, of Mem] made_Nil, where m = m and a = ?a and
          pid = "ap_pipe_id p" and E = E and h = h and c = c and n = n]]
        mem n pin by simp blast
    from ex obtain ts d where ts: "array = Heap ?a (map Some ts @ replicate d None)" "made ?w n w2 ts"
      "length ts + d = c" "e = NULL \<longrightarrow> d = 0"
      by blast
    have made: "made w n w2 ts" by (rule made_from [OF ts(2)]) (simp_all add: w1)
    show ?thesis
    proof (cases "e = NULL")
      case e0: True
      have "length ts = c" using ts(3,4) e0 by simp
      moreover from this have "length ts < 2 ^ 64" using True by (simp add: SIZE_MAX_def)
      ultimately have pinv: "pipe_inv w2 (add_mset (Mem, ?a) L) k (with_transfers p ?a ts n) ts"
        using pipe_inv_made [OF pipe _ made] e(2) e0 c by auto
      have "libusbp_async_in_pipe_allocate_transfers E (Heap k p) c n w =
          Some ((NULL, Heap k (with_transfers p ?a ts n)), w2)"
        using c n d f calloc loop e0 ts pipe_inv_live(1) [OF pinv]
        by (simp add: libusbp_async_in_pipe_allocate_transfers_def async_in_transfer_array_free_def
            with_transfers_def)
      moreover have "kernel_urbs w2 = kernel_urbs w" "next_id w \<le> next_id w2"
        using made by (simp_all add: made_def)
      ultimately show ?thesis using pinv made \<open>length ts = c\<close> by auto
    next
      case False
      have inv2: "async_inv w2 (add_mset (Mem, ?a) (L + err_res e))" using e(2) by simp
      obtain w3 where w3: "async_in_transfer_array_free array c w2 = Some w3" "async_inv w3 (L + err_res e)"
        "transfers w3 = transfers w" "kernel_urbs w3 = kernel_urbs w" "next_id w \<le> next_id w3"
        using free_made [OF inv2 made, of d] ts by auto
      have "runs (error_add E e ''Failed to allocate transfers for asynchronous IN pipe.'' w3)
          (\<lambda>e' w'. wf_err e' \<and> e' \<noteq> NULL \<and> later w3 w' \<and> live w' = live w3 - err_res e + err_res e')"
        using e(1) False w3(2) by (auto simp: says_def async_inv_def intro!: wp)
      then obtain e' w4 where e': "error_add E e ''Failed to allocate transfers for asynchronous IN pipe.'' w3 =
          Some (e', w4)" "wf_err e'" "e' \<noteq> NULL" "later w3 w4" "live w4 = live w3 - err_res e + err_res e'"
        by (auto elim!: runsE)
      have "async_inv w4 (L + err_res e')"
        by (rule async_inv_later [OF async_inv_drop [OF w3(2), of "err_res e", simplified]])
          (use e' later_usb [OF e'(4)] in \<open>simp_all add: drop_res_def\<close>)
      moreover have "libusbp_async_in_pipe_allocate_transfers E (Heap k p) c n w = Some ((e', Heap k p), w4)"
        using c n d f calloc loop False w3(1) e'(1)
        by (simp add: libusbp_async_in_pipe_allocate_transfers_def)
      ultimately show ?thesis using e' w3 later_usb [OF e'(4)] by auto
    qed
  qed
qed

section \<open>Properties\<close>

text \<open>
  C5: The ring is a first-in first-out queue.  Over any sequence of submissions and finishes, each
  left out when it is not possible, the slots in use before and those submitted are those finished,
  in this order, and those still in use; the slots in use never exceed the count, and the ring's
  indices stay consistent.
\<close>

theorem ring_is_fifo:
  assumes "ring_ok p"
    and "slot_queue.run ring_items transfer_count next_submit ring_submit ring_finish ops p = (submitted, finished, p')"
  shows "ring_items p @ submitted = finished @ ring_items p' \<and> ring_ok p' \<and>
    length (ring_items p') \<le> transfer_count p"
  using ring.run_fifo [OF assms] ring.bounded [of p'] by auto

definition demo_slots :: linux_pipe where
  "demo_slots = \<lparr>ap_handle = NULL, ap_pipe_id = 0x81, transfer_array = NULL, transfer_size = 8,
     transfer_count = 2, endless_transfers_enabled = False, pending_count = 0, next_finish = 1,
     next_submit = 1\<rparr>"

theorem ring_is_fifo_witness:
  "\<exists>p'. slot_queue.run ring_items transfer_count next_submit ring_submit ring_finish
       [True, True, True, False, True] demo_slots = ([1, 0, 1], [1], p') \<and>
     ring_items demo_slots @ [1, 0, 1] = [1] @ ring_items p'"
proof -
  have "ring_ok demo_slots" by (simp add: ring_ok_def demo_slots_def)
  moreover obtain p' where "slot_queue.run ring_items transfer_count next_submit ring_submit ring_finish
      [True, True, True, False, True] demo_slots = ([1, 0, 1], [1], p')"
    by (simp add: demo_slots_def ring_items_def ring_submit_def ring_finish_def size_inc_def
        increment_and_wrap_size_def)
  ultimately show ?thesis using ring_is_fifo by blast
qed

end
