(* ===== verification/PipeRuns.thy ===== *)
theory PipeRuns
  imports AsyncPipe
begin

text \<open>
  The asynchronous pipes of \<open>src/src/async_in_pipe.c\<close> over time: a step relation for the calls a
  program makes on a pipe, the states its runs reach, and what holds in all of them.
\<close>

section \<open>The pipe as a state machine\<close>

text \<open>
  What a program does with the pipe at address \<open>k\<close> after it has allocated the transfers: it calls
  the operations in any order, gives a large enough buffer (or none) when it asks for a finished
  transfer, and frees the errors it gets.  The label says whether a finished transfer was handed
  out; the kernel's answers are those of \<open>E\<close>.
\<close>

inductive pipe_step :: "'e usb_system_scheme \<Rightarrow> nat \<Rightarrow> linux_pipe \<times> 'w usb_world_scheme
    \<Rightarrow> bool \<Rightarrow> linux_pipe \<times> 'w usb_world_scheme \<Rightarrow> bool" for E k where
  start: "libusbp_async_in_pipe_start_endless_transfers E (Heap k p) w = Some ((e, Heap k p'), w1) \<Longrightarrow>
    libusbp_error_free e w1 = Some w' \<Longrightarrow> pipe_step E k (p, w) False (p', w')"
| events: "libusbp_async_in_pipe_handle_events E (Heap k p) w = Some (e, w1) \<Longrightarrow>
    libusbp_error_free e w1 = Some w' \<Longrightarrow> pipe_step E k (p, w) False (p, w')"
| cancel: "libusbp_async_in_pipe_cancel_transfers E (Heap k p) w = Some ((e, Heap k p'), w1) \<Longrightarrow>
    libusbp_error_free e w1 = Some w' \<Longrightarrow> pipe_step E k (p, w) False (p', w')"
| finish: "libusbp_async_in_pipe_handle_finished_transfer E (Heap k p) True buf tg eg w =
      Some ((e, Heap k p', finished, buf', n, te), w1) \<Longrightarrow>
    (\<forall>dest. buf = Some dest \<longrightarrow> transfer_size p \<le> length dest) \<Longrightarrow>
    libusbp_error_free te w1 = Some w' \<Longrightarrow> pipe_step E k (p, w) finished (p', w')"

inductive_cases pipe_stepE: "pipe_step E k (p, w) finished (p', w')"

text \<open>Runs, with the number of finished transfers.\<close>

inductive pipe_run :: "'e usb_system_scheme \<Rightarrow> nat \<Rightarrow> linux_pipe \<times> 'w usb_world_scheme
    \<Rightarrow> nat \<Rightarrow> linux_pipe \<times> 'w usb_world_scheme \<Rightarrow> bool" for E k s where
  refl: "pipe_run E k s 0 s"
| step: "pipe_run E k s n s' \<Longrightarrow> pipe_step E k s' finished s'' \<Longrightarrow>
    pipe_run E k s (n + of_bool finished) s''"

text \<open>
  The invariant of the runs: the ring and the transfers are consistent, and while endless transfers
  are enabled every transfer is in the ring.
\<close>

definition pipe_good :: "'w usb_world_scheme \<Rightarrow> res multiset \<Rightarrow> nat \<Rightarrow> linux_pipe
    \<Rightarrow> nat list \<Rightarrow> bool" where
  "pipe_good w L k p ts \<longleftrightarrow> pipe_inv w L k p ts \<and>
     (endless_transfers_enabled p \<longrightarrow> pending_count p = transfer_count p)"

lemma pipe_inv_free_error:
  assumes "pipe_inv w (L + err_res e) k p ts" "wf_err e" "pipe_inv w0 L k p0 ts" "ap_handle p = ap_handle p0"
    "transfer_array p = transfer_array p0"
  shows "libusbp_error_free e w = Some (drop_res (err_res e) w) \<and> pipe_inv (drop_res (err_res e) w) L k p ts"
proof -
  have inv: "async_inv w (L + err_res e)" using assms(1) by (simp add: pipe_inv_def)
  then have "err_res e \<subseteq># live w" by (simp add: async_inv_def)
  then have "libusbp_error_free e w = Some (drop_res (err_res e) w)"
    by (rule libusbp_error_free_ok [OF assms(2)])
  moreover have "async_inv (drop_res (err_res e) w) L"
    using async_inv_drop [OF inv, of "err_res e"] by simp
  ultimately show ?thesis
    using assms(1,3-5) by (simp add: pipe_inv_def drop_res_def)
qed

lemma ring_counts:
  assumes "ring_ok p"
  shows "pending_count p < transfer_count p \<Longrightarrow> pending_count (ring_submit p) = Suc (pending_count p)"
    "next_finish (ring_submit p) = next_finish p"
    "pending_count (ring_finish p) = pending_count p - 1"
    "next_finish (ring_finish p) = Suc (next_finish p) mod transfer_count p"
  using assms ring.push_items [OF assms]
  by (auto simp: ring_ok_def ring_submit_def ring_finish_def increment_and_wrap size_inc_def)

text \<open>Every operation returns, and keeps the invariant.\<close>

lemma start_good:
  assumes "pipe_good w L k p ts"
  shows "\<exists>p' w'. libusbp_async_in_pipe_start_endless_transfers E (Heap k p) w = Some ((NULL, Heap k p'), w') \<and>
    pipe_good w' L k p' ts \<and> next_finish p' = next_finish p \<and> endless_transfers_enabled p' \<and>
    pending_count p' = transfer_count p' \<and> transfer_count p' = transfer_count p \<and>
    transfer_array p' = transfer_array p \<and> transfer_size p' = transfer_size p"
  using start_transfers_ok [of w L k p ts E] assms unfolding pipe_good_def by blast

lemma events_good:
  assumes "pipe_good w L k p ts"
  shows "\<exists>e w'. libusbp_async_in_pipe_handle_events E (Heap k p) w = Some (e, w') \<and>
    libusbp_error_free e w' = Some (drop_res (err_res e) w') \<and> pipe_good (drop_res (err_res e) w') L k p ts"
  using runsD [OF pipe_events_spec, of w L k p ts E] assms pipe_inv_free_error
  unfolding pipe_good_def by (metis (no_types, lifting))

lemma cancel_good:
  assumes "pipe_good w L k p ts"
  shows "\<exists>e p' w'. libusbp_async_in_pipe_cancel_transfers E (Heap k p) w = Some ((e, Heap k p'), w') \<and>
    p' = p\<lparr>endless_transfers_enabled := False\<rparr> \<and>
    libusbp_error_free e w' = Some (drop_res (err_res e) w') \<and> pipe_good (drop_res (err_res e) w') L k p' ts"
proof -
  let ?p = "p\<lparr>endless_transfers_enabled := False\<rparr>"
  have inv: "pipe_inv w L k p ts" using assms by (simp add: pipe_good_def)
  obtain e w' where c: "libusbp_async_in_pipe_cancel_transfers E (Heap k p) w = Some ((e, Heap k ?p), w')"
    "wf_err e" "pipe_inv w' (L + err_res e) k ?p ts"
    using runsD [OF cancel_transfers_spec [OF inv, of E]] by auto
  from pipe_inv_free_error [OF c(3,2) inv] c(1) show ?thesis by (simp add: pipe_good_def)
qed

lemma finish_good:
  assumes good: "pipe_good w L k p ts"
    and buf: "\<forall>dest. buf = Some dest \<longrightarrow> transfer_size p \<le> length dest"
  shows "\<exists>p' fin b n te w'. libusbp_async_in_pipe_handle_finished_transfer E (Heap k p) True buf tg eg w =
      Some ((NULL, Heap k p', fin, b, n, te), w') \<and>
    libusbp_error_free te w' = Some (drop_res (err_res te) w') \<and> pipe_good (drop_res (err_res te) w') L k p' ts \<and>
    transfer_count p' = transfer_count p \<and> transfer_array p' = transfer_array p \<and>
    next_finish p' = (next_finish p + of_bool fin) mod transfer_count p \<and>
    (fin \<longrightarrow> (\<exists>x. transfers w (ts ! next_finish p) = Some x \<and> \<not> pending x \<and>
      finish_result E x True buf tg eg (fin, b, n, te)))"
proof -
  have inv: "pipe_inv w L k p ts" and ok: "ring_ok p" using good by (simp_all add: pipe_good_def pipe_inv_def)
  have nf: "next_finish p mod transfer_count p = next_finish p" using ok by (simp add: ring_ok_def)
  obtain x where x: "transfers w (ts ! next_finish p) = Some x"
    using inv ok unfolding pipe_inv_def ring_ok_def by blast
  show ?thesis
  proof (cases "pending_count p = 0 \<or> pending x")
    case True
    then have "libusbp_async_in_pipe_handle_finished_transfer E (Heap k p) True buf tg eg w =
        Some ((NULL, Heap k p, False, buf, 0, NULL), w)"
      using x by (intro finish_none [OF inv]) blast
    then show ?thesis using good nf by (simp add: libusbp_error_free_def) blast
  next
    case False
    then have n: "0 < pending_count p" "\<not> pending x" by auto
    from finish_one [OF inv n(1) x n(2) buf, of E True tg eg] obtain p' r w' where
      r: "libusbp_async_in_pipe_handle_finished_transfer E (Heap k p) True buf tg eg w = Some ((NULL, Heap k p', r), w')"
        "finish_result E x True buf tg eg r" "wf_err (snd (snd (snd r)))"
        "pipe_inv w' (L + err_res (snd (snd (snd r)))) k p' ts"
      and p': "p' = (if endless_transfers_enabled p then ring_submit (ring_finish p) else ring_finish p)"
      by blast
    obtain fin b m te where rr: "r = (fin, b, m, te)" by (cases r)
    have fin: "fin" using r(2) rr by (simp add: finish_result_def)
    have f: "libusbp_error_free te w' = Some (drop_res (err_res te) w')"
      "pipe_inv (drop_res (err_res te) w') L k p' ts"
      using pipe_inv_free_error [OF r(4,3) inv] p' rr by (auto split: if_splits)
    have ok1: "ring_ok (ring_finish p)" using ring.pop_ok [OF ok] n(1) by (simp flip: length_greater_0_conv)
    have cnt: "next_finish p' = Suc (next_finish p) mod transfer_count p"
      "endless_transfers_enabled p \<Longrightarrow> pending_count p' = Suc (pending_count p - 1)"
      using p' ring_counts [OF ok] ring_counts(1,2) [OF ok1] n(1) ok by (auto simp: ring_ok_def)
    have "pipe_good (drop_res (err_res te) w') L k p' ts"
      using f(2) good cnt(2) n(1) p' by (auto simp: pipe_good_def split: if_splits)
    with r f(1) rr fin cnt(1) p' x n(2) show ?thesis by (auto split: if_splits)
  qed
qed

lemma pipe_good_mod: "pipe_good w L k p ts \<Longrightarrow> next_finish p mod transfer_count p = next_finish p"
  by (simp add: pipe_good_def pipe_inv_def ring_ok_def)

lemma pipe_step_good:
  assumes "pipe_step E k s fin s'" "pipe_good (snd s) L k (fst s) ts"
  shows "pipe_good (snd s') L k (fst s') ts \<and> transfer_count (fst s') = transfer_count (fst s) \<and>
    transfer_array (fst s') = transfer_array (fst s) \<and>
    next_finish (fst s') = (next_finish (fst s) + of_bool fin) mod transfer_count (fst s)"
  using assms
proof cases
  case (start p w e p' w1 w')
  with assms(2) have g: "pipe_good w L k p ts" by simp
  obtain q v where "libusbp_async_in_pipe_start_endless_transfers E (Heap k p) w = Some ((NULL, Heap k q), v)"
    "pipe_good v L k q ts" "next_finish q = next_finish p" "transfer_count q = transfer_count p"
    "transfer_array q = transfer_array p"
    using start_good [OF g, of E] by blast
  with start pipe_good_mod [OF g] show ?thesis by (simp add: libusbp_error_free_def)
next
  case (events p w e w1 w')
  with assms(2) have "pipe_good w' L k p ts" using events_good [of w L k p ts E] by auto
  with events pipe_good_mod [of w' L k p ts] show ?thesis by simp
next
  case (cancel p w e p' w1 w')
  with assms(2) have "pipe_good w' L k p' ts \<and> p' = p\<lparr>endless_transfers_enabled := False\<rparr>"
    using cancel_good [of w L k p ts E] by auto
  with cancel pipe_good_mod [of w' L k p' ts] show ?thesis by auto
next
  case (finish p buf tg eg w e p' buf' n te w1 w')
  with assms(2) show ?thesis using finish_good [of w L k p ts buf E tg eg] by auto
qed

lemma pipe_run_good:
  assumes "pipe_run E k (p, w) n s" "pipe_good w L k p ts"
  shows "pipe_good (snd s) L k (fst s) ts \<and> transfer_count (fst s) = transfer_count p \<and>
    transfer_array (fst s) = transfer_array p \<and> next_finish (fst s) = (next_finish p + n) mod transfer_count p"
  using assms(1)
proof induction
  case refl
  then show ?case using assms(2) pipe_good_mod [OF assms(2)] by simp
next
  case (step n s' fin s'')
  with pipe_step_good [of E k s' fin s'' L ts] show ?case by (simp add: mod_add_left_eq add.assoc)
qed

text \<open>A pipe whose transfers have just been allocated.\<close>

lemma async_inv_ledger: "async_inv w L \<Longrightarrow> live w = store_res (transfers w) + L"
  unfolding async_inv_def by blast

lemma pipe_inv_ledger: "pipe_inv w L k p ts \<Longrightarrow> live w = store_res (transfers w) + L"
  unfolding pipe_inv_def by (blast intro: async_inv_ledger)

lemma pipe_empty_live:
  assumes "pipe_empty w L k p"
  shows "(Mem, k) \<in># live w" "transfer_array p = NULL"
proof -
  obtain m h where p: "p = new_pipe (Heap m h) (ap_pipe_id p)" and L: "{#(Mem, k), (Mem, m)#} \<subseteq># L"
    and inv: "async_inv w L"
    using assms unfolding pipe_empty_def by blast
  show "transfer_array p = NULL" by (subst p) (simp add: new_pipe_def)
  have "(Mem, k) \<in># L" using L by (auto simp: mset_subset_eq_exists_conv)
  then show "(Mem, k) \<in># live w" by (simp add: async_inv_ledger [OF inv])
qed

lemma allocate_needs:
  assumes "pipe_empty w L k p"
    and "libusbp_async_in_pipe_allocate_transfers E (Heap k p) c n w = Some ((NULL, pipe'), w')"
  shows "c \<noteq> 0 \<and> n \<noteq> 0"
proof (rule ccontr)
  assume z: "\<not> (c \<noteq> 0 \<and> n \<noteq> 0)"
  with pipe_empty_live [OF assms(1)]
  have "runs (libusbp_async_in_pipe_allocate_transfers E (Heap k p) c n w) (\<lambda>(e, pipe') w'. e \<noteq> NULL)"
    by (auto simp: libusbp_async_in_pipe_allocate_transfers_def says_def intro!: wp)
  with assms(2) show False by simp
qed

lemma allocate_good:
  assumes "pipe_empty w L k p"
    and "libusbp_async_in_pipe_allocate_transfers E (Heap k p) c n w = Some ((NULL, Heap k p0), w0)"
  shows "\<exists>a ts. p0 = with_transfers p a ts n \<and> length ts = c \<and> made w n w0 ts \<and> c \<noteq> 0 \<and>
    pipe_good w0 (add_mset (Mem, a) L) k p0 ts \<and> next_finish p0 = 0 \<and> transfer_count p0 = c"
proof -
  have z: "c \<noteq> 0" "n \<noteq> 0" using allocate_needs [OF assms] by simp_all
  obtain m h where p: "p = new_pipe (Heap m h) (ap_pipe_id p)"
    using assms(1) unfolding pipe_empty_def by blast
  have "\<not> endless_transfers_enabled p" "next_finish p = 0" by (subst p, simp add: new_pipe_def)+
  then have "\<not> endless_transfers_enabled (with_transfers p a ts n)" "next_finish (with_transfers p a ts n) = 0"
    "transfer_count (with_transfers p a ts n) = length ts" for a ts
    by (simp_all add: with_transfers_def)
  moreover obtain a ts where "p0 = with_transfers p a ts n" "length ts = c" "made w n w0 ts"
    "pipe_inv w0 (add_mset (Mem, a) L) k (with_transfers p a ts n) ts"
    using allocate_transfers_spec [OF assms(1) z, of E] assms(2) by auto
  ultimately show ?thesis using z unfolding pipe_good_def by blast
qed

lemma pipe_reached:
  assumes "pipe_empty w L k p"
    and "libusbp_async_in_pipe_allocate_transfers E (Heap k p) c n w = Some ((NULL, Heap k p0), w0)"
    and "pipe_run E k (p0, w0) m (p', w')"
  obtains a ts where "p0 = with_transfers p a ts n" "length ts = c" "made w n w0 ts" "c \<noteq> 0"
    "pipe_good w' (add_mset (Mem, a) L) k p' ts" "next_finish p' = m mod c" "transfer_count p' = c"
    "transfer_array p' = Heap a (map Some ts)"
proof -
  obtain a ts where a: "p0 = with_transfers p a ts n" "length ts = c" "made w n w0 ts" "c \<noteq> 0"
    "pipe_good w0 (add_mset (Mem, a) L) k p0 ts" "next_finish p0 = 0" "transfer_count p0 = c"
    using allocate_good [OF assms(1,2)] by blast
  have "transfer_array p0 = Heap a (map Some ts)" using a(1) by (simp add: with_transfers_def)
  with a pipe_run_good [OF assms(3) a(5)] show ?thesis by (intro that [of a ts]) simp_all
qed

section \<open>Properties\<close>

text \<open>A pipe of one two-byte transfer on the demonstration handle.\<close>

definition demo_pipe :: linux_pipe where
  "demo_pipe = new_pipe (Heap 5 demo_handle) 0x81"

definition demo_pipe_world :: usb_world where
  "demo_pipe_world = \<lparr>next_id = 13, live = {#(Mem, 12), (Mem, 5), (FileDescriptor, 9)#},
     transfers = (\<lambda>_. None), kernel_urbs = []\<rparr>"

definition demo_transfer :: async_in_transfer where
  "demo_transfer = \<lparr>urb = \<lparr>urb_type = 3, endpoint = 0x81, status = 0, buffer = Heap 15 [0, 0],
     buffer_length = 2, actual_length = 0, error_count = 0, usercontext = Some 14\<rparr>,
     pending = False, t_error = NULL, t_fd = Some 9\<rparr>"

definition demo_ring :: linux_pipe where
  "demo_ring = with_transfers demo_pipe 13 [14] 2"

definition demo_idle_world :: usb_world where
  "demo_idle_world = \<lparr>next_id = 16, live = {#(Mem, 15), (Mem, 14), (Mem, 13), (Mem, 12), (Mem, 5),
     (FileDescriptor, 9)#}, transfers = [14 \<mapsto> demo_transfer], kernel_urbs = []\<rparr>"

lemma demo_pipe_empty: "pipe_empty demo_pipe_world {#(Mem, 12), (Mem, 5), (FileDescriptor, 9)#} 12 demo_pipe"
  by (auto simp: pipe_empty_def demo_pipe_world_def demo_pipe_def async_inv_def store_res_def
      new_pipe_def pipe_in_def)

lemma demo_allocate:
  "libusbp_async_in_pipe_allocate_transfers demo_system (Heap 12 demo_pipe) 1 2 demo_pipe_world =
     Some ((NULL, Heap 12 demo_ring), demo_idle_world)"
  by (simp add: libusbp_async_in_pipe_allocate_transfers_def demo_pipe_def new_pipe_def demo_pipe_world_def
      calloc_array_def SIZE_MAX_def malloc_def take_res_def create_loop.simps One_nat_def
      async_in_transfer_create_def INT_MAX_def libusbp_generic_handle_get_fd_def put_transfer_def
      array_set_def async_in_transfer_array_free_def demo_ring_def demo_idle_world_def demo_transfer_def
      with_transfers_def demo_system_def plenty_system_def libudev.defs usb_system.defs upt_rec)

text \<open>The transfer under way, and completed with two bytes.\<close>

definition demo_busy :: linux_pipe where
  "demo_busy = demo_ring\<lparr>endless_transfers_enabled := True, pending_count := 1\<rparr>"

definition demo_busy_world :: usb_world where
  "demo_busy_world = demo_idle_world\<lparr>next_id := 17, kernel_urbs := [(9, 14)],
     transfers := [14 \<mapsto> demo_transfer\<lparr>pending := True\<rparr>]\<rparr>"

definition demo_completed :: async_in_transfer where
  "demo_completed = demo_transfer\<lparr>urb := (urb demo_transfer)\<lparr>actual_length := 2, buffer := Heap 15 [1, 2]\<rparr>\<rparr>"

definition demo_done_world :: usb_world where
  "demo_done_world = demo_idle_world\<lparr>next_id := 19, transfers := [14 \<mapsto> demo_completed]\<rparr>"

lemmas demo_defs = demo_busy_def demo_busy_world_def demo_ring_def demo_idle_world_def demo_transfer_def
  demo_pipe_def new_pipe_def with_transfers_def demo_completed_def demo_done_world_def

lemma demo_ioctls [simp]:
  "ioctl_submiturb demo_system n f u = 0" "ioctl_reapurbndelay demo_system n f = Reap_urb 0 0 2 0 [1, 2]"
  by (simp_all add: demo_system_def)

lemma demo_start:
  "libusbp_async_in_pipe_start_endless_transfers demo_system (Heap 12 demo_ring) demo_idle_world =
     Some ((NULL, Heap 12 demo_busy), demo_busy_world)"
proof -
  let ?p = "demo_ring\<lparr>endless_transfers_enabled := True\<rparr>"
  have submit: "async_in_pipe_submit_next_transfer demo_system (Heap 12 ?p) demo_idle_world =
      Some (Heap 12 demo_busy, demo_busy_world)"
    by (simp add: async_in_pipe_submit_next_transfer_def demo_defs array_get_def async_in_transfer_submit_def
        get_transfer_def libusbp_error_free_def put_transfer_def usbfd_submit_urb_def fd_open_def Let_def
        tick_def ring_submit_def size_inc_def increment_and_wrap_size_def)
  have d: "deref (Heap 12 ?p) demo_idle_world = Some ?p" "deref (Heap 12 demo_busy) demo_busy_world = Some demo_busy"
    by (simp_all add: demo_busy_world_def demo_idle_world_def)
  have c: "pending_count ?p < transfer_count ?p" "\<not> pending_count demo_busy < transfer_count demo_busy"
    by (simp_all add: demo_defs)
  have "start_loop demo_system (Heap 12 demo_busy) demo_busy_world = Some (Heap 12 demo_busy, demo_busy_world)"
    using d c by (subst start_loop.simps) simp
  then have "start_loop demo_system (Heap 12 ?p) demo_idle_world = Some (Heap 12 demo_busy, demo_busy_world)"
    using d c submit by (subst start_loop.simps) simp
  then show ?thesis
    by (simp add: libusbp_async_in_pipe_start_endless_transfers_def) (simp add: demo_defs)
qed

lemma demo_events:
  "libusbp_async_in_pipe_handle_events demo_system (Heap 12 demo_busy) demo_busy_world =
     Some (NULL, demo_done_world)"
proof -
  let ?w = "demo_done_world\<lparr>next_id := 18\<rparr>"
  have r: "usbfd_reap_urb demo_system (Some 9) demo_busy_world = Some ((NULL, Some 14),
      demo_busy_world\<lparr>next_id := 18, kernel_urbs := [], transfers := [14 \<mapsto> demo_completed\<lparr>pending := True\<rparr>]\<rparr>)"
    "usbfd_reap_urb demo_system (Some 9) ?w = Some ((NULL, None), demo_done_world)"
    by (simp_all add: usbfd_reap_urb_def reap_fd_def fd_open_def demo_defs get_transfer_def put_transfer_def
        Let_def tick_def)
  have h: "handle_completed_urb demo_system 14 (demo_busy_world\<lparr>next_id := 18, kernel_urbs := [],
      transfers := [14 \<mapsto> demo_completed\<lparr>pending := True\<rparr>]\<rparr>) = Some (NULL, ?w)"
    by (simp add: handle_completed_urb_def get_transfer_def demo_defs async_in_transfer_handle_completion_def
        completion_error_def error_from_urb_status_def put_transfer_def)
  have d: "deref (Heap 5 demo_handle) demo_busy_world = Some demo_handle"
    "deref (Heap 5 demo_handle) ?w = Some demo_handle" "deref (Heap 12 demo_busy) demo_busy_world = Some demo_busy"
    "ap_handle demo_busy = Heap 5 demo_handle"
    by (simp_all add: demo_defs)
  have "events_loop demo_system (Heap 5 demo_handle) ?w = Some (NULL, demo_done_world)"
    using d r by (subst events_loop.simps) simp
  then have "events_loop demo_system (Heap 5 demo_handle) demo_busy_world = Some (NULL, demo_done_world)"
    using d r h by (subst events_loop.simps) simp
  then show ?thesis using d by (simp add: libusbp_async_in_pipe_handle_events_def generic_handle_events_def)
qed

lemma demo_run: "pipe_run demo_system 12 (demo_ring, demo_idle_world) 0 (demo_busy, demo_done_world)"
proof -
  have "pipe_step demo_system 12 (demo_ring, demo_idle_world) False (demo_busy, demo_busy_world)"
    by (rule pipe_step.start [OF demo_start]) (simp add: libusbp_error_free_def)
  then have "pipe_run demo_system 12 (demo_ring, demo_idle_world) 0 (demo_busy, demo_busy_world)"
    using pipe_run.step [OF pipe_run.refl] by fastforce
  moreover have "pipe_step demo_system 12 (demo_busy, demo_busy_world) False (demo_busy, demo_done_world)"
    by (rule pipe_step.events [OF demo_events]) (simp add: libusbp_error_free_def)
  ultimately show ?thesis using pipe_run.step by fastforce
qed

lemma finish_plain:
  assumes inv: "pipe_inv w L k p ts" and n: "0 < pending_count p"
    and x: "transfers w (ts ! next_finish p) = Some x" "\<not> pending x"
    and e: "\<not> endless_transfers_enabled p"
  shows "libusbp_async_in_pipe_handle_finished_transfer E (Heap k p) True None False False w =
    Some ((NULL, Heap k (ring_finish p), True, None, 0, NULL), w)"
proof -
  have a: "async_inv w L" "next_finish p < length ts" using inv by (auto simp: pipe_inv_def ring_ok_def)
  have pend: "async_in_transfer_pending (Some (ts ! next_finish p)) w = Some False"
    using async_in_transfer_pending_ok [OF a(1) x(1)] x(2) by simp
  have "async_in_transfer_get_results E (Some (ts ! next_finish p)) None False False w =
      Some ((NULL, None, 0, NULL), w)"
    using async_inv_split(2) [OF a(1) x(1)] x(2) by (simp add: async_in_transfer_get_results_def Let_def)
  then show ?thesis
    using n a(2) pend e pipe_inv_live [OF inv]
    by (simp add: libusbp_async_in_pipe_handle_finished_transfer_def)
qed

text \<open>A program's loop over the finished transfers: \<open>n\<close> calls.\<close>

fun finish_times :: "'e usb_system_scheme \<Rightarrow> nat \<Rightarrow> async_in_pipe \<Rightarrow> 'w usb_world_scheme
    \<Rightarrow> (async_in_pipe \<times> 'w usb_world_scheme) option" where
  "finish_times E 0 pipe w = Some (pipe, w)"
| "finish_times E (Suc n) pipe w = do {
     ((error, pipe, r), w) \<leftarrow>
       libusbp_async_in_pipe_handle_finished_transfer E pipe True None False False w;
     finish_times E n pipe w
   }"

lemma finish_times_drains:
  assumes "pipe_inv w L k p ts" "\<not> endless_transfers_enabled p"
    and "\<forall>t \<in> set ts. \<forall>x. transfers w t = Some x \<longrightarrow> \<not> pending x"
  shows "\<exists>p'. finish_times E (pending_count p) (Heap k p) w = Some (Heap k p', w) \<and>
    pipe_inv w L k p' ts \<and> pending_count p' = 0"
  using assms(1,2)
proof (induction "pending_count p" arbitrary: p)
  case 0
  then show ?case by (metis finish_times.simps(1))
next
  case (Suc n)
  have ok: "ring_ok p" and len: "length ts = transfer_count p" using Suc.prems(1) by (auto simp: pipe_inv_def)
  have n: "0 < pending_count p" using Suc.hyps(2) by simp
  obtain x where x: "transfers w (ts ! next_finish p) = Some x"
    using Suc.prems(1) ok unfolding pipe_inv_def ring_ok_def by blast
  have "\<not> pending x" using assms(3) x ok len by (auto simp: ring_ok_def)
  note f = finish_plain [OF Suc.prems(1) n x this Suc.prems(2), of E]
    and inv = pipe_inv_finish [OF Suc.prems(1) n x this]
  have c: "n = pending_count (ring_finish p)" using Suc.hyps(2) by (simp add: ring_finish_def)
  from Suc.hyps(1) [OF c inv] Suc.prems(2) obtain p' where
    "finish_times E n (Heap k (ring_finish p)) w = Some (Heap k p', w)" "pipe_inv w L k p' ts" "pending_count p' = 0"
    using c by auto
  then show ?case by (simp flip: Suc.hyps(2) add: f)
qed

lemma pipe_good_close:
  assumes "pipe_good w (add_mset (Mem, a) L) k p ts" "transfer_array p = Heap a (map Some ts)"
  shows "\<exists>w'. libusbp_async_in_pipe_close (Heap k p) w = Some w' \<and> async_inv w' (L - {#(Mem, k)#}) \<and>
    kernel_urbs w' = kernel_urbs w \<and> transfers w' = left_by_free w (map Some ts)"
proof -
  have "pipe_inv w (add_mset (Mem, a) L) k p ts" using assms(1) by (simp add: pipe_good_def)
  from pipe_close_ok [OF this] assms(2) show ?thesis by (simp add: add_mset_commute)
qed

text \<open>
  C3: No call on a pipe faults, fails an assertion or loops forever.  Whatever a program has done
  with a pipe since its transfers were allocated, and whatever the kernel answered, starting
  transfers, handling events (a loop without a bound of its own), asking for a finished transfer
  with a large enough buffer, cancelling and closing all return.
\<close>

theorem pipe_calls_return:
  assumes "pipe_empty w L k p"
    and "libusbp_async_in_pipe_allocate_transfers E (Heap k p) c n w = Some ((NULL, Heap k p0), w0)"
    and "pipe_run E k (p0, w0) m (p', w')"
    and "\<forall>dest. buf = Some dest \<longrightarrow> transfer_size p' \<le> length dest"
  shows "libusbp_async_in_pipe_start_endless_transfers E (Heap k p') w' \<noteq> None \<and>
    libusbp_async_in_pipe_handle_events E (Heap k p') w' \<noteq> None \<and>
    libusbp_async_in_pipe_handle_finished_transfer E (Heap k p') True buf tg eg w' \<noteq> None \<and>
    libusbp_async_in_pipe_cancel_transfers E (Heap k p') w' \<noteq> None \<and>
    libusbp_async_in_pipe_close (Heap k p') w' \<noteq> None"
proof -
  obtain a ts where g: "pipe_good w' (add_mset (Mem, a) L) k p' ts" and a: "transfer_array p' = Heap a (map Some ts)"
    by (rule pipe_reached [OF assms(1-3)])
  show ?thesis
    using start_good [OF g, of E] events_good [OF g, of E] finish_good [OF g assms(4), of E tg eg]
      cancel_good [OF g, of E] pipe_good_close [OF g a] by force
qed

theorem pipe_calls_return_witness:
  "libusbp_async_in_pipe_handle_events demo_system (Heap 12 demo_busy) demo_done_world \<noteq> None \<and>
   libusbp_async_in_pipe_handle_finished_transfer demo_system (Heap 12 demo_busy) True (Some [0, 0]) True True
     demo_done_world \<noteq> None"
  using pipe_calls_return [OF demo_pipe_empty demo_allocate demo_run, of "Some [0, 0]" True True]
  by (simp add: demo_defs)

text \<open>
  C2: Transfers are handed out in the order in which they were submitted: whatever happened in
  between, the finished transfer number \<open>m\<close> (from 0) is the one in the array's slot \<open>m mod count\<close>,
  it is not with the kernel, and the call delivers its bytes, its length cut to the transfer size,
  and a copy of its error.
\<close>

theorem pipe_finishes_in_order:
  assumes "pipe_empty w L k p"
    and "libusbp_async_in_pipe_allocate_transfers E (Heap k p) c n w = Some ((NULL, Heap k p0), w0)"
    and "pipe_run E k (p0, w0) m (p', w')"
    and "\<forall>dest. buf = Some dest \<longrightarrow> transfer_size p' \<le> length dest"
    and "libusbp_async_in_pipe_handle_finished_transfer E (Heap k p') True buf tg eg w' =
      Some ((e, pipe, True, buf', len, te), w'')"
  shows "\<exists>t x. contents [] (transfer_array p0) ! (m mod c) = Some t \<and> transfers w' t = Some x \<and>
    \<not> pending x \<and> e = NULL \<and> finish_result E x True buf tg eg (True, buf', len, te)"
proof -
  obtain a ts where p0: "p0 = with_transfers p a ts n" "length ts = c" "c \<noteq> 0"
    and g: "pipe_good w' (add_mset (Mem, a) L) k p' ts" and nf: "next_finish p' = m mod c"
    by (rule pipe_reached [OF assms(1-3)])
  have "contents [] (transfer_array p0) ! (m mod c) = Some (ts ! (m mod c))"
    using p0 by (simp add: with_transfers_def)
  with finish_good [OF g assms(4), of E tg eg] assms(5) nf show ?thesis by force
qed

theorem pipe_finishes_in_order_witness:
  "\<exists>t x. contents [] (transfer_array demo_ring) ! 0 = Some t \<and> transfers demo_done_world t = Some x \<and>
     finish_result demo_system x True (Some [0, 0]) True False (True, Some [1, 2], 2, NULL)"
proof -
  have "\<exists>pipe w''. libusbp_async_in_pipe_handle_finished_transfer demo_system (Heap 12 demo_busy) True (Some [0, 0]) True
      False demo_done_world = Some ((NULL, pipe, True, Some [1, 2], 2, NULL), w'')"
    by (simp add: libusbp_async_in_pipe_handle_finished_transfer_def demo_defs array_get_def get_transfer_def
        async_in_transfer_pending_def async_in_transfer_get_results_def Let_def ring_finish_def
        async_in_pipe_submit_next_transfer_def async_in_transfer_submit_def libusbp_error_free_def
        put_transfer_def usbfd_submit_urb_def fd_open_def tick_def increment_and_wrap_size_def size_inc_def)
  then show ?thesis
    using pipe_finishes_in_order [OF demo_pipe_empty demo_allocate demo_run, of "Some [0, 0]" True False]
    by (fastforce simp: demo_defs)
qed

text \<open>
  C4: In every state a run reaches, the counts and indices of the ring are in range, the array holds
  as many transfers as the count says, and while endless transfers are enabled every transfer of
  the pipe is under way or waiting to be handed out, so the pipe never runs dry.
\<close>

theorem pipe_ring_invariant:
  assumes "pipe_empty w L k p"
    and "libusbp_async_in_pipe_allocate_transfers E (Heap k p) c n w = Some ((NULL, Heap k p0), w0)"
    and "pipe_run E k (p0, w0) m (p', w')"
  shows "pending_count p' \<le> c \<and> next_finish p' < c \<and> next_submit p' = (next_finish p' + pending_count p') mod c \<and>
    length (contents [] (transfer_array p')) = c \<and>
    (endless_transfers_enabled p' \<longrightarrow> pending_count p' = c)"
proof -
  obtain a ts where "length ts = c" "pipe_good w' (add_mset (Mem, a) L) k p' ts" "transfer_count p' = c"
    "transfer_array p' = Heap a (map Some ts)"
    by (rule pipe_reached [OF assms])
  then show ?thesis by (auto simp: pipe_good_def pipe_inv_def ring_ok_def)
qed

theorem pipe_ring_invariant_witness:
  "endless_transfers_enabled demo_busy \<and> pending_count demo_busy = 1 \<and> next_finish demo_busy < 1"
  using pipe_ring_invariant [OF demo_pipe_empty demo_allocate demo_run] by (simp add: demo_defs)

text \<open>
  C1: Closing a pipe never frees memory that the kernel will write to.  In every state a run
  reaches, closing gives back the pipe, its array and each of its transfers that the kernel does
  not hold; a transfer the kernel holds stays allocated with its buffer; nothing else changes.
\<close>

theorem pipe_close_kernel_safe:
  assumes "pipe_empty w L k p"
    and "libusbp_async_in_pipe_allocate_transfers E (Heap k p) c n w = Some ((NULL, Heap k p0), w0)"
    and "pipe_run E k (p0, w0) m (p', w')"
  shows "\<exists>w''. libusbp_async_in_pipe_close (Heap k p') w' = Some w'' \<and> kernel_urbs w'' = kernel_urbs w' \<and>
    live w'' = store_res (transfers w'') + (L - {#(Mem, k)#}) \<and>
    (\<forall>t. transfers w'' t = (if Some t \<in> set (contents [] (transfer_array p0)) \<and> t \<notin> snd ` set (kernel_urbs w')
       then None else transfers w' t)) \<and>
    (\<forall>t \<in> snd ` set (kernel_urbs w''). \<exists>x. transfers w'' t = Some x \<and> trans_res t x \<subseteq># live w'')"
proof -
  obtain a ts where p0: "p0 = with_transfers p a ts n"
    and g: "pipe_good w' (add_mset (Mem, a) L) k p' ts" and a: "transfer_array p' = Heap a (map Some ts)"
    by (rule pipe_reached [OF assms])
  obtain w'' where w'': "libusbp_async_in_pipe_close (Heap k p') w' = Some w''" "async_inv w'' (L - {#(Mem, k)#})"
    "kernel_urbs w'' = kernel_urbs w'" "transfers w'' = left_by_free w' (map Some ts)"
    using pipe_good_close [OF g a] by blast
  have inv: "async_inv w' (add_mset (Mem, a) L)" using g by (simp add: pipe_good_def pipe_inv_def)
  have held: "pending x \<longleftrightarrow> t \<in> snd ` set (kernel_urbs w')" if "transfers w' t = Some x" for t x
    using async_inv_split(3,4) [OF inv that] by (force simp: wf_transfer_def image_iff)
  have "transfers w'' t = (if Some t \<in> set (contents [] (transfer_array p0)) \<and> t \<notin> snd ` set (kernel_urbs w')
      then None else transfers w' t)" for t
    using held [of t] by (auto simp: w''(4) left_by_free_def p0 with_transfers_def split: option.splits)
  moreover have "\<exists>x. transfers w'' t = Some x \<and> trans_res t x \<subseteq># live w''" if "t \<in> snd ` set (kernel_urbs w'')" for t
  proof -
    have "t \<in> dom (transfers w'')" using that w''(2) unfolding async_inv_def by blast
    then obtain x where x: "transfers w'' t = Some x" by blast
    with async_inv_split(1) [OF w''(2) x] show ?thesis by simp
  qed
  moreover have "live w'' = store_res (transfers w'') + (L - {#(Mem, k)#})"
    using w''(2) unfolding async_inv_def by blast
  ultimately show ?thesis using w''(1,3) by blast
qed

theorem pipe_close_kernel_safe_witness:
  "\<exists>w''. libusbp_async_in_pipe_close (Heap 12 demo_busy) demo_done_world = Some w'' \<and> kernel_urbs w'' = [] \<and>
     transfers w'' 14 = None"
  using pipe_close_kernel_safe [OF demo_pipe_empty demo_allocate demo_run]
  by (fastforce simp: demo_defs)


lemma demo_cancel:
  "libusbp_async_in_pipe_cancel_transfers demo_system (Heap 12 demo_busy) demo_done_world =
     Some ((NULL, Heap 12 (demo_busy\<lparr>endless_transfers_enabled := False\<rparr>)), demo_done_world\<lparr>next_id := 20\<rparr>)"
  by (simp add: libusbp_async_in_pipe_cancel_transfers_def demo_defs array_get_def
      async_in_transfer_cancel_def get_transfer_def usbfd_discard_urb_def fd_open_def demo_system_def
      plenty_system_def libudev.defs usb_system.defs tick_def Let_def)


lemma async_in_pipe_create_memory:
  assumes "handle \<noteq> NULL" "memory_ok E"
  shows "runs (async_in_pipe_create async_in_pipe_setup E handle pipe_id True w) (\<lambda>(e, pipe) w'.
    (e = NULL \<longleftrightarrow> pipe_in pipe_id) \<and>
    (pipe_out pipe_id \<longrightarrow> err_text e = ''Asynchronous pipes for OUT endpoints are not supported.''))"
  by (rule linux_pipes.create_succeeds) (use assms in \<open>simp_all add: async_in_pipe_setup_def\<close>)

text \<open>
  Opening an asynchronous pipe on a handle gives a pipe without transfers for an IN endpoint and
  an error otherwise, an OUT endpoint included; it owns one block, and a failure leaks nothing.
\<close>

theorem open_async_in_pipe_correct:
  assumes "handle \<noteq> NULL"
  shows "runs (libusbp_generic_handle_open_async_in_pipe E handle pipe_id True w) (\<lambda>(e, pipe) w'.
    (if e = NULL
     then \<exists>k. pipe = Heap k (new_pipe handle pipe_id) \<and> pipe_in pipe_id \<and> live w' = add_mset (Mem, k) (live w)
     else pipe = NULL \<and> live w' = live w + err_res e) \<and>
    (memory_ok E \<longrightarrow> (e = NULL \<longleftrightarrow> pipe_in pipe_id) \<and>
      (pipe_out pipe_id \<longrightarrow> err_text e = ''Asynchronous pipes for OUT endpoints are not supported.'')))"
  unfolding libusbp_generic_handle_open_async_in_pipe_def
  by (rule runs_both [OF async_in_pipe_create_gives [OF assms] async_in_pipe_create_memory [OF assms]])
    (auto simp: gives_def split: if_splits)

theorem open_async_in_pipe_correct_witness:
  "runs (libusbp_generic_handle_open_async_in_pipe demo_system (Heap 5 demo_handle) 0x01 True demo_pipe_world)
     (\<lambda>(e, pipe) w'. pipe = NULL \<and> err_text e = ''Asynchronous pipes for OUT endpoints are not supported.'')"
proof -
  have "pipe_out (1 :: 8 word)" "\<not> pipe_in (1 :: 8 word)" "memory_ok demo_system"
    by (simp_all add: pipe_out_def pipe_in_def memory_ok_def demo_system_def)
  then show ?thesis
    by (intro runs_mono [OF open_async_in_pipe_correct]) auto
qed

lemma allocate_transfers_outcome:
  assumes pipe: "pipe_empty w L k p"
  shows "runs (libusbp_async_in_pipe_allocate_transfers E (Heap k p) c n w) (\<lambda>(e, pipe') w'.
    kernel_urbs w' = kernel_urbs w \<and>
    (if e = NULL
     then c \<noteq> 0 \<and> n \<noteq> 0 \<and> (\<exists>a ts. pipe' = Heap k (with_transfers p a ts n) \<and> length ts = c \<and>
       made w n w' ts \<and> live w' = store_res (transfers w') + add_mset (Mem, a) L)
     else pipe' = Heap k p \<and> live w' = live w + err_res e \<and> transfers w' = transfers w))"
proof (cases "c \<noteq> 0 \<and> n \<noteq> 0")
  case True
  have l: "live w = store_res (transfers w) + L" using pipe unfolding pipe_empty_def async_inv_def by blast
  from True allocate_transfers_spec [OF pipe, of c n E] show ?thesis
    by (force simp: l dest: pipe_inv_ledger async_inv_ledger elim!: runs_mono)
next
  case False
  with pipe_empty_live [OF pipe] show ?thesis
    by (auto simp: libusbp_async_in_pipe_allocate_transfers_def says_def dest: later_usb intro!: wp)
qed

text \<open>
  C6: Allocating the transfers of a new pipe is all or nothing.  On success the pipe has exactly
  \<open>count\<close> different idle transfers, none of which existed before, each with a buffer of the
  transfer size; on failure, wherever it happens, the pipe is as before and all that was made is
  given back.  A count or size of zero is an error.
\<close>

theorem allocate_transfers_all_or_nothing:
  assumes pipe: "pipe_empty w L k p"
  shows "runs (libusbp_async_in_pipe_allocate_transfers E (Heap k p) c n w) (\<lambda>(e, pipe') w'.
    kernel_urbs w' = kernel_urbs w \<and>
    (if e = NULL
     then c \<noteq> 0 \<and> n \<noteq> 0 \<and> (\<exists>a ts. pipe' = Heap k (with_transfers p a ts n) \<and> length ts = c \<and>
       made w n w' ts \<and> live w' = store_res (transfers w') + add_mset (Mem, a) L)
     else pipe' = Heap k p \<and> live w' = live w + err_res e \<and> transfers w' = transfers w))"
  using allocate_transfers_outcome [OF pipe] .

theorem allocate_transfers_all_or_nothing_witness:
  "\<exists>a ts. demo_ring = with_transfers demo_pipe a ts 2 \<and> length ts = 1 \<and> made demo_pipe_world 2 demo_idle_world ts"
  using allocate_transfers_all_or_nothing [OF demo_pipe_empty, of demo_system 1 2]
  unfolding demo_allocate runs_Some by auto

lemma pipe_empty_close:
  assumes "pipe_empty w L k p"
  shows "libusbp_async_in_pipe_close (Heap k p) w = Some (drop_res {#(Mem, k)#} w)"
  using pipe_empty_live [OF assms] by (simp add: libusbp_async_in_pipe_close_def async_in_transfer_array_free_def)

lemma open_pipe_empty:
  assumes "async_inv w L" "(Mem, m) \<in># L"
    and "libusbp_generic_handle_open_async_in_pipe E (Heap m h) pid True w = Some ((NULL, pipe), w1)"
  shows "\<exists>k p. pipe = Heap k p \<and> pipe_empty w1 (add_mset (Mem, k) L) k p \<and> transfers w1 = transfers w"
proof -
  have "gives blk NULL (\<lambda>pipe. \<exists>k. pipe = Heap k (new_pipe (Heap m h) pid) \<and> pipe_in pid) (\<lambda>_. True) w
      (NULL, pipe) w1"
    using async_in_pipe_create_gives [of "Heap m h" E pid w] assms(3)
    by (simp add: libusbp_generic_handle_open_async_in_pipe_def)
  then obtain k where k: "pipe = Heap k (new_pipe (Heap m h) pid)" "pipe_in pid" "later w w1"
    "live w1 = live w + {#(Mem, k)#}"
    by auto
  have "async_inv w1 (add_mset (Mem, k) L)" using async_inv_keep [OF assms(1) k(3,4)] by simp
  moreover have "{#(Mem, k), (Mem, m)#} \<subseteq># add_mset (Mem, k) L" using assms(2) by simp
  ultimately have "pipe_empty w1 (add_mset (Mem, k) L) k (new_pipe (Heap m h) pid)"
    using k(2) unfolding pipe_empty_def by (auto simp: new_pipe_def)
  then show ?thesis using k(1) later_usb [OF k(3)] by auto
qed

lemma made_close:
  assumes "pipe_good w' (add_mset (Mem, a) L) k p ts" "transfer_array p = Heap a (map Some ts)" "made w n w' ts"
  shows "\<exists>w''. libusbp_async_in_pipe_close (Heap k p) w' = Some w'' \<and> async_inv w'' (L - {#(Mem, k)#}) \<and>
    transfers w'' = transfers w"
proof -
  obtain w'' where w'': "libusbp_async_in_pipe_close (Heap k p) w' = Some w''" "async_inv w'' (L - {#(Mem, k)#})"
    "transfers w'' = left_by_free w' (map Some ts)"
    using pipe_good_close [OF assms(1,2)] by blast
  have "left_by_free w' (map Some ts) t = transfers w t" for t
    using madeD [OF assms(3), of t]
    by (cases "t \<in> set ts") (auto simp: left_by_free_def split: option.splits)
  then show ?thesis using w'' by auto
qed

text \<open>
  Opening a pipe, allocating its transfers and closing it brings the ledger and the transfers
  back to what they were, apart from the errors the calls returned, whichever of them fails.
\<close>

theorem pipe_open_allocate_close:
  assumes inv: "async_inv w L" and m: "(Mem, m) \<in># L"
  shows "runs (do {
      ((e, pipe), w) \<leftarrow> libusbp_generic_handle_open_async_in_pipe E (Heap m h) pid True w;
      ((e', pipe), w) \<leftarrow> (if e = NULL then libusbp_async_in_pipe_allocate_transfers E pipe c n w
        else Some ((NULL, pipe), w));
      w \<leftarrow> libusbp_async_in_pipe_close pipe w;
      Some ((e, e'), w)
    }) (\<lambda>(e, e') w'. live w' = live w + err_res e + err_res e' \<and> transfers w' = transfers w)"
proof -
  obtain e pipe w1 where o: "libusbp_generic_handle_open_async_in_pipe E (Heap m h) pid True w = Some ((e, pipe), w1)"
    and g: "gives blk NULL (\<lambda>pipe. \<exists>k. pipe = Heap k (new_pipe (Heap m h) pid) \<and> pipe_in pid) (\<lambda>_. True) w
      (e, pipe) w1"
    using runsD [OF async_in_pipe_create_gives [of "Heap m h" E pid w]]
    by (auto simp: libusbp_generic_handle_open_async_in_pipe_def)
  show ?thesis
  proof (cases "e = NULL")
    case False
    with g o show ?thesis by (auto simp: libusbp_async_in_pipe_close_def gives_def dest: later_usb)
  next
    case True
    from open_pipe_empty [OF inv m] o True obtain k p where
      p: "pipe = Heap k p" "pipe_empty w1 (add_mset (Mem, k) L) k p" "transfers w1 = transfers w"
      by blast
    obtain e' pipe' w2 where a: "libusbp_async_in_pipe_allocate_transfers E (Heap k p) c n w1 = Some ((e', pipe'), w2)"
      and post: "e' \<noteq> NULL \<Longrightarrow> pipe' = Heap k p \<and> live w2 = live w1 + err_res e' \<and> transfers w2 = transfers w1"
        "e' = NULL \<Longrightarrow> \<exists>p'. pipe' = Heap k p'"
      using runsD [OF allocate_transfers_outcome [OF p(2), of E c n]] by fastforce
    have "\<exists>w3. libusbp_async_in_pipe_close pipe' w2 = Some w3 \<and> live w3 = live w + err_res e' \<and> transfers w3 = transfers w"
    proof (cases "e' = NULL")
      case True
      then obtain p' where p': "pipe' = Heap k p'" using post by blast
      from allocate_good [OF p(2)] a True p' obtain b ts where
        "p' = with_transfers p b ts n" "made w1 n w2 ts" "pipe_good w2 (add_mset (Mem, b) (add_mset (Mem, k) L)) k p' ts"
        by blast
      with made_close [of w2 b "add_mset (Mem, k) L" k p' ts w1 n] obtain w3 where
        "libusbp_async_in_pipe_close (Heap k p') w2 = Some w3" "async_inv w3 L" "transfers w3 = transfers w1"
        by (auto simp: with_transfers_def)
      with True p' p(3) show ?thesis using async_inv_ledger [OF inv] async_inv_ledger [of w3 L] by simp
    next
      case False
      with post have w2: "pipe' = Heap k p" "live w2 = live w1 + err_res e'" "transfers w2 = transfers w1" by auto
      have "live w1 = add_mset (Mem, k) (live w)"
        using p(2,3) async_inv_ledger [OF inv] by (simp add: pipe_empty_def async_inv_def)
      then show ?thesis
        using w2 p(3) pipe_empty_live(2) [OF p(2)]
        by (simp add: libusbp_async_in_pipe_close_def async_in_transfer_array_free_def)
    qed
    then show ?thesis using o True p(1) a by auto
  qed
qed

theorem pipe_open_allocate_close_witness:
  "runs (do {
      ((e, pipe), w) \<leftarrow> libusbp_generic_handle_open_async_in_pipe demo_system (Heap 5 demo_handle) 0x81 True
        demo_pipe_world;
      ((e', pipe), w) \<leftarrow> (if e = NULL then libusbp_async_in_pipe_allocate_transfers demo_system pipe 3 64 w
        else Some ((NULL, pipe), w));
      w \<leftarrow> libusbp_async_in_pipe_close pipe w;
      Some ((e, e'), w)
    }) (\<lambda>(e, e') w'. live w' = live demo_pipe_world + err_res e + err_res e' \<and> transfers w' = (\<lambda>_. None))"
proof -
  have "async_inv demo_pipe_world {#(Mem, 12), (Mem, 5), (FileDescriptor, 9)#}"
    using demo_pipe_empty by (simp add: pipe_empty_def)
  then show ?thesis
    by (rule runs_mono [OF pipe_open_allocate_close]) (auto simp: demo_pipe_world_def)
qed

lemma demo_good:
  "pipe_good demo_done_world {#(Mem, 13), (Mem, 12), (Mem, 5), (FileDescriptor, 9)#} 12 demo_busy [14]"
  "pipe_good demo_busy_world {#(Mem, 13), (Mem, 12), (Mem, 5), (FileDescriptor, 9)#} 12 demo_busy [14]"
proof -
  obtain a ts where a: "demo_ring = with_transfers demo_pipe a ts 2"
    "pipe_good demo_idle_world (add_mset (Mem, a) {#(Mem, 12), (Mem, 5), (FileDescriptor, 9)#}) 12 demo_ring ts"
    using allocate_good [OF demo_pipe_empty demo_allocate] by blast
  then have "a = 13" "ts = [14]" by (auto simp: demo_ring_def with_transfers_def demo_pipe_def new_pipe_def)
  with a(2) have g: "pipe_good demo_idle_world {#(Mem, 13), (Mem, 12), (Mem, 5), (FileDescriptor, 9)#} 12 demo_ring [14]"
    by simp
  show "pipe_good demo_done_world {#(Mem, 13), (Mem, 12), (Mem, 5), (FileDescriptor, 9)#} 12 demo_busy [14]"
    using pipe_run_good [OF demo_run g] by simp
  show "pipe_good demo_busy_world {#(Mem, 13), (Mem, 12), (Mem, 5), (FileDescriptor, 9)#} 12 demo_busy [14]"
    using start_good [OF g, of demo_system] demo_start by auto
qed

lemmas demo_async = demo_good [unfolded pipe_good_def pipe_inv_def, THEN conjunct1, THEN conjunct1]

text \<open>
  Handling the events of a handle ends, although its loop has no bound: every round takes a
  request block from the kernel.  It keeps the invariant that ties the pending flags to what the
  kernel holds, takes only blocks away from the kernel, and leaves a transfer that was not pending
  as it was.
\<close>

theorem handle_events_returns:
  assumes "async_inv w L" "(Mem, k) \<in># L"
  shows "\<exists>e w'. generic_handle_events E (Heap k h) w = Some (e, w') \<and> async_inv w' (L + err_res e) \<and>
    set (kernel_urbs w') \<subseteq> set (kernel_urbs w) \<and>
    (\<forall>t x. transfers w t = Some x \<longrightarrow> \<not> pending x \<longrightarrow> transfers w' t = Some x)"
  using runsD [OF generic_handle_events_spec [OF assms, of E h]] unfolding completes_def by fastforce

theorem handle_events_returns_witness:
  "\<exists>e w'. generic_handle_events demo_system (Heap 5 demo_handle) demo_busy_world = Some (e, w') \<and>
     set (kernel_urbs w') \<subseteq> {(9, 14)}"
  using handle_events_returns [OF demo_async(2), of 5 demo_system demo_handle]
  by (auto simp: demo_busy_world_def)

text \<open>
  Submitting an idle transfer either hands it to the kernel, once, or leaves it idle with an
  error; whichever happens the transfer's old error is freed and the invariant holds.
\<close>

theorem transfer_submit_correct:
  assumes "async_inv w L" "transfers w t = Some x" "\<not> pending x"
  shows "\<exists>w' x'. async_in_transfer_submit E (Some t) w = Some w' \<and> async_inv w' L \<and>
    transfers w' = (transfers w)(t \<mapsto> x') \<and>
    (if pending x' then \<exists>f. t_fd x = Some f \<and> kernel_urbs w' = kernel_urbs w @ [(f, t)]
     else t_error x' \<noteq> NULL \<and> kernel_urbs w' = kernel_urbs w)"
  using async_in_transfer_submit_ok [OF assms, of E] by blast

theorem transfer_submit_correct_witness:
  "\<exists>w'. async_in_transfer_submit demo_system (Some 14) demo_done_world = Some w'"
  using transfer_submit_correct [OF demo_async(1), of 14 demo_completed demo_system]
  by (auto simp: demo_defs)

text \<open>
  C10: The results of a transfer never exceed the buffers: the length reported is at most the length
  of the transfer's buffer, whatever the kernel reported (a negative length included), and exactly
  that many bytes of the caller's buffer are replaced by those of the transfer.
\<close>

theorem get_results_bounds:
  assumes "async_inv w L" "transfers w t = Some x" "\<not> pending x"
    and "nat (buffer_length (urb x)) \<le> length dest"
  shows "runs (async_in_transfer_get_results E (Some t) (Some dest) True False w) (\<lambda>(e, buf, n, te) w'.
    e = NULL \<and> int n \<le> buffer_length (urb x) \<and>
    (0 \<le> actual_length (urb x) \<and> actual_length (urb x) \<le> buffer_length (urb x) \<longrightarrow> int n = actual_length (urb x)) \<and>
    buf = Some (take n (contents [] (buffer (urb x))) @ drop n dest))"
proof -
  have "wf_transfer t x" by (rule async_inv_split(3) [OF assms(1,2)])
  then have len: "0 \<le> buffer_length (urb x)" "buffer_length (urb x) \<le> int INT_MAX" by (auto simp: wf_transfer_def)
  have r: "int (reported x) \<le> buffer_length (urb x)" using len by (auto simp: reported_def Let_def)
  have "int (reported x) = actual_length (urb x)"
    if "0 \<le> actual_length (urb x)" "actual_length (urb x) \<le> buffer_length (urb x)"
    using len that by (simp add: reported_def Let_def INT_MAX_def mod_pos_pos_trivial)
  with r show ?thesis
    using assms(4)
    by (intro runs_mono [OF async_in_transfer_get_results_spec [OF assms(1-3)]]) (auto simp: copied_from_def)
qed

theorem get_results_bounds_witness:
  "runs (async_in_transfer_get_results demo_system (Some 14) (Some [7, 8, 9]) True False demo_done_world)
     (\<lambda>(e, buf, n, te) w'. n = 2 \<and> buf = Some [1, 2, 9])"
  by (rule runs_mono [OF get_results_bounds [OF demo_async(1), of 14 demo_completed]])
    (auto simp: demo_defs)

text \<open>
  Freeing a transfer gives back the transfer, its buffer and its error, except when the kernel
  holds it: then nothing is freed.  The invariant holds afterwards in both cases.
\<close>

theorem transfer_free_correct:
  assumes "async_inv w L" "transfers w t = Some x"
  shows "\<exists>w'. async_in_transfer_free (Some t) w = Some w' \<and> async_inv w' L \<and> kernel_urbs w' = kernel_urbs w \<and>
    (if t \<in> snd ` set (kernel_urbs w) then transfers w' = transfers w \<and> live w' = live w
     else transfers w' = (transfers w)(t := None) \<and> live w = live w' + trans_res t x)"
proof -
  have held: "pending x \<longleftrightarrow> t \<in> snd ` set (kernel_urbs w)"
    using async_inv_split(3,4) [OF assms] by (force simp: wf_transfer_def image_iff)
  obtain w' where w': "async_in_transfer_free (Some t) w = Some w'" "async_inv w' L" "kernel_urbs w' = kernel_urbs w"
    "transfers w' = (if pending x then transfers w else (transfers w)(t := None))"
    using async_in_transfer_free_ok [OF assms] by blast
  have "live w' = store_res (transfers w') + L" by (rule async_inv_ledger [OF w'(2)])
  note l = this async_inv_split(1) [OF assms] async_inv_ledger [OF assms(1)]
  show ?thesis
  proof (cases "pending x")
    case True
    with w' held l(1,3) show ?thesis by simp
  next
    case False
    have "live w = live w' + trans_res t x" using l(1,2) w'(4) False by (simp only: if_False ac_simps)
    with False w' held show ?thesis by simp
  qed
qed

theorem transfer_free_correct_witness:
  "\<exists>w'. async_in_transfer_free (Some 14) demo_busy_world = Some w' \<and> live w' = live demo_busy_world"
  using transfer_free_correct [OF demo_async(2), of 14 "demo_transfer\<lparr>pending := True\<rparr>"]
  by (auto simp: demo_busy_world_def)

end
