(* ===== verification/DeviceArray.thy ===== *)
theory DeviceArray
  imports Basics
begin

text \<open>
  \<open>src/src/list.c\<close>: NULL-terminated arrays of device pointers.  The code is shared by the platforms,
  so it is stated for any type of device; the locale \<open>listed_device\<close> says what a platform's devices
  have to provide, and shows that lists can then be made, extended and freed without leaks.
\<close>

section \<open>The operations of list.c\<close>

text \<open>A list is a pointer to an array of device pointers; the last cell of the array is NULL.\<close>

type_synonym 'd device_list = "'d ptr list ptr"

definition device_list_create :: "'e environment_scheme \<Rightarrow> 'w world_scheme
    \<Rightarrow> ((err \<times> 'd device_list) \<times> 'w world_scheme) option" where
  "device_list_create E w = do {
     (new_list, w) \<leftarrow> malloc E w;
     if new_list = NULL then Some ((error_no_memory, NULL), w)
     else do {
       new_list \<leftarrow> store new_list [NULL] w;
       Some ((NULL, new_list), w)
     }
   }"

text \<open>
  \<open>realloc\<close> keeps the first cells of the old array.  An array with fewer than \<open>count\<close> cells would
  leave uninitialised cells in front of the new device: a fault.
\<close>

definition device_list_append :: "'e environment_scheme \<Rightarrow> 'd device_list \<times> nat \<Rightarrow> 'd ptr
    \<Rightarrow> 'w world_scheme \<Rightarrow> ((err \<times> 'd device_list \<times> nat) \<times> 'w world_scheme) option" where
  "device_list_append E = (\<lambda>(device_list, count) device w.
     if device = NULL then None
     else do {
       let new_count = count + 1;
       old \<leftarrow> (if device_list = NULL then Some [] else deref device_list w);
       (expanded_list, w) \<leftarrow> realloc E device_list w;
       if expanded_list = NULL then Some ((error_no_memory, device_list, count), w)
       else if length old < count then None
       else do {
         expanded_list \<leftarrow> store expanded_list (take (new_count - 1) old @ [device, NULL]) w;
         Some ((NULL, expanded_list, new_count), w)
       }
     })"

definition libusbp_list_free :: "'d device_list \<Rightarrow> 'w world_scheme \<Rightarrow> 'w world_scheme option" where
  "libusbp_list_free device_list w =
     (if device_list = NULL then Some w else free device_list w)"

text \<open>
  The loop over the cells of the array; running off its end is a fault.  Each platform has its own
  \<open>libusbp_device_free\<close>, which is an argument here.
\<close>

fun free_devices_loop :: "('d ptr \<Rightarrow> 'w world_scheme \<Rightarrow> 'w world_scheme option) \<Rightarrow> 'd ptr list
    \<Rightarrow> 'w world_scheme \<Rightarrow> 'w world_scheme option" where
  "free_devices_loop device_free [] w = None"
| "free_devices_loop device_free (device # devices) w =
     (if device \<noteq> NULL
      then do { w \<leftarrow> device_free device w; free_devices_loop device_free devices w }
      else Some w)"

definition free_devices_and_list :: "('d ptr \<Rightarrow> 'w world_scheme \<Rightarrow> 'w world_scheme option)
    \<Rightarrow> 'd device_list \<Rightarrow> 'w world_scheme \<Rightarrow> 'w world_scheme option" where
  "free_devices_and_list device_free device_list w =
     (if device_list = NULL then Some w
      else do {
        devices \<leftarrow> deref device_list w;
        w \<leftarrow> free_devices_loop device_free devices w;
        libusbp_list_free device_list w
      })"

section \<open>What lists own\<close>

text \<open>\<open>dres\<close> is what a device owns and \<open>dwf\<close> its well-formedness.\<close>

definition devs_res_of :: "('d ptr \<Rightarrow> res multiset) \<Rightarrow> 'd ptr list \<Rightarrow> res multiset" where
  "devs_res_of dres ds = sum_list (map dres ds)"

definition list_res_of :: "('d ptr \<Rightarrow> res multiset) \<Rightarrow> 'd device_list \<Rightarrow> res multiset" where
  "list_res_of dres l = owns (devs_res_of dres) l"

text \<open>The invariant of a list that holds the devices \<open>ds\<close>.\<close>

definition holds_of :: "('d ptr \<Rightarrow> bool) \<Rightarrow> 'd device_list \<Rightarrow> 'd ptr list \<Rightarrow> bool" where
  "holds_of dwf l ds \<longleftrightarrow> (\<exists>n. l = Heap n (ds @ [NULL])) \<and> (\<forall>d \<in> set ds. dwf d \<and> d \<noteq> NULL)"

lemma devs_res_simps [simp]:
  "devs_res_of dres [] = {#}" "devs_res_of dres (d # ds) = dres d + devs_res_of dres ds"
  "devs_res_of dres (ds @ es) = devs_res_of dres ds + devs_res_of dres es"
  by (simp_all add: devs_res_of_def)

lemma list_res_simps [simp]:
  "list_res_of dres NULL = {#}" "list_res_of dres (Heap n ds) = add_mset (Mem, n) (devs_res_of dres ds)"
  by (simp_all add: list_res_of_def)

text \<open>A kind of device that can be freed: then lists of such devices can be freed.\<close>

locale listed_device = releases device_free dres dwf
  for device_free :: "'d ptr \<Rightarrow> 'w world_scheme \<Rightarrow> 'w world_scheme option"
    and dres :: "'d ptr \<Rightarrow> res multiset" and dwf :: "'d ptr \<Rightarrow> bool" +
  assumes none_wf: "dwf NULL" and none_res: "dres NULL = {#}"
begin

lemma free_devices_loop_ok:
  assumes "\<forall>d \<in> set ds. dwf d \<and> d \<noteq> NULL" and "devs_res_of dres ds \<subseteq># live w"
  shows "free_devices_loop device_free (ds @ [NULL]) w = Some (drop_res (devs_res_of dres ds) w)"
  using assms
proof (induction ds arbitrary: w)
  case Nil
  then show ?case by simp
next
  case (Cons d ds)
  obtain L where L: "live w = dres d + devs_res_of dres ds + L"
    using Cons.prems(2) by (auto simp: mset_subset_eq_exists_conv)
  have "device_free d w = Some (drop_res (dres d) w)"
    using Cons.prems(1) L by (simp add: rel_ok)
  with Cons L show ?case by simp
qed

lemma free_devices_and_list_ok:
  assumes "l = NULL \<or> holds_of dwf l ds" and "list_res_of dres l \<subseteq># live w"
  shows "free_devices_and_list device_free l w = Some (drop_res (list_res_of dres l) w)"
proof (cases "l = NULL")
  case False
  with assms(1) obtain n where l: "l = Heap n (ds @ [NULL])"
    and ds: "\<forall>d \<in> set ds. dwf d \<and> d \<noteq> NULL"
    by (auto simp: holds_of_def)
  obtain L where "live w = list_res_of dres l + L"
    using assms(2) by (auto simp: mset_subset_eq_exists_conv)
  with l ds none_res show ?thesis
    by (simp add: free_devices_and_list_def free_devices_loop_ok libusbp_list_free_def)
qed (simp add: free_devices_and_list_def)

lemma device_list_create_gives:
  "runs (device_list_create E w) (gives (list_res_of dres) NULL (\<lambda>l. holds_of dwf l []) (\<lambda>_. True) w)"
  by (auto simp: device_list_create_def holds_of_def none_res later_def intro!: wp)

text \<open>A failed append leaves the list as it was; the device is then still the caller's.\<close>

lemma device_list_append_wp:
  assumes "holds_of dwf l ds" "live w = list_res_of dres l + dres d + L" "dwf d" "d \<noteq> NULL"
    and "\<And>l' w'. holds_of dwf l' (ds @ [d]) \<Longrightarrow> later w w' \<Longrightarrow> live w' = list_res_of dres l' + L \<Longrightarrow>
      Q (NULL, l', Suc (length ds)) w'"
    and "\<And>w'. later w w' \<Longrightarrow> live w' = live w \<Longrightarrow> \<not> memory_ok E \<Longrightarrow>
      Q (error_no_memory, l, length ds) w'"
  shows "runs (device_list_append E (l, length ds) d w) Q"
proof -
  obtain n where l: "l = Heap n (ds @ [NULL])"
    using assms(1) by (auto simp: holds_of_def)
  have "holds_of dwf (Heap k (ds @ [d, NULL])) (ds @ [d])" for k
    using assms(1,3,4) by (auto simp: holds_of_def)
  with l assms(2,4-6) none_res show ?thesis
    by (auto simp: device_list_append_def Let_def intro!: wp)
qed

end

section \<open>Enumerations\<close>

text \<open>
  A list of \<open>n\<close> devices that all satisfy \<open>P\<close>, and what an enumeration leaves, with \<open>L\<close> the rest of the
  ledger: when the list cannot grow, the device that did not fit in is lost.
\<close>

definition lists_of :: "('d ptr \<Rightarrow> bool) \<Rightarrow> ('d ptr \<Rightarrow> bool) \<Rightarrow> 'd device_list \<Rightarrow> nat \<Rightarrow> bool" where
  "lists_of dwf P l n \<longleftrightarrow> (\<exists>ds. holds_of dwf l ds \<and> n = length ds \<and> (\<forall>d \<in> set ds. P d))"

definition listing_of :: "('d ptr \<Rightarrow> res multiset) \<Rightarrow> ('d ptr \<Rightarrow> bool) \<Rightarrow> ('d ptr \<Rightarrow> bool)
    \<Rightarrow> 'e environment_scheme \<Rightarrow> res multiset \<Rightarrow> 'w world_scheme
    \<Rightarrow> err \<times> 'd device_list \<times> nat \<Rightarrow> 'w world_scheme \<Rightarrow> bool" where
  "listing_of dres dwf P E L w = (\<lambda>(e, l, n) w'. later w w' \<and> lists_of dwf P l n \<and> wf_err e \<and>
     (\<exists>lost. live w' = list_res_of dres l + err_res e + L + dres lost \<and>
        (lost = NULL \<or> e = error_no_memory \<and> \<not> memory_ok E)))"

lemma listing_later: "listing_of dres dwf P E L v x w' \<Longrightarrow> later w v \<Longrightarrow> listing_of dres dwf P E L w x w'"
  by (auto simp: listing_of_def dest: later_trans)

text \<open>A resource that the enumeration holds for a while is given back.\<close>

lemma listing_release:
  assumes "listing_of dres dwf P E (add_mset r L) v x w'"
  shows "r \<in># live w'" "later w v \<Longrightarrow> listing_of dres dwf P E L w x (drop_res {#r#} w')"
  using assms by (auto simp: listing_of_def later_def)

lemma lists_of_new: "holds_of dwf l [] \<Longrightarrow> lists_of dwf P l 0"
  by (auto simp: lists_of_def)

context listed_device begin

lemma listingI:
  "later w w' \<Longrightarrow> lists_of dwf P l n \<Longrightarrow> wf_err e \<Longrightarrow> live w' = list_res_of dres l + err_res e + L \<Longrightarrow>
   listing_of dres dwf P E L w (e, l, n) w'"
  unfolding listing_of_def by (auto simp: none_res intro!: exI [of _ NULL])

lemma listing_lost:
  "later w w' \<Longrightarrow> lists_of dwf P l n \<Longrightarrow> live w' = list_res_of dres l + L + dres d \<Longrightarrow>
   \<not> memory_ok E \<Longrightarrow> listing_of dres dwf P E L w (error_no_memory, l, n) w'"
  unfolding listing_of_def by (auto intro!: exI [of _ d])

lemma append_listing_wp:
  assumes "lists_of dwf P l n" "live w = list_res_of dres l + L + dres d"
    and d: "dwf d" "d \<noteq> NULL" "P d"
    and "\<And>l' w'. lists_of dwf P l' (Suc n) \<Longrightarrow> later w w' \<Longrightarrow> live w' = list_res_of dres l' + L \<Longrightarrow>
      Q (NULL, l', Suc n) w'"
    and "\<And>w'. listing_of dres dwf P E L w (error_no_memory, l, n) w' \<Longrightarrow> Q (error_no_memory, l, n) w'"
  shows "runs (device_list_append E (l, n) d w) Q"
proof -
  obtain ds where ds: "holds_of dwf l ds" "n = length ds" "\<forall>d \<in> set ds. P d"
    using assms(1) by (auto simp: lists_of_def)
  have "lists_of dwf P l' (Suc n)" if "holds_of dwf l' (ds @ [d])" for l'
    using that ds(2,3) d(3) by (auto simp: lists_of_def intro!: exI [of _ "ds @ [d]"])
  moreover have "listing_of dres dwf P E L w (error_no_memory, l, n) w'"
    if "later w w'" "live w' = live w" "\<not> memory_ok E" for w'
    using listing_lost that assms(1,2) by auto
  ultimately show ?thesis
    unfolding ds(2) using ds d(1,2) assms(2,6,7)
    by (intro device_list_append_wp [where L = L]) simp_all
qed

lemma free_listed:
  "lists_of dwf P l n \<Longrightarrow> list_res_of dres l \<subseteq># live w \<Longrightarrow>
   free_devices_and_list device_free l w = Some (drop_res (list_res_of dres l) w)"
  using free_devices_and_list_ok by (auto simp: lists_of_def)

end

end
