(* ===== verification/DeviceList.thy ===== *)
theory DeviceList
  imports DeviceLinux DeviceArray
begin

text \<open>
  \<open>src/src/linux/list_linux.c\<close>, the enumeration of connected devices, and
  \<open>src/src/find_device.c\<close>, the search by vendor and product ID.
\<close>

section \<open>list_linux.c\<close>

type_synonym device_list = "libusbp_device DeviceArray.device_list"

definition add_udev_device_to_list :: "'e libudev_scheme \<Rightarrow> nat option \<Rightarrow> device_list \<times> nat
    \<Rightarrow> 'w world_scheme \<Rightarrow> ((err \<times> device_list \<times> nat) \<times> 'w world_scheme) option" where
  "add_udev_device_to_list E dev l w = do {
     ((error, new_device), w) \<leftarrow> device_create E dev w;
     if error \<noteq> NULL then Some ((error, l), w)
     else do {
       ((error, l), w) \<leftarrow> device_list_append E l new_device w;
       if error \<noteq> NULL then do {
         w \<leftarrow> libusbp_device_free new_device w;
         Some ((error, l), w)
       }
       else Some ((NULL, l), w)
     }
   }"

definition add_udev_device_to_list_if_needed :: "'e libudev_scheme \<Rightarrow> nat option \<Rightarrow> string
    \<Rightarrow> device_list \<times> nat \<Rightarrow> 'w world_scheme
    \<Rightarrow> ((err \<times> device_list \<times> nat) \<times> 'w world_scheme) option" where
  "add_udev_device_to_list_if_needed E udev path l w = do {
     ((error, dev), w) \<leftarrow> udevw_get_device_from_syspath E udev path w;
     ((error, devtype), w) \<leftarrow> ok_then error None (udevw_get_device_type E dev) w;
     let skip = (error = NULL \<and> devtype \<noteq> Some ''usb_device'');
     skip \<leftarrow> (if error = NULL \<and> \<not> skip then do {
         d \<leftarrow> dev;
         borrow (UdevDevice, d) w;
         Some (\<not> udev_device_get_is_initialized E d)
       }
       else Some skip);
     ((error, l), w) \<leftarrow> (if error = NULL \<and> \<not> skip then add_udev_device_to_list E dev l w
       else Some ((error, l), w));
     w \<leftarrow> unref_if UdevDevice dev w;
     Some ((error, l), w)
   }"

text \<open>The loop over the enumeration: the error of a device is freed and the device left out.\<close>

fun list_loop :: "'e libudev_scheme \<Rightarrow> nat option \<Rightarrow> string list \<Rightarrow> device_list \<times> nat
    \<Rightarrow> 'w world_scheme \<Rightarrow> ((device_list \<times> nat) \<times> 'w world_scheme) option" where
  "list_loop E udev [] l w = Some (l, w)"
| "list_loop E udev (path # paths) l w = do {
     ((error, l), w) \<leftarrow> add_udev_device_to_list_if_needed E udev path l w;
     w \<leftarrow> (if error \<noteq> NULL then libusbp_error_free error w else Some w);
     list_loop E udev paths l w
   }"

definition libusbp_list_connected_devices :: "'e libudev_scheme \<Rightarrow> bool \<Rightarrow> bool
    \<Rightarrow> 'w world_scheme \<Rightarrow> ((err \<times> device_list \<times> nat) \<times> 'w world_scheme) option" where
  "libusbp_list_connected_devices E device_list_given device_count_given w =
     (if \<not> device_list_given then do {
        (error, w) \<leftarrow> error_create E ''Device list output pointer is null.'' w;
        Some ((error, NULL, 0), w)
      }
      else do {
        ((error, udev), w) \<leftarrow> udevw_create_context E w;
        ((error, enumerate), w) \<leftarrow> ok_then error None (udevw_create_usb_list E udev) w;
        ((error, new_list), w) \<leftarrow> ok_then error NULL (device_list_create E) w;
        ((new_list, count), w) \<leftarrow> (if error = NULL then do {
            l \<leftarrow> enumerate;
            borrow (UdevEnumerate, l) w;
            list_loop E udev (udev_enumerate_get_list_entry E l) (new_list, 0) w
          }
          else Some ((new_list, 0), w));
        let (device_list, new_list, device_count) =
          (if error = NULL then (new_list, NULL, if device_count_given then count else 0)
           else (NULL, new_list, 0));
        w \<leftarrow> unref_if UdevEnumerate enumerate w;
        w \<leftarrow> unref_if UdevContext udev w;
        w \<leftarrow> free_devices_and_list libusbp_device_free new_list w;
        Some ((error, device_list, device_count), w)
      })"

section \<open>find_device.c\<close>

definition check_device_vid_pid :: "'e environment_scheme \<Rightarrow> device \<Rightarrow> 16 word \<Rightarrow> 16 word
    \<Rightarrow> 'w world_scheme \<Rightarrow> ((err \<times> bool) \<times> 'w world_scheme) option" where
  "check_device_vid_pid E device vid pid w = do {
     ((error, device_vid), w) \<leftarrow> libusbp_device_get_vendor_id E device True w;
     if error \<noteq> NULL then Some ((error, False), w)
     else if device_vid \<noteq> vid then Some ((NULL, False), w)
     else do {
       ((error, device_pid), w) \<leftarrow> libusbp_device_get_product_id E device True w;
       if error \<noteq> NULL then Some ((error, False), w)
       else if device_pid \<noteq> pid then Some ((NULL, False), w)
       else Some ((NULL, True), w)
     }
   }"

text \<open>The loop with \<open>n\<close> candidates left, at index \<open>i\<close>; \<open>device\<close> is the device found so far.\<close>

fun find_loop :: "'e environment_scheme \<Rightarrow> 16 word \<Rightarrow> 16 word \<Rightarrow> device_list \<Rightarrow> nat \<Rightarrow> nat
    \<Rightarrow> device \<Rightarrow> 'w world_scheme \<Rightarrow> ((err \<times> device) \<times> 'w world_scheme) option" where
  "find_loop E vid pid new_list 0 i device w = Some ((NULL, device), w)"
| "find_loop E vid pid new_list (Suc n) i device w = do {
     cells \<leftarrow> deref new_list w;
     if length cells \<le> i then None
     else do {
       let candidate = cells ! i;
       ((error, matches), w) \<leftarrow> (if device = NULL
         then check_device_vid_pid E candidate vid pid w
         else Some ((NULL, False), w));
       if error \<noteq> NULL then Some ((error, device), w)
       else do {
         let (device, candidate) = (if matches then (candidate, NULL) else (device, candidate));
         w \<leftarrow> libusbp_device_free candidate w;
         find_loop E vid pid new_list n (i + 1) device w
       }
     }
   }"

definition libusbp_find_device_with_vid_pid :: "'e libudev_scheme \<Rightarrow> 16 word \<Rightarrow> 16 word \<Rightarrow> bool
    \<Rightarrow> 'w world_scheme \<Rightarrow> ((err \<times> device) \<times> 'w world_scheme) option" where
  "libusbp_find_device_with_vid_pid E vid pid device_given w =
     (if \<not> device_given then do {
        (error, w) \<leftarrow> error_create E ''Device output pointer is null.'' w;
        Some ((error, NULL), w)
      }
      else do {
        ((error, new_list, size), w) \<leftarrow> libusbp_list_connected_devices E True True w;
        if error = NULL \<and> new_list = NULL then None
        else do {
          ((error, device), w) \<leftarrow> ok_then error NULL
            (find_loop E vid pid new_list size 0 NULL) w;
          w \<leftarrow> libusbp_list_free new_list w;
          Some ((error, device), w)
        }
      })"

section \<open>Lists of Linux devices\<close>

abbreviation list_res :: "device_list \<Rightarrow> res multiset" where
  "list_res \<equiv> list_res_of dev_res"

abbreviation holds :: "device_list \<Rightarrow> device list \<Rightarrow> bool" where
  "holds \<equiv> holds_of wf_device"

interpretation listed: listed_device libusbp_device_free dev_res wf_device
  by unfold_locales simp_all

interpretation device_list: releases "free_devices_and_list libusbp_device_free" list_res
    "\<lambda>l. l = NULL \<or> (\<exists>ds. holds l ds)"
  by unfold_locales (auto intro: listed.free_devices_and_list_ok)

section \<open>Contracts\<close>

text \<open>
  The devices a list may hold: those libudev describes as initialised USB devices.  \<open>lists E l n\<close>
  says that \<open>l\<close> is a well-formed list of \<open>n\<close> of them.
\<close>

definition connected :: "'e libudev_scheme \<Rightarrow> device \<Rightarrow> bool" where
  "connected E d \<longleftrightarrow> (\<exists>n i. dev_view d = Some i \<and> describes E n i \<and>
     udev_device_get_devtype E n = Some ''usb_device'' \<and> udev_device_get_is_initialized E n)"

definition lists :: "'e libudev_scheme \<Rightarrow> device_list \<times> nat \<Rightarrow> bool" where
  "lists E = (\<lambda>(l, n). \<exists>ds. holds l ds \<and> n = length ds \<and> (\<forall>d \<in> set ds. connected E d))"

lemmas device_list_create_wp [wp] = gives_wp [OF listed.device_list_create_gives]

text \<open>What one step of the enumeration does to the list, with \<open>L\<close> the rest of the ledger.\<close>

definition list_step :: "'e libudev_scheme \<Rightarrow> res multiset \<Rightarrow> 'w world_scheme
    \<Rightarrow> err \<times> device_list \<times> nat \<Rightarrow> 'w world_scheme \<Rightarrow> bool" where
  "list_step E L w = (\<lambda>(e, l) w'. later w w' \<and> lists E l \<and> wf_err e \<and>
     live w' = list_res (fst l) + err_res e + L)"

lemma add_udev_device_to_list_spec:
  assumes "lists E l" "live w = list_res (fst l) + L" "(UdevDevice, n) \<in># L"
    and "udev_device_get_devtype E n = Some ''usb_device''" "udev_device_get_is_initialized E n"
  shows "runs (add_udev_device_to_list E (Some n) l w) (list_step E L w)"
proof -
  obtain p ds where l: "l = (p, length ds)" "holds p ds" "\<forall>d \<in> set ds. connected E d"
    using assms(1) by (auto simp: lists_def)
  have snoc: "lists E (l', Suc (length ds))"
    if "holds l' (ds @ [d])" "dev_view d = Some i" "describes E n i" for l' d i
  proof -
    have "connected E d"
      unfolding connected_def using that(2,3) assms(4,5) by blast
    with that(1) l(3) show ?thesis
      by (auto simp: lists_def intro!: exI [of _ "ds @ [d]"])
  qed
  show ?thesis
    using assms(1-3) l(1,2)
    by (auto simp: add_udev_device_to_list_def list_step_def later_def device.rel_ok
        intro!: snoc wp listed.device_list_append_wp [where L = L and ds = ds])
qed

lemmas add_udev_device_to_list_wp = add_udev_device_to_list_spec [THEN runs_mono]

lemma add_if_needed_spec:
  assumes "lists E l" "live w = list_res (fst l) + L" "(UdevContext, c) \<in># L"
  shows "runs (add_udev_device_to_list_if_needed E (Some c) path l w) (list_step E L w)"
proof -
  obtain p k where l: "l = (p, k)" by (cases l)
  show ?thesis
    using assms l
    by (auto simp: add_udev_device_to_list_if_needed_def list_step_def later_def Let_def
        intro!: wp add_udev_device_to_list_wp)
qed

lemmas add_if_needed_wp = add_if_needed_spec [THEN runs_mono]

lemma list_loop_spec:
  assumes "lists E l" "live w = list_res (fst l) + L" "(UdevContext, c) \<in># L"
  shows "runs (list_loop E (Some c) paths l w) (\<lambda>l' w'. later w w' \<and> lists E l' \<and>
    live w' = list_res (fst l') + L)"
  using assms(1,2)
proof (induction paths arbitrary: l w)
  case Nil
  then show ?case by simp
next
  case (Cons path paths)
  note IH = Cons.IH [THEN runs_mono]
  show ?case
    using Cons.prems assms(3)
    by (auto simp: list_step_def later_def libusbp_error_free_ok
        intro!: wp add_if_needed_wp [where L = L] IH)
qed

lemmas list_loop_wp = list_loop_spec [THEN runs_mono]

lemma lists_new: "holds l [] \<Longrightarrow> lists E (l, 0)"
  by (auto simp: lists_def)

lemma libusbp_list_connected_devices_gives:
  "runs (libusbp_list_connected_devices E True True w)
     (gives (list_res \<circ> fst) (NULL, 0) (lists E) (\<lambda>_. True) w)"
  by (auto simp: libusbp_list_connected_devices_def Let_def later_def free_devices_and_list_def
      intro!: wp list_loop_wp lists_new)

lemmas libusbp_list_connected_devices_wp [wp] = gives_wp [OF libusbp_list_connected_devices_gives]

text \<open>The search as a function of the list.\<close>

definition matches :: "16 word \<Rightarrow> 16 word \<Rightarrow> device \<Rightarrow> bool" where
  "matches vid pid d \<longleftrightarrow> (\<exists>s r. dev_view d = Some (s, pid, vid, r))"

fun first_match :: "16 word \<Rightarrow> 16 word \<Rightarrow> device list \<Rightarrow> device" where
  "first_match vid pid [] = NULL"
| "first_match vid pid (d # ds) = (if matches vid pid d then d else first_match vid pid ds)"

lemma check_device_vid_pid_ok:
  assumes "wf_device d" "d \<noteq> NULL" "dev_res d \<subseteq># live w"
  shows "check_device_vid_pid E d vid pid w = Some ((NULL, matches vid pid d), w)"
  using assms by (cases d) (auto simp: check_device_vid_pid_def matches_def
      libusbp_device_get_vendor_id_def libusbp_device_get_product_id_def mset_subset_eq_exists_conv)

lemma find_loop_spec:
  assumes l: "l = Heap n (ds @ [NULL])" "\<forall>d \<in> set ds. wf_device d \<and> d \<noteq> NULL"
    and "i + k = length ds" "live w = {#(Mem, n)#} + dev_res device + devs_res_of dev_res (drop i ds) + L"
  shows "runs (find_loop E vid pid l k i device w) (\<lambda>(e, r) w'. later w w' \<and> e = NULL \<and>
     r = (if device = NULL then first_match vid pid (drop i ds) else device) \<and>
     live w' = {#(Mem, n)#} + dev_res r + L)"
  using assms(3,4)
proof (induction k arbitrary: i device w)
  case 0
  then show ?case by simp
next
  case (Suc k)
  let ?d = "ds ! i"
  have i: "drop i ds = ?d # drop (i + 1) ds" "?d \<in> set ds" "i < length ds"
    using Suc.prems(1) by (simp_all add: Cons_nth_drop_Suc)
  then have d: "wf_device ?d" "?d \<noteq> NULL" using l(2) by simp_all
  have c: "check_device_vid_pid E ?d vid pid w = Some ((NULL, matches vid pid ?d), w)"
    by (rule check_device_vid_pid_ok) (use d i Suc.prems(2) in simp_all)
  have f: "libusbp_device_free ?d w = Some (drop_res (dev_res ?d) w)"
    by (rule device.rel_ok) (use d i Suc.prems(2) in simp_all)
  note IH = Suc.IH [THEN runs_mono]
  have n: "libusbp_device_free NULL w = Some w"
    by (simp add: libusbp_device_free_def)
  show ?case
    using Suc.prems i d
    by (auto simp: l(1) nth_append c f n later_def intro!: IH [unfolded l(1)])
qed

lemmas find_loop_wp = find_loop_spec [THEN runs_mono]
lemma first_match_find:
  "first_match vid pid ds = (case List.find (matches vid pid) ds of None \<Rightarrow> NULL | Some d \<Rightarrow> d)"
  by (induction ds) simp_all

lemma listsD: "lists E (l, n) \<Longrightarrow> \<exists>ds. holds l ds \<and> n = length ds \<and> (\<forall>d \<in> set ds. connected E d)"
  by (simp add: lists_def)

lemma find_device_gives:
  "runs (libusbp_find_device_with_vid_pid E vid pid True w) (gives dev_res NULL
     (\<lambda>d. d = NULL \<or> wf_device d \<and> matches vid pid d \<and> connected E d) (\<lambda>_. True) w)"
proof -
  have fm: "first_match vid pid ds = NULL \<or> first_match vid pid ds \<in> set ds \<and> matches vid pid (first_match vid pid ds)" for ds
    by (induction ds) auto
  obtain e l n w1 where r: "libusbp_list_connected_devices E True True w = Some ((e, l, n), w1)"
    and g: "gives (list_res \<circ> fst) (NULL, 0) (lists E) (\<lambda>_. True) w (e, l, n) w1"
    using runsD [OF libusbp_list_connected_devices_gives [of E w]] by (auto simp: comp_def)
  show ?thesis
  proof (cases "e = NULL")
    case True
    with g obtain ds where ds: "holds l ds" "n = length ds" "\<forall>d \<in> set ds. connected E d"
      "later w w1" "live w1 = live w + list_res l"
      by (auto dest!: listsD)
    then obtain k where l: "l = Heap k (ds @ [NULL])" "\<forall>d \<in> set ds. wf_device d \<and> d \<noteq> NULL"
      by (auto simp: holds_of_def)
    from True ds l fm [of ds] show ?thesis
      by (auto simp: libusbp_find_device_with_vid_pid_def r libusbp_list_free_def later_def
          intro!: wp find_loop_wp [where L = "live w"])
  next
    case False
    with g show ?thesis
      by (auto simp: libusbp_find_device_with_vid_pid_def r ok_then_error libusbp_list_free_def)
  qed
qed

section \<open>Properties\<close>

text \<open>A machine with one USB device, and the list it gives.\<close>

definition plenty_usb :: libudev where
  "plenty_usb = plenty_udev\<lparr>udev_device_get_devtype := (\<lambda>n. Some ''usb_device'')\<rparr>"

definition usb_device :: device where
  "usb_device = Heap 4 \<lparr>syspath = Heap 5 ''/sys/d'', serial_number = Heap 6 ''00'',
     product_id = 0, vendor_id = 0, revision = 0\<rparr>"

lemma plenty_usb_run:
  "libusbp_list_connected_devices plenty_usb True True start =
     Some ((NULL, Heap 7 [usb_device, NULL], 1),
       \<lparr>next_id = 8, live = {#(Mem, 7), (Mem, 6), (Mem, 5), (Mem, 4)#}\<rparr>)"
  by (simp add: libusbp_list_connected_devices_def udevw_create_context_def
      udevw_create_usb_list_def new_enumerate_def open_res_def plenty_usb_def scan_devices_def
      Let_def unref_if_def release_def drop_res_def take_res_def tick_def
      udevw_get_device_from_syspath_def borrow_def device_list_create_def malloc_def start_def
      add_udev_device_to_list_if_needed_def udevw_get_device_type_def
      udevw_get_sysattr_uint16_def get_sysattr_hex_def add_udev_device_to_list_def
      device_create_def udevw_get_syspath_copy_def udevw_get_syspath_def string_copy_def
      udevw_get_sysattr_if_exists_copy_def device_list_append_def realloc_def
      free_devices_and_list_def usb_device_def)
    (simp add: eval_nat_numeral)

lemma usb_device_holds: "holds (Heap 7 [usb_device, NULL]) [usb_device]"
  by (simp add: holds_of_def usb_device_def)

text \<open>
  C36: Listing the connected devices never faults and never fails because of a single device: an
  error comes with no list and count 0, and otherwise the list is an array of \<open>count\<close> devices
  followed by NULL, each of which describes an initialised device of type \<open>usb_device\<close>.  Freeing
  the list with \<open>free_devices_and_list libusbp_device_free\<close> brings the ledger back, apart from the error.
\<close>

theorem list_connected_devices_correct:
  fixes w :: "'w world_scheme"
  shows "runs (libusbp_list_connected_devices E True True w) (\<lambda>(e, l, count) w'.
     (if e = NULL
      then \<exists>n ds. l = Heap n (ds @ [NULL]) \<and> count = length ds \<and>
        (\<forall>d \<in> set ds. d \<noteq> NULL \<and> (\<exists>n i. dev_view d = Some i \<and> describes E n i \<and>
           udev_device_get_devtype E n = Some ''usb_device'' \<and>
           udev_device_get_is_initialized E n))
      else l = NULL \<and> count = 0) \<and>
     (\<exists>w''. free_devices_and_list libusbp_device_free l w' = Some w'' \<and> live w'' = live w + err_res e))" (is "runs _ ?Q")
proof (rule libusbp_list_connected_devices_wp)
  fix r and w' :: "'w world_scheme"
  assume 1: "live w' = live w + (list_res \<circ> fst) r" and "lists E r"
  obtain l n where r: "r = (l, n)" by (cases r)
  with \<open>lists E r\<close> obtain ds where ds: "holds l ds" "n = length ds" "\<forall>d \<in> set ds. connected E d"
    by (auto dest: listsD)
  have "free_devices_and_list libusbp_device_free l w' = Some (drop_res (list_res l) w')"
    by (rule device_list.rel_ok) (use ds 1 r in auto)
  then show "?Q (NULL, r) w'"
    using ds 1 r unfolding connected_def holds_of_def by fastforce
qed (simp add: free_devices_and_list_def)

theorem list_connected_devices_correct_witness:
  "\<exists>w''. free_devices_and_list libusbp_device_free (Heap 7 [usb_device, NULL])
     \<lparr>next_id = 8, live = {#(Mem, 7), (Mem, 6), (Mem, 5), (Mem, 4)#}\<rparr> = Some w'' \<and> live w'' = {#}"
  using list_connected_devices_correct [of plenty_usb start] by (simp add: plenty_usb_run)

text \<open>
  C37: The search for a device by vendor and product ID gives the first device of the list of
  connected devices that has both IDs, or NULL when there is none; the list itself and every
  other device have been freed, so the caller owns exactly the device returned.
\<close>

theorem find_device_first_match:
  assumes "libusbp_list_connected_devices E True True w = Some ((NULL, l, length ds), w1)"
    and "holds l ds"
  shows "runs (libusbp_find_device_with_vid_pid E vid pid True w) (\<lambda>(e, d) w'. e = NULL \<and>
    d = (case List.find (matches vid pid) ds of None \<Rightarrow> NULL | Some d \<Rightarrow> d) \<and>
    live w' = live w + dev_res d)"
proof -
  have "live w1 = live w + list_res l"
    using libusbp_list_connected_devices_gives [of E w] by (simp add: assms(1))
  moreover obtain n where "l = Heap n (ds @ [NULL])" "\<forall>d \<in> set ds. wf_device d \<and> d \<noteq> NULL"
    using assms(2) by (auto simp: holds_of_def)
  ultimately show ?thesis
    by (auto simp: libusbp_find_device_with_vid_pid_def assms(1) libusbp_list_free_def
        first_match_find intro!: wp find_loop_wp [where L = "live w"])
qed

theorem find_device_first_match_witness:
  "runs (libusbp_find_device_with_vid_pid plenty_usb 0 0 True start) (\<lambda>(e, d) w'.
     e = NULL \<and> d = usb_device) \<and>
   runs (libusbp_find_device_with_vid_pid plenty_usb 0 1 True start) (\<lambda>(e, d) w'.
     e = NULL \<and> d = NULL \<and> live w' = {#})"
proof -
  have 1: "libusbp_list_connected_devices plenty_usb True True start =
      Some ((NULL, Heap 7 [usb_device, NULL], length [usb_device]),
        \<lparr>next_id = 8, live = {#(Mem, 7), (Mem, 6), (Mem, 5), (Mem, 4)#}\<rparr>)"
    by (simp add: plenty_usb_run)
  show ?thesis
    by (intro conjI; rule runs_mono [OF find_device_first_match [OF 1 usb_device_holds]])
      (auto simp: matches_def usb_device_def)
qed

end
