(* ===== verification/SerialPort.thy ===== *)
theory SerialPort
  imports GenericInterface
begin

text \<open>
  \<open>src/src/linux/serial_port_linux.c\<close>: serial ports, which name the tty of an interface of a
  device.
\<close>

section \<open>The operations of serial_port_linux.c\<close>

record libusbp_serial_port =
  sp_syspath :: cstr
  sp_port_name :: cstr

type_synonym serial_port = "libusbp_serial_port ptr"

definition calloc_serial_port :: "'e environment_scheme \<Rightarrow> 'w world_scheme
    \<Rightarrow> ((err \<times> serial_port) \<times> 'w world_scheme) option" where
  "calloc_serial_port E w = do {
     (new_port, w) \<leftarrow> malloc E w;
     if new_port = NULL then Some ((error_no_memory, NULL), w)
     else do {
       new_port \<leftarrow> store new_port \<lparr>sp_syspath = NULL, sp_port_name = NULL\<rparr> w;
       Some ((NULL, new_port), w)
     }
   }"

definition libusbp_serial_port_free :: "serial_port \<Rightarrow> 'w world_scheme \<Rightarrow> 'w world_scheme option" where
  "libusbp_serial_port_free port w =
     (if port = NULL then Some w
      else do {
        x \<leftarrow> deref port w;
        w \<leftarrow> libusbp_string_free (sp_syspath x) w;
        w \<leftarrow> libusbp_string_free (sp_port_name x) w;
        free port w
      })"

definition libusbp_serial_port_create :: "'e libudev_scheme \<Rightarrow> device \<Rightarrow> 8 word \<Rightarrow> bool
    \<Rightarrow> 'w world_scheme \<Rightarrow> ((err \<times> serial_port) \<times> 'w world_scheme) option" where
  "libusbp_serial_port_create E device interface_number port_given w =
     (if \<not> port_given then do {
        (error, w) \<leftarrow> error_create E ''Serial port output pointer is null.'' w;
        Some ((error, NULL), w)
      }
      else if device = NULL then do {
        (error, w) \<leftarrow> error_create E ''Device is null.'' w;
        Some ((error, NULL), w)
      }
      else do {
        ((error, new_port), w) \<leftarrow> calloc_serial_port E w;
        ((error, new_device_syspath), w) \<leftarrow> ok_then error NULL
          (libusbp_device_get_os_id E device True) w;
        ((error, new_udev), w) \<leftarrow> ok_then error None (udevw_create_context E) w;
        ((error, new_interface_dev), w) \<leftarrow> ok_then error None (\<lambda>w. do {
          path \<leftarrow> deref new_device_syspath w;
          udevw_get_interface E new_udev path interface_number w
        }) w;
        ((error, new_tty_dev), w) \<leftarrow> ok_then error None
          (udevw_get_tty E new_udev new_interface_dev) w;
        ((error, new_port), w) \<leftarrow> ok_then error new_port
          (set_field (udevw_get_syspath_copy E new_tty_dev)
            (\<lambda>s x. x\<lparr>sp_syspath := s\<rparr>) new_port) w;
        ((error, port_name), w) \<leftarrow> ok_then error None (\<lambda>w. do {
          d \<leftarrow> new_tty_dev;
          borrow (UdevDevice, d) w;
          let port_name = udev_device_get_property_value E d ''DEVNAME'';
          if port_name = None then do {
            (error, w) \<leftarrow> error_create E ''The DEVNAME property does not exist.'' w;
            Some ((error, None), w)
          }
          else Some ((NULL, port_name), w)
        }) w;
        ((error, new_port), w) \<leftarrow> ok_then error new_port (\<lambda>w. do {
          s \<leftarrow> port_name;
          set_field (string_copy E (Static s)) (\<lambda>s x. x\<lparr>sp_port_name := s\<rparr>) new_port w
        }) w;
        let (port, new_port) = (if error = NULL then (new_port, NULL) else (NULL, new_port));
        w \<leftarrow> unref_if UdevDevice new_tty_dev w;
        w \<leftarrow> unref_if UdevDevice new_interface_dev w;
        w \<leftarrow> unref_if UdevContext new_udev w;
        w \<leftarrow> libusbp_string_free new_device_syspath w;
        w \<leftarrow> libusbp_serial_port_free new_port w;
        Some ((error, port), w)
      })"

definition libusbp_serial_port_copy :: "'e environment_scheme \<Rightarrow> serial_port \<Rightarrow> bool
    \<Rightarrow> 'w world_scheme \<Rightarrow> ((err \<times> serial_port) \<times> 'w world_scheme) option" where
  "libusbp_serial_port_copy E source dest_given w =
     (if \<not> dest_given then do {
        (error, w) \<leftarrow> error_create E ''Serial port output pointer is null.'' w;
        Some ((error, NULL), w)
      }
      else if source = NULL then Some ((NULL, NULL), w)
      else do {
        src \<leftarrow> deref source w;
        ((error, new_port), w) \<leftarrow> calloc_serial_port E w;
        ((error, new_port), w) \<leftarrow> ok_then error new_port
          (set_field (string_copy E (sp_syspath src)) (\<lambda>s x. x\<lparr>sp_syspath := s\<rparr>) new_port) w;
        ((error, new_port), w) \<leftarrow> ok_then error new_port
          (set_field (string_copy E (sp_port_name src)) (\<lambda>s x. x\<lparr>sp_port_name := s\<rparr>) new_port) w;
        let (dest, new_port) = (if error = NULL then (new_port, NULL) else (NULL, new_port));
        w \<leftarrow> libusbp_serial_port_free new_port w;
        Some ((error, dest), w)
      })"

definition libusbp_serial_port_get_name :: "'e environment_scheme \<Rightarrow> serial_port \<Rightarrow> bool
    \<Rightarrow> 'w world_scheme \<Rightarrow> ((err \<times> cstr) \<times> 'w world_scheme) option" where
  "libusbp_serial_port_get_name E port name_given w =
     (if \<not> name_given then do {
        (error, w) \<leftarrow> error_create E ''String output pointer is null.'' w;
        Some ((error, NULL), w)
      }
      else if port = NULL then do {
        (error, w) \<leftarrow> error_create E ''Serial port is null.'' w;
        Some ((error, NULL), w)
      }
      else do { x \<leftarrow> deref port w; string_copy E (sp_port_name x) w })"

section \<open>What serial ports own\<close>

text \<open>While a port is being made its strings may still be NULL.\<close>

definition sp_res :: "serial_port \<Rightarrow> res multiset" where
  "sp_res p = owns (\<lambda>x. blk (sp_syspath x) + blk (sp_port_name x)) p"

definition wf_sp :: "serial_port \<Rightarrow> bool" where
  "wf_sp p = (case p of NULL \<Rightarrow> True
     | Heap n x \<Rightarrow> \<not> is_static (sp_syspath x) \<and> \<not> is_static (sp_port_name x)
     | Static x \<Rightarrow> False)"

definition sp_view :: "serial_port \<Rightarrow> (string \<times> string) option" where
  "sp_view p = (case p of
     Heap n x \<Rightarrow> (case (sp_syspath x, sp_port_name x) of
       (Heap k s, Heap j t) \<Rightarrow> Some (s, t) | _ \<Rightarrow> None)
   | _ \<Rightarrow> None)"

lemma sp_simps [simp]:
  "sp_res NULL = {#}" "wf_sp NULL" "sp_view NULL = None" "\<not> wf_sp (Static x)"
  "sp_res (Heap n x) = add_mset (Mem, n) (blk (sp_syspath x) + blk (sp_port_name x))"
  "wf_sp (Heap n x) \<longleftrightarrow> \<not> is_static (sp_syspath x) \<and> \<not> is_static (sp_port_name x)"
  "sp_view (Heap n x) = (case (sp_syspath x, sp_port_name x) of
       (Heap k s, Heap j t) \<Rightarrow> Some (s, t) | _ \<Rightarrow> None)"
  by (simp_all add: sp_res_def wf_sp_def sp_view_def)

lemma libusbp_serial_port_free_ok:
  assumes "wf_sp p" and "sp_res p \<subseteq># live w"
  shows "libusbp_serial_port_free p w = Some (drop_res (sp_res p) w)"
proof -
  obtain L where "live w = sp_res p + L"
    using assms(2) by (auto simp: mset_subset_eq_exists_conv)
  with assms(1) show ?thesis
    by (cases p) (auto simp: libusbp_serial_port_free_def libusbp_string_free_def free_ok ac_simps)
qed

interpretation serial_port: releases libusbp_serial_port_free sp_res wf_sp
  by unfold_locales (rule libusbp_serial_port_free_ok)

section \<open>Contracts\<close>

lemma calloc_serial_port_wp [wp]:
  assumes "\<And>n w'. later w w' \<Longrightarrow> live w' = add_mset (Mem, n) (live w) \<Longrightarrow>
      Q (NULL, Heap n \<lparr>sp_syspath = NULL, sp_port_name = NULL\<rparr>) w'"
    and "\<And>w'. later w w' \<Longrightarrow> live w' = live w \<Longrightarrow> \<not> memory_ok E \<Longrightarrow> Q (error_no_memory, NULL) w'"
  shows "runs (calloc_serial_port E w) Q"
  using assms by (auto simp: calloc_serial_port_def later_def intro!: wp)

text \<open>The port that stands for a tty \<open>t\<close> of the interface \<open>n\<close>.\<close>

definition tty_for :: "'e libudev_scheme \<Rightarrow> string \<Rightarrow> 8 word \<Rightarrow> string \<times> string \<Rightarrow> bool" where
  "tty_for E path i = (\<lambda>(syspath, name). (\<exists>n. is_interface E path i n) \<and>
     (\<exists>t. is_tty E t \<and> syspath = udev_device_get_syspath E t \<and>
        udev_device_get_property_value E t ''DEVNAME'' = Some name))"

lemma tty_forI:
  "is_interface E path i n \<Longrightarrow> is_tty E t \<Longrightarrow>
   udev_device_get_property_value E t ''DEVNAME'' = Some name \<Longrightarrow>
   tty_for E path i (udev_device_get_syspath E t, name)"
  by (auto simp: tty_for_def)

lemma libusbp_serial_port_create_gives:
  assumes "wf_device d" "d \<noteq> NULL" "dev_res d \<subseteq># live w"
  shows "runs (libusbp_serial_port_create E d i True w) (gives sp_res NULL
    (\<lambda>p. wf_sp p \<and> (\<exists>path v. map_option (fst \<circ> fst) (dev_view d) = Some path \<and> sp_view p = Some v \<and>
      tty_for E path i v)) (\<lambda>_. True) w)"
proof -
  obtain L where "live w = dev_res d + L"
    using assms(3) by (auto simp: mset_subset_eq_exists_conv)
  then show ?thesis
    using assms(1,2)
    by (auto simp: libusbp_serial_port_create_def Let_def later_def set_field_def
        libusbp_string_free_def serial_port.rel_ok says_def intro!: wp) (rule tty_forI; assumption)
qed

lemma libusbp_serial_port_copy_gives:
  assumes "wf_sp p" "sp_res p \<subseteq># live w" "p \<noteq> NULL \<longrightarrow> sp_view p \<noteq> None"
  shows "runs (libusbp_serial_port_copy E p True w) (gives sp_res NULL
    (\<lambda>c. wf_sp c \<and> sp_view c = sp_view p) (\<lambda>e. e = error_no_memory \<and> \<not> memory_ok E) w)"
proof -
  obtain L where "live w = sp_res p + L"
    using assms(2) by (auto simp: mset_subset_eq_exists_conv)
  then show ?thesis
    using assms(1,3)
    by (cases p) (auto simp: libusbp_serial_port_copy_def Let_def later_def set_field_def
        serial_port.rel_ok split: ptr.splits intro!: wp)
qed

lemmas libusbp_serial_port_wp [wp] = gives_wp [OF libusbp_serial_port_create_gives]
  gives_wp [OF libusbp_serial_port_copy_gives]

interpretation serial_port_new: constructor libusbp_serial_port_free sp_res wf_sp
    "\<lambda>(d, i). libusbp_serial_port_create E d i True" NULL
    "\<lambda>(d, i) w. wf_device d \<and> d \<noteq> NULL \<and> dev_res d \<subseteq># live w"
    "\<lambda>(d, i) p. wf_sp p" for E :: "'e libudev_scheme"
  by unfold_locales (auto intro!: libusbp_serial_port_wp)

section \<open>Properties\<close>

text \<open>
  Making a serial port never faults and leaks nothing.  The result names a tty device and
  the device node that libudev reports for it, found through the wanted interface of the device;
  otherwise there is an error and no port.  Freeing what was made, complete or not, brings the
  ledger back, apart from the error.
\<close>

theorem serial_port_create_correct:
  assumes "wf_device d" and "dev_view d = Some ((path, serial), ids)" and "dev_res d \<subseteq># live w"
  shows "runs (libusbp_serial_port_create E d i True w) (\<lambda>(e, p) w'.
    (if e = NULL
     then \<exists>n t name. is_interface E path i n \<and> udev_device_get_subsystem E t = Some ''tty'' \<and>
       udev_device_get_property_value E t ''DEVNAME'' = Some name \<and>
       sp_view p = Some (udev_device_get_syspath E t, name)
     else p = NULL) \<and>
    (\<exists>w''. libusbp_serial_port_free p w' = Some w'' \<and> live w'' = live w + err_res e))"
  by (rule libusbp_serial_port_wp(1))
    (use assms in \<open>auto simp: serial_port.rel_ok tty_for_def\<close>)

theorem serial_port_create_correct_witness:
  "runs (libusbp_serial_port_create plenty_udev demo_device 0 True
       \<lparr>next_id = 2, live = {#(Mem, 0), (Mem, 1)#}\<rparr>) (\<lambda>(e, p) w'.
     \<exists>w''. libusbp_serial_port_free p w' = Some w'' \<and>
       live w'' = {#(Mem, 0), (Mem, 1)#} + err_res e)"
  by (rule runs_mono [OF serial_port_create_correct [where path = "''/sys/d''"
        and serial = None and ids = "(0x9502, 0x1FFB, 0x0100)"]]) (auto split: prod.splits)

text \<open>
  A copy of a serial port has the same path and name, freeing it brings the ledger back, and
  a failed allocation is reported by the static memory error with no port.
\<close>

theorem serial_port_copy_correct:
  assumes "wf_sp p" and "sp_view p = Some v" and "live w = L + sp_res p"
  shows "runs (libusbp_serial_port_copy E p True w) (\<lambda>(e, c) w'.
    (if e = NULL then sp_view c = Some v else e = error_no_memory \<and> c = NULL \<and> \<not> memory_ok E) \<and>
    (\<exists>w''. libusbp_serial_port_free c w' = Some w'' \<and> live w'' = live w))"
  by (rule libusbp_serial_port_wp(2)) (use assms in \<open>auto simp: serial_port.rel_ok\<close>)

theorem serial_port_copy_correct_witness:
  "runs (libusbp_serial_port_copy plenty
       (Heap 0 \<lparr>sp_syspath = Heap 1 ''/sys/t'', sp_port_name = Heap 2 ''/dev/ttyACM0''\<rparr>) True
       \<lparr>next_id = 3, live = {#(Mem, 0), (Mem, 1), (Mem, 2)#}\<rparr>) (\<lambda>(e, c) w'.
     e = NULL \<and> sp_view c = Some (''/sys/t'', ''/dev/ttyACM0''))"
  by (rule runs_mono [OF serial_port_copy_correct [where L = "{#}"
        and v = "(''/sys/t'', ''/dev/ttyACM0'')"]]) (auto split: if_splits)

end
