(* ===== verification/WinErrors.thy ===== *)
theory WinErrors
  imports Basics
begin

text \<open>
  \<open>src/src/windows/error_windows.c\<close> and \<open>src/src/error_hresult.c\<close>: the conversion of Windows error
  codes, \<open>CONFIGRET\<close> codes and \<open>HRESULT\<close> values to errors.  The lemmas give the text and the codes
  of the error made from each value.
\<close>

abbreviation (input) "ERROR_FILE_NOT_FOUND \<equiv> (2 :: 32 word)"
abbreviation (input) "ERROR_ACCESS_DENIED \<equiv> (5 :: 32 word)"
abbreviation (input) "ERROR_NOT_ENOUGH_MEMORY \<equiv> (8 :: 32 word)"
abbreviation (input) "ERROR_INVALID_DATA \<equiv> (13 :: 32 word)"
abbreviation (input) "ERROR_OUTOFMEMORY \<equiv> (14 :: 32 word)"
abbreviation (input) "ERROR_GEN_FAILURE \<equiv> (31 :: 32 word)"
abbreviation (input) "ERROR_SEM_TIMEOUT \<equiv> (121 :: 32 word)"
abbreviation (input) "ERROR_INSUFFICIENT_BUFFER \<equiv> (122 :: 32 word)"
abbreviation (input) "ERROR_NO_MORE_ITEMS \<equiv> (259 :: 32 word)"
abbreviation (input) "ERROR_OPERATION_ABORTED \<equiv> (995 :: 32 word)"
abbreviation (input) "ERROR_IO_INCOMPLETE \<equiv> (996 :: 32 word)"
abbreviation (input) "ERROR_IO_PENDING \<equiv> (997 :: 32 word)"

text \<open>
  \<open>FormatMessage E code\<close> is the system's English sentence for a code, if there is one.  A sentence
  that does not fit the buffer of 256 bytes is not delivered, and no sentence is empty.
\<close>

record win32 = environment +
  FormatMessage :: "32 word \<Rightarrow> string option"

definition windows_message :: "'e win32_scheme \<Rightarrow> 32 word \<Rightarrow> string option" where
  "windows_message E error_code = (case FormatMessage E error_code of None \<Rightarrow> None
     | Some s \<Rightarrow> if s \<noteq> '''' \<and> length s < 256 then Some s else None)"

section \<open>The operations of error_windows.c and error_hresult.c\<close>

text \<open>
  \<open>GetLastError()\<close> is an argument, \<open>error_code\<close>: the code of the call that failed just before.
  First the switch: the error after the case for \<open>error_code\<close>, and \<open>skip_windows_message\<close>.
\<close>

definition winapi_case :: "'e win32_scheme \<Rightarrow> err \<Rightarrow> 32 word \<Rightarrow> 'w world_scheme
    \<Rightarrow> ((err \<times> bool) \<times> 'w world_scheme) option" where
  "winapi_case E error error_code w =
     (if error_code = ERROR_ACCESS_DENIED then do {
        (error, w) \<leftarrow> error_add E error
          ''Try closing all other programs that are using the device.'' w;
        (error, w) \<leftarrow> error_add_code E error (code_of LIBUSBP_ERROR_ACCESS_DENIED) w;
        Some ((error, False), w)
      }
      else if error_code = ERROR_OUTOFMEMORY \<or> error_code = ERROR_NOT_ENOUGH_MEMORY then do {
        (error, w) \<leftarrow> error_add_code E error (code_of LIBUSBP_ERROR_MEMORY) w;
        Some ((error, False), w)
      }
      else if error_code = ERROR_GEN_FAILURE then do {
        (error, w) \<leftarrow> error_add E error ''The request was invalid or there was an I/O problem.'' w;
        (error, w) \<leftarrow> error_add_code E error (code_of LIBUSBP_ERROR_STALL) w;
        (error, w) \<leftarrow> error_add_code E error (code_of LIBUSBP_ERROR_DEVICE_DISCONNECTED) w;
        Some ((error, True), w)
      }
      else if error_code = ERROR_SEM_TIMEOUT then do {
        (error, w) \<leftarrow> error_add E error ''The operation timed out.'' w;
        (error, w) \<leftarrow> error_add_code E error (code_of LIBUSBP_ERROR_TIMEOUT) w;
        Some ((error, True), w)
      }
      else if error_code = ERROR_OPERATION_ABORTED then do {
        (error, w) \<leftarrow> error_add E error ''The operation was cancelled.'' w;
        (error, w) \<leftarrow> error_add_code E error (code_of LIBUSBP_ERROR_CANCELLED) w;
        Some ((error, True), w)
      }
      else Some ((error, False), w))"

definition error_create_winapi_v :: "'e win32_scheme \<Rightarrow> 32 word \<Rightarrow> string \<Rightarrow> 'w world_scheme
    \<Rightarrow> (err \<times> 'w world_scheme) option" where
  "error_create_winapi_v E error_code format w = do {
     (error, w) \<leftarrow> error_create E (''Windows error code 0x'' @ fmt_x 0 (unat error_code) @ ''.'') w;
     ((error, skip_windows_message), w) \<leftarrow> winapi_case E error error_code w;
     (error, w) \<leftarrow> (if \<not> skip_windows_message
       then (case windows_message E error_code of
               None \<Rightarrow> Some (error, w)
             | Some buffer \<Rightarrow> error_add E error
                 (if last buffer = CHR '' '' then butlast buffer else buffer) w)
       else Some (error, w));
     error_add_v E error (Some format) w
   }"

definition error_create_winapi :: "'e win32_scheme \<Rightarrow> 32 word \<Rightarrow> string \<Rightarrow> 'w world_scheme
    \<Rightarrow> (err \<times> 'w world_scheme) option" where
  "error_create_winapi E error_code format w = error_create_winapi_v E error_code format w"

definition error_create_overlapped :: "'e win32_scheme \<Rightarrow> 32 word \<Rightarrow> string \<Rightarrow> 'w world_scheme
    \<Rightarrow> (err \<times> 'w world_scheme) option" where
  "error_create_overlapped E error_code format w =
     (if error_code = ERROR_FILE_NOT_FOUND then do {
        (error, w) \<leftarrow> error_create E
          (''Windows error code 0x'' @ fmt_x 0 (unat error_code) @ ''.'') w;
        (error, w) \<leftarrow> error_add E error ''The device was disconnected.'' w;
        (error, w) \<leftarrow> error_add_code E error (code_of LIBUSBP_ERROR_DEVICE_DISCONNECTED) w;
        error_add_v E error (Some format) w
      }
      else error_create_winapi_v E error_code format w)"

definition error_create_cr :: "'e environment_scheme \<Rightarrow> 32 word \<Rightarrow> string \<Rightarrow> 'w world_scheme
    \<Rightarrow> (err \<times> 'w world_scheme) option" where
  "error_create_cr E cr format w = do {
     (error, w) \<leftarrow> error_create E (''CONFIGRET error code 0x'' @ fmt_x 0 (unat cr) @ ''.'') w;
     error_add_v E error (Some format) w
   }"

definition error_create_hr :: "'e environment_scheme \<Rightarrow> 32 word \<Rightarrow> string \<Rightarrow> 'w world_scheme
    \<Rightarrow> (err \<times> 'w world_scheme) option" where
  "error_create_hr E hr format w = do {
     (error, w) \<leftarrow> error_create E (''HRESULT error code 0x'' @ fmt_x 0 (unat hr) @ ''.'') w;
     error_add_v E error (Some format) w
   }"

section \<open>What the errors say\<close>

definition winapi_codes :: "32 word \<Rightarrow> libusbp_error_code list" where
  "winapi_codes n =
     (if n = ERROR_ACCESS_DENIED then [LIBUSBP_ERROR_ACCESS_DENIED]
      else if n \<in> {ERROR_OUTOFMEMORY, ERROR_NOT_ENOUGH_MEMORY} then [LIBUSBP_ERROR_MEMORY]
      else if n = ERROR_GEN_FAILURE then [LIBUSBP_ERROR_STALL, LIBUSBP_ERROR_DEVICE_DISCONNECTED]
      else if n = ERROR_SEM_TIMEOUT then [LIBUSBP_ERROR_TIMEOUT]
      else if n = ERROR_OPERATION_ABORTED then [LIBUSBP_ERROR_CANCELLED]
      else [])"

text \<open>The sentence of the library for a code, and whether it takes the place of the system's.\<close>

definition winapi_sentence :: "32 word \<Rightarrow> string option" where
  "winapi_sentence n =
     (if n = ERROR_ACCESS_DENIED then Some ''Try closing all other programs that are using the device.''
      else if n = ERROR_GEN_FAILURE then Some ''The request was invalid or there was an I/O problem.''
      else if n = ERROR_SEM_TIMEOUT then Some ''The operation timed out.''
      else if n = ERROR_OPERATION_ABORTED then Some ''The operation was cancelled.''
      else None)"

definition winapi_skips :: "32 word \<Rightarrow> bool" where
  "winapi_skips n \<longleftrightarrow> n \<in> {ERROR_GEN_FAILURE, ERROR_SEM_TIMEOUT, ERROR_OPERATION_ABORTED}"

definition trim_message :: "string \<Rightarrow> string" where
  "trim_message s = (if last s = CHR '' '' then butlast s else s)"

definition winapi_text :: "'e win32_scheme \<Rightarrow> 32 word \<Rightarrow> string" where
  "winapi_text E n =
     (let first = ''Windows error code 0x'' @ fmt_x 0 (unat n) @ ''.'';
          second = (case winapi_sentence n of None \<Rightarrow> first | Some s \<Rightarrow> join_message s first)
      in if winapi_skips n then second
         else case windows_message E n of None \<Rightarrow> second
           | Some s \<Rightarrow> join_message (trim_message s) second)"

lemma winapi_case_spec:
  assumes e: "says E t [] e" "err_res e \<subseteq># live w"
  shows "runs (winapi_case E e n w) (\<lambda>(e', skip) w'. later w w' \<and>
     live w' = live w - err_res e + err_res e' \<and> skip = winapi_skips n \<and>
     says E (case winapi_sentence n of None \<Rightarrow> t | Some s \<Rightarrow> join_message s t)
       (map code_of (winapi_codes n)) e')"
proof -
  obtain L where "live w = err_res e + L"
    using e(2) by (auto simp: mset_subset_eq_exists_conv)
  then show ?thesis
    using e(1)
    by (auto simp: winapi_case_def winapi_sentence_def winapi_codes_def winapi_skips_def says_def
        later_def intro!: wp)
qed

lemmas winapi_case_wp = winapi_case_spec [THEN runs_mono]

lemma error_create_winapi_v_wp [wp]:
  assumes "\<And>e' w'. later w w' \<Longrightarrow> live w' = live w + err_res e' \<Longrightarrow>
    says E (join_message fmt (winapi_text E n)) (map code_of (winapi_codes n)) e' \<Longrightarrow> Q e' w'"
  shows "runs (error_create_winapi_v E n fmt w) Q"
  using assms
  by (auto simp: error_create_winapi_v_def winapi_text_def trim_message_def Let_def later_def says_def
      split: option.splits intro!: winapi_case_wp wp)

lemmas error_create_winapi_wp [wp] = error_create_winapi_v_wp [folded error_create_winapi_def]

text \<open>For the result of an asynchronous transfer a missing file means a device that is gone.\<close>

definition overlapped_codes :: "32 word \<Rightarrow> libusbp_error_code list" where
  "overlapped_codes n = (if n = ERROR_FILE_NOT_FOUND then [LIBUSBP_ERROR_DEVICE_DISCONNECTED]
     else winapi_codes n)"

definition overlapped_text :: "'e win32_scheme \<Rightarrow> 32 word \<Rightarrow> string" where
  "overlapped_text E n = (if n = ERROR_FILE_NOT_FOUND
     then join_message ''The device was disconnected.''
       (''Windows error code 0x'' @ fmt_x 0 2 @ ''.'') else winapi_text E n)"

lemma error_create_overlapped_wp [wp]:
  assumes "\<And>e' w'. later w w' \<Longrightarrow> live w' = live w + err_res e' \<Longrightarrow>
    says E (join_message fmt (overlapped_text E n)) (map code_of (overlapped_codes n)) e' \<Longrightarrow> Q e' w'"
  shows "runs (error_create_overlapped E n fmt w) Q"
  using assms
  by (auto simp: error_create_overlapped_def overlapped_codes_def overlapped_text_def later_def
      says_def intro!: wp)

lemma error_create_cr_wp [wp]:
  assumes "\<And>e' w'. later w w' \<Longrightarrow> live w' = live w + err_res e' \<Longrightarrow>
    says E (join_message fmt (''CONFIGRET error code 0x'' @ fmt_x 0 (unat n) @ ''.'')) [] e' \<Longrightarrow> Q e' w'"
  shows "runs (error_create_cr E n fmt w) Q"
  using assms by (auto simp: error_create_cr_def later_def says_def intro!: wp)

lemma error_create_hr_wp [wp]:
  assumes "\<And>e' w'. later w w' \<Longrightarrow> live w' = live w + err_res e' \<Longrightarrow>
    says E (join_message fmt (''HRESULT error code 0x'' @ fmt_x 0 (unat n) @ ''.'')) [] e' \<Longrightarrow> Q e' w'"
  shows "runs (error_create_hr E n fmt w) Q"
  using assms by (auto simp: error_create_hr_def later_def says_def intro!: wp)

section \<open>Properties\<close>

lemma says_has_code:
  assumes "says E t (map code_of cs) e" "memory_ok E" "err_res e \<subseteq># live w"
  shows "libusbp_error_has_code e (code_of c) w = Some (c \<in> set cs)"
  using assms by (auto simp: says_def libusbp_error_has_code_ok image_iff)

text \<open>
  The conversion of a Windows error code always gives an error and leaks nothing.  With memory
  available it says the caller's context, then the sentence for the code (the library's, the
  system's, or both), then the number, and it has exactly the codes for that value; the result of
  an asynchronous transfer has the code for a disconnected device when the file was not found, too.
\<close>

theorem error_create_winapi_correct:
  assumes "memory_ok E"
  shows "runs (error_create_winapi E n fmt w) (\<lambda>e w'. e \<noteq> NULL \<and> live w' = live w + err_res e \<and>
      err_text e = join_message fmt (winapi_text E n) \<and>
      (\<forall>c. libusbp_error_has_code e (code_of c) w' = Some (case c of
          LIBUSBP_ERROR_MEMORY \<Rightarrow> n = ERROR_NOT_ENOUGH_MEMORY \<or> n = ERROR_OUTOFMEMORY
        | LIBUSBP_ERROR_ACCESS_DENIED \<Rightarrow> n = ERROR_ACCESS_DENIED
        | LIBUSBP_ERROR_TIMEOUT \<Rightarrow> n = ERROR_SEM_TIMEOUT
        | LIBUSBP_ERROR_DEVICE_DISCONNECTED \<Rightarrow> n = ERROR_GEN_FAILURE
        | LIBUSBP_ERROR_STALL \<Rightarrow> n = ERROR_GEN_FAILURE
        | LIBUSBP_ERROR_CANCELLED \<Rightarrow> n = ERROR_OPERATION_ABORTED
        | _ \<Rightarrow> False))) \<and>
    runs (error_create_overlapped E n fmt w) (\<lambda>e w'. e \<noteq> NULL \<and> live w' = live w + err_res e \<and>
      libusbp_error_has_code e (code_of LIBUSBP_ERROR_DEVICE_DISCONNECTED) w' =
        Some (n = ERROR_FILE_NOT_FOUND \<or> n = ERROR_GEN_FAILURE))"
proof -
  have "(c \<in> set (winapi_codes n)) = (case c of
          LIBUSBP_ERROR_MEMORY \<Rightarrow> n = ERROR_NOT_ENOUGH_MEMORY \<or> n = ERROR_OUTOFMEMORY
        | LIBUSBP_ERROR_ACCESS_DENIED \<Rightarrow> n = ERROR_ACCESS_DENIED
        | LIBUSBP_ERROR_TIMEOUT \<Rightarrow> n = ERROR_SEM_TIMEOUT
        | LIBUSBP_ERROR_DEVICE_DISCONNECTED \<Rightarrow> n = ERROR_GEN_FAILURE
        | LIBUSBP_ERROR_STALL \<Rightarrow> n = ERROR_GEN_FAILURE
        | LIBUSBP_ERROR_CANCELLED \<Rightarrow> n = ERROR_OPERATION_ABORTED
        | _ \<Rightarrow> False)" for c
    by (cases c) (auto simp: winapi_codes_def)
  moreover have "(LIBUSBP_ERROR_DEVICE_DISCONNECTED \<in> set (overlapped_codes n)) =
      (n = ERROR_FILE_NOT_FOUND \<or> n = ERROR_GEN_FAILURE)"
    by (auto simp: overlapped_codes_def winapi_codes_def)
  ultimately show ?thesis
    using assms
    by (auto simp: says_has_code simp del: code_of.simps dest: says_wf
        intro!: error_create_winapi_wp error_create_overlapped_wp) (auto simp: says_def)
qed

theorem error_create_winapi_correct_witness:
  "runs (error_create_winapi \<lparr>malloc_ok = \<lambda>_. True, FormatMessage = \<lambda>_. None\<rparr> 31 ''Failed.''
      \<lparr>next_id = 0, live = {#}\<rparr>)
    (\<lambda>e w'. e \<noteq> NULL \<and> live w' = err_res e \<and>
      libusbp_error_has_code e (code_of LIBUSBP_ERROR_STALL) w' = Some True)"
  by (rule runs_mono [OF error_create_winapi_correct [THEN conjunct1]])
    (auto simp: memory_ok_def dest: spec [of _ LIBUSBP_ERROR_STALL])

end
