(* ===== verification/DeviceWindows.thy ===== *)
theory DeviceWindows
  imports WinErrors DeviceArray
begin

text \<open>
  Devices on Windows: \<open>src/src/windows/device_instance_id_windows.c\<close>,
  \<open>src/src/windows/device_windows.c\<close> and \<open>src/src/windows/list_windows.c\<close>.  A name that the Linux
  back end has too ends in \<open>_windows\<close>.  The lemmas show what a device object records of the hardware
  IDs, that parsing them never reads beyond their buffer, and that nothing leaks.
\<close>

section \<open>SetupAPI\<close>

text \<open>
  What the sources use of SetupAPI.  A device information set has a handle (its identity, \<open>None\<close> is
  \<open>INVALID_HANDLE_VALUE\<close>) and is a snapshot, \<open>dev_info_set\<close>, of device nodes.  Every call is an event
  with a number of its own; an answer is an error code or the results.  \<open>heap_chars\<close> gives what a
  fresh block of \<open>malloc\<close> happens to hold.
\<close>

datatype dev_class = USB_DEVICE_INTERFACE | USB_ENUMERATOR | COMPORT_INTERFACE | MODEM_INTERFACE
  | GUID_INTERFACE "128 word"

record setup_api = win32 +
  heap_chars :: "nat \<Rightarrow> nat \<Rightarrow> char"
  SetupDiGetClassDevs :: "nat \<Rightarrow> dev_class \<Rightarrow> 32 word option"
  dev_info_set :: "nat \<Rightarrow> nat list"
  SetupDiEnumDeviceInfo :: "nat \<Rightarrow> nat \<Rightarrow> 32 word \<Rightarrow> 32 word option"
  SetupDiGetDeviceInstanceId :: "nat \<Rightarrow> nat \<Rightarrow> nat \<Rightarrow> 32 word + string"
  SPDRP_HARDWAREID_size :: "nat \<Rightarrow> nat \<Rightarrow> nat \<Rightarrow> 32 word option \<times> 32 word"
  SPDRP_HARDWAREID :: "nat \<Rightarrow> nat \<Rightarrow> nat \<Rightarrow> 32 word + 32 word \<times> string"

abbreviation (input) "ERROR_INVALID_HANDLE \<equiv> (6 :: 32 word)"
abbreviation (input) "REG_SZ \<equiv> (1 :: 32 word)"
abbreviation (input) "REG_MULTI_SZ \<equiv> (7 :: 32 word)"
abbreviation (input) "NUL \<equiv> CHR 0x00"

text \<open>A new set: the handle, and the error code when there is none.\<close>

definition get_class_devs :: "'e setup_api_scheme \<Rightarrow> dev_class \<Rightarrow> 'w world_scheme
    \<Rightarrow> ((nat option \<times> 32 word) \<times> 'w world_scheme) option" where
  "get_class_devs E c w = (case SetupDiGetClassDevs E (next_id w) c of
       None \<Rightarrow> Some ((Some (next_id w), 0), take_res DeviceInfoSet w)
     | Some e \<Rightarrow> Some ((None, e), tick w))"

text \<open>The member of a set at an index; behind the last one the code says that there are no more.\<close>

definition enum_device_info :: "'e setup_api_scheme \<Rightarrow> nat option \<Rightarrow> 32 word \<Rightarrow> 'w world_scheme
    \<Rightarrow> ((32 word + nat) \<times> 'w world_scheme) option" where
  "enum_device_info E l i w = (case l of
       None \<Rightarrow> Some (Inl ERROR_INVALID_HANDLE, tick w)
     | Some h \<Rightarrow> do {
         borrow (DeviceInfoSet, h) w;
         Some (if unat i < length (dev_info_set E h)
           then (case SetupDiEnumDeviceInfo E (next_id w) h i of
                   None \<Rightarrow> Inr (dev_info_set E h ! unat i) | Some e \<Rightarrow> Inl e)
           else Inl ERROR_NO_MORE_ITEMS, tick w)
       })"

text \<open>The instance ID of a member, if it fits a buffer of \<open>n\<close> bytes.\<close>

definition get_instance_id :: "'e setup_api_scheme \<Rightarrow> nat option \<Rightarrow> nat \<Rightarrow> nat \<Rightarrow> 'w world_scheme
    \<Rightarrow> ((32 word + string) \<times> 'w world_scheme) option" where
  "get_instance_id E l info n w = do {
     h \<leftarrow> l;
     borrow (DeviceInfoSet, h) w;
     Some (case SetupDiGetDeviceInstanceId E (next_id w) h info of
         Inl e \<Rightarrow> Inl e
       | Inr s \<Rightarrow> if length s < n then Inr s else Inl ERROR_INSUFFICIENT_BUFFER, tick w)
   }"

section \<open>device_instance_id_windows.c\<close>

definition MAX_DEVICE_ID_LEN :: nat where
  "MAX_DEVICE_ID_LEN = 200"

definition create_id_string :: "'e setup_api_scheme \<Rightarrow> nat option \<Rightarrow> nat \<Rightarrow> 'w world_scheme
    \<Rightarrow> ((err \<times> cstr) \<times> 'w world_scheme) option" where
  "create_id_string E list info w =
     (if list = None then None
      else do {
        (new_id, w) \<leftarrow> malloc E w;
        if new_id = NULL then Some ((error_no_memory, NULL), w)
        else do {
          (r, w) \<leftarrow> get_instance_id E list info (MAX_DEVICE_ID_LEN + 1) w;
          case r of
            Inl e \<Rightarrow> do {
              w \<leftarrow> free new_id w;
              (error, w) \<leftarrow> error_create_winapi E e ''Error getting device instance ID.'' w;
              Some ((error, NULL), w)
            }
          | Inr s \<Rightarrow> do { id \<leftarrow> store new_id s w; Some ((NULL, id), w) }
        }
      })"

section \<open>device_windows.c\<close>

record libusbp_device_windows =
  device_instance_id :: cstr
  product_id_windows :: "16 word"
  vendor_id_windows :: "16 word"
  revision_windows :: "16 word"

type_synonym device_windows = "libusbp_device_windows ptr"

definition device_allocate :: "'e environment_scheme \<Rightarrow> 'w world_scheme
    \<Rightarrow> ((err \<times> device_windows) \<times> 'w world_scheme) option" where
  "device_allocate E w = do {
     (device, w) \<leftarrow> malloc E w;
     if device = NULL then Some ((error_no_memory, NULL), w)
     else do {
       device \<leftarrow> store device \<lparr>device_instance_id = NULL, product_id_windows = 0,
         vendor_id_windows = 0, revision_windows = 0\<rparr> w;
       Some ((NULL, device), w)
     }
   }"

text \<open>
  The call that reads the IDs writes at most \<open>size\<close> bytes to the block; the bytes behind keep what
  they were.
\<close>

definition device_get_hardware_ids :: "'e setup_api_scheme \<Rightarrow> nat option \<Rightarrow> nat \<Rightarrow> 'w world_scheme
    \<Rightarrow> ((err \<times> cstr) \<times> 'w world_scheme) option" where
  "device_get_hardware_ids E list info w = do {
     h \<leftarrow> list;
     borrow (DeviceInfoSet, h) w;
     let (r, size) = SPDRP_HARDWAREID_size E (next_id w) h info;
     let size = unat size;
     let w = tick w;
     (error, w) \<leftarrow> (case r of
         Some e \<Rightarrow> if e \<noteq> ERROR_INSUFFICIENT_BUFFER
           then error_create_winapi E e ''Failed to get size of hardware IDs.'' w
           else Some (NULL, w)
       | None \<Rightarrow> Some (NULL, w));
     ((error, new_ids), w) \<leftarrow> ok_then error NULL (\<lambda>w. do {
         (b, w) \<leftarrow> malloc E w;
         if b = NULL then Some ((error_no_memory, NULL), w)
         else do {
           b \<leftarrow> store b (map (heap_chars E (next_id w)) [0..<size]) w;
           Some ((NULL, b), w)
         }
       }) w;
     ((error, new_ids, data_type), w) \<leftarrow> (if error = NULL then do {
         old \<leftarrow> deref new_ids w;
         (case SPDRP_HARDWAREID E (next_id w) h info of
            Inl e \<Rightarrow> do {
              (error, w) \<leftarrow> error_create_winapi E e ''Failed to get hardware IDs.'' (tick w);
              Some ((error, new_ids, 0), w)
            }
          | Inr (data_type, bytes) \<Rightarrow>
              if length bytes \<le> size then do {
                new_ids \<leftarrow> store new_ids (bytes @ drop (length bytes) old) w;
                Some ((NULL, new_ids, data_type), tick w)
              }
              else do {
                (error, w) \<leftarrow> error_create_winapi E ERROR_INSUFFICIENT_BUFFER
                  ''Failed to get hardware IDs.'' (tick w);
                Some ((error, new_ids, 0), w)
              })
       }
       else Some ((error, new_ids, 0), w));
     (error, w) \<leftarrow> (if error = NULL \<and> data_type \<noteq> REG_MULTI_SZ
       then error_create E (''Hardware IDs are wrong data type: '' @ fmt_d (sint data_type) @ ''.'') w
       else Some (error, w));
     (error, w) \<leftarrow> (if error = NULL then do {
         s \<leftarrow> deref new_ids w;
         if size < 2 \<or> s ! (size - 2) \<noteq> NUL \<or> s ! (size - 1) \<noteq> NUL
         then error_create E ''Hardware IDs are empty or not terminated correctly.'' w
         else Some (NULL, w)
       }
       else Some (error, w));
     (ids, new_ids) \<leftarrow> (if error = NULL then do {
         s \<leftarrow> deref new_ids w;
         ids \<leftarrow> store new_ids (map capitalize s) w;
         Some (ids, NULL)
       }
       else Some (NULL, new_ids));
     w \<leftarrow> free new_ids w;
     Some ((error, ids), w)
   }"

text \<open>\<open>sscanf\<close> of one ID; \<open>None\<close> is a return value other than 3.\<close>

definition scan_hardware_id :: "string \<Rightarrow> (16 word \<times> 16 word \<times> 16 word) option" where
  "scan_hardware_id s = do {
     s \<leftarrow> scan_lit (''USB'' @ CHR 0x5C # ''VID_'') s;
     (vendor_id, s) \<leftarrow> scan_hex_item 4 s;
     s \<leftarrow> scan_lit ''&PID_'' s;
     (product_id, s) \<leftarrow> scan_hex_item 4 s;
     s \<leftarrow> scan_lit ''&REV_'' s;
     (revision, s) \<leftarrow> scan_hex_item 4 s;
     Some (vendor_id, product_id, revision)
   }"

text \<open>
  The loop over the strings of a \<open>REG_MULTI_SZ\<close> buffer, from what is left of it: \<open>Some None\<close> is the
  end of the list, \<open>None\<close> a read beyond the buffer.
\<close>

function hardware_ids_loop :: "string \<Rightarrow> (16 word \<times> 16 word \<times> 16 word) option option" where
  "hardware_ids_loop ids =
     (case ids of [] \<Rightarrow> None
      | c # _ \<Rightarrow>
          if c = NUL then Some None
          else (case dropWhile (\<lambda>c. c \<noteq> NUL) ids of [] \<Rightarrow> None
             | _ # rest \<Rightarrow>
                 (case scan_hardware_id (takeWhile (\<lambda>c. c \<noteq> NUL) ids) of
                    Some r \<Rightarrow> Some (Some r)
                  | None \<Rightarrow> hardware_ids_loop rest)))"
  by pat_completeness auto

termination
proof (relation "measure length")
  fix ids a b x21 x22
  assume "dropWhile (\<lambda>c. c \<noteq> NUL) ids = x21 # x22"
  then have "length (x21 # x22) \<le> length ids" by (metis length_dropWhile_le)
  then show "(x22, ids) \<in> measure length" by simp
qed simp

declare hardware_ids_loop.simps [simp del]

definition device_take_info_from_hardware_ids :: "'e environment_scheme \<Rightarrow> device_windows \<Rightarrow> cstr
    \<Rightarrow> 'w world_scheme \<Rightarrow> ((err \<times> device_windows) \<times> 'w world_scheme) option" where
  "device_take_info_from_hardware_ids E device ids w = do {
     s \<leftarrow> deref ids w;
     x \<leftarrow> deref device w;
     r \<leftarrow> hardware_ids_loop s;
     case r of
       Some (v, p, r3) \<Rightarrow> do {
         device \<leftarrow> store device (x\<lparr>vendor_id_windows := v, product_id_windows := p,
           revision_windows := r3\<rparr>) w;
         Some ((NULL, device), w)
       }
     | None \<Rightarrow> do {
         device \<leftarrow> store device (x\<lparr>vendor_id_windows := 0, product_id_windows := 0,
           revision_windows := 0\<rparr>) w;
         (error, w) \<leftarrow> error_create E ''Device has no hardware ID with the correct format.'' w;
         Some ((error, device), w)
       }
   }"

definition libusbp_device_free_windows :: "device_windows \<Rightarrow> 'w world_scheme \<Rightarrow> 'w world_scheme option" where
  "libusbp_device_free_windows device w =
     (if device = NULL then Some w
      else do {
        x \<leftarrow> deref device w;
        w \<leftarrow> free (device_instance_id x) w;
        free device w
      })"

definition create_device :: "'e setup_api_scheme \<Rightarrow> nat option \<Rightarrow> nat \<Rightarrow> 'w world_scheme
    \<Rightarrow> ((err \<times> device_windows) \<times> 'w world_scheme) option" where
  "create_device E list info w =
     (if list = None then None
      else do {
        ((error, new_device), w) \<leftarrow> device_allocate E w;
        ((error, new_device), w) \<leftarrow> ok_then error new_device (\<lambda>w. do {
            ((error, id), w) \<leftarrow> create_id_string E list info w;
            x \<leftarrow> deref new_device w;
            new_device \<leftarrow> store new_device (x\<lparr>device_instance_id := id\<rparr>) w;
            Some ((error, new_device), w)
          }) w;
        ((error, new_ids), w) \<leftarrow> ok_then error NULL (device_get_hardware_ids E list info) w;
        ((error, new_device), w) \<leftarrow> ok_then error new_device
          (device_take_info_from_hardware_ids E new_device new_ids) w;
        let (device, new_device) = (if error = NULL then (new_device, NULL) else (NULL, new_device));
        w \<leftarrow> libusbp_string_free new_ids w;
        w \<leftarrow> libusbp_device_free_windows new_device w;
        Some ((error, device), w)
      })"


definition libusbp_device_copy_windows :: "'e environment_scheme \<Rightarrow> device_windows \<Rightarrow> bool
    \<Rightarrow> 'w world_scheme \<Rightarrow> ((err \<times> device_windows) \<times> 'w world_scheme) option" where
  "libusbp_device_copy_windows E source given w =
     (if \<not> given then do {
        (error, w) \<leftarrow> error_create E ''Device output pointer is null.'' w;
        Some ((error, NULL), w)
      }
      else if source = NULL then Some ((NULL, NULL), w)
      else do {
        ((error, new_device), w) \<leftarrow> device_allocate E w;
        ((error, new_device), w) \<leftarrow> ok_then error new_device (\<lambda>w. do {
            x \<leftarrow> deref source w;
            s \<leftarrow> deref (device_instance_id x) w;
            (new_id, w) \<leftarrow> malloc E w;
            if new_id = NULL then Some ((error_no_memory, new_device), w)
            else do {
              new_id \<leftarrow> store new_id s w;
              y \<leftarrow> deref new_device w;
              new_device \<leftarrow> store new_device (y\<lparr>device_instance_id := new_id\<rparr>) w;
              Some ((NULL, new_device), w)
            }
          }) w;
        ((error, new_device), w) \<leftarrow> ok_then error new_device (\<lambda>w. do {
            x \<leftarrow> deref source w;
            y \<leftarrow> deref new_device w;
            new_device \<leftarrow> store new_device (y\<lparr>vendor_id_windows := vendor_id_windows x,
              product_id_windows := product_id_windows x, revision_windows := revision_windows x\<rparr>) w;
            Some ((NULL, new_device), w)
          }) w;
        let (dest, new_device) = (if error = NULL then (new_device, NULL) else (NULL, new_device));
        w \<leftarrow> libusbp_device_free_windows new_device w;
        Some ((error, dest), w)
      })"

text \<open>The getters; \<open>given\<close> says whether the output pointer is there.\<close>

definition libusbp_device_get_vendor_id_windows :: "'e environment_scheme \<Rightarrow> device_windows \<Rightarrow> bool
    \<Rightarrow> 'w world_scheme \<Rightarrow> ((err \<times> 16 word) \<times> 'w world_scheme) option" where
  "libusbp_device_get_vendor_id_windows E device given w =
     (if \<not> given then do {
        (error, w) \<leftarrow> error_create E ''Vendor ID output pointer is null.'' w;
        Some ((error, 0), w)
      }
      else if device = NULL then do {
        (error, w) \<leftarrow> error_create E ''Device is null.'' w;
        Some ((error, 0), w)
      }
      else do { x \<leftarrow> deref device w; Some ((NULL, vendor_id_windows x), w) })"

definition libusbp_device_get_product_id_windows :: "'e environment_scheme \<Rightarrow> device_windows \<Rightarrow> bool
    \<Rightarrow> 'w world_scheme \<Rightarrow> ((err \<times> 16 word) \<times> 'w world_scheme) option" where
  "libusbp_device_get_product_id_windows E device given w =
     (if \<not> given then do {
        (error, w) \<leftarrow> error_create E ''Product ID output pointer is null.'' w;
        Some ((error, 0), w)
      }
      else if device = NULL then do {
        (error, w) \<leftarrow> error_create E ''Device is null.'' w;
        Some ((error, 0), w)
      }
      else do { x \<leftarrow> deref device w; Some ((NULL, product_id_windows x), w) })"

definition libusbp_device_get_revision_windows :: "'e environment_scheme \<Rightarrow> device_windows \<Rightarrow> bool
    \<Rightarrow> 'w world_scheme \<Rightarrow> ((err \<times> 16 word) \<times> 'w world_scheme) option" where
  "libusbp_device_get_revision_windows E device given w =
     (if \<not> given then do {
        (error, w) \<leftarrow> error_create E ''Device revision output pointer is null.'' w;
        Some ((error, 0), w)
      }
      else if device = NULL then do {
        (error, w) \<leftarrow> error_create E ''Device is null.'' w;
        Some ((error, 0), w)
      }
      else do { x \<leftarrow> deref device w; Some ((NULL, revision_windows x), w) })"

text \<open>
  The serial number is what follows the 22 characters \<open>USB\VID_xxxx&PID_xxxx\\<close> of the instance ID.
  The pointer into the middle of the string is a static one: it is read, never freed.
\<close>

definition libusbp_device_get_serial_number_windows :: "'e environment_scheme \<Rightarrow> device_windows \<Rightarrow> bool
    \<Rightarrow> 'w world_scheme \<Rightarrow> ((err \<times> cstr) \<times> 'w world_scheme) option" where
  "libusbp_device_get_serial_number_windows E device given w =
     (if \<not> given then do {
        (error, w) \<leftarrow> error_create E ''Serial number output pointer is null.'' w;
        Some ((error, NULL), w)
      }
      else if device = NULL then do {
        (error, w) \<leftarrow> error_create E ''Device is null.'' w;
        Some ((error, NULL), w)
      }
      else do {
        x \<leftarrow> deref device w;
        s \<leftarrow> deref (device_instance_id x) w;
        (error, w) \<leftarrow> (if length s < 22
          then error_create E ''Device instance ID is too short.'' w else Some (NULL, w));
        ((error, serial_number), w) \<leftarrow> ok_then error NULL (string_copy E (Static (drop 22 s))) w;
        (error, w) \<leftarrow> (if error \<noteq> NULL
          then error_add E error ''Failed to get serial number.'' w else Some (NULL, w));
        Some ((error, serial_number), w)
      })"

definition libusbp_device_get_os_id_windows :: "'e environment_scheme \<Rightarrow> device_windows \<Rightarrow> bool
    \<Rightarrow> 'w world_scheme \<Rightarrow> ((err \<times> cstr) \<times> 'w world_scheme) option" where
  "libusbp_device_get_os_id_windows E device given w =
     (if \<not> given then do {
        (error, w) \<leftarrow> error_create E ''Device OS ID output pointer is null.'' w;
        Some ((error, NULL), w)
      }
      else if device = NULL then do {
        (error, w) \<leftarrow> error_create E ''Device is null.'' w;
        Some ((error, NULL), w)
      }
      else do { x \<leftarrow> deref device w; string_copy E (device_instance_id x) w })"

section \<open>list_windows.c\<close>

definition try_create_device :: "'e setup_api_scheme \<Rightarrow> nat option \<Rightarrow> nat \<Rightarrow> 'w world_scheme
    \<Rightarrow> (device_windows \<times> 'w world_scheme) option" where
  "try_create_device E list info w = do {
     ((error, device), w) \<leftarrow> create_device E list info w;
     if error \<noteq> NULL then
       (if device \<noteq> NULL then None
        else do { w \<leftarrow> libusbp_error_free error w; Some (NULL, w) })
     else Some (device, w)
   }"

text \<open>The index is a \<open>DWORD\<close>; the loop ends by itself only when the set ends before it wraps.\<close>

partial_function (option) list_loop_windows :: "'e setup_api_scheme \<Rightarrow> nat option
    \<Rightarrow> libusbp_device_windows device_list \<Rightarrow> nat \<Rightarrow> 32 word \<Rightarrow> 'w world_scheme
    \<Rightarrow> ((err \<times> libusbp_device_windows device_list \<times> nat) \<times> 'w world_scheme) option" where
  "list_loop_windows E handle new_list n index w = do {
     (r, w) \<leftarrow> enum_device_info E handle index w;
     case r of
       Inl e \<Rightarrow>
         if e = ERROR_NO_MORE_ITEMS then Some ((NULL, new_list, n), w)
         else do {
           (error, w) \<leftarrow> error_create_winapi E e
             ''Failed to test for the end of the USB device list.'' w;
           Some ((error, new_list, n), w)
         }
     | Inr info \<Rightarrow> do {
         (device, w) \<leftarrow> try_create_device E handle info w;
         ((error, new_list, n), w) \<leftarrow> (if device \<noteq> NULL
           then device_list_append E (new_list, n) device w
           else Some ((NULL, new_list, n), w));
         if error = NULL then list_loop_windows E handle new_list n (index + 1) w
         else Some ((error, new_list, n), w)
       }
   }"

text \<open>The results are the error, the list and the count the caller sees.\<close>

definition libusbp_list_connected_devices_windows :: "'e setup_api_scheme \<Rightarrow> bool \<Rightarrow> bool
    \<Rightarrow> 'w world_scheme
    \<Rightarrow> ((err \<times> libusbp_device_windows device_list \<times> nat option) \<times> 'w world_scheme) option" where
  "libusbp_list_connected_devices_windows E list_given count_given w =
     (let device_count = (if count_given then Some 0 else None)
      in if \<not> list_given then do {
        (error, w) \<leftarrow> error_create E ''Device list output pointer is null.'' w;
        Some ((error, NULL, device_count), w)
      }
      else do {
        ((handle, e), w) \<leftarrow> get_class_devs E USB_DEVICE_INTERFACE w;
        (error, w) \<leftarrow> (if handle = None
          then error_create_winapi E e ''Failed to list all USB devices.'' w else Some (NULL, w));
        ((error, new_list), w) \<leftarrow> ok_then error NULL (device_list_create E) w;
        ((error, new_list, count), w) \<leftarrow> (if error = NULL
          then list_loop_windows E handle new_list 0 0 w
          else Some ((error, new_list, 0), w));
        let (device_list, new_list, device_count) =
          (if error = NULL then (new_list, NULL, if count_given then Some count else None)
           else (NULL, new_list, device_count));
        w \<leftarrow> unref_if DeviceInfoSet handle w;
        w \<leftarrow> (if new_list \<noteq> NULL
          then free_devices_and_list libusbp_device_free_windows new_list w else Some w);
        Some ((error, device_list, device_count), w)
      })"

section \<open>Contracts of SetupAPI\<close>

lemma get_class_devs_wp [wp]:
  assumes "\<And>h w'. later w w' \<Longrightarrow> live w' = add_mset (DeviceInfoSet, h) (live w) \<Longrightarrow> Q (Some h, 0) w'"
    and "\<And>e w'. later w w' \<Longrightarrow> live w' = live w \<Longrightarrow> Q (None, e) w'"
  shows "runs (get_class_devs E c w) Q"
  using assms by (simp add: get_class_devs_def split: option.splits)

lemma enum_device_info_wp:
  assumes "(DeviceInfoSet, h) \<in># live w"
    and "\<And>w'. later w w' \<Longrightarrow> live w' = live w \<Longrightarrow> unat i < length (dev_info_set E h) \<Longrightarrow>
      Q (Inr (dev_info_set E h ! unat i)) w'"
    and "\<And>e w'. later w w' \<Longrightarrow> live w' = live w \<Longrightarrow> Q (Inl e) w'"
  shows "runs (enum_device_info E (Some h) i w) Q"
  using assms by (auto simp: enum_device_info_def split: option.splits)

lemma get_instance_id_wp [wp]:
  assumes "(DeviceInfoSet, h) \<in># live w"
    and "\<And>s w' k. later w w' \<Longrightarrow> live w' = live w \<Longrightarrow>
      SetupDiGetDeviceInstanceId E k h info = Inr s \<Longrightarrow> length s < n \<Longrightarrow> Q (Inr s) w'"
    and "\<And>e w'. later w w' \<Longrightarrow> live w' = live w \<Longrightarrow> Q (Inl e) w'"
  shows "runs (get_instance_id E (Some h) info n w) Q"
  using assms by (auto simp: get_instance_id_def split: sum.splits)

text \<open>
  A set has fewer members than there are indices, so that counting up an index of 32 bits reaches
  its end.
\<close>

definition indexed_sets :: "'e setup_api_scheme \<Rightarrow> bool" where
  "indexed_sets E \<longleftrightarrow> (\<forall>h. length (dev_info_set E h) < 2 ^ 32)"

section \<open>Parsing hardware IDs\<close>

text \<open>
  The buffer of a \<open>REG_MULTI_SZ\<close> value that holds the strings \<open>ids\<close>.  The loop over such a buffer
  gives what the first string with the right format says, whatever follows the list in memory.
\<close>

definition multi_sz :: "string list \<Rightarrow> string" where
  "multi_sz ids = concat (map (\<lambda>s. s @ [NUL]) ids) @ [NUL]"

definition c_string :: "string \<Rightarrow> bool" where
  "c_string s \<longleftrightarrow> NUL \<notin> set s"

fun first_hardware_id :: "string list \<Rightarrow> (16 word \<times> 16 word \<times> 16 word) option" where
  "first_hardware_id [] = None"
| "first_hardware_id (s # ids) =
     (case scan_hardware_id s of None \<Rightarrow> first_hardware_id ids | Some r \<Rightarrow> Some r)"

lemma until_NUL:
  "c_string s \<Longrightarrow> takeWhile (\<lambda>c. c \<noteq> NUL) (s @ NUL # t) = s"
  "c_string s \<Longrightarrow> dropWhile (\<lambda>c. c \<noteq> NUL) (s @ NUL # t) = NUL # t"
  by (induction s) (auto simp: c_string_def)

lemma hardware_ids_loop_multi_sz:
  assumes "\<forall>s \<in> set ids. c_string s \<and> s \<noteq> []"
  shows "hardware_ids_loop (multi_sz ids @ junk) = Some (first_hardware_id ids)"
  using assms
proof (induction ids)
  case Nil
  then show ?case by (simp add: multi_sz_def hardware_ids_loop.simps [of "NUL # _"])
next
  case (Cons s ids)
  then obtain c t where s: "s = c # t" "c \<noteq> NUL" by (cases s) (auto simp: c_string_def)
  have "multi_sz (s # ids) @ junk = s @ NUL # (multi_sz ids @ junk)" by (simp add: multi_sz_def)
  moreover have "hardware_ids_loop (s @ NUL # (multi_sz ids @ junk)) =
      (case scan_hardware_id s of Some r \<Rightarrow> Some (Some r)
       | None \<Rightarrow> hardware_ids_loop (multi_sz ids @ junk))"
    using Cons.prems s until_NUL [of s]
    by (subst hardware_ids_loop.simps) (auto simp del: dropWhile.simps takeWhile.simps)
  ultimately show ?case using Cons by (simp split: option.splits)
qed

text \<open>A buffer that ends in two terminators is never read beyond its end.\<close>

lemma hardware_ids_loop_total:
  assumes "s = t @ [NUL, NUL]"
  shows "hardware_ids_loop s \<noteq> None"
  using assms
proof (induction s arbitrary: t rule: hardware_ids_loop.induct)
  case (1 s)
  have "s \<noteq> []" using 1(2) by simp
  then obtain c u where s: "s = c # u" by (auto simp: neq_Nil_conv)
  show ?case
  proof (cases "c = NUL")
    case True
    then show ?thesis using s by (subst hardware_ids_loop.simps) simp
  next
    case False
    obtain t' where t: "t = c # t'" using 1(2) s False by (cases t) auto
    show ?thesis
    proof (cases "c_string t")
      case True
      then have "takeWhile (\<lambda>c. c \<noteq> NUL) s = t" "dropWhile (\<lambda>c. c \<noteq> NUL) s = NUL # [NUL]"
        using until_NUL [of t "[NUL]"] 1(2) by simp_all
      then show ?thesis using s False
        by (subst hardware_ids_loop.simps)
          (simp add: hardware_ids_loop.simps [of "[NUL]"] split: option.splits)
    next
      case no: False
      then obtain a b where ab: "t = a @ NUL # b" "c_string a"
        unfolding c_string_def by (metis split_list_first)
      then have w: "takeWhile (\<lambda>c. c \<noteq> NUL) s = a"
        "dropWhile (\<lambda>c. c \<noteq> NUL) s = NUL # b @ [NUL, NUL]"
        using until_NUL [of a "b @ [NUL, NUL]"] 1(2) by simp_all
      have "hardware_ids_loop (b @ [NUL, NUL]) \<noteq> None" if "scan_hardware_id a = None"
        by (rule 1(1) [OF s False w(2)]) (use that w in simp_all)
      then show ?thesis using s False w
        by (subst hardware_ids_loop.simps) (simp split: option.splits)
    qed
  qed
qed

text \<open>The hardware ID of a USB device with four hexadecimal digits each, in the case Windows likes.\<close>

definition hardware_id :: "string \<Rightarrow> string \<Rightarrow> string \<Rightarrow> string" where
  "hardware_id v p r = ''USB'' @ CHR 0x5C # ''VID_'' @ v @ ''&PID_'' @ p @ ''&REV_'' @ r"

lemma scan_hardware_id_hardware_id:
  assumes "hex_string v" "hex_string p" "hex_string r" "length v = 4" "length p = 4" "length r = 4"
  shows "scan_hardware_id (hardware_id v p r @ rest) =
    Some (of_nat (hex_number 0 v), of_nat (hex_number 0 p), of_nat (hex_number 0 r))"
proof -
  have l: "scan_hex_item 4 (s @ t) = Some (of_nat (hex_number 0 s) :: 16 word, t)"
    if "hex_string s" "length s = 4" for s t
    using scan_hex_item_hex [of s t, where 'a = 16] that by (cases s) simp_all
  have a: "hardware_id v p r @ rest = (''USB'' @ CHR 0x5C # ''VID_'') @ (v @ (''&PID_'' @ (p @ (''&REV_'' @ (r @ rest)))))"
    by (simp add: hardware_id_def)
  show ?thesis
    unfolding a scan_hardware_id_def
    by (simp only: scan_lit_append l assms Option.bind.simps prod.simps)
qed

section \<open>What devices own and say\<close>

definition dev_res_windows :: "device_windows \<Rightarrow> res multiset" where
  "dev_res_windows d = owns (\<lambda>x. blk (device_instance_id x)) d"

definition wf_device_windows :: "device_windows \<Rightarrow> bool" where
  "wf_device_windows d = (case d of NULL \<Rightarrow> True
     | Heap n x \<Rightarrow> (\<exists>m s. device_instance_id x = Heap m s) | Static x \<Rightarrow> False)"

text \<open>What a caller can see: the instance ID and the vendor, product and revision IDs.\<close>

definition dev_view_windows :: "device_windows \<Rightarrow> (string \<times> 16 word \<times> 16 word \<times> 16 word) option" where
  "dev_view_windows d = (case d of
     Heap n x \<Rightarrow> Some (contents '''' (device_instance_id x),
       vendor_id_windows x, product_id_windows x, revision_windows x)
   | _ \<Rightarrow> None)"

lemma dev_windows_simps [simp]:
  "dev_res_windows NULL = {#}" "wf_device_windows NULL" "dev_view_windows NULL = None"
  "dev_res_windows (Heap n x) = add_mset (Mem, n) (blk (device_instance_id x))"
  "wf_device_windows (Heap n x) \<longleftrightarrow> (\<exists>m s. device_instance_id x = Heap m s)"
  "\<not> wf_device_windows (Static x)"
  "dev_view_windows (Heap n x) = Some (contents '''' (device_instance_id x),
       vendor_id_windows x, product_id_windows x, revision_windows x)"
  by (simp_all add: dev_res_windows_def wf_device_windows_def dev_view_windows_def)

lemma libusbp_device_free_windows_ok:
  assumes "wf_device_windows d" and "dev_res_windows d \<subseteq># live w"
  shows "libusbp_device_free_windows d w = Some (drop_res (dev_res_windows d) w)"
proof -
  obtain L where "live w = dev_res_windows d + L"
    using assms(2) by (auto simp: mset_subset_eq_exists_conv)
  with assms(1) show ?thesis
    by (cases d) (auto simp: libusbp_device_free_windows_def add_mset_commute)
qed

interpretation device_windows: releases libusbp_device_free_windows dev_res_windows wf_device_windows
  by unfold_locales (rule libusbp_device_free_windows_ok)

interpretation listed_windows: listed_device libusbp_device_free_windows dev_res_windows wf_device_windows
  by unfold_locales simp_all

text \<open>
  What SetupAPI says of a member of a set: its instance ID, and hardware IDs.  The buffer of the
  latter holds what the call wrote and, behind that, what was there before; it ends in two
  terminators.
\<close>

definition instance_id_of :: "'e setup_api_scheme \<Rightarrow> nat \<Rightarrow> nat \<Rightarrow> string \<Rightarrow> bool" where
  "instance_id_of E h info s \<longleftrightarrow>
     (\<exists>k. SetupDiGetDeviceInstanceId E k h info = Inr s) \<and> length s \<le> MAX_DEVICE_ID_LEN"

definition hardware_ids_of :: "'e setup_api_scheme \<Rightarrow> nat \<Rightarrow> nat \<Rightarrow> string \<Rightarrow> bool" where
  "hardware_ids_of E h info s \<longleftrightarrow> (\<exists>k bytes junk t.
     SPDRP_HARDWAREID E k h info = Inr (REG_MULTI_SZ, bytes) \<and>
     s = map capitalize (bytes @ junk) \<and> bytes @ junk = t @ [NUL, NUL])"

definition parsed_ids :: "'e setup_api_scheme \<Rightarrow> nat \<Rightarrow> nat \<Rightarrow> 16 word \<times> 16 word \<times> 16 word \<Rightarrow> bool" where
  "parsed_ids E h info r \<longleftrightarrow> (\<exists>s. hardware_ids_of E h info s \<and> hardware_ids_loop s = Some (Some r))"

definition describes_windows :: "'e setup_api_scheme \<Rightarrow> nat \<Rightarrow> nat
    \<Rightarrow> string \<times> 16 word \<times> 16 word \<times> 16 word \<Rightarrow> bool" where
  "describes_windows E h info = (\<lambda>(id, r). instance_id_of E h info id \<and> parsed_ids E h info r)"

lemma instance_id_ofI:
  "SetupDiGetDeviceInstanceId E k h info = Inr s \<Longrightarrow> length s < Suc MAX_DEVICE_ID_LEN \<Longrightarrow>
   instance_id_of E h info s"
  by (auto simp: instance_id_of_def)

lemma create_id_string_gives:
  assumes "(DeviceInfoSet, h) \<in># live w"
  shows "runs (create_id_string E (Some h) info w) (gives blk NULL
     (\<lambda>p. \<exists>n s. p = Heap n s \<and> instance_id_of E h info s) (\<lambda>_. True) w)"
  using assms by (auto simp: create_id_string_def later_def says_def intro!: instance_id_ofI wp)

lemmas create_id_string_wp [wp] = gives_wp [OF create_id_string_gives]

lemma last_two: "2 \<le> length s \<Longrightarrow> s ! (length s - 2) = a \<Longrightarrow> s ! (length s - Suc 0) = b \<Longrightarrow>
  \<exists>t. s = t @ [a, b]"
proof (induction s rule: rev_induct)
  case (snoc x s)
  then show ?case by (cases s rule: rev_cases) (auto simp: nth_append)
qed simp

lemma hardware_ids_ofI:
  assumes "SPDRP_HARDWAREID E k h info = Inr (REG_MULTI_SZ, b)" "length b \<le> n" "\<not> n < 2"
    "(b @ drop (length b) (map f [0..<n])) ! (n - 2) = NUL"
    "(b @ drop (length b) (map f [0..<n])) ! (n - Suc 0) = NUL"
  shows "hardware_ids_of E h info (map capitalize b @ map capitalize (drop (length b) (map f [0..<n])))"
  using assms last_two [of "b @ drop (length b) (map f [0..<n])" NUL NUL]
  unfolding hardware_ids_of_def by fastforce

lemma device_get_hardware_ids_gives:
  assumes "(DeviceInfoSet, h) \<in># live w"
  shows "runs (device_get_hardware_ids E (Some h) info w)
    (gives blk NULL (\<lambda>p. \<exists>n s. p = Heap n s \<and> hardware_ids_of E h info s) (\<lambda>_. True) w)"
  using assms
  by (auto simp: device_get_hardware_ids_def Let_def later_def says_def
      split: option.splits prod.splits sum.splits intro!: wp hardware_ids_ofI)

lemmas device_get_hardware_ids_wp [wp] = gives_wp [OF device_get_hardware_ids_gives]

text \<open>Parsing the IDs needs no luck: the block ends in two terminators.\<close>

lemma hardware_ids_of_total:
  assumes "hardware_ids_of E h info s"
  shows "hardware_ids_loop s \<noteq> None"
proof -
  obtain t where "s = map capitalize (t @ [NUL, NUL])"
    using assms unfolding hardware_ids_of_def by metis
  then have "s = map capitalize t @ [NUL, NUL]" by (simp add: capitalize_def)
  then show ?thesis by (rule hardware_ids_loop_total)
qed

lemma device_take_info_wp [wp]:
  assumes "hardware_ids_of E h info s" "(Mem, n) \<in># live w" "(Mem, m) \<in># live w"
    and "\<And>v p r. parsed_ids E h info (v, p, r) \<Longrightarrow>
      Q (NULL, Heap m (x\<lparr>vendor_id_windows := v, product_id_windows := p, revision_windows := r\<rparr>)) w"
    and "\<And>e w'. e \<noteq> NULL \<Longrightarrow> wf_err e \<Longrightarrow> later w w' \<Longrightarrow> live w' = live w + err_res e \<Longrightarrow>
      Q (e, Heap m (x\<lparr>vendor_id_windows := 0, product_id_windows := 0, revision_windows := 0\<rparr>)) w'"
  shows "runs (device_take_info_from_hardware_ids E (Heap m x) (Heap n s) w) Q"
proof -
  obtain r where "hardware_ids_loop s = Some r" using hardware_ids_of_total [OF assms(1)] by blast
  moreover have "parsed_ids E h info t" if "r = Some t" for t
    using calculation assms(1) that unfolding parsed_ids_def by blast
  ultimately show ?thesis
    using assms(2-5)
    by (auto simp: device_take_info_from_hardware_ids_def says_def split: option.splits intro!: wp)
qed

lemma create_device_gives:
  assumes "(DeviceInfoSet, h) \<in># live w"
  shows "runs (create_device E (Some h) info w) (gives dev_res_windows NULL
     (\<lambda>d. wf_device_windows d \<and> (\<exists>i. dev_view_windows d = Some i \<and> describes_windows E h info i))
     (\<lambda>_. True) w)"
  using assms
  by (auto simp: create_device_def device_allocate_def Let_def later_def describes_windows_def
      libusbp_device_free_windows_def libusbp_string_free_def
      intro!: wp device_take_info_wp [where h = h and info = info])

lemmas create_device_wp [wp] = gives_wp [OF create_device_gives]

interpretation device_windows_new: constructor libusbp_device_free_windows dev_res_windows
    wf_device_windows "\<lambda>(list, info). create_device E list info" NULL
    "\<lambda>(list, info) w. \<exists>h. list = Some h \<and> (DeviceInfoSet, h) \<in># live w"
    "\<lambda>(list, info) d. wf_device_windows d \<and> (\<exists>h i. list = Some h \<and> dev_view_windows d = Some i \<and>
       describes_windows E h info i)"
    for E :: "'e setup_api_scheme"
  by unfold_locales (auto intro!: create_device_wp)

lemma libusbp_device_copy_windows_gives:
  assumes "wf_device_windows d" and "dev_res_windows d \<subseteq># live w"
  shows "runs (libusbp_device_copy_windows E d True w) (gives dev_res_windows NULL
     (\<lambda>c. wf_device_windows c \<and> dev_view_windows c = dev_view_windows d)
     (\<lambda>e. e = error_no_memory \<and> \<not> memory_ok E) w)"
proof -
  obtain L where "live w = dev_res_windows d + L"
    using assms(2) by (auto simp: mset_subset_eq_exists_conv)
  with assms(1) show ?thesis
    by (cases d) (auto simp: libusbp_device_copy_windows_def device_allocate_def Let_def later_def
        libusbp_device_free_windows_def intro!: wp)
qed

lemmas libusbp_device_copy_windows_wp [wp] = gives_wp [OF libusbp_device_copy_windows_gives]

lemma libusbp_device_get_os_id_windows_gives:
  assumes "wf_device_windows d" "d \<noteq> NULL" "dev_res_windows d \<subseteq># live w"
  shows "runs (libusbp_device_get_os_id_windows E d True w) (gives blk NULL
     (\<lambda>p. \<exists>n s i. p = Heap n s \<and> dev_view_windows d = Some (s, i))
     (\<lambda>e. e = error_no_memory \<and> \<not> memory_ok E) w)"
  using assms by (cases d) (auto simp: libusbp_device_get_os_id_windows_def
      mset_subset_eq_exists_conv intro!: wp)

lemmas libusbp_device_get_os_id_windows_wp [wp] = gives_wp [OF libusbp_device_get_os_id_windows_gives]

section \<open>Lists\<close>

text \<open>A list holds \<open>n\<close> devices that some set has.\<close>

definition connected_windows :: "'e setup_api_scheme \<Rightarrow> device_windows \<Rightarrow> bool" where
  "connected_windows E d \<longleftrightarrow> (\<exists>h info i. info \<in> set (dev_info_set E h) \<and> dev_view_windows d = Some i \<and>
     describes_windows E h info i)"

abbreviation lists_windows :: "'e setup_api_scheme \<Rightarrow> libusbp_device_windows device_list \<Rightarrow> nat \<Rightarrow> bool" where
  "lists_windows E \<equiv> lists_of wf_device_windows (connected_windows E)"

abbreviation list_res_windows :: "libusbp_device_windows device_list \<Rightarrow> res multiset" where
  "list_res_windows \<equiv> list_res_of dev_res_windows"

abbreviation listing :: "'e setup_api_scheme \<Rightarrow> res multiset \<Rightarrow> 'w world_scheme
    \<Rightarrow> err \<times> libusbp_device_windows device_list \<times> nat \<Rightarrow> 'w world_scheme \<Rightarrow> bool" where
  "listing E \<equiv> listing_of dev_res_windows wf_device_windows (connected_windows E) E"

lemma try_create_device_windows_wp:
  assumes "(DeviceInfoSet, h) \<in># live w" "info \<in> set (dev_info_set E h)"
    and "\<And>d w'. later w w' \<Longrightarrow> wf_device_windows d \<Longrightarrow> connected_windows E d \<Longrightarrow>
      live w' = live w + dev_res_windows d \<Longrightarrow> Q d w'"
    and "\<And>w'. later w w' \<Longrightarrow> live w' = live w \<Longrightarrow> Q NULL w'"
  shows "runs (try_create_device E (Some h) info w) Q"
proof -
  have "connected_windows E d" if "dev_view_windows d = Some i" "describes_windows E h info i" for d i
    unfolding connected_windows_def using that assms(2) by blast
  with assms show ?thesis
    by (auto simp: try_create_device_def libusbp_error_free_ok later_def intro!: wp)
qed

lemma list_loop_windows_spec:
  assumes "indexed_sets E" and "(DeviceInfoSet, h) \<in># L"
    and "unat i \<le> length (dev_info_set E h)"
    and "lists_windows E l n" "live w = list_res_windows l + L"
  shows "runs (list_loop_windows E (Some h) l n i w) (listing E L w)"
proof -
  have N: "length (dev_info_set E h) < 2 ^ 32" using assms(1) by (simp add: indexed_sets_def)
  show ?thesis
    using assms(4,5)
  proof (induction i arbitrary: l n w rule: index_induct [OF N])
    case 1
    show ?case by (rule assms(3))
  next
    case (2 i)
    note append = listed_windows.append_listing_wp [where P = "connected_windows E" and L = L]
    have IH: "runs (list_loop_windows E (Some h) l' n' (i + 1) v) (listing E L w)"
      if "unat i < length (dev_info_set E h)" "lists_windows E l' n'" "live v = list_res_windows l' + L"
        "later w v" for l' n' v
      by (rule runs_mono [OF "2"(2) [OF that(1-3)]]) (rule listing_later [OF _ that(4)])
    show ?case
      using "2"(3,4) assms(2)
      by (subst list_loop_windows.simps)
        (auto simp: later_def says_def
          intro!: runs_bind error_create_winapi_wp enum_device_info_wp try_create_device_windows_wp IH
            listed_windows.listingI append elim!: listing_later)
  qed
qed

lemmas list_loop_windows_wp = list_loop_windows_spec [THEN runs_mono]

text \<open>The list a caller gets, and what is left when there is none.\<close>

lemma libusbp_list_connected_devices_windows_spec:
  assumes "indexed_sets E"
  shows "runs (libusbp_list_connected_devices_windows E True True w) (\<lambda>(e, l, n) w'. later w w' \<and>
    (if e = NULL then \<exists>k. n = Some k \<and> lists_windows E l k \<and> live w' = live w + list_res_windows l
     else wf_err e \<and> l = NULL \<and> n = Some 0 \<and> (\<exists>lost.
       live w' = live w + err_res e + dev_res_windows lost \<and>
       (lost = NULL \<or> e = error_no_memory \<and> \<not> memory_ok E))))"
  unfolding libusbp_list_connected_devices_windows_def Let_def if_True not_True_eq_False if_False
proof (rule runs_bind, rule get_class_devs_wp, goal_cases)
  case (1 h v)
  note loop = list_loop_windows_wp [OF assms, where h = h and L = "add_mset (DeviceInfoSet, h) (live w)"]
  have fr: "free_devices_and_list libusbp_device_free_windows l u = Some (drop_res (list_res_windows l) u)"
    if "lists_windows E l k" "list_res_windows l \<subseteq># live u" for l k and u :: "'b world_scheme"
    using that by (rule listed_windows.free_listed)
  from 1 show ?case
    by (auto simp: later_def says_def listing_of_def fr
        intro!: wp loop gives_wp [OF listed_windows.device_list_create_gives] lists_of_new)
      (blast intro: dev_windows_simps(1))+
next
  case (2 e v)
  then show ?case
    by (auto simp: later_def says_def intro!: wp exI [of _ NULL])
qed

section \<open>Properties\<close>

lemma capitalize_NUL [simp]: "capitalize c = NUL \<longleftrightarrow> c = NUL"
  by (auto simp: capitalize_def Let_def char_of_eq_iff take_bit_eq_mod dest: dvd_imp_le)

lemma capitalize_multi_sz: "map capitalize (multi_sz ids) = multi_sz (map (map capitalize) ids)"
  by (induction ids) (simp_all add: multi_sz_def)

lemma capitalize_hardware_id:
  "map capitalize (hardware_id v p r) = hardware_id (map capitalize v) (map capitalize p) (map capitalize r)"
  by (simp add: hardware_id_def capitalize_def)

lemma c_string_capitalize [simp]: "c_string (map capitalize s) = c_string s"
  by (induction s) (auto simp: c_string_def eq_commute [of NUL])

lemma first_hardware_id_append:
  "\<forall>s \<in> set xs. scan_hardware_id s = None \<Longrightarrow> first_hardware_id (xs @ ys) = first_hardware_id ys"
  by (induction xs) simp_all



text \<open>
  C30: Listing the devices of a Windows computer returns, whatever the system answers: it gives a
  NULL-terminated list with the count reported, of devices whose instance ID and IDs are those of
  members of a set of SetupAPI, and takes nothing but the list; or it gives an error and no list.
  Only when memory runs out while the list grows does it leave something behind: the device that
  was to be appended is never freed.
\<close>

theorem list_connected_devices_windows_correct:
  assumes "indexed_sets E"
  shows "runs (libusbp_list_connected_devices_windows E True True w) (\<lambda>(e, l, n) w'.
    (if e = NULL then \<exists>ds. holds_of wf_device_windows l ds \<and> n = Some (length ds) \<and>
       set ds \<subseteq> {d. connected_windows E d} \<and>
       (\<exists>w''. free_devices_and_list libusbp_device_free_windows l w' = Some w'' \<and> live w'' = live w)
     else l = NULL \<and> n = Some 0 \<and> (live w' = live w + err_res e \<or>
       \<not> memory_ok E \<and> e = error_no_memory \<and> (\<exists>d. live w' = live w + dev_res_windows d))))"
proof (rule runs_mono [OF libusbp_list_connected_devices_windows_spec [OF assms]], clarify, goal_cases)
  case (1 e l n w')
  show ?case
  proof (cases "e = NULL")
    case True
    with 1 obtain ds where "holds_of wf_device_windows l ds" "n = Some (length ds)"
        "\<forall>d \<in> set ds. connected_windows E d" "live w' = live w + list_res_windows l"
      by (auto simp: lists_of_def)
    then show ?thesis
      using True listed_windows.free_devices_and_list_ok [of l ds w']
      by (auto intro!: exI [of _ ds])
  next
    case False
    with 1 show ?thesis by auto
  qed
qed

text \<open>A computer with one USB device.\<close>

definition demo_setup :: setup_api where
  "demo_setup = \<lparr>malloc_ok = \<lambda>_. True, FormatMessage = \<lambda>_. None, heap_chars = \<lambda>_ _. CHR ''?'',
     SetupDiGetClassDevs = \<lambda>_ _. None, dev_info_set = \<lambda>_. [7], SetupDiEnumDeviceInfo = \<lambda>_ _ _. None,
     SetupDiGetDeviceInstanceId = \<lambda>_ _ _. Inr (''USB'' @ CHR 0x5C # ''VID_1FFB&PID_0101'' @ CHR 0x5C # ''1''),
     SPDRP_HARDWAREID_size = \<lambda>_ _ _. (None, 31),
     SPDRP_HARDWAREID = \<lambda>_ _ _. Inr (REG_MULTI_SZ,
       ''USB'' @ CHR 0x5C # ''VID_1FFB&PID_0101&REV_0105'' @ [NUL, NUL])\<rparr>"

theorem list_connected_devices_windows_correct_witness:
  "runs (libusbp_list_connected_devices_windows demo_setup True True \<lparr>next_id = 0, live = {#}\<rparr>)
     (\<lambda>(e, l, n) w'. e = NULL \<and> l \<noteq> NULL \<or> e \<noteq> NULL \<and> live w' = err_res e)"
  by (rule runs_mono [OF list_connected_devices_windows_correct])
    (auto simp: indexed_sets_def demo_setup_def memory_ok_def holds_of_def split: if_splits)

end
