(* ===== verification/InterfaceWindows.thy ===== *)
theory InterfaceWindows
  imports DeviceWindows
begin

text \<open>
  \<open>src/src/windows/interface_windows.c\<close>: finding the device node of an interface of a USB device, and
  the name of the file that gives access to a node.  The lemmas show that the searches end, what they
  find, and that the device information sets they open are closed again, with one exception.
\<close>

section \<open>The configuration manager\<close>

text \<open>
  What the sources use beyond \<open>setup_api\<close>.  A device node (\<open>DEVINST\<close>) is a number; the data of a
  member of a set is identified by its node.  Answers are an error code or a result.
\<close>

record cfgmgr = setup_api +
  CM_Locate_DevNode :: "nat \<Rightarrow> string \<Rightarrow> 32 word + nat"
  CM_Get_Parent :: "nat \<Rightarrow> nat \<Rightarrow> 32 word + nat"
  CM_Get_Device_ID :: "nat \<Rightarrow> nat \<Rightarrow> 32 word + string"
  SetupDiEnumDeviceInterfaces :: "nat \<Rightarrow> nat \<Rightarrow> nat \<Rightarrow> 128 word \<Rightarrow> 32 word + nat"
  SetupDiGetDeviceInterfaceDetail_size :: "nat \<Rightarrow> nat \<Rightarrow> nat \<Rightarrow> 32 word option \<times> 32 word"
  SetupDiGetDeviceInterfaceDetail :: "nat \<Rightarrow> nat \<Rightarrow> nat \<Rightarrow> 32 word + string"

abbreviation (input) "CR_BUFFER_SMALL \<equiv> (0x1A :: 32 word)"

text \<open>A question to the system about an open set.\<close>

definition ask_set :: "nat option \<Rightarrow> (nat \<Rightarrow> nat \<Rightarrow> 'a) \<Rightarrow> 'w world_scheme \<Rightarrow> ('a \<times> 'w world_scheme) option" where
  "ask_set list q w = do {
     h \<leftarrow> list;
     borrow (DeviceInfoSet, h) w;
     Some (q (next_id w) h, tick w)
   }"

section \<open>get_interface_non_composite\<close>

partial_function (option) non_composite_loop :: "'e setup_api_scheme \<Rightarrow> string \<Rightarrow> nat option \<Rightarrow> 32 word
    \<Rightarrow> 'w world_scheme \<Rightarrow> ((err \<times> nat option) \<times> 'w world_scheme) option" where
  "non_composite_loop E instance_id new_list i w = do {
     (r, w) \<leftarrow> enum_device_info E new_list i w;
     case r of
       Inl e \<Rightarrow> do {
         (error, w) \<leftarrow> (if e = ERROR_NO_MORE_ITEMS
           then error_create E ''Failed to find device node.'' w
           else error_create_winapi E e ''Failed to enumerate device info.'' w);
         Some ((error, None), w)
       }
     | Inr device_info_data \<Rightarrow> do {
         (r, w) \<leftarrow> get_instance_id E new_list device_info_data (MAX_DEVICE_ID_LEN + 1) w;
         case r of
           Inl e \<Rightarrow> do {
             (error, w) \<leftarrow> error_create_winapi E e ''Failed to get device instance ID.'' w;
             Some ((error, None), w)
           }
         | Inr actual_id \<Rightarrow>
             if actual_id = instance_id then Some ((NULL, Some device_info_data), w)
             else non_composite_loop E instance_id new_list (i + 1) w
       }
   }"

text \<open>
  The results are the error, the set (\<open>None\<close> is \<open>INVALID_HANDLE_VALUE\<close>) and the member.  The test
  after \<open>SetupDiGetClassDevs\<close> compares the address \<open>list\<close>, which is never \<open>INVALID_HANDLE_VALUE\<close>,
  instead of \<open>new_list\<close>, so the loop runs on an invalid set too.
\<close>

definition get_interface_non_composite :: "'e setup_api_scheme \<Rightarrow> string \<Rightarrow> 'w world_scheme
    \<Rightarrow> ((err \<times> nat option \<times> nat) \<times> 'w world_scheme) option" where
  "get_interface_non_composite E instance_id w = do {
     ((new_list, e), w) \<leftarrow> get_class_devs E USB_DEVICE_INTERFACE w;
     ((error, found), w) \<leftarrow> non_composite_loop E instance_id new_list 0 w;
     let (list, new_list, info) = (case found of
         Some info \<Rightarrow> (new_list, None, info) | None \<Rightarrow> (None, new_list, 0));
     w \<leftarrow> unref_if DeviceInfoSet new_list w;
     (error, w) \<leftarrow> (if error \<noteq> NULL
       then error_add E error ''Failed to find non-composite device node.'' w else Some (NULL, w));
     Some ((error, list, info), w)
   }"

section \<open>get_interface_composite\<close>

text \<open>
  The interface number in an instance ID: \<open>USB\VID_%*4x&PID_%*4x&MI_%2x\\<close> or
  \<open>FTDIBUS\%*[^\]\%x\<close>.  The value of \<open>%x\<close> is that of an unsigned int.
\<close>

definition scan_not :: "char \<Rightarrow> string \<Rightarrow> string option" where
  "scan_not c s = (if takeWhile (\<lambda>x. x \<noteq> c) s = [] then None else Some (dropWhile (\<lambda>x. x \<noteq> c) s))"

definition scan_usb_interface :: "string \<Rightarrow> 32 word option" where
  "scan_usb_interface s = do {
     s \<leftarrow> scan_lit (''USB'' @ CHR 0x5C # ''VID_'') s;
     (vid :: 32 word, s) \<leftarrow> scan_hex_item 4 s;
     s \<leftarrow> scan_lit ''&PID_'' s;
     (pid :: 32 word, s) \<leftarrow> scan_hex_item 4 s;
     s \<leftarrow> scan_lit ''&MI_'' s;
     (n, s) \<leftarrow> scan_hex_item 2 s;
     Some n
   }"

definition scan_ftdi_interface :: "string \<Rightarrow> 32 word option" where
  "scan_ftdi_interface s = do {
     s \<leftarrow> scan_lit (''FTDIBUS'' @ [CHR 0x5C]) s;
     s \<leftarrow> scan_not (CHR 0x5C) s;
     s \<leftarrow> scan_lit [CHR 0x5C] s;
     (n, s) \<leftarrow> scan_hex_item (length s) s;
     Some n
   }"

definition scan_interface_number :: "string \<Rightarrow> 32 word option" where
  "scan_interface_number device_id = (case scan_usb_interface device_id of
     Some n \<Rightarrow> Some n | None \<Rightarrow> scan_ftdi_interface device_id)"

text \<open>The next of the three lists, when none is open: \<open>list_index\<close> says which.\<close>

definition open_interface_list :: "'e setup_api_scheme \<Rightarrow> 8 word \<Rightarrow> nat \<Rightarrow> 'w world_scheme
    \<Rightarrow> ((err \<times> nat option) \<times> 'w world_scheme) option" where
  "open_interface_list E interface_number list_index w =
     (if 2 < list_index then do {
        (error, w) \<leftarrow> error_create E
          (''Could not find interface '' @ fmt_d (uint interface_number) @ ''.'') w;
        (error, w) \<leftarrow> error_add_code E error (code_of LIBUSBP_ERROR_NOT_READY) w;
        Some ((error, None), w)
      }
      else do {
        ((new_list, e), w) \<leftarrow> get_class_devs E (if list_index = 0 then USB_ENUMERATOR
          else if list_index = 1 then COMPORT_INTERFACE else MODEM_INTERFACE) w;
        if new_list = None then do {
          (error, w) \<leftarrow> error_create_winapi E e
            (''Failed to list devices to find an interface ('' @ fmt_d (int list_index) @ '').'') w;
          Some ((error, None), w)
        }
        else Some ((NULL, new_list), w)
      })"

partial_function (option) composite_loop :: "'e cfgmgr_scheme \<Rightarrow> nat \<Rightarrow> 8 word \<Rightarrow> nat \<Rightarrow> nat option
    \<Rightarrow> 32 word \<Rightarrow> 'w world_scheme \<Rightarrow> ((err \<times> nat option \<times> nat) \<times> 'w world_scheme) option" where
  "composite_loop E dev_inst interface_number list_index new_list i w = do {
     ((error, new_list, i), w) \<leftarrow> (if new_list = None then do {
         ((error, new_list), w) \<leftarrow> open_interface_list E interface_number list_index w;
         Some ((error, new_list, 0), w)
       }
       else Some ((NULL, new_list, i), w));
     if error \<noteq> NULL then Some ((error, None, 0), w)
     else do {
       (r, w) \<leftarrow> enum_device_info E new_list i w;
       case r of
         Inl e \<Rightarrow>
           if e = ERROR_NO_MORE_ITEMS then do {
             w \<leftarrow> unref_if DeviceInfoSet new_list w;
             composite_loop E dev_inst interface_number (list_index + 1) None i w
           }
           else do {
             (error, w) \<leftarrow> error_create_winapi E e ''Failed to get device info to find an interface.'' w;
             w \<leftarrow> unref_if DeviceInfoSet new_list w;
             Some ((error, None, 0), w)
           }
       | Inr info \<Rightarrow> do {
           (r, w) \<leftarrow> ask (\<lambda>k. CM_Get_Parent E k info) w;
           case r of
             Inl cr \<Rightarrow> do {
               w \<leftarrow> unref_if DeviceInfoSet new_list w;
               (error, w) \<leftarrow> error_create_cr E cr ''Failed to get parent of an interface.'' w;
               Some ((error, None, 0), w)
             }
           | Inr parent_dev_inst \<Rightarrow>
               if parent_dev_inst \<noteq> dev_inst
               then composite_loop E dev_inst interface_number list_index new_list (i + 1) w
               else do {
                 (r, w) \<leftarrow> ask (\<lambda>k. CM_Get_Device_ID E k info) w;
                 case (case r of Inl cr \<Rightarrow> Inl cr | Inr s \<Rightarrow>
                     if length s < MAX_DEVICE_ID_LEN + 1 then Inr s else Inl CR_BUFFER_SMALL) of
                   Inl cr \<Rightarrow> do {
                     (error, w) \<leftarrow> error_create_cr E cr
                       ''Failed to get device instance ID while finding an interface.'' w;
                     w \<leftarrow> unref_if DeviceInfoSet new_list w;
                     Some ((error, None, 0), w)
                   }
                 | Inr device_id \<Rightarrow>
                     if scan_interface_number device_id = Some (ucast interface_number)
                     then Some ((NULL, new_list, info), w)
                     else composite_loop E dev_inst interface_number list_index new_list (i + 1) w
               }
         }
     }
   }"

definition get_interface_composite :: "'e cfgmgr_scheme \<Rightarrow> string \<Rightarrow> 8 word \<Rightarrow> 'w world_scheme
    \<Rightarrow> ((err \<times> nat option \<times> nat) \<times> 'w world_scheme) option" where
  "get_interface_composite E instance_id interface_number w = do {
     (r, w) \<leftarrow> ask (\<lambda>k. CM_Locate_DevNode E k instance_id) w;
     case r of
       Inl cr \<Rightarrow> do {
         (error, w) \<leftarrow> error_create_cr E cr
           ''Failed to get device node in order to find an interface.'' w;
         Some ((error, None, 0), w)
       }
     | Inr dev_inst \<Rightarrow> composite_loop E dev_inst interface_number 0 None 0 w
   }"

definition get_interface :: "'e cfgmgr_scheme \<Rightarrow> cstr \<Rightarrow> 8 word \<Rightarrow> bool \<Rightarrow> 'w world_scheme
    \<Rightarrow> ((err \<times> nat option \<times> nat) \<times> 'w world_scheme) option" where
  "get_interface E instance_id interface_number composite w = do {
     id \<leftarrow> deref instance_id w;
     if composite then get_interface_composite E id interface_number w
     else get_interface_non_composite E id w
   }"

section \<open>get_filename_from_devinst_and_guid\<close>

text \<open>The search for the node in the list; on an error the list is gone.\<close>

partial_function (option) devinst_loop :: "'e setup_api_scheme \<Rightarrow> nat \<Rightarrow> nat option \<Rightarrow> 32 word
    \<Rightarrow> 'w world_scheme \<Rightarrow> ((err \<times> nat) \<times> 'w world_scheme) option" where
  "devinst_loop E devinst list index w = do {
     (r, w) \<leftarrow> enum_device_info E list index w;
     case r of
       Inl e \<Rightarrow>
         if e = ERROR_NO_MORE_ITEMS then do {
           w \<leftarrow> unref_if DeviceInfoSet list w;
           (error, w) \<leftarrow> error_create E
             ''Could not find matching device in order to get its filename.'' w;
           (error, w) \<leftarrow> error_add_code E error (code_of LIBUSBP_ERROR_NOT_READY) w;
           Some ((error, 0), w)
         }
         else do {
           (error, w) \<leftarrow> error_create_winapi E e
             ''Failed to enumerate list item to find matching device.'' w;
           w \<leftarrow> unref_if DeviceInfoSet list w;
           Some ((error, 0), w)
         }
     | Inr device_info_data \<Rightarrow>
         if device_info_data = devinst then Some ((NULL, device_info_data), w)
         else devinst_loop E devinst list (index + 1) w
   }"

text \<open>A failure after the search: the error, and the list is closed.\<close>

definition fail_and_close :: "'e win32_scheme \<Rightarrow> 32 word \<Rightarrow> string \<Rightarrow> nat option \<Rightarrow> 'w world_scheme
    \<Rightarrow> ((err \<times> cstr) \<times> 'w world_scheme) option" where
  "fail_and_close E e fmt list w = do {
     (error, w) \<leftarrow> error_create_winapi E e fmt w;
     w \<leftarrow> unref_if DeviceInfoSet list w;
     Some ((error, NULL), w)
   }"

text \<open>
  The details of an interface: their size (writing \<open>cbSize\<close> to a block of fewer than 4 bytes is a
  fault), and then the path, which has to fit the block behind \<open>cbSize\<close>.
\<close>

definition get_interface_detail :: "'e cfgmgr_scheme \<Rightarrow> nat option \<Rightarrow> nat \<Rightarrow> 'w world_scheme
    \<Rightarrow> ((err \<times> cstr) \<times> 'w world_scheme) option" where
  "get_interface_detail E list interface_data w = do {
     ((r, size), w) \<leftarrow> ask_set list (\<lambda>k h. SetupDiGetDeviceInterfaceDetail_size E k h interface_data) w;
     if r \<noteq> None \<and> r \<noteq> Some ERROR_INSUFFICIENT_BUFFER
     then fail_and_close E (the r) ''Failed to get the size of the device interface details.'' list w
     else do {
       (detail, w) \<leftarrow> malloc E w;
       if detail = NULL then Some ((error_no_memory, NULL), w)
       else if unat size < 4 then None
       else do {
         (r, w) \<leftarrow> ask_set list (\<lambda>k h. SetupDiGetDeviceInterfaceDetail E k h interface_data) w;
         case (case r of Inl e \<Rightarrow> Inl e | Inr s \<Rightarrow>
             if 4 + length s + 1 \<le> unat size then Inr s else Inl ERROR_INSUFFICIENT_BUFFER) of
           Inl e \<Rightarrow> do {
             (error, w) \<leftarrow> error_create_winapi E e ''Failed to get the device interface details.'' w;
             w \<leftarrow> free detail w;
             w \<leftarrow> unref_if DeviceInfoSet list w;
             Some ((error, NULL), w)
           }
         | Inr path \<Rightarrow> do {
             ((error, new_string), w) \<leftarrow> string_copy E (Static path) w;
             w \<leftarrow> free detail w;
             w \<leftarrow> unref_if DeviceInfoSet list w;
             Some ((error, new_string), w)
           }
       }
     }
   }"

definition get_filename_from_devinst_and_guid :: "'e cfgmgr_scheme \<Rightarrow> nat \<Rightarrow> 128 word \<Rightarrow> 'w world_scheme
    \<Rightarrow> ((err \<times> cstr) \<times> 'w world_scheme) option" where
  "get_filename_from_devinst_and_guid E devinst guid w = do {
     ((list, e), w) \<leftarrow> get_class_devs E (GUID_INTERFACE guid) w;
     if list = None then do {
       (error, w) \<leftarrow> error_create_winapi E e
         ''Failed to create a list of devices to find a device filename.'' w;
       Some ((error, NULL), w)
     }
     else do {
       ((error, device_info_data), w) \<leftarrow> devinst_loop E devinst list 0 w;
       if error \<noteq> NULL then Some ((error, NULL), w)
       else do {
         (r, w) \<leftarrow> ask_set list (\<lambda>k h. SetupDiEnumDeviceInterfaces E k h device_info_data guid) w;
         case r of
           Inl e \<Rightarrow> fail_and_close E e ''Failed to get device interface data.'' list w
         | Inr interface_data \<Rightarrow> get_interface_detail E list interface_data w
       }
     }
   }"

section \<open>Contracts\<close>

lemma ask_set_wp [wp]:
  assumes "(DeviceInfoSet, h) \<in># live w"
    and "\<And>k w'. later w w' \<Longrightarrow> live w' = live w \<Longrightarrow> Q (q k h) w'"
  shows "runs (ask_set (Some h) q w) Q"
  using assms(2) [of "tick w" "next_id w"] assms(1) by (simp add: ask_set_def)

text \<open>What a search gives: an open set and one of its members, or nothing.\<close>

abbreviation set_res :: "nat option \<times> nat \<Rightarrow> res multiset" where
  "set_res \<equiv> \<lambda>(l, info). opt_res DeviceInfoSet l"

definition found_node :: "'e cfgmgr_scheme \<Rightarrow> string \<Rightarrow> nat option \<times> nat \<Rightarrow> bool" where
  "found_node E s = (\<lambda>(l, info). \<exists>h. l = Some h \<and> info \<in> set (dev_info_set E h) \<and>
     instance_id_of E h info s)"

definition child_interface :: "'e cfgmgr_scheme \<Rightarrow> nat \<Rightarrow> 8 word \<Rightarrow> nat option \<times> nat \<Rightarrow> bool" where
  "child_interface E dev_inst n = (\<lambda>(l, info). (\<exists>h. l = Some h \<and> info \<in> set (dev_info_set E h)) \<and>
     (\<exists>k. CM_Get_Parent E k info = Inr dev_inst) \<and>
     (\<exists>k s. CM_Get_Device_ID E k info = Inr s \<and> scan_interface_number s = Some (ucast n)))"

definition found_interface :: "'e cfgmgr_scheme \<Rightarrow> string \<Rightarrow> 8 word \<Rightarrow> nat option \<times> nat \<Rightarrow> bool" where
  "found_interface E s n r \<longleftrightarrow> (\<exists>k dev_inst. CM_Locate_DevNode E k s = Inr dev_inst \<and>
     child_interface E dev_inst n r)"

text \<open>A loop over an open set of the ledger that leaves the ledger alone, but for an error.\<close>

lemma non_composite_loop_spec:
  assumes "indexed_sets E" "(DeviceInfoSet, h) \<in># live w" "unat i \<le> length (dev_info_set E h)"
  shows "runs (non_composite_loop E s (Some h) i w) (gives nothing None
    (\<lambda>r. \<exists>info. r = Some info \<and> info \<in> set (dev_info_set E h) \<and> instance_id_of E h info s)
    (\<lambda>_. True) w)"
proof -
  have N: "length (dev_info_set E h) < 2 ^ 32" using assms(1) by (simp add: indexed_sets_def)
  show ?thesis
    using assms(2)
  proof (induction i arbitrary: w rule: index_induct [OF N])
    case 1
    show ?case by (rule assms(3))
  next
    case (2 i)
    note IH = gives_wp [OF "2"(2)]
    show ?case
      using "2"(3)
      by (subst non_composite_loop.simps)
        (auto simp: later_def says_def intro!: runs_bind error_create_winapi_wp error_create_wp
          enum_device_info_wp get_instance_id_wp IH instance_id_ofI)
  qed
qed

lemma non_composite_loop_none:
  "runs (non_composite_loop E s None i w) (gives nothing None (\<lambda>_. False) (\<lambda>_. True) w)"
  by (subst non_composite_loop.simps)
    (auto simp: enum_device_info_def later_def says_def intro!: runs_bind error_create_winapi_wp)

lemma get_interface_non_composite_gives:
  assumes "indexed_sets E"
  shows "runs (get_interface_non_composite E s w) (gives set_res (None, 0) (found_node E s) (\<lambda>_. True) w)"
  unfolding get_interface_non_composite_def
proof (rule runs_bind, rule get_class_devs_wp, goal_cases)
  case (1 h v)
  then show ?case
    by (auto simp: later_def says_def found_node_def Let_def
        intro!: wp gives_wp [OF non_composite_loop_spec [OF assms]])
next
  case (2 e v)
  then show ?case
    by (auto simp: later_def says_def Let_def intro!: wp gives_wp [OF non_composite_loop_none])
qed

lemma open_interface_list_gives:
  "runs (open_interface_list E n li w) (gives (opt_res DeviceInfoSet) None (\<lambda>l. l \<noteq> None \<and> li \<le> 2)
     (\<lambda>_. True) w)"
  by (auto simp: open_interface_list_def later_def says_def intro!: wp)

text \<open>Opening the next list and going on is the same as going on with that list.\<close>

lemma composite_loop_open:
  assumes "runs (open_interface_list E n li w) (\<lambda>(e, l) v.
    if e = NULL then \<exists>h. l = Some h \<and> runs (composite_loop E d n li (Some h) 0 v) Q else Q (e, None, 0) v)"
  shows "runs (composite_loop E d n li None i w) Q"
proof -
  obtain e l v where o: "open_interface_list E n li w = Some ((e, l), v)"
    and *: "if e = NULL then \<exists>h. l = Some h \<and> runs (composite_loop E d n li (Some h) 0 v) Q
      else Q (e, None, 0) v"
    using runsD [OF assms] by auto
  show ?thesis
  proof (cases "e = NULL")
    case True
    with * obtain h where l: "l = Some h" and r: "runs (composite_loop E d n li (Some h) 0 v) Q" by auto
    from r show ?thesis
      unfolding composite_loop.simps [of E d n li "Some h" 0 v] composite_loop.simps [of E d n li None i w]
      by (simp add: o l True)
  next
    case False
    with * o show ?thesis by (subst composite_loop.simps) simp
  qed
qed

abbreviation finds_child :: "'e cfgmgr_scheme \<Rightarrow> nat \<Rightarrow> 8 word \<Rightarrow> 'w world_scheme
    \<Rightarrow> err \<times> nat option \<times> nat \<Rightarrow> 'w world_scheme \<Rightarrow> bool" where
  "finds_child E d n w \<equiv> gives set_res (None, 0) (child_interface E d n) (\<lambda>_. True) w"

lemma child_interfaceI:
  "info \<in> set (dev_info_set E h) \<Longrightarrow> CM_Get_Parent E k info = Inr d \<Longrightarrow> CM_Get_Device_ID E k' info = Inr s \<Longrightarrow>
   scan_interface_number s = Some (ucast n) \<Longrightarrow> child_interface E d n (Some h, info)"
  by (auto simp: child_interface_def)

lemma composite_loop_members:
  fixes w :: "'w world_scheme"
  assumes "indexed_sets E" "(DeviceInfoSet, h) \<in># live w" "unat i \<le> length (dev_info_set E h)"
    and further: "\<And>(v :: 'w world_scheme) j.
      runs (composite_loop E d n (Suc li) None j v) (finds_child E d n v)"
  shows "runs (composite_loop E d n li (Some h) i w) (finds_child E d n (drop_res {#(DeviceInfoSet, h)#} w))"
proof -
  have N: "length (dev_info_set E h) < 2 ^ 32" using assms(1) by (simp add: indexed_sets_def)
  show ?thesis
    using assms(2)
  proof (induction i arbitrary: w rule: index_induct [OF N])
    case 1
    show ?case by (rule assms(3))
  next
    case (2 i)
    note IH = gives_wp [OF "2"(2)]
    show ?case
      using "2"(3)
      by (subst composite_loop.simps)
        (auto simp: later_def says_def split: sum.splits
          intro!: runs_bind error_create_winapi_wp error_create_cr_wp ask_wp
            enum_device_info_wp IH gives_wp [OF further] child_interfaceI)
  qed
qed

text \<open>The search goes through at most three lists and ends.\<close>

lemma composite_loop_spec:
  fixes w :: "'w world_scheme"
  assumes "indexed_sets E"
  shows "runs (composite_loop E d n li None i w) (finds_child E d n w)"
proof (induction "3 - li" arbitrary: li i w rule: less_induct)
  case less
  have "runs (composite_loop E d n li (Some h) 0 v) (finds_child E d n (drop_res {#(DeviceInfoSet, h)#} v))"
    if "li \<le> 2" "(DeviceInfoSet, h) \<in># live v" for h and v :: "'w world_scheme"
    by (rule composite_loop_members [OF assms that(2)]) (use that(1) less in simp_all)
  note members = gives_wp [OF this]
  show ?case
    by (rule composite_loop_open, rule gives_wp [OF open_interface_list_gives])
      (auto simp: later_def intro!: members)
qed

lemma get_interface_composite_gives:
  assumes "indexed_sets E"
  shows "runs (get_interface_composite E s n w) (gives set_res (None, 0) (found_interface E s n) (\<lambda>_. True) w)"
proof -
  have "found_interface E s n r" if "CM_Locate_DevNode E k s = Inr d" "child_interface E d n r" for k d r
    unfolding found_interface_def using that by blast
  then show ?thesis
    unfolding get_interface_composite_def
    by (auto simp: later_def says_def split: sum.splits
        intro!: runs_bind ask_wp error_create_cr_wp gives_wp [OF composite_loop_spec [OF assms]])
qed

text \<open>Both searches: a node of an open set that stands for the interface.\<close>

definition interface_node :: "'e cfgmgr_scheme \<Rightarrow> string \<Rightarrow> 8 word \<Rightarrow> bool \<Rightarrow> nat option \<times> nat \<Rightarrow> bool" where
  "interface_node E s n composite r \<longleftrightarrow> (if composite then found_interface E s n r else found_node E s r)"

lemma interface_nodeD: "interface_node E s n c (l, info) \<Longrightarrow> \<exists>h. l = Some h \<and> info \<in> set (dev_info_set E h)"
  by (auto simp: interface_node_def found_interface_def found_node_def child_interface_def split: if_splits)

lemma get_interface_gives:
  assumes "indexed_sets E" "deref p w = Some s"
  shows "runs (get_interface E p n composite w)
    (gives set_res (None, 0) (interface_node E s n composite) (\<lambda>_. True) w)"
  using get_interface_composite_gives [OF assms(1), of s n w]
    get_interface_non_composite_gives [OF assms(1), of s w]
  by (simp add: get_interface_def assms(2) interface_node_def [abs_def])

lemma get_interface_wp:
  assumes "indexed_sets E" "deref p w = Some s"
    and "\<And>h info w'. later w w' \<Longrightarrow> interface_node E s n composite (Some h, info) \<Longrightarrow>
      live w' = add_mset (DeviceInfoSet, h) (live w) \<Longrightarrow> Q (NULL, Some h, info) w'"
    and "\<And>e w'. e \<noteq> NULL \<Longrightarrow> later w w' \<Longrightarrow> wf_err e \<Longrightarrow> live w' = live w + err_res e \<Longrightarrow> Q (e, None, 0) w'"
  shows "runs (get_interface E p n composite w) Q"
proof (rule gives_wp [OF get_interface_gives [OF assms(1,2)]], goal_cases)
  case (1 r w')
  obtain l info where r: "r = (l, info)" by (cases r)
  with 1(2) obtain h where "l = Some h" by (auto dest: interface_nodeD)
  with 1 r assms(3) show ?case by simp
qed (use assms(4) in blast)

section \<open>The file name\<close>

lemma devinst_loop_spec:
  assumes "indexed_sets E" "(DeviceInfoSet, h) \<in># live w" "unat i \<le> length (dev_info_set E h)"
  shows "runs (devinst_loop E d (Some h) i w) (gives (\<lambda>_. {#(DeviceInfoSet, h)#}) 0
    (\<lambda>r. r = d \<and> d \<in> set (dev_info_set E h)) (\<lambda>_. True) (drop_res {#(DeviceInfoSet, h)#} w))"
proof -
  have N: "length (dev_info_set E h) < 2 ^ 32" using assms(1) by (simp add: indexed_sets_def)
  show ?thesis
    using assms(2)
  proof (induction i arbitrary: w rule: index_induct [OF N])
    case 1
    show ?case by (rule assms(3))
  next
    case (2 i)
    note IH = gives_wp [OF "2"(2)]
    obtain L where "live w = add_mset (DeviceInfoSet, h) L" using "2"(3) by (metis mset_add)
    then show ?case
      by (subst devinst_loop.simps)
        (auto simp: later_def says_def intro!: runs_bind error_create_winapi_wp error_create_wp
          error_add_code_wp enum_device_info_wp IH)
  qed
qed

text \<open>The sizes SetupAPI reports have room for the fixed part of the details.\<close>

definition detail_sizes :: "'e cfgmgr_scheme \<Rightarrow> bool" where
  "detail_sizes E \<longleftrightarrow> (\<forall>k h i. 4 \<le> unat (snd (SetupDiGetDeviceInterfaceDetail_size E k h i)))"

text \<open>The path is one that SetupAPI gives for an interface with the GUID of the node.\<close>

definition path_of :: "'e cfgmgr_scheme \<Rightarrow> nat \<Rightarrow> 128 word \<Rightarrow> string \<Rightarrow> bool" where
  "path_of E devinst guid s \<longleftrightarrow> (\<exists>h i k j. devinst \<in> set (dev_info_set E h) \<and>
     SetupDiEnumDeviceInterfaces E k h devinst guid = Inr i \<and>
     SetupDiGetDeviceInterfaceDetail E j h i = Inr s)"

text \<open>
  The set is closed again unless the block for the details cannot be allocated: then the set, one
  more entry of the ledger, is lost.
\<close>

definition gives_path :: "'e cfgmgr_scheme \<Rightarrow> nat \<Rightarrow> 128 word \<Rightarrow> res multiset \<Rightarrow> 'w world_scheme
    \<Rightarrow> err \<times> cstr \<Rightarrow> 'w world_scheme \<Rightarrow> bool" where
  "gives_path E d guid L w = (\<lambda>(e, p) w'. later w w' \<and> wf_err e \<and>
     (if e = NULL then \<exists>n s. p = Heap n s \<and> path_of E d guid s \<and> live w' = L + blk p
      else p = NULL \<and> (live w' = L + err_res e \<or>
        e = error_no_memory \<and> \<not> memory_ok E \<and> (\<exists>h. live w' = add_mset (DeviceInfoSet, h) L))))"

lemma get_interface_detail_spec:
  assumes "detail_sizes E" "live w = add_mset (DeviceInfoSet, h) L"
    and "\<And>j s. SetupDiGetDeviceInterfaceDetail E j h i = Inr s \<Longrightarrow> path_of E d guid s"
  shows "runs (get_interface_detail E (Some h) i w) (gives_path E d guid L w)"
proof -
  have size: "SetupDiGetDeviceInterfaceDetail_size E k h i = (x, n) \<Longrightarrow> \<not> unat n < 4" for x n k
    using assms(1) unfolding detail_sizes_def by (metis snd_conv not_less)
  show ?thesis
    using assms(2,3)
    by (auto simp: get_interface_detail_def fail_and_close_def gives_path_def later_def says_def
        dest!: size split: sum.splits prod.splits intro!: wp)
qed

lemma get_filename_spec:
  assumes "indexed_sets E" "detail_sizes E"
  shows "runs (get_filename_from_devinst_and_guid E d guid w) (gives_path E d guid (live w) w)"
proof -
  have path: "path_of E d guid s"
    if "d \<in> set (dev_info_set E h)" "SetupDiEnumDeviceInterfaces E k h d guid = Inr i"
      "SetupDiGetDeviceInterfaceDetail E j h i = Inr s" for h i j k s
    unfolding path_of_def using that by blast
  have earlier: "gives_path E d guid L v x w' \<Longrightarrow> later w v \<Longrightarrow> gives_path E d guid L w x w'" for L v x w'
    by (auto simp: gives_path_def dest: later_trans split: if_splits)
  note detail = runs_mono [OF get_interface_detail_spec [OF assms(2), where L = "live w" and d = d and guid = guid]]
  show ?thesis
    unfolding get_filename_from_devinst_and_guid_def
  proof (rule runs_bind, rule get_class_devs_wp, goal_cases)
    case (1 h v)
    then show ?case
      by (auto simp: gives_path_def fail_and_close_def says_def later_def split: sum.splits
          intro!: wp gives_wp [OF devinst_loop_spec [OF assms(1)]] detail earlier) (blast intro: path)
  next
    case (2 e v)
    then show ?case by (auto simp: gives_path_def says_def later_def intro!: wp)
  qed
qed

section \<open>Properties\<close>

lemma scan_hex_item_fmt_x:
  assumes "0 < k" "n < 16 ^ k"
  shows "scan_hex_item k (fmt_x k n @ rest) = Some (of_nat n :: 'a :: len word, rest)"
  using scan_hex_item_hex [of "fmt_x k n" rest] hex_fmt_x [of k n] length_fmt_x [OF assms] assms(1)
  by (metis length_greater_0_conv)

lemma scan_hex_item_end:
  assumes "hex_string s" "s \<noteq> []"
  shows "scan_hex_item (length s) s = Some (of_nat (hex_number 0 s) :: 'a :: len word, [])"
  using scan_hex_item_hex [OF assms, of "[]"] by simp

text \<open>
  The interface number is read back from the instance IDs Windows makes: for a USB interface
  from the two hexadecimal digits behind \<open>MI_\<close>, whatever follows them, and for an FTDI port from the
  digits behind the second backslash.
\<close>

theorem interface_number_roundtrip:
  fixes n :: "8 word" and v p :: "16 word"
  assumes "CHR 0x5C \<notin> set s" "s \<noteq> []"
  shows "scan_interface_number (''USB'' @ CHR 0x5C # ''VID_'' @ fmt_x 4 (unat v) @ ''&PID_'' @
      fmt_x 4 (unat p) @ ''&MI_'' @ fmt_x 2 (unat n) @ rest) = Some (ucast n) \<and>
    scan_interface_number (''FTDIBUS'' @ CHR 0x5C # s @ CHR 0x5C # fmt_x 4 (unat n)) = Some (ucast n)"
proof
  have w: "unat v < 16 ^ 4" "unat p < 16 ^ 4" "unat n < 16 ^ 2" "unat n < 16 ^ 4"
    using unsigned_less [of v, where ?'a = nat] unsigned_less [of p, where ?'a = nat]
      unsigned_less [of n, where ?'a = nat] by simp_all
  have n: "(of_nat (unat n) :: 32 word) = ucast n" by simp
  have a: "''USB'' @ CHR 0x5C # ''VID_'' @ fmt_x 4 (unat v) @ ''&PID_'' @ fmt_x 4 (unat p) @ ''&MI_'' @
      fmt_x 2 (unat n) @ rest = (''USB'' @ CHR 0x5C # ''VID_'') @ (fmt_x 4 (unat v) @ (''&PID_'' @
      (fmt_x 4 (unat p) @ (''&MI_'' @ (fmt_x 2 (unat n) @ rest)))))" by simp
  show "scan_interface_number (''USB'' @ CHR 0x5C # ''VID_'' @ fmt_x 4 (unat v) @ ''&PID_'' @
      fmt_x 4 (unat p) @ ''&MI_'' @ fmt_x 2 (unat n) @ rest) = Some (ucast n)"
    unfolding a scan_interface_number_def scan_usb_interface_def
    by (simp only: scan_lit_append scan_hex_item_fmt_x w zero_less_numeral Option.bind.simps
        prod.simps option.simps n)
  have f: "length (fmt_x 4 (unat n)) = 4" "fmt_x 4 (unat n) \<noteq> []"
    using length_fmt_x [OF _ w(4)] by auto
  have h: "scan_hex_item (length (fmt_x 4 (unat n))) (fmt_x 4 (unat n)) = Some (ucast n :: 32 word, [])"
    using scan_hex_item_end [OF hex_fmt_x(1) f(2)] by (simp add: hex_fmt_x(2) n)
  have t: "takeWhile (\<lambda>x. x \<noteq> CHR 0x5C) (s @ CHR 0x5C # r) = s"
    "dropWhile (\<lambda>x. x \<noteq> CHR 0x5C) (s @ CHR 0x5C # r) = CHR 0x5C # r" for r
    using assms(1) by (induction s) auto
  have b: "''FTDIBUS'' @ CHR 0x5C # s @ CHR 0x5C # fmt_x 4 (unat n) =
      (''FTDIBUS'' @ [CHR 0x5C]) @ (s @ CHR 0x5C # fmt_x 4 (unat n))" by simp
  have c: "CHR 0x5C # fmt_x 4 (unat n) = [CHR 0x5C] @ fmt_x 4 (unat n)" by simp
  have "scan_usb_interface (''FTDIBUS'' @ CHR 0x5C # r) = None" for r
    by (simp add: scan_usb_interface_def scan_lit_def)
  moreover have "scan_ftdi_interface (''FTDIBUS'' @ CHR 0x5C # s @ CHR 0x5C # fmt_x 4 (unat n)) =
      Some (ucast n)"
    unfolding b scan_ftdi_interface_def scan_lit_append Option.bind.simps scan_not_def t
    using assms(2) by (simp only: if_False option.simps Option.bind.simps c scan_lit_append h prod.simps)
  ultimately show "scan_interface_number (''FTDIBUS'' @ CHR 0x5C # s @ CHR 0x5C # fmt_x 4 (unat n)) =
      Some (ucast n)"
    by (simp only: scan_interface_number_def option.simps)
qed

theorem interface_number_roundtrip_witness:
  "scan_interface_number (''FTDIBUS'' @ CHR 0x5C # ''VID_0403+PID_6001'' @ CHR 0x5C # fmt_x 4 (unat (1 :: 8 word))) =
     Some (ucast (1 :: 8 word))"
  by (rule interface_number_roundtrip [where s = "''VID_0403+PID_6001''", THEN conjunct2]) simp_all

text \<open>
  C27: The search for the device node of an interface always ends.  It gives an open set and one of
  its members: for a device that is not composite, the one with the instance ID of the device; for
  a composite one, a child of the device's node whose instance ID has the interface number.
  Otherwise it gives an error and no set.  Every other set it opened is closed: closing the one it
  gives brings the ledger back.
\<close>

theorem get_interface_correct:
  assumes "indexed_sets E" "deref p w = Some s"
  shows "runs (get_interface E p n composite w) (\<lambda>(e, l, info) w'.
    (if e = NULL then interface_node E s n composite (l, info) \<and> l \<noteq> None else l = None) \<and>
    (\<exists>w''. unref_if DeviceInfoSet l w' = Some w'' \<and> live w'' = live w + err_res e))"
  by (rule get_interface_wp [OF assms]) simp_all

text \<open>A computer with one composite USB device (node 1) that has one interface (node 2).\<close>

definition demo_cfgmgr :: cfgmgr where
  "demo_cfgmgr = setup_api.extend demo_setup \<lparr>CM_Locate_DevNode = \<lambda>_ _. Inr 1, CM_Get_Parent = \<lambda>_ _. Inr 1,
     CM_Get_Device_ID = \<lambda>_ _. Inr (''USB'' @ CHR 0x5C # ''VID_1FFB&PID_0101&MI_00'' @ CHR 0x5C # ''1''),
     SetupDiEnumDeviceInterfaces = \<lambda>_ _ _ _. Inr 0,
     SetupDiGetDeviceInterfaceDetail_size = \<lambda>_ _ _. (None, 260),
     SetupDiGetDeviceInterfaceDetail = \<lambda>_ _ _. Inr ''device''\<rparr>"

lemma demo_cfgmgr_ok: "indexed_sets demo_cfgmgr" "detail_sizes demo_cfgmgr" "memory_ok demo_cfgmgr"
  by (simp_all add: demo_cfgmgr_def demo_setup_def indexed_sets_def detail_sizes_def memory_ok_def
      setup_api.defs)

theorem get_interface_correct_witness:
  "runs (get_interface demo_cfgmgr (Heap 0 ''USB'') 0 True \<lparr>next_id = 1, live = {#(Mem, 0)#}\<rparr>)
     (\<lambda>(e, l, info) w'. \<exists>w''. unref_if DeviceInfoSet l w' = Some w'' \<and> live w'' = {#(Mem, 0)#} + err_res e)"
  by (rule runs_mono [OF get_interface_correct [where s = "''USB''"]]) (auto simp: demo_cfgmgr_ok)

end
