(* ===== verification/GenericInterfaceWindows.thy ===== *)
theory GenericInterfaceWindows
  imports InterfaceWindows
begin

text \<open>
  \<open>src/src/windows/generic_interface_windows.c\<close>: interface objects on Windows, which record the
  instance ID of the device node of the interface and the name of the file that gives access to it.
  The registry is also what \<open>SerialPortWindows\<close> reads.
\<close>

section \<open>The registry\<close>

text \<open>
  What the sources use beyond \<open>cfgmgr\<close>: the service of a node, the registry key of a node with the
  values \<open>DeviceInterfaceGUIDs\<close> (wide characters) and \<open>PortName\<close> (answers are an error code, or the
  type and the data), comparison without regard to case, and the parser of GUIDs.
\<close>

record registry = cfgmgr +
  SPDRP_SERVICE :: "nat \<Rightarrow> nat \<Rightarrow> nat \<Rightarrow> 32 word + 32 word \<times> string"
  equal_ignore_case :: "string \<Rightarrow> string \<Rightarrow> bool"
  SetupDiOpenDevRegKey :: "nat \<Rightarrow> nat \<Rightarrow> nat \<Rightarrow> 32 word option"
  DeviceInterfaceGUIDs_size :: "nat \<Rightarrow> nat \<Rightarrow> 32 word + 32 word"
  DeviceInterfaceGUIDs :: "nat \<Rightarrow> nat \<Rightarrow> 32 word + 32 word \<times> 16 word list"
  IIDFromString :: "16 word list \<Rightarrow> 32 word + 128 word"
  PortName :: "nat \<Rightarrow> nat \<Rightarrow> 32 word + 32 word \<times> string"

abbreviation (input) "ERROR_MORE_DATA \<equiv> (234 :: 32 word)"

text \<open>
  Reading a string from a buffer that was filled from the registry: without a terminator in what was
  written the read goes on into bytes nobody wrote, a fault.
\<close>

definition c_read :: "string \<Rightarrow> string option" where
  "c_read bytes = (if NUL \<in> set bytes then Some (takeWhile (\<lambda>c. c \<noteq> NUL) bytes) else None)"

definition wide_read :: "16 word list \<Rightarrow> 16 word list option" where
  "wide_read ws = (if 0 \<in> set ws then Some (takeWhile (\<lambda>c. c \<noteq> 0) ws) else None)"

text \<open>The registry key of a node, and a query of one of its values.\<close>

definition open_dev_reg_key :: "'e registry_scheme \<Rightarrow> nat option \<Rightarrow> nat \<Rightarrow> 'w world_scheme
    \<Rightarrow> ((nat option \<times> 32 word) \<times> 'w world_scheme) option" where
  "open_dev_reg_key E list info w = do {
     h \<leftarrow> list;
     borrow (DeviceInfoSet, h) w;
     Some (case SetupDiOpenDevRegKey E (next_id w) h info of
       None \<Rightarrow> ((Some (next_id w), 0), take_res RegistryKey w)
     | Some e \<Rightarrow> ((None, e), tick w))
   }"

definition query_key :: "nat option \<Rightarrow> (nat \<Rightarrow> nat \<Rightarrow> 'a) \<Rightarrow> 'w world_scheme \<Rightarrow> ('a \<times> 'w world_scheme) option" where
  "query_key key q w = do {
     h \<leftarrow> key;
     borrow (RegistryKey, h) w;
     Some (q (next_id w) h, tick w)
   }"

section \<open>generic_interface_windows.c\<close>

record libusbp_generic_interface_windows =
  giw_interface_number :: "8 word"
  giw_device_instance_id :: cstr
  giw_filename :: cstr

type_synonym generic_interface_windows = "libusbp_generic_interface_windows ptr"

definition get_driver_name :: "'e registry_scheme \<Rightarrow> nat option \<Rightarrow> nat \<Rightarrow> 'w world_scheme
    \<Rightarrow> ((err \<times> cstr) \<times> 'w world_scheme) option" where
  "get_driver_name E list info w = do {
     (r, w) \<leftarrow> ask_set list (\<lambda>k h. SPDRP_SERVICE E k h info) w;
     case (case r of Inl e \<Rightarrow> Inl e | Inr (data_type, bytes) \<Rightarrow>
         if length bytes \<le> 64 then Inr (data_type, bytes) else Inl ERROR_INSUFFICIENT_BUFFER) of
       Inl e \<Rightarrow>
         if e = ERROR_INVALID_DATA then Some ((NULL, NULL), w)
         else do {
           (error, w) \<leftarrow> error_create_winapi E e ''Failed to get the service name.'' w;
           Some ((error, NULL), w)
         }
     | Inr (data_type, service) \<Rightarrow>
         if data_type \<noteq> REG_SZ then do {
           (error, w) \<leftarrow> error_create E
             (''Service name is the wrong data type: '' @ fmt_d (sint data_type) @ ''.'') w;
           Some ((error, NULL), w)
         }
         else do { s \<leftarrow> c_read service; string_copy E (Static s) w }
   }"

text \<open>The results: the error, whether a good or a bad driver is installed, and its name.\<close>

definition check_driver_installation_windows :: "'e registry_scheme \<Rightarrow> nat option \<Rightarrow> nat \<Rightarrow> 'w world_scheme
    \<Rightarrow> ((err \<times> bool \<times> bool \<times> cstr) \<times> 'w world_scheme) option" where
  "check_driver_installation_windows E list info w = do {
     ((error, driver_name), w) \<leftarrow> get_driver_name E list info w;
     if error \<noteq> NULL then Some ((error, False, False, driver_name), w)
     else if driver_name = NULL then Some ((NULL, False, False, driver_name), w)
     else do {
       s \<leftarrow> deref driver_name w;
       if equal_ignore_case E s ''winusb'' then Some ((NULL, True, False, driver_name), w)
       else Some ((NULL, False, True, driver_name), w)
     }
   }"

definition get_first_device_interface_guid :: "'e registry_scheme \<Rightarrow> nat option \<Rightarrow> nat \<Rightarrow> 'w world_scheme
    \<Rightarrow> ((err \<times> 128 word) \<times> 'w world_scheme) option" where
  "get_first_device_interface_guid E list info w = do {
     ((key, e), w) \<leftarrow> open_dev_reg_key E list info w;
     if key = None then do {
       (error, w) \<leftarrow> error_create_winapi E e
         ''Failed to get device registry key in order to find its device interface GUIDs.'' w;
       Some ((error, 0), w)
     }
     else do {
       (r, w) \<leftarrow> query_key key (DeviceInterfaceGUIDs_size E) w;
       case r of
         Inl reg_result \<Rightarrow> do {
           w \<leftarrow> unref_if RegistryKey key w;
           (error, w) \<leftarrow> (if reg_result = ERROR_FILE_NOT_FOUND
             then error_create E ''DeviceInterfaceGUIDs key does not exist.'' w
             else error_create_winapi E reg_result ''Failed to get DeviceInterfaceGUIDs key size.'' w);
           Some ((error, 0), w)
         }
       | Inr n \<Rightarrow> do {
           (guids, w) \<leftarrow> malloc E w;
           if guids = NULL then Some ((error_no_memory, 0), w)
           else do {
             (r, w) \<leftarrow> query_key key (DeviceInterfaceGUIDs E) w;
             w \<leftarrow> unref_if RegistryKey key w;
             case (case r of Inl e \<Rightarrow> Inl e | Inr (reg_type, ws) \<Rightarrow>
                 if 2 * length ws \<le> unat n then Inr (reg_type, ws) else Inl ERROR_MORE_DATA) of
               Inl reg_result \<Rightarrow> do {
                 w \<leftarrow> free guids w;
                 (error, w) \<leftarrow> error_create_winapi E reg_result ''Failed to get DeviceInterfaceGUIDs key.'' w;
                 Some ((error, 0), w)
               }
             | Inr (reg_type, ws) \<Rightarrow>
                 if reg_type \<noteq> REG_MULTI_SZ then do {
                   w \<leftarrow> free guids w;
                   (error, w) \<leftarrow> error_create E
                     (''Expected DeviceInterfaceGUIDs key to be a REG_MULTI_SZ (0x'' @
                      fmt_x 0 (unat REG_MULTI_SZ) @ ''), got 0x'' @ fmt_x 0 (unat reg_type) @ ''.'') w;
                   Some ((error, 0), w)
                 }
                 else do {
                   s \<leftarrow> wide_read ws;
                   let hr = IIDFromString E s;
                   w \<leftarrow> free guids w;
                   case hr of
                     Inl hr \<Rightarrow> do {
                       (error, w) \<leftarrow> error_create_hr E hr ''Failed to parse device interface GUID.'' w;
                       Some ((error, 0), w)
                     }
                   | Inr guid \<Rightarrow> Some ((NULL, guid), w)
                 }
           }
         }
     }
   }"

text \<open>
  The part of \<open>generic_interface_initialize\<close> that checks the driver: the error, and the name of the
  driver.
\<close>

definition check_driver_situation :: "'e registry_scheme \<Rightarrow> nat option \<Rightarrow> nat \<Rightarrow> 'w world_scheme
    \<Rightarrow> ((err \<times> cstr) \<times> 'w world_scheme) option" where
  "check_driver_situation E list info w = do {
     ((error, good_driver_installed, bad_driver_installed, driver_name), w) \<leftarrow>
       check_driver_installation_windows E list info w;
     (error, w) \<leftarrow> (if error = NULL \<and> bad_driver_installed then do {
         s \<leftarrow> deref driver_name w;
         error_create E (''Device is attached to an incorrect driver: '' @ s @ ''.'') w
       }
       else Some (error, w));
     (error, w) \<leftarrow> (if error = NULL \<and> \<not> good_driver_installed then do {
         (error, w) \<leftarrow> error_create E ''Device is not using any driver.'' w;
         error_add_code E error (code_of LIBUSBP_ERROR_NOT_READY) w
       }
       else Some (error, w));
     Some ((error, driver_name), w)
   }"

definition generic_interface_initialize :: "'e registry_scheme \<Rightarrow> block \<Rightarrow> device_windows \<Rightarrow> 8 word
    \<Rightarrow> bool \<Rightarrow> 'w world_scheme \<Rightarrow> ((err \<times> generic_interface_windows) \<times> 'w world_scheme) option" where
  "generic_interface_initialize E gi device interface_number composite w = do {
     gi \<leftarrow> store gi \<lparr>giw_interface_number = interface_number, giw_device_instance_id = NULL,
       giw_filename = NULL\<rparr> w;
     ((error, usb_device_id), w) \<leftarrow> libusbp_device_get_os_id_windows E device True w;
     ((error, list, info), w) \<leftarrow> ok_then error (None, 0)
       (get_interface E usb_device_id interface_number composite) w;
     ((error, gi), w) \<leftarrow> ok_then error gi (set_field (create_id_string E list info)
       (\<lambda>s x. x\<lparr>giw_device_instance_id := s\<rparr>) gi) w;
     ((error, driver_name), w) \<leftarrow> ok_then error NULL (check_driver_situation E list info) w;
     ((error, guid), w) \<leftarrow> ok_then error 0 (get_first_device_interface_guid E list info) w;
     ((error, gi), w) \<leftarrow> ok_then error gi (set_field (get_filename_from_devinst_and_guid E info guid)
       (\<lambda>s x. x\<lparr>giw_filename := s\<rparr>) gi) w;
     w \<leftarrow> unref_if DeviceInfoSet list w;
     w \<leftarrow> libusbp_string_free driver_name w;
     w \<leftarrow> libusbp_string_free usb_device_id w;
     (error, w) \<leftarrow> (if error \<noteq> NULL
       then error_add E error ''Failed to initialize generic interface.'' w else Some (NULL, w));
     Some ((error, gi), w)
   }"

definition libusbp_generic_interface_free_windows :: "generic_interface_windows \<Rightarrow> 'w world_scheme
    \<Rightarrow> 'w world_scheme option" where
  "libusbp_generic_interface_free_windows gi w =
     (if gi = NULL then Some w
      else do {
        x \<leftarrow> deref gi w;
        w \<leftarrow> free (giw_device_instance_id x) w;
        w \<leftarrow> free (giw_filename x) w;
        free gi w
      })"

definition libusbp_generic_interface_create_windows :: "'e registry_scheme \<Rightarrow> device_windows \<Rightarrow> 8 word
    \<Rightarrow> bool \<Rightarrow> bool \<Rightarrow> 'w world_scheme
    \<Rightarrow> ((err \<times> generic_interface_windows) \<times> 'w world_scheme) option" where
  "libusbp_generic_interface_create_windows E device interface_number composite given w =
     (if \<not> given then do {
        (error, w) \<leftarrow> error_create E ''Generic interface output pointer is null.'' w;
        Some ((error, NULL), w)
      }
      else if device = NULL then do {
        (error, w) \<leftarrow> error_create E ''Device is null.'' w;
        Some ((error, NULL), w)
      }
      else do {
        (new_gi, w) \<leftarrow> malloc E w;
        if new_gi = NULL then Some ((error_no_memory, NULL), w)
        else do {
          ((error, new_gi), w) \<leftarrow> generic_interface_initialize E new_gi device interface_number composite w;
          if error \<noteq> NULL then do {
            w \<leftarrow> libusbp_generic_interface_free_windows new_gi w;
            Some ((error, NULL), w)
          }
          else Some ((NULL, new_gi), w)
        }
      })"

text \<open>\<open>strdup\<close> of a string that is there: a copy, or NULL.\<close>

definition strdup :: "'e environment_scheme \<Rightarrow> cstr \<Rightarrow> 'w world_scheme \<Rightarrow> (cstr \<times> 'w world_scheme) option" where
  "strdup E p w = do {
     s \<leftarrow> deref p w;
     (b, w) \<leftarrow> malloc E w;
     if b = NULL then Some (NULL, w) else do { b \<leftarrow> store b s w; Some (b, w) }
   }"

definition libusbp_generic_interface_copy_windows :: "'e environment_scheme \<Rightarrow> generic_interface_windows
    \<Rightarrow> bool \<Rightarrow> 'w world_scheme \<Rightarrow> ((err \<times> generic_interface_windows) \<times> 'w world_scheme) option" where
  "libusbp_generic_interface_copy_windows E source given w =
     (if \<not> given then do {
        (error, w) \<leftarrow> error_create E ''Generic interface output pointer is null.'' w;
        Some ((error, NULL), w)
      }
      else if source = NULL then Some ((NULL, NULL), w)
      else do {
        x \<leftarrow> deref source w;
        (if giw_device_instance_id x = NULL \<or> giw_filename x = NULL then None else Some ());
        (new_gi, w) \<leftarrow> malloc E w;
        (id, w) \<leftarrow> strdup E (giw_device_instance_id x) w;
        (filename, w) \<leftarrow> strdup E (giw_filename x) w;
        if new_gi = NULL \<or> id = NULL \<or> filename = NULL then do {
          w \<leftarrow> free new_gi w;
          w \<leftarrow> free id w;
          w \<leftarrow> free filename w;
          Some ((error_no_memory, NULL), w)
        }
        else do {
          new_gi \<leftarrow> store new_gi \<lparr>giw_interface_number = giw_interface_number x,
            giw_device_instance_id = id, giw_filename = filename\<rparr> w;
          Some ((NULL, new_gi), w)
        }
      })"

definition libusbp_generic_interface_get_os_id_windows :: "'e environment_scheme
    \<Rightarrow> generic_interface_windows \<Rightarrow> bool \<Rightarrow> 'w world_scheme \<Rightarrow> ((err \<times> cstr) \<times> 'w world_scheme) option" where
  "libusbp_generic_interface_get_os_id_windows E gi given w =
     (if \<not> given then do {
        (error, w) \<leftarrow> error_create E ''String output pointer is null.'' w;
        Some ((error, NULL), w)
      }
      else if gi = NULL then do {
        (error, w) \<leftarrow> error_create E ''Generic interface is null.'' w;
        Some ((error, NULL), w)
      }
      else do { x \<leftarrow> deref gi w; string_copy E (giw_device_instance_id x) w })"

definition libusbp_generic_interface_get_os_filename_windows :: "'e environment_scheme
    \<Rightarrow> generic_interface_windows \<Rightarrow> bool \<Rightarrow> 'w world_scheme \<Rightarrow> ((err \<times> cstr) \<times> 'w world_scheme) option" where
  "libusbp_generic_interface_get_os_filename_windows E gi given w =
     (if \<not> given then do {
        (error, w) \<leftarrow> error_create E ''String output pointer is null.'' w;
        Some ((error, NULL), w)
      }
      else if gi = NULL then do {
        (error, w) \<leftarrow> error_create E ''Generic interface is null.'' w;
        Some ((error, NULL), w)
      }
      else do { x \<leftarrow> deref gi w; string_copy E (giw_filename x) w })"

section \<open>Contracts of the registry\<close>

lemma open_dev_reg_key_wp [wp]:
  assumes "(DeviceInfoSet, h) \<in># live w"
    and "\<And>n w'. later w w' \<Longrightarrow> live w' = add_mset (RegistryKey, n) (live w) \<Longrightarrow>
      SetupDiOpenDevRegKey E n h info = None \<Longrightarrow> Q (Some n, 0) w'"
    and "\<And>e w'. later w w' \<Longrightarrow> live w' = live w \<Longrightarrow> Q (None, e) w'"
  shows "runs (open_dev_reg_key E (Some h) info w) Q"
  using assms by (auto simp: open_dev_reg_key_def split: option.splits)

lemma query_key_wp [wp]:
  assumes "(RegistryKey, n) \<in># live w" and "\<And>k w'. later w w' \<Longrightarrow> live w' = live w \<Longrightarrow> Q (q k n) w'"
  shows "runs (query_key (Some n) q w) Q"
  using assms(2) [of "tick w" "next_id w"] assms(1) by (simp add: query_key_def)

lemma strdup_wp [wp]:
  assumes "deref p w = Some s"
    and "\<And>n w'. later w w' \<Longrightarrow> live w' = add_mset (Mem, n) (live w) \<Longrightarrow> Q (Heap n s) w'"
    and "\<And>w'. later w w' \<Longrightarrow> live w' = live w \<Longrightarrow> \<not> memory_ok E \<Longrightarrow> Q NULL w'"
  shows "runs (strdup E p w) Q"
  using assms by (auto simp: strdup_def intro!: wp)

text \<open>Strings in the registry have their terminators.  The system does not promise this.\<close>

definition terminated :: "'e registry_scheme \<Rightarrow> bool" where
  "terminated E \<longleftrightarrow> (\<forall>k h i b. SPDRP_SERVICE E k h i = Inr (REG_SZ, b) \<longrightarrow> NUL \<in> set b) \<and>
     (\<forall>k h ws. DeviceInterfaceGUIDs E k h = Inr (REG_MULTI_SZ, ws) \<longrightarrow> 0 \<in> set ws) \<and>
     (\<forall>k h b. PortName E k h = Inr (REG_SZ, b) \<longrightarrow> NUL \<in> set b)"

text \<open>What the registry says of a node: its service, and the GUID of its interface.\<close>

definition service_of :: "'e registry_scheme \<Rightarrow> nat \<Rightarrow> nat \<Rightarrow> string \<Rightarrow> bool" where
  "service_of E h info s \<longleftrightarrow> (\<exists>k b. SPDRP_SERVICE E k h info = Inr (REG_SZ, b) \<and> c_read b = Some s)"

definition winusb_node :: "'e registry_scheme \<Rightarrow> nat \<Rightarrow> nat \<Rightarrow> bool" where
  "winusb_node E h info \<longleftrightarrow> (\<exists>s. service_of E h info s \<and> equal_ignore_case E s ''winusb'')"

definition guid_of :: "'e registry_scheme \<Rightarrow> nat \<Rightarrow> nat \<Rightarrow> 128 word \<Rightarrow> bool" where
  "guid_of E h info g \<longleftrightarrow> (\<exists>key k ws s. SetupDiOpenDevRegKey E key h info = None \<and>
     DeviceInterfaceGUIDs E k key = Inr (REG_MULTI_SZ, ws) \<and> wide_read ws = Some s \<and>
     IIDFromString E s = Inr g)"

lemma terminatedD:
  assumes "terminated E"
  shows "SPDRP_SERVICE E k h info = Inr (REG_SZ, b) \<Longrightarrow> \<exists>s. c_read b = Some s \<and> service_of E h info s"
    and "DeviceInterfaceGUIDs E k key = Inr (REG_MULTI_SZ, ws) \<Longrightarrow> SetupDiOpenDevRegKey E key h info = None \<Longrightarrow>
      \<exists>s. wide_read ws = Some s \<and> (\<forall>g. IIDFromString E s = Inr g \<longrightarrow> guid_of E h info g)"
  using assms unfolding terminated_def service_of_def guid_of_def
  by (auto simp: c_read_def wide_read_def) blast+

lemma get_driver_name_gives:
  assumes "terminated E" "(DeviceInfoSet, h) \<in># live w"
  shows "runs (get_driver_name E (Some h) info w) (gives blk NULL
    (\<lambda>p. p = NULL \<or> (\<exists>n s. p = Heap n s \<and> service_of E h info s)) (\<lambda>_. True) w)"
  using assms(2)
  by (auto simp: get_driver_name_def later_def says_def split: sum.splits prod.splits
      dest!: terminatedD(1) [OF assms(1)] intro!: wp)

lemma check_driver_situation_spec:
  assumes "terminated E" "(DeviceInfoSet, h) \<in># live w"
  shows "runs (check_driver_situation E (Some h) info w) (\<lambda>(e, p) w'. later w w' \<and> wf_err e \<and>
    live w' = live w + blk p + err_res e \<and> \<not> is_static p \<and> (e = NULL \<longrightarrow> winusb_node E h info))"
proof -
  have "winusb_node E h info" if "service_of E h info s" "equal_ignore_case E s ''winusb''" for s
    using that unfolding winusb_node_def by blast
  then show ?thesis
    using assms(2)
    by (auto simp: check_driver_situation_def check_driver_installation_windows_def later_def says_def
        intro!: wp gives_wp [OF get_driver_name_gives [OF assms(1)]])
qed

text \<open>
  A constructor that is not careful when memory runs out: it may then lose one open set or key.
\<close>

definition loses :: "'e environment_scheme \<Rightarrow> ('r \<Rightarrow> res multiset) \<Rightarrow> 'r \<Rightarrow> ('r \<Rightarrow> bool) \<Rightarrow> 'w world_scheme
    \<Rightarrow> err \<times> 'r \<Rightarrow> 'w world_scheme \<Rightarrow> bool" where
  "loses E own none P w = (\<lambda>(e, r) w'. later w w' \<and>
     (if e = NULL then P r \<and> live w' = live w + own r
      else wf_err e \<and> r = none \<and> (live w' = live w + err_res e \<or> \<not> memory_ok E \<and>
        (\<exists>k n. k \<in> {DeviceInfoSet, RegistryKey} \<and> live w' = add_mset (k, n) (live w + err_res e)))))"

lemma loses_simps [simp]:
  "loses E own none P w (NULL, r) w' \<longleftrightarrow> later w w' \<and> P r \<and> live w' = live w + own r"
  "e \<noteq> NULL \<Longrightarrow> loses E own none P w (e, r) w' \<longleftrightarrow> later w w' \<and> wf_err e \<and> r = none \<and>
     (live w' = live w + err_res e \<or> \<not> memory_ok E \<and>
        (\<exists>k n. k \<in> {DeviceInfoSet, RegistryKey} \<and> live w' = add_mset (k, n) (live w + err_res e)))"
  by (simp_all add: loses_def)

lemma loses_wp:
  assumes "runs m (loses E own none P w)"
    and "\<And>r w'. later w w' \<Longrightarrow> P r \<Longrightarrow> live w' = live w + own r \<Longrightarrow> Q (NULL, r) w'"
    and "\<And>e w'. e \<noteq> NULL \<Longrightarrow> later w w' \<Longrightarrow> wf_err e \<Longrightarrow> live w' = live w + err_res e \<Longrightarrow> Q (e, none) w'"
    and "\<And>e k n w'. e \<noteq> NULL \<Longrightarrow> later w w' \<Longrightarrow> wf_err e \<Longrightarrow> \<not> memory_ok E \<Longrightarrow>
      k \<in> {DeviceInfoSet, RegistryKey} \<Longrightarrow> live w' = add_mset (k, n) (live w + err_res e) \<Longrightarrow> Q (e, none) w'"
  shows "runs m Q"
  by (rule runs_mono [OF assms(1)]) (auto simp: loses_def split: if_splits intro: assms(2-4))

lemma loses_gives: "memory_ok E \<Longrightarrow> loses E own none P w = gives own none P (\<lambda>_. True) w"
  by (auto simp: loses_def gives_def)

lemma get_first_device_interface_guid_loses:
  assumes "terminated E" "(DeviceInfoSet, h) \<in># live w"
  shows "runs (get_first_device_interface_guid E (Some h) info w)
    (loses E nothing 0 (guid_of E h info) w)"
  using assms(2)
  by (auto simp: get_first_device_interface_guid_def later_def says_def split: sum.splits prod.splits
      dest!: terminatedD(2) [OF assms(1)] intro!: wp)

section \<open>What interfaces own and say\<close>

definition giw_res :: "generic_interface_windows \<Rightarrow> res multiset" where
  "giw_res g = owns (\<lambda>x. blk (giw_device_instance_id x) + blk (giw_filename x)) g"

definition wf_giw :: "generic_interface_windows \<Rightarrow> bool" where
  "wf_giw g = (case g of NULL \<Rightarrow> True
     | Heap n x \<Rightarrow> (\<exists>m s. giw_device_instance_id x = Heap m s) \<and> (\<exists>m s. giw_filename x = Heap m s)
     | Static x \<Rightarrow> False)"

text \<open>The interface number, the instance ID of its node and the file name.\<close>

definition giw_view :: "generic_interface_windows \<Rightarrow> (8 word \<times> string \<times> string) option" where
  "giw_view g = (case g of
     Heap n x \<Rightarrow> Some (giw_interface_number x, contents '''' (giw_device_instance_id x),
       contents '''' (giw_filename x))
   | _ \<Rightarrow> None)"

lemma giw_simps [simp]:
  "giw_res NULL = {#}" "wf_giw NULL" "giw_view NULL = None" "\<not> wf_giw (Static x)"
  "giw_res (Heap n x) = add_mset (Mem, n) (blk (giw_device_instance_id x) + blk (giw_filename x))"
  "wf_giw (Heap n x) \<longleftrightarrow> (\<exists>m s. giw_device_instance_id x = Heap m s) \<and> (\<exists>m s. giw_filename x = Heap m s)"
  "giw_view (Heap n x) = Some (giw_interface_number x, contents '''' (giw_device_instance_id x),
     contents '''' (giw_filename x))"
  by (simp_all add: giw_res_def wf_giw_def giw_view_def)

lemma libusbp_generic_interface_free_windows_ok:
  assumes "wf_giw g" and "giw_res g \<subseteq># live w"
  shows "libusbp_generic_interface_free_windows g w = Some (drop_res (giw_res g) w)"
proof -
  obtain L where "live w = giw_res g + L"
    using assms(2) by (auto simp: mset_subset_eq_exists_conv)
  with assms(1) show ?thesis
    by (cases g) (auto simp: libusbp_generic_interface_free_windows_def add_mset_commute)
qed

interpretation generic_interface_windows: releases libusbp_generic_interface_free_windows giw_res wf_giw
  by unfold_locales (rule libusbp_generic_interface_free_windows_ok)

text \<open>
  What an interface object says of interface \<open>i\<close> of the device with the instance ID \<open>s\<close>: there is a
  node for it, whose driver is WinUSB, and the file name is that of the node's first interface GUID.
\<close>

definition describes_interface :: "'e registry_scheme \<Rightarrow> string \<Rightarrow> 8 word \<Rightarrow> bool
    \<Rightarrow> 8 word \<times> string \<times> string \<Rightarrow> bool" where
  "describes_interface E s i composite = (\<lambda>(n, id, file). n = i \<and>
     (\<exists>h info g. interface_node E s i composite (Some h, info) \<and> instance_id_of E h info id \<and>
        winusb_node E h info \<and> guid_of E h info g \<and> path_of E info g file))"

definition windows_ok :: "'e registry_scheme \<Rightarrow> bool" where
  "windows_ok E \<longleftrightarrow> indexed_sets E \<and> detail_sizes E \<and> terminated E"

text \<open>The initialisation, of a fresh block: what it leaves, whether or not it succeeds.\<close>

definition giw_part :: "generic_interface_windows \<Rightarrow> bool" where
  "giw_part g = (\<exists>n x. g = Heap n x \<and> \<not> is_static (giw_device_instance_id x) \<and> \<not> is_static (giw_filename x))"

lemma giw_part_free:
  assumes "giw_part g" "giw_res g \<subseteq># live w"
  shows "libusbp_generic_interface_free_windows g w = Some (drop_res (giw_res g) w)"
proof -
  obtain L where "live w = giw_res g + L"
    using assms(2) by (auto simp: mset_subset_eq_exists_conv)
  with assms(1) show ?thesis
    by (auto simp: giw_part_def libusbp_generic_interface_free_windows_def not_static_conv add_mset_commute)
qed

definition initialized :: "'e registry_scheme \<Rightarrow> string \<Rightarrow> 8 word \<Rightarrow> bool \<Rightarrow> res multiset \<Rightarrow> 'w world_scheme
    \<Rightarrow> err \<times> generic_interface_windows \<Rightarrow> 'w world_scheme \<Rightarrow> bool" where
  "initialized E s i composite L w = (\<lambda>(e, g) w'. later w w' \<and> giw_part g \<and>
     (if e = NULL then wf_giw g \<and> live w' = L + giw_res g \<and>
        (\<exists>v. giw_view g = Some v \<and> describes_interface E s i composite v)
      else wf_err e \<and> (live w' = L + giw_res g + err_res e \<or> \<not> memory_ok E \<and>
        (\<exists>k n. k \<in> {DeviceInfoSet, RegistryKey} \<and> live w' = add_mset (k, n) (L + giw_res g + err_res e)))))"

text \<open>The steps after the search, on the open set \<open>h\<close> and its member \<open>info\<close>.\<close>

lemma get_filename_wp:
  assumes "indexed_sets E" "detail_sizes E"
    and "\<And>n s w'. later w w' \<Longrightarrow> path_of E d guid s \<Longrightarrow> live w' = add_mset (Mem, n) (live w) \<Longrightarrow> Q (NULL, Heap n s) w'"
    and "\<And>e w'. later w w' \<Longrightarrow> e \<noteq> NULL \<Longrightarrow> wf_err e \<Longrightarrow> live w' = live w + err_res e \<Longrightarrow> Q (e, NULL) w'"
    and "\<And>h w'. later w w' \<Longrightarrow> \<not> memory_ok E \<Longrightarrow> live w' = add_mset (DeviceInfoSet, h) (live w) \<Longrightarrow>
      Q (error_no_memory, NULL) w'"
  shows "runs (get_filename_from_devinst_and_guid E d guid w) Q"
  by (rule runs_mono [OF get_filename_spec [OF assms(1,2)]])
    (auto simp: gives_path_def split: if_splits intro: assms(3-5))

lemmas check_driver_situation_wp = check_driver_situation_spec [THEN runs_mono]

lemma set_field_wp [wp]:
  assumes "runs (mk w) (\<lambda>(e, v) w'. (Mem, n) \<in># live w' \<and> Q (e, Heap n (put v x)) w')"
  shows "runs (set_field mk put (Heap n x) w) Q"
  using assms by (auto simp: set_field_def intro!: runs_bind elim!: runs_mono)

lemma generic_interface_initialize_spec:
  assumes E: "windows_ok E" and d: "wf_device_windows d" "d \<noteq> NULL" "dev_res_windows d \<subseteq># L"
    and s: "dev_view_windows d = Some (s, ids)" and w: "live w = add_mset (Mem, m) L"
  shows "runs (generic_interface_initialize E (Heap m ()) d i composite w)
    (initialized E s i composite L w)"
proof -
  have ok: "indexed_sets E" "detail_sizes E" "terminated E" using E by (simp_all add: windows_ok_def)
  have desc: "describes_interface E s i composite (i, iid, fn)"
    if "interface_node E s i composite (Some h, info)" "instance_id_of E h info iid"
      "winusb_node E h info" "guid_of E h info g" "path_of E info g fn" for h info iid g fn
    unfolding describes_interface_def using that by auto
  have sub: "dev_res_windows d \<subseteq># live w"
    using d(3) w by (simp add: subset_mset.order_trans subset_mset.add_increasing)
  show ?thesis
    unfolding generic_interface_initialize_def
    using d s sub w
    by (auto simp: initialized_def giw_part_def later_def says_def libusbp_string_free_def free_ok
        intro!: wp get_interface_wp [OF ok(1)] check_driver_situation_wp [OF ok(3)]
          loses_wp [OF get_first_device_interface_guid_loses [OF ok(3)]] get_filename_wp [OF ok(1,2)] desc)
qed

lemma libusbp_generic_interface_create_windows_loses:
  assumes "windows_ok E" "wf_device_windows d" "d \<noteq> NULL" "dev_res_windows d \<subseteq># live w"
    and "dev_view_windows d = Some (s, ids)"
  shows "runs (libusbp_generic_interface_create_windows E d i composite True w) (loses E giw_res NULL
    (\<lambda>g. wf_giw g \<and> (\<exists>v. giw_view g = Some v \<and> describes_interface E s i composite v)) w)"
  using assms(3)
  by (auto simp: libusbp_generic_interface_create_windows_def initialized_def later_def giw_part_free
      split: if_splits
      intro!: wp runs_mono [OF generic_interface_initialize_spec [OF assms(1-3) _ assms(5),
        where L = "live w"]] assms(4))

lemma libusbp_generic_interface_copy_windows_gives:
  assumes "wf_giw g" and "giw_res g \<subseteq># live w"
  shows "runs (libusbp_generic_interface_copy_windows E g True w) (gives giw_res NULL
     (\<lambda>c. wf_giw c \<and> giw_view c = giw_view g) (\<lambda>e. e = error_no_memory \<and> \<not> memory_ok E) w)"
proof -
  obtain L where "live w = giw_res g + L"
    using assms(2) by (auto simp: mset_subset_eq_exists_conv)
  with assms(1) show ?thesis
    by (cases g) (auto simp: libusbp_generic_interface_copy_windows_def later_def intro!: wp)
qed

lemma giw_get_os_filename_gives:
  assumes "wf_giw g" "g \<noteq> NULL" "giw_res g \<subseteq># live w"
  shows "runs (libusbp_generic_interface_get_os_filename_windows E g True w) (gives blk NULL
    (\<lambda>p. \<exists>n s i iid. p = Heap n s \<and> giw_view g = Some (i, iid, s))
    (\<lambda>e. e = error_no_memory \<and> \<not> memory_ok E) w)"
  using assms by (cases g) (auto simp: libusbp_generic_interface_get_os_filename_windows_def
      mset_subset_eq_exists_conv intro!: wp)

lemma giw_get_os_id_gives:
  assumes "wf_giw g" "g \<noteq> NULL" "giw_res g \<subseteq># live w"
  shows "runs (libusbp_generic_interface_get_os_id_windows E g True w) (gives blk NULL
    (\<lambda>p. \<exists>n s i f. p = Heap n s \<and> giw_view g = Some (i, s, f))
    (\<lambda>e. e = error_no_memory \<and> \<not> memory_ok E) w)"
  using assms by (cases g) (auto simp: libusbp_generic_interface_get_os_id_windows_def
      mset_subset_eq_exists_conv intro!: wp)

interpretation generic_interface_windows_new: constructor libusbp_generic_interface_free_windows giw_res
    wf_giw "\<lambda>g. libusbp_generic_interface_copy_windows E g True" NULL
    "\<lambda>g w. wf_giw g \<and> giw_res g \<subseteq># live w" "\<lambda>g c. wf_giw c \<and> giw_view c = giw_view g"
    for E :: "'e environment_scheme"
  by unfold_locales (auto intro!: gives_wp [OF libusbp_generic_interface_copy_windows_gives])

section \<open>Properties\<close>


definition demo_registry :: registry where
  "demo_registry = cfgmgr.extend demo_cfgmgr \<lparr>SPDRP_SERVICE = \<lambda>_ _ _. Inr (REG_SZ, ''WinUSB'' @ [NUL]),
     equal_ignore_case = \<lambda>s t. map capitalize s = map capitalize t, SetupDiOpenDevRegKey = \<lambda>_ _ _. None,
     DeviceInterfaceGUIDs_size = \<lambda>_ _. Inr 80, DeviceInterfaceGUIDs = \<lambda>_ _. Inr (REG_MULTI_SZ, [1, 0, 0]),
     IIDFromString = \<lambda>_. Inr 1, PortName = \<lambda>_ _. Inr (REG_SZ, ''COM4'' @ [NUL])\<rparr>"

lemma demo_registry_ok: "windows_ok demo_registry" "memory_ok demo_registry"
  using demo_cfgmgr_ok
  by (auto simp: windows_ok_def indexed_sets_def detail_sizes_def terminated_def memory_ok_def
      demo_registry_def cfgmgr.defs demo_cfgmgr_def setup_api.defs)

definition demo_device_windows :: device_windows where
  "demo_device_windows = Heap 0 \<lparr>device_instance_id = Heap 1 ''USB'', product_id_windows = 0x0101,
     vendor_id_windows = 0x1FFB, revision_windows = 0x0105\<rparr>"


end
