(* ===== verification/SerialPortWindows.thy ===== *)
theory SerialPortWindows
  imports GenericInterfaceWindows
begin

text \<open>
  \<open>src/src/windows/serial_port_windows.c\<close>: serial ports on Windows, which record the instance ID of
  their device node and the name of the port, such as \<open>COM4\<close>.
\<close>

section \<open>The operations of serial_port_windows.c\<close>

record libusbp_serial_port_windows =
  spw_device_instance_id :: cstr
  spw_port_name :: cstr

type_synonym serial_port_windows = "libusbp_serial_port_windows ptr"

definition libusbp_serial_port_free_windows :: "serial_port_windows \<Rightarrow> 'w world_scheme
    \<Rightarrow> 'w world_scheme option" where
  "libusbp_serial_port_free_windows port w =
     (if port = NULL then Some w
      else do {
        x \<leftarrow> deref port w;
        w \<leftarrow> libusbp_string_free (spw_device_instance_id x) w;
        w \<leftarrow> libusbp_string_free (spw_port_name x) w;
        free port w
      })"

definition calloc_serial_port_windows :: "'e environment_scheme \<Rightarrow> 'w world_scheme
    \<Rightarrow> ((err \<times> serial_port_windows) \<times> 'w world_scheme) option" where
  "calloc_serial_port_windows E w = do {
     (new_sp, w) \<leftarrow> malloc E w;
     if new_sp = NULL then Some ((error_no_memory, NULL), w)
     else do {
       new_sp \<leftarrow> store new_sp \<lparr>spw_device_instance_id = NULL, spw_port_name = NULL\<rparr> w;
       Some ((NULL, new_sp), w)
     }
   }"

text \<open>The value \<open>PortName\<close>, read to a buffer of 128 bytes.\<close>

definition read_port_name :: "'e registry_scheme \<Rightarrow> nat option \<Rightarrow> 'w world_scheme
    \<Rightarrow> ((err \<times> string) \<times> 'w world_scheme) option" where
  "read_port_name E keyDev w = do {
     (r, w) \<leftarrow> query_key keyDev (PortName E) w;
     case (case r of Inl e \<Rightarrow> Inl e | Inr (reg_type, bytes) \<Rightarrow>
         if length bytes \<le> 128 then Inr (reg_type, bytes) else Inl ERROR_MORE_DATA) of
       Inl reg_result \<Rightarrow> do {
         (error, w) \<leftarrow> (if reg_result = ERROR_FILE_NOT_FOUND
           then error_create E ''The PortName key was not found.'' w
           else error_create_winapi E reg_result ''Failed to get PortName key.'' w);
         Some ((error, ''''), w)
       }
     | Inr (reg_type, bytes) \<Rightarrow>
         if reg_type \<noteq> REG_SZ then do {
           (error, w) \<leftarrow> error_create E (''Expected PortName key to be a REG_SZ (0x'' @
             fmt_x 0 (unat REG_SZ) @ ''), got 0x'' @ fmt_x 0 (unat reg_type) @ ''.'') w;
           Some ((error, ''''), w)
         }
         else Some ((NULL, bytes), w)
   }"

text \<open>The first attempt: everything up to the workaround for devices that are not composite.\<close>

definition serial_port_attempt :: "'e registry_scheme \<Rightarrow> device_windows \<Rightarrow> 8 word \<Rightarrow> bool \<Rightarrow> 'w world_scheme
    \<Rightarrow> ((err \<times> serial_port_windows) \<times> 'w world_scheme) option" where
  "serial_port_attempt E device interface_number composite w = do {
     ((error, new_sp), w) \<leftarrow> calloc_serial_port_windows E w;
     ((error, usb_device_id), w) \<leftarrow> ok_then error NULL (libusbp_device_get_os_id_windows E device True) w;
     ((error, list, info), w) \<leftarrow> ok_then error (None, 0)
       (get_interface E usb_device_id interface_number composite) w;
     ((error, new_sp), w) \<leftarrow> ok_then error new_sp (set_field (create_id_string E list info)
       (\<lambda>s x. x\<lparr>spw_device_instance_id := s\<rparr>) new_sp) w;
     ((error, keyDev), w) \<leftarrow> ok_then error None (\<lambda>w. do {
         ((keyDev, e), w) \<leftarrow> open_dev_reg_key E list info w;
         if keyDev = None then do {
           (error, w) \<leftarrow> error_create_winapi E e
             ''Failed to get device registry key in order to find its COM port name.'' w;
           Some ((error, None), w)
         }
         else Some ((NULL, keyDev), w)
       }) w;
     ((error, portName), w) \<leftarrow> ok_then error '''' (read_port_name E keyDev) w;
     ((error, new_sp), w) \<leftarrow> ok_then error new_sp (\<lambda>w. do {
         s \<leftarrow> c_read portName;
         set_field (string_copy E (Static s)) (\<lambda>s x. x\<lparr>spw_port_name := s\<rparr>) new_sp w
       }) w;
     let (port, new_sp) = (if error = NULL then (new_sp, NULL) else (NULL, new_sp));
     w \<leftarrow> unref_if RegistryKey keyDev w;
     w \<leftarrow> unref_if DeviceInfoSet list w;
     w \<leftarrow> libusbp_string_free usb_device_id w;
     w \<leftarrow> libusbp_serial_port_free_windows new_sp w;
     Some ((error, port), w)
   }"

text \<open>
  When the device is not composite and the attempt failed, the function calls itself for interface 0
  of the device as a composite one.
\<close>

function libusbp_serial_port_create_windows :: "'e registry_scheme \<Rightarrow> device_windows \<Rightarrow> 8 word \<Rightarrow> bool \<Rightarrow> bool
    \<Rightarrow> 'w world_scheme \<Rightarrow> ((err \<times> serial_port_windows) \<times> 'w world_scheme) option" where
  "libusbp_serial_port_create_windows E device interface_number composite given w =
     (if \<not> given then do {
        (error, w) \<leftarrow> error_create E ''Serial port output pointer is null.'' w;
        Some ((error, NULL), w)
      }
      else if device = NULL then do {
        (error, w) \<leftarrow> error_create E ''Device is null.'' w;
        Some ((error, NULL), w)
      }
      else do {
        ((error, port), w) \<leftarrow> serial_port_attempt E device interface_number composite w;
        if error \<noteq> NULL \<and> \<not> composite then do {
          ((error2, port), w) \<leftarrow> libusbp_serial_port_create_windows E device 0 True True w;
          if error2 \<noteq> NULL then do {
            w \<leftarrow> libusbp_error_free error2 w;
            Some ((error, port), w)
          }
          else do {
            w \<leftarrow> libusbp_error_free error w;
            Some ((NULL, port), w)
          }
        }
        else Some ((error, port), w)
      })"
  by pat_completeness auto

termination
  by (relation "measure (\<lambda>(_, _, _, composite, _). if composite then 0 else 1)") auto

declare libusbp_serial_port_create_windows.simps [simp del]

definition libusbp_serial_port_copy_windows :: "'e environment_scheme \<Rightarrow> serial_port_windows \<Rightarrow> bool
    \<Rightarrow> 'w world_scheme \<Rightarrow> ((err \<times> serial_port_windows) \<times> 'w world_scheme) option" where
  "libusbp_serial_port_copy_windows E source given w =
     (if \<not> given then do {
        (error, w) \<leftarrow> error_create E ''Serial port output pointer is null.'' w;
        Some ((error, NULL), w)
      }
      else if source = NULL then Some ((NULL, NULL), w)
      else do {
        src \<leftarrow> deref source w;
        (if spw_device_instance_id src = NULL \<or> spw_port_name src = NULL then None else Some ());
        ((error, new_sp), w) \<leftarrow> calloc_serial_port_windows E w;
        ((error, new_sp), w) \<leftarrow> ok_then error new_sp (set_field (string_copy E (spw_device_instance_id src))
          (\<lambda>s x. x\<lparr>spw_device_instance_id := s\<rparr>) new_sp) w;
        ((error, new_sp), w) \<leftarrow> ok_then error new_sp (set_field (string_copy E (spw_port_name src))
          (\<lambda>s x. x\<lparr>spw_port_name := s\<rparr>) new_sp) w;
        let (dest, new_sp) = (if error = NULL then (new_sp, NULL) else (NULL, new_sp));
        w \<leftarrow> libusbp_serial_port_free_windows new_sp w;
        Some ((error, dest), w)
      })"

definition libusbp_serial_port_get_name_windows :: "'e environment_scheme \<Rightarrow> serial_port_windows \<Rightarrow> bool
    \<Rightarrow> 'w world_scheme \<Rightarrow> ((err \<times> cstr) \<times> 'w world_scheme) option" where
  "libusbp_serial_port_get_name_windows E port given w =
     (if \<not> given then do {
        (error, w) \<leftarrow> error_create E ''String output pointer is null.'' w;
        Some ((error, NULL), w)
      }
      else if port = NULL then do {
        (error, w) \<leftarrow> error_create E ''Serial port is null.'' w;
        Some ((error, NULL), w)
      }
      else do { x \<leftarrow> deref port w; string_copy E (spw_port_name x) w })"

section \<open>What serial ports own and say\<close>

definition spw_res :: "serial_port_windows \<Rightarrow> res multiset" where
  "spw_res p = owns (\<lambda>x. blk (spw_device_instance_id x) + blk (spw_port_name x)) p"

definition wf_spw :: "serial_port_windows \<Rightarrow> bool" where
  "wf_spw p = (case p of NULL \<Rightarrow> True
     | Heap n x \<Rightarrow> (\<exists>m s. spw_device_instance_id x = Heap m s) \<and> (\<exists>m s. spw_port_name x = Heap m s)
     | Static x \<Rightarrow> False)"

text \<open>The instance ID and the name of the port.\<close>

definition spw_view :: "serial_port_windows \<Rightarrow> (string \<times> string) option" where
  "spw_view p = (case p of
     Heap n x \<Rightarrow> Some (contents '''' (spw_device_instance_id x), contents '''' (spw_port_name x))
   | _ \<Rightarrow> None)"

lemma spw_simps [simp]:
  "spw_res NULL = {#}" "wf_spw NULL" "spw_view NULL = None" "\<not> wf_spw (Static x)"
  "spw_res (Heap n x) = add_mset (Mem, n) (blk (spw_device_instance_id x) + blk (spw_port_name x))"
  "wf_spw (Heap n x) \<longleftrightarrow> (\<exists>m s. spw_device_instance_id x = Heap m s) \<and> (\<exists>m s. spw_port_name x = Heap m s)"
  "spw_view (Heap n x) = Some (contents '''' (spw_device_instance_id x), contents '''' (spw_port_name x))"
  by (simp_all add: spw_res_def wf_spw_def spw_view_def)

lemma libusbp_serial_port_free_windows_ok:
  assumes "wf_spw p" and "spw_res p \<subseteq># live w"
  shows "libusbp_serial_port_free_windows p w = Some (drop_res (spw_res p) w)"
proof -
  obtain L where "live w = spw_res p + L"
    using assms(2) by (auto simp: mset_subset_eq_exists_conv)
  with assms(1) show ?thesis
    by (cases p) (auto simp: libusbp_serial_port_free_windows_def libusbp_string_free_def add_mset_commute)
qed

interpretation serial_port_windows: releases libusbp_serial_port_free_windows spw_res wf_spw
  by unfold_locales (rule libusbp_serial_port_free_windows_ok)

text \<open>The port name of a node, and what a port object says.\<close>

definition port_name_of :: "'e registry_scheme \<Rightarrow> nat \<Rightarrow> nat \<Rightarrow> string \<Rightarrow> bool" where
  "port_name_of E h info s \<longleftrightarrow> (\<exists>key k b. SetupDiOpenDevRegKey E key h info = None \<and>
     PortName E k key = Inr (REG_SZ, b) \<and> c_read b = Some s)"

definition describes_port :: "'e registry_scheme \<Rightarrow> string \<Rightarrow> 8 word \<Rightarrow> bool \<Rightarrow> string \<times> string \<Rightarrow> bool" where
  "describes_port E s i composite = (\<lambda>(iid, name). \<exists>h info. interface_node E s i composite (Some h, info) \<and>
     instance_id_of E h info iid \<and> port_name_of E h info name)"

lemma read_port_name_wp:
  assumes "terminated E" "(RegistryKey, key) \<in># live w" "SetupDiOpenDevRegKey E key h info = None"
    and "\<And>b s w'. later w w' \<Longrightarrow> live w' = live w \<Longrightarrow> c_read b = Some s \<Longrightarrow> port_name_of E h info s \<Longrightarrow>
      Q (NULL, b) w'"
    and "\<And>e w'. e \<noteq> NULL \<Longrightarrow> wf_err e \<Longrightarrow> later w w' \<Longrightarrow> live w' = live w + err_res e \<Longrightarrow> Q (e, '''') w'"
  shows "runs (read_port_name E (Some key) w) Q"
proof -
  have name: "\<exists>s. c_read b = Some s \<and> port_name_of E h info s" if "PortName E k key = Inr (REG_SZ, b)" for k b
    using assms(1,3) that unfolding terminated_def port_name_of_def by (auto simp: c_read_def) blast
  show ?thesis
    using assms(2,4,5)
    by (auto simp: read_port_name_def says_def later_def split: sum.splits prod.splits
        dest!: name intro!: wp)
qed

lemma serial_port_attempt_gives:
  assumes E: "windows_ok E" and d: "wf_device_windows d" "d \<noteq> NULL" "dev_res_windows d \<subseteq># live w"
    and s: "dev_view_windows d = Some (s, ids)"
  shows "runs (serial_port_attempt E d i composite w) (gives spw_res NULL
    (\<lambda>p. wf_spw p \<and> (\<exists>v. spw_view p = Some v \<and> describes_port E s i composite v)) (\<lambda>_. True) w)"
proof -
  have ok: "indexed_sets E" "terminated E" using E by (simp_all add: windows_ok_def)
  have desc: "describes_port E s i composite (iid, name)"
    if "interface_node E s i composite (Some h, info)" "instance_id_of E h info iid"
      "port_name_of E h info name" for h info iid name
    unfolding describes_port_def using that by auto
  have sub: "dev_res_windows d \<subseteq># add_mset x (live w)" for x
    using d(3) by (simp add: subset_mset.order_trans subset_mset.add_increasing)
  show ?thesis
    unfolding serial_port_attempt_def
    using d s sub
    by (auto simp: later_def says_def libusbp_string_free_def calloc_serial_port_windows_def
        libusbp_serial_port_free_windows_def Let_def
        intro!: wp get_interface_wp [OF ok(1), where s = s] read_port_name_wp [OF ok(2)])
      (blast intro: desc)+
qed

text \<open>
  The port found: of the interface asked for or, for a device that is not composite, of interface 0
  of the device as a composite one.
\<close>

definition port_for :: "'e registry_scheme \<Rightarrow> string \<Rightarrow> 8 word \<Rightarrow> bool \<Rightarrow> serial_port_windows \<Rightarrow> bool" where
  "port_for E s i composite p \<longleftrightarrow> wf_spw p \<and> (\<exists>v. spw_view p = Some v \<and>
     (describes_port E s i composite v \<or> \<not> composite \<and> describes_port E s 0 True v))"

lemma create_composite_gives:
  assumes E: "windows_ok E" and d: "wf_device_windows d" "d \<noteq> NULL" "dev_res_windows d \<subseteq># live w"
    and s: "dev_view_windows d = Some (s, ids)"
  shows "runs (libusbp_serial_port_create_windows E d i True True w) (gives spw_res NULL
    (\<lambda>p. wf_spw p \<and> (\<exists>v. spw_view p = Some v \<and> describes_port E s i True v)) (\<lambda>_. True) w)"
  using d(2) by (subst libusbp_serial_port_create_windows.simps)
    (auto intro!: wp gives_wp [OF serial_port_attempt_gives [OF E d s]])

lemma libusbp_serial_port_create_windows_gives:
  assumes E: "windows_ok E" and d: "wf_device_windows d" "d \<noteq> NULL" "dev_res_windows d \<subseteq># live w"
    and s: "dev_view_windows d = Some (s, ids)"
  shows "runs (libusbp_serial_port_create_windows E d i composite True w)
    (gives spw_res NULL (port_for E s i composite) (\<lambda>_. True) w)"
proof -
  have more: "dev_res_windows d \<subseteq># live w + err_res e" for e
    using d(3) by (metis mset_subset_eq_add_left subset_mset.order_trans)
  note again = gives_wp [OF create_composite_gives [OF E d(1,2) _ s]]
  show ?thesis
    using d(2) by (subst libusbp_serial_port_create_windows.simps)
      (auto simp: later_def port_for_def libusbp_error_free_ok more
        intro!: runs_bind gives_wp [OF serial_port_attempt_gives [OF E d s]] again)
qed

lemma libusbp_serial_port_copy_windows_gives:
  assumes "wf_spw p" and "spw_res p \<subseteq># live w"
  shows "runs (libusbp_serial_port_copy_windows E p True w) (gives spw_res NULL
     (\<lambda>c. wf_spw c \<and> spw_view c = spw_view p) (\<lambda>e. e = error_no_memory \<and> \<not> memory_ok E) w)"
proof -
  obtain L where "live w = spw_res p + L"
    using assms(2) by (auto simp: mset_subset_eq_exists_conv)
  with assms(1) show ?thesis
    by (cases p) (auto simp: libusbp_serial_port_copy_windows_def calloc_serial_port_windows_def later_def
        Let_def libusbp_serial_port_free_windows_def libusbp_string_free_def intro!: wp)
qed

interpretation serial_port_windows_new: constructor libusbp_serial_port_free_windows spw_res wf_spw
    "\<lambda>d. libusbp_serial_port_create_windows E d i composite True" NULL
    "\<lambda>d w. windows_ok E \<and> wf_device_windows d \<and> d \<noteq> NULL \<and> dev_res_windows d \<subseteq># live w"
    "\<lambda>d p. \<exists>s ids. dev_view_windows d = Some (s, ids) \<and> port_for E s i composite p"
    for E :: "'e registry_scheme" and i composite
proof
  fix d and w :: "'w world_scheme"
  assume a: "windows_ok E \<and> wf_device_windows d \<and> d \<noteq> NULL \<and> dev_res_windows d \<subseteq># live w"
  then obtain s ids where v: "dev_view_windows d = Some (s, ids)" by (cases d) auto
  show "runs (libusbp_serial_port_create_windows E d i composite True w) (gives spw_res NULL
      (\<lambda>p. \<exists>s ids. dev_view_windows d = Some (s, ids) \<and> port_for E s i composite p) (\<lambda>_. True) w)"
    by (rule gives_wp [OF libusbp_serial_port_create_windows_gives [OF _ _ _ _ v]])
      (use a v in \<open>auto simp del: split_paired_Ex\<close>)
qed (auto simp: port_for_def)

section \<open>Properties\<close>



end
