(* ===== verification/GenericHandleWindows.thy ===== *)
theory GenericHandleWindows
  imports GenericInterfaceWindows Buffers
begin

text \<open>
  \<open>src/src/windows/generic_handle_windows.c\<close>: handles on Windows, which own a file handle and a WinUSB
  handle, and synchronous transfers.
\<close>

unbundle bit_operations_syntax

section \<open>WinUSB\<close>

text \<open>
  What the sources use beyond the registry.  A handle is its identity, \<open>None\<close> is
  \<open>INVALID_HANDLE_VALUE\<close>.  A transfer answers an error code or none, and the bytes that were read, or
  how many bytes were written; WinUSB never reports more bytes than the caller's length.
\<close>

datatype pipe_policy = PIPE_TRANSFER_TIMEOUT "32 word" | RAW_IO "8 word"

abbreviation (input) "ULONG_MAX \<equiv> UINT32_MAX"

record winusb_setup_packet =
  RequestType :: "8 word"
  Request :: "8 word"
  Value :: "16 word"
  Index :: "16 word"
  Length :: "16 word"

record winusb = registry +
  CreateFile :: "nat \<Rightarrow> string \<Rightarrow> 32 word option"
  WinUsb_Initialize :: "nat \<Rightarrow> nat \<Rightarrow> 32 word option"
  WinUsb_SetPipePolicy :: "nat \<Rightarrow> nat \<Rightarrow> 8 word \<Rightarrow> pipe_policy \<Rightarrow> 32 word option"
  WinUsb_ControlTransfer :: "nat \<Rightarrow> nat \<Rightarrow> winusb_setup_packet \<Rightarrow> 8 word list option
    \<Rightarrow> 32 word option \<times> 8 word list \<times> nat"
  WinUsb_WritePipe :: "nat \<Rightarrow> nat \<Rightarrow> 8 word \<Rightarrow> 8 word list \<Rightarrow> 32 word option \<times> nat"
  WinUsb_ReadPipe :: "nat \<Rightarrow> nat \<Rightarrow> 8 word \<Rightarrow> nat \<Rightarrow> 32 word option \<times> 8 word list"

text \<open>Using a handle: it has to be an open one.\<close>

definition use_winusb :: "nat option \<Rightarrow> (nat \<Rightarrow> nat \<Rightarrow> 'a) \<Rightarrow> 'w world_scheme \<Rightarrow> ('a \<times> 'w world_scheme) option" where
  "use_winusb handle q w = do {
     h \<leftarrow> handle;
     borrow (WinUsbHandle, h) w;
     Some (q (next_id w) h, tick w)
   }"

section \<open>The operations of generic_handle_windows.c\<close>

record libusbp_generic_handle_windows =
  file_handle :: "nat option"
  winusb_handle :: "nat option"

type_synonym generic_handle_windows = "libusbp_generic_handle_windows ptr"

definition libusbp_generic_handle_close_windows :: "generic_handle_windows \<Rightarrow> 'w world_scheme
    \<Rightarrow> 'w world_scheme option" where
  "libusbp_generic_handle_close_windows gh w =
     (if gh = NULL then Some w
      else do {
        x \<leftarrow> deref gh w;
        w \<leftarrow> unref_if WinUsbHandle (winusb_handle x) w;
        w \<leftarrow> unref_if FileHandle (file_handle x) w;
        free gh w
      })"

text \<open>\<open>CreateFile\<close> and \<open>WinUsb_Initialize\<close>, with the error code when there is no handle.\<close>

definition create_file :: "'e winusb_scheme \<Rightarrow> cstr \<Rightarrow> 'w world_scheme
    \<Rightarrow> ((nat option \<times> 32 word) \<times> 'w world_scheme) option" where
  "create_file E filename w = do {
     s \<leftarrow> deref filename w;
     Some (case CreateFile E (next_id w) s of
       None \<Rightarrow> ((Some (next_id w), 0), take_res FileHandle w) | Some e \<Rightarrow> ((None, e), tick w))
   }"

definition winusb_initialize :: "'e winusb_scheme \<Rightarrow> nat option \<Rightarrow> 'w world_scheme
    \<Rightarrow> ((nat option \<times> 32 word) \<times> 'w world_scheme) option" where
  "winusb_initialize E file w = do {
     f \<leftarrow> file;
     borrow (FileHandle, f) w;
     Some (case WinUsb_Initialize E (next_id w) f of
       None \<Rightarrow> ((Some (next_id w), 0), take_res WinUsbHandle w) | Some e \<Rightarrow> ((None, e), tick w))
   }"

definition libusbp_generic_handle_open_windows :: "'e winusb_scheme \<Rightarrow> generic_interface_windows \<Rightarrow> bool
    \<Rightarrow> 'w world_scheme \<Rightarrow> ((err \<times> generic_handle_windows) \<times> 'w world_scheme) option" where
  "libusbp_generic_handle_open_windows E gi given w =
     (if \<not> given then do {
        (error, w) \<leftarrow> error_create E ''Generic handle output pointer is null.'' w;
        Some ((error, NULL), w)
      }
      else if gi = NULL then do {
        (error, w) \<leftarrow> error_create E ''Generic interface is null.'' w;
        Some ((error, NULL), w)
      }
      else do {
        (b, w) \<leftarrow> malloc E w;
        (error, new_gh) \<leftarrow> (if b = NULL then Some (error_no_memory, NULL)
          else do {
            new_gh \<leftarrow> store b \<lparr>file_handle = None, winusb_handle = None\<rparr> w;
            Some (NULL, new_gh)
          });
        ((error, filename), w) \<leftarrow> ok_then error NULL
          (libusbp_generic_interface_get_os_filename_windows E gi True) w;
        ((error, new_gh), w) \<leftarrow> ok_then error new_gh (\<lambda>w. do {
            ((f, e), w) \<leftarrow> create_file E filename w;
            x \<leftarrow> deref new_gh w;
            new_gh \<leftarrow> store new_gh (x\<lparr>file_handle := f\<rparr>) w;
            (error, w) \<leftarrow> (if f = None
              then error_create_winapi E e ''Failed to open generic handle.'' w else Some (NULL, w));
            Some ((error, new_gh), w)
          }) w;
        ((error, new_gh), w) \<leftarrow> ok_then error new_gh (\<lambda>w. do {
            x \<leftarrow> deref new_gh w;
            ((h, e), w) \<leftarrow> winusb_initialize E (file_handle x) w;
            new_gh \<leftarrow> store new_gh (x\<lparr>winusb_handle := h\<rparr>) w;
            (error, w) \<leftarrow> (if h = None
              then error_create_winapi E e ''Failed to initialize WinUSB.'' w else Some (NULL, w));
            Some ((error, new_gh), w)
          }) w;
        let (gh, new_gh) = (if error = NULL then (new_gh, NULL) else (NULL, new_gh));
        w \<leftarrow> libusbp_string_free filename w;
        w \<leftarrow> libusbp_generic_handle_close_windows new_gh w;
        Some ((error, gh), w)
      })"

definition libusbp_generic_handle_set_timeout_windows :: "'e winusb_scheme \<Rightarrow> generic_handle_windows
    \<Rightarrow> 8 word \<Rightarrow> 32 word \<Rightarrow> 'w world_scheme \<Rightarrow> (err \<times> 'w world_scheme) option" where
  "libusbp_generic_handle_set_timeout_windows E gh pipe_id timeout w =
     (if gh = NULL then error_create E ''Generic handle is null.'' w
      else do {
        x \<leftarrow> deref gh w;
        (r, w) \<leftarrow> use_winusb (winusb_handle x)
          (\<lambda>k h. WinUsb_SetPipePolicy E k h pipe_id (PIPE_TRANSFER_TIMEOUT timeout)) w;
        case r of
          Some e \<Rightarrow> error_create_winapi E e ''Failed to set timeout.'' w
        | None \<Rightarrow> Some (NULL, w)
      })"

text \<open>
  Transfers return the error, the count the caller sees (\<open>None\<close> without an output pointer) and the
  caller's buffer.  On a control transfer the direction is the top bit of the request type.
\<close>

definition libusbp_control_transfer_windows :: "'e winusb_scheme \<Rightarrow> generic_handle_windows \<Rightarrow> 8 word
    \<Rightarrow> 8 word \<Rightarrow> 16 word \<Rightarrow> 16 word \<Rightarrow> 8 word list option \<Rightarrow> 16 word \<Rightarrow> bool \<Rightarrow> 'w world_scheme
    \<Rightarrow> ((err \<times> nat option \<times> 8 word list option) \<times> 'w world_scheme) option" where
  "libusbp_control_transfer_windows E gh request_type request v i data len given w =
     (let none = (if given then Some 0 else None)
      in if gh = NULL then do {
        (error, w) \<leftarrow> error_create E ''Generic handle is null.'' w;
        Some ((error, none, data), w)
      }
      else if len \<noteq> 0 \<and> data = None then do {
        (error, w) \<leftarrow> error_create E
          ''Control transfer buffer was null while wLength was non-zero.'' w;
        Some ((error, none, data), w)
      }
      else do {
        x \<leftarrow> deref gh w;
        let packet = \<lparr>RequestType = request_type, Request = request, Value = v, Index = i, Length = len\<rparr>;
        ((r, bytes, n), w) \<leftarrow> use_winusb (winusb_handle x)
          (\<lambda>k h. WinUsb_ControlTransfer E k h packet data) w;
        let bytes = take (unat len) bytes;
        data \<leftarrow> (if request_type AND 0x80 \<noteq> 0 then fill_buffer data bytes else Some data);
        case r of
          Some e \<Rightarrow> do {
            (error, w) \<leftarrow> error_create_winapi E e ''Control transfer failed.'' w;
            Some ((error, none, data), w)
          }
        | None \<Rightarrow>
            let winusb_transferred = (if request_type AND 0x80 \<noteq> 0 then length bytes
              else min n (unat len))
            in Some ((NULL, if given then Some winusb_transferred else None, data), w)
      })"

definition libusbp_write_pipe_windows :: "'e winusb_scheme \<Rightarrow> generic_handle_windows \<Rightarrow> 8 word
    \<Rightarrow> 8 word list option \<Rightarrow> nat \<Rightarrow> bool \<Rightarrow> 'w world_scheme \<Rightarrow> ((err \<times> nat option) \<times> 'w world_scheme) option" where
  "libusbp_write_pipe_windows E handle pipe_id data n given w =
     (if handle = NULL then do {
        (error, w) \<leftarrow> error_create E ''Generic handle is null.'' w;
        Some ((error, if given then Some 0 else None), w)
      }
      else do {
        (error, w) \<leftarrow> check_pipe_id_out E pipe_id w;
        (error, w) \<leftarrow> (if error = NULL \<and> n > ULONG_MAX
          then error_create E ''Transfer size is too large.'' w else Some (error, w));
        (error, w) \<leftarrow> (if error = NULL \<and> data = None \<and> n \<noteq> 0
          then error_create E ''Buffer is null.'' w else Some (error, w));
        ((error, winusb_transferred), w) \<leftarrow> ok_then error 0 (\<lambda>w. do {
            x \<leftarrow> deref handle w;
            bytes \<leftarrow> (case data of None \<Rightarrow> Some [] | Some b \<Rightarrow>
              if n \<le> length b then Some (take n b) else None);
            ((r, m), w) \<leftarrow> use_winusb (winusb_handle x) (\<lambda>k h. WinUsb_WritePipe E k h pipe_id bytes) w;
            (error, w) \<leftarrow> (case r of Some e \<Rightarrow> error_create_winapi E e '''' w | None \<Rightarrow> Some (NULL, w));
            Some ((error, min m n), w)
          }) w;
        (error, w) \<leftarrow> (if error \<noteq> NULL
          then error_add E error ''Failed to write to pipe.'' w else Some (NULL, w));
        Some ((error, if given then Some winusb_transferred else None), w)
      })"

definition libusbp_read_pipe_windows :: "'e winusb_scheme \<Rightarrow> generic_handle_windows \<Rightarrow> 8 word
    \<Rightarrow> 8 word list option \<Rightarrow> nat \<Rightarrow> bool \<Rightarrow> 'w world_scheme
    \<Rightarrow> ((err \<times> nat option \<times> 8 word list option) \<times> 'w world_scheme) option" where
  "libusbp_read_pipe_windows E handle pipe_id data n given w =
     (if handle = NULL then do {
        (error, w) \<leftarrow> error_create E ''Generic handle is null.'' w;
        Some ((error, if given then Some 0 else None, data), w)
      }
      else do {
        (error, w) \<leftarrow> check_pipe_id_in E pipe_id w;
        (error, w) \<leftarrow> (if error = NULL \<and> n = 0
          then error_create E ''Transfer size 0 is not allowed.'' w else Some (error, w));
        (error, w) \<leftarrow> (if error = NULL \<and> n > ULONG_MAX
          then error_create E ''Transfer size is too large.'' w else Some (error, w));
        (error, w) \<leftarrow> (if error = NULL \<and> data = None
          then error_create E ''Buffer is null.'' w else Some (error, w));
        ((error, winusb_transferred, data), w) \<leftarrow> ok_then error (0, data) (\<lambda>w. do {
            x \<leftarrow> deref handle w;
            ((r, bytes), w) \<leftarrow> use_winusb (winusb_handle x) (\<lambda>k h. WinUsb_ReadPipe E k h pipe_id n) w;
            let bytes = take n bytes;
            data \<leftarrow> fill_buffer data bytes;
            (error, w) \<leftarrow> (case r of Some e \<Rightarrow> error_create_winapi E e '''' w | None \<Rightarrow> Some (NULL, w));
            Some ((error, length bytes, data), w)
          }) w;
        (error, w) \<leftarrow> (if error \<noteq> NULL
          then error_add E error ''Failed to read from pipe.'' w else Some (NULL, w));
        Some ((error, if given then Some winusb_transferred else None, data), w)
      })"

definition libusbp_generic_handle_get_winusb_handle :: "generic_handle_windows \<Rightarrow> 'w world_scheme
    \<Rightarrow> nat option option" where
  "libusbp_generic_handle_get_winusb_handle handle w =
     (if handle = NULL then Some None else do { x \<leftarrow> deref handle w; Some (winusb_handle x) })"

definition generic_handle_events_windows :: "generic_handle_windows \<Rightarrow> 'w world_scheme
    \<Rightarrow> (err \<times> 'w world_scheme) option" where
  "generic_handle_events_windows handle w = Some (NULL, w)"

section \<open>What handles own\<close>

definition ghw_res :: "generic_handle_windows \<Rightarrow> res multiset" where
  "ghw_res g = owns (\<lambda>x. opt_res WinUsbHandle (winusb_handle x) + opt_res FileHandle (file_handle x)) g"

text \<open>A handle that was opened has both of its system handles.\<close>

definition wf_ghw :: "generic_handle_windows \<Rightarrow> bool" where
  "wf_ghw g = (case g of NULL \<Rightarrow> True
     | Heap n x \<Rightarrow> winusb_handle x \<noteq> None \<and> file_handle x \<noteq> None | Static x \<Rightarrow> False)"

lemma ghw_simps [simp]:
  "ghw_res NULL = {#}" "wf_ghw NULL" "\<not> wf_ghw (Static x)"
  "ghw_res (Heap n x) = add_mset (Mem, n) (opt_res WinUsbHandle (winusb_handle x) + opt_res FileHandle (file_handle x))"
  "wf_ghw (Heap n x) \<longleftrightarrow> winusb_handle x \<noteq> None \<and> file_handle x \<noteq> None"
  by (simp_all add: ghw_res_def wf_ghw_def)

lemma libusbp_generic_handle_close_windows_ok:
  assumes "wf_ghw g" and "ghw_res g \<subseteq># live w"
  shows "libusbp_generic_handle_close_windows g w = Some (drop_res (ghw_res g) w)"
proof -
  obtain L where "live w = ghw_res g + L"
    using assms(2) by (auto simp: mset_subset_eq_exists_conv)
  with assms(1) show ?thesis
    by (cases g) (auto simp: libusbp_generic_handle_close_windows_def add_mset_commute)
qed

interpretation generic_handle_windows: releases libusbp_generic_handle_close_windows ghw_res wf_ghw
  by unfold_locales (rule libusbp_generic_handle_close_windows_ok)

lemma create_file_wp [wp]:
  assumes "(Mem, n) \<in># live w"
    and "\<And>f w'. later w w' \<Longrightarrow> live w' = add_mset (FileHandle, f) (live w) \<Longrightarrow> CreateFile E f s = None \<Longrightarrow>
      Q (Some f, 0) w'"
    and "\<And>e w'. later w w' \<Longrightarrow> live w' = live w \<Longrightarrow> Q (None, e) w'"
  shows "runs (create_file E (Heap n s) w) Q"
  using assms by (auto simp: create_file_def split: option.splits)

lemma winusb_initialize_wp [wp]:
  assumes "(FileHandle, f) \<in># live w"
    and "\<And>h w'. later w w' \<Longrightarrow> live w' = add_mset (WinUsbHandle, h) (live w) \<Longrightarrow>
      WinUsb_Initialize E h f = None \<Longrightarrow> Q (Some h, 0) w'"
    and "\<And>e w'. later w w' \<Longrightarrow> live w' = live w \<Longrightarrow> Q (None, e) w'"
  shows "runs (winusb_initialize E (Some f) w) Q"
  using assms by (auto simp: winusb_initialize_def split: option.splits)

lemma use_winusb_wp [wp]:
  assumes "(WinUsbHandle, h) \<in># live w" and "\<And>k w'. later w w' \<Longrightarrow> live w' = live w \<Longrightarrow> Q (q k h) w'"
  shows "runs (use_winusb (Some h) q w) Q"
  using assms(2) [of "tick w" "next_id w"] assms(1) by (simp add: use_winusb_def)

text \<open>A handle for an interface object: its file was opened and WinUSB initialised for it.\<close>

definition handle_for :: "'e winusb_scheme \<Rightarrow> generic_interface_windows \<Rightarrow> generic_handle_windows \<Rightarrow> bool" where
  "handle_for E gi g \<longleftrightarrow> (\<exists>n f h i iid fn. g = Heap n \<lparr>file_handle = Some f, winusb_handle = Some h\<rparr> \<and>
     giw_view gi = Some (i, iid, fn) \<and> CreateFile E f fn = None \<and> WinUsb_Initialize E h f = None)"


lemma handle_for_wf: "handle_for E gi g \<Longrightarrow> wf_ghw g"
  by (auto simp: handle_for_def)

lemma libusbp_generic_handle_open_windows_gives:
  assumes "wf_giw gi" "gi \<noteq> NULL" "giw_res gi \<subseteq># live w"
  shows "runs (libusbp_generic_handle_open_windows E gi True w)
    (gives ghw_res NULL (handle_for E gi) (\<lambda>_. True) w)"
proof -
  have more: "giw_res gi \<subseteq># add_mset x (live w)" for x
    using assms(3) by (simp add: subset_mset.order_trans subset_mset.add_increasing)
  show ?thesis
    using assms more
    by (auto simp: libusbp_generic_handle_open_windows_def later_def says_def Let_def
        libusbp_string_free_def libusbp_generic_handle_close_windows_def handle_for_def
        intro!: wp gives_wp [OF giw_get_os_filename_gives])
qed

interpretation generic_handle_windows_new: constructor libusbp_generic_handle_close_windows ghw_res wf_ghw
    "\<lambda>gi. libusbp_generic_handle_open_windows E gi True" NULL
    "\<lambda>gi w. wf_giw gi \<and> gi \<noteq> NULL \<and> giw_res gi \<subseteq># live w" "handle_for E"
    for E :: "'e winusb_scheme"
  by unfold_locales (auto intro!: gives_wp [OF libusbp_generic_handle_open_windows_gives] handle_for_wf)

section \<open>Transfers\<close>

lemma wf_ghwE:
  assumes "wf_ghw g" "g \<noteq> NULL" "ghw_res g \<subseteq># live w"
  obtains n x h L where "g = Heap n x" "winusb_handle x = Some h"
    "live w = add_mset (Mem, n) (add_mset (WinUsbHandle, h) L)"
  using assms by (cases g) (auto simp: mset_subset_eq_exists_conv)

lemma libusbp_read_pipe_windows_spec:
  assumes g: "wf_ghw g" "g \<noteq> NULL" "ghw_res g \<subseteq># live w" and "buffer_for data n"
  shows "runs (libusbp_read_pipe_windows E g p data n True w) (\<lambda>(e, t, d) w'. wf_err e \<and>
    live w' = live w + err_res e \<and> (\<exists>m \<le> n. t = Some m \<and> filled data m d) \<and>
    (bad_read p data n \<longrightarrow> e \<noteq> NULL \<and> t = Some 0 \<and> d = data))"
proof -
  obtain k x h L where gx: "g = Heap k x" "winusb_handle x = Some h"
      "live w = add_mset (Mem, k) (add_mset (WinUsbHandle, h) L)"
    by (rule wf_ghwE [OF g])
  show ?thesis
  proof (cases "bad_read p data n")
    case True
    with gx show ?thesis
      by (auto simp: libusbp_read_pipe_windows_def bad_read_def pipe_check_def says_def
          split: if_splits intro!: wp check_pipe_id_in_wp)
  next
    case False
    then obtain old where old: "data = Some old" "pipe_in p" "n \<noteq> 0" "n \<le> ULONG_MAX"
      by (auto simp: bad_read_def)
    with assms(4) have "n \<le> length old" by (simp add: buffer_for_def)
    with gx old show ?thesis
      by (auto simp: libusbp_read_pipe_windows_def bad_read_def pipe_check_def says_def Let_def
          fill_buffer_ok filled_def min.coboundedI2 split: if_splits option.splits prod.splits
          intro!: wp check_pipe_id_in_wp)
  qed
qed

lemma libusbp_write_pipe_windows_spec:
  assumes g: "wf_ghw g" "g \<noteq> NULL" "ghw_res g \<subseteq># live w" and "buffer_for data n"
  shows "runs (libusbp_write_pipe_windows E g p data n True w) (\<lambda>(e, t) w'. wf_err e \<and>
    live w' = live w + err_res e \<and> (\<exists>m \<le> n. t = Some m) \<and> (bad_write p data n \<longrightarrow> e \<noteq> NULL \<and> t = Some 0))"
proof -
  obtain k x h L where gx: "g = Heap k x" "winusb_handle x = Some h"
      "live w = add_mset (Mem, k) (add_mset (WinUsbHandle, h) L)"
    by (rule wf_ghwE [OF g])
  show ?thesis
  proof (cases "bad_write p data n")
    case True
    with gx show ?thesis
      by (auto simp: libusbp_write_pipe_windows_def bad_write_def pipe_check_def says_def
          split: if_splits intro!: wp check_pipe_id_out_wp)
  next
    case False
    with gx assms(4) show ?thesis
      by (auto simp: libusbp_write_pipe_windows_def bad_write_def buffer_for_def pipe_check_def says_def
          split: if_splits option.splits prod.splits intro!: wp check_pipe_id_out_wp)
  qed
qed

lemma libusbp_control_transfer_windows_spec:
  assumes g: "wf_ghw g" "g \<noteq> NULL" "ghw_res g \<subseteq># live w" and "buffer_for data (unat len)"
  shows "runs (libusbp_control_transfer_windows E g rt r v i data len True w) (\<lambda>(e, t, d) w'. wf_err e \<and>
    live w' = live w + err_res e \<and> touched data (unat len) d \<and> (rt AND 0x80 = 0 \<longrightarrow> d = data) \<and>
    (if e = NULL then \<exists>m \<le> unat len. t = Some m \<and> (rt AND 0x80 \<noteq> 0 \<longrightarrow> filled data m d) else t = Some 0))"
proof -
  obtain k x h L where gx: "g = Heap k x" "winusb_handle x = Some h"
      "live w = add_mset (Mem, k) (add_mset (WinUsbHandle, h) L)"
    by (rule wf_ghwE [OF g])
  show ?thesis
  proof (cases data)
    case None
    with gx show ?thesis
      by (auto simp: libusbp_control_transfer_windows_def says_def Let_def fill_buffer_def
          split: if_splits option.splits prod.splits intro!: wp)
  next
    case (Some old)
    with assms(4) have "unat len \<le> length old" by (simp add: buffer_for_def)
    with gx Some show ?thesis
      by (auto simp: libusbp_control_transfer_windows_def says_def Let_def fill_buffer_ok
          min.coboundedI2 split: if_splits option.splits prod.splits intro!: wp)
  qed
qed

section \<open>Properties\<close>

text \<open>
  C31: Opening a handle on Windows gives a handle whose file is that of the interface object and for
  whose file WinUSB was initialised, or an error and no handle; whatever was opened is closed on an
  error, and closing the handle brings the ledger back.
\<close>

theorem generic_handle_open_windows_correct:
  assumes "wf_giw gi" "gi \<noteq> NULL" "giw_res gi \<subseteq># live w"
  shows "runs (libusbp_generic_handle_open_windows E gi True w) (\<lambda>(e, g) w'.
    (if e = NULL then handle_for E gi g else g = NULL) \<and>
    (\<exists>w''. libusbp_generic_handle_close_windows g w' = Some w'' \<and> live w'' = live w + err_res e))"
  by (rule gives_wp [OF libusbp_generic_handle_open_windows_gives [OF assms]])
    (auto simp: generic_handle_windows.rel_ok handle_for_wf)

definition demo_winusb :: winusb where
  "demo_winusb = registry.extend demo_registry \<lparr>CreateFile = \<lambda>_ _. None, WinUsb_Initialize = \<lambda>_ _. None,
     WinUsb_SetPipePolicy = \<lambda>_ _ _ _. None, WinUsb_ControlTransfer = \<lambda>_ _ _ _. (None, [], 0),
     WinUsb_WritePipe = \<lambda>_ _ _ b. (None, length b), WinUsb_ReadPipe = \<lambda>_ _ _ n. (None, replicate n 0)\<rparr>"

definition demo_giw :: generic_interface_windows where
  "demo_giw = Heap 0 \<lparr>giw_interface_number = 0, giw_device_instance_id = Heap 1 ''USB'',
     giw_filename = Heap 2 ''file''\<rparr>"

theorem generic_handle_open_windows_correct_witness:
  "runs (libusbp_generic_handle_open_windows demo_winusb demo_giw True
      \<lparr>next_id = 3, live = {#(Mem, 0), (Mem, 1), (Mem, 2)#}\<rparr>)
    (\<lambda>(e, g) w'. \<exists>w''. libusbp_generic_handle_close_windows g w' = Some w'' \<and>
      live w'' = {#(Mem, 0), (Mem, 1), (Mem, 2)#} + err_res e)"
  by (rule runs_mono [OF generic_handle_open_windows_correct]) (auto simp: demo_giw_def)

text \<open>
  A read from a pipe on Windows never overruns the caller's buffer: into a buffer of at least
  \<open>n\<close> bytes it does not fault, writes at most the number of bytes it reports, which is at most \<open>n\<close>,
  and leaves the rest of the buffer alone.  An address that is not an IN endpoint, a size of 0 or
  one that does not fit a ULONG and a missing buffer are refused with nothing read.
\<close>

theorem read_pipe_windows_bounds:
  assumes "wf_ghw g" "g \<noteq> NULL" "ghw_res g \<subseteq># live w" "n \<le> length old"
  shows "runs (libusbp_read_pipe_windows E g p (Some old) n True w) (\<lambda>(e, t, d) w'.
      live w' = live w + err_res e \<and>
      (\<exists>m b. t = Some m \<and> m \<le> n \<and> length b = m \<and> d = Some (b @ drop m old)) \<and>
      (\<not> pipe_in p \<or> n = 0 \<or> n > ULONG_MAX \<longrightarrow> e \<noteq> NULL \<and> t = Some 0 \<and> d = Some old)) \<and>
    runs (libusbp_read_pipe_windows E g p None n True w) (\<lambda>(e, t, d) w'.
      live w' = live w + err_res e \<and> e \<noteq> NULL \<and> t = Some 0 \<and> d = None)"
proof
  have b: "buffer_for (Some old) n" "buffer_for None n" using assms(4) by (simp_all add: buffer_for_def)
  show "runs (libusbp_read_pipe_windows E g p (Some old) n True w) (\<lambda>(e, t, d) w'.
      live w' = live w + err_res e \<and>
      (\<exists>m b. t = Some m \<and> m \<le> n \<and> length b = m \<and> d = Some (b @ drop m old)) \<and>
      (\<not> pipe_in p \<or> n = 0 \<or> n > ULONG_MAX \<longrightarrow> e \<noteq> NULL \<and> t = Some 0 \<and> d = Some old))"
    by (rule runs_mono [OF libusbp_read_pipe_windows_spec [OF assms(1-3) b(1)]])
      (auto simp: filled_def bad_read_def)
  show "runs (libusbp_read_pipe_windows E g p None n True w) (\<lambda>(e, t, d) w'.
      live w' = live w + err_res e \<and> e \<noteq> NULL \<and> t = Some 0 \<and> d = None)"
    by (rule runs_mono [OF libusbp_read_pipe_windows_spec [OF assms(1-3) b(2)]])
      (auto simp: bad_read_def)
qed

definition demo_ghw :: generic_handle_windows where
  "demo_ghw = Heap 0 \<lparr>file_handle = Some 1, winusb_handle = Some 2\<rparr>"

theorem read_pipe_windows_bounds_witness:
  "runs (libusbp_read_pipe_windows demo_winusb demo_ghw 0x81 (Some [1, 2, 3]) 2 True
      \<lparr>next_id = 3, live = {#(Mem, 0), (FileHandle, 1), (WinUsbHandle, 2)#}\<rparr>)
    (\<lambda>(e, t, d) w'. \<exists>m b. t = Some m \<and> m \<le> 2 \<and> length b = m \<and> d = Some (b @ drop m [1, 2, 3]))"
  by (rule runs_mono [OF read_pipe_windows_bounds [THEN conjunct1]]) (auto simp: demo_ghw_def)

end
