(* ===== verification/AsyncTransferWindows.thy ===== *)
theory AsyncTransferWindows
  imports GenericHandleWindows
begin

text \<open>
  \<open>src/src/windows/async_in_transfer_windows.c\<close>: asynchronous IN transfers on Windows.  A transfer that
  is pending is shared with the system, which writes to its buffer until the operation is complete.
  The lemmas show that a transfer is pending exactly while the system works on it, so that freeing
  it never frees memory the system will write to.
\<close>

section \<open>Overlapped operations\<close>

text \<open>
  How WinUSB answers a read with an \<open>OVERLAPPED\<close> structure and the question for its result: \<open>Done\<close> and
  \<open>Finished\<close> carry the bytes that were read and the count reported.  Any answer but \<open>Incomplete\<close> means
  that the operation is over.
\<close>

datatype read_answer = Done "8 word list" "32 word" | Started | Refused "32 word"

datatype overlapped_answer = Finished "8 word list" "32 word" | Incomplete "32 word" | Failed "32 word" "32 word"

record winusb_async = winusb +
  heap_octets :: "nat \<Rightarrow> nat \<Rightarrow> 8 word"
  CreateEvent :: "nat \<Rightarrow> 32 word option"
  WinUsb_ReadPipe_overlapped :: "nat \<Rightarrow> nat \<Rightarrow> 8 word \<Rightarrow> nat \<Rightarrow> read_answer"
  WinUsb_GetOverlappedResult :: "nat \<Rightarrow> nat \<Rightarrow> nat \<Rightarrow> overlapped_answer"
  WinUsb_AbortPipe :: "nat \<Rightarrow> nat \<Rightarrow> 8 word \<Rightarrow> 32 word option"

text \<open>The operations the system works on, by the identity of the transfer they belong to.\<close>

record io_world = world +
  io :: "nat set"

section \<open>The operations of async_in_transfer_windows.c\<close>

record async_in_transfer_windows =
  tw_winusb_handle :: "nat option"
  tw_pipe_id :: "8 word"
  tw_buffer :: "8 word list ptr"
  tw_buffer_size :: nat
  tw_event :: "nat option"
  tw_transferred :: "32 word"
  tw_pending :: bool
  tw_error :: err

type_synonym transfer_windows = "async_in_transfer_windows ptr"

definition async_in_pipe_setup_windows :: "'e winusb_scheme \<Rightarrow> generic_handle_windows \<Rightarrow> 8 word
    \<Rightarrow> 'w world_scheme \<Rightarrow> (err \<times> 'w world_scheme) option" where
  "async_in_pipe_setup_windows E handle pipe_id w =
     (if handle = NULL then None
      else do {
        h \<leftarrow> libusbp_generic_handle_get_winusb_handle handle w;
        (r, w) \<leftarrow> use_winusb h (\<lambda>k h. WinUsb_SetPipePolicy E k h pipe_id (RAW_IO 1)) w;
        case r of
          Some e \<Rightarrow> error_create_winapi E e
            (''Failed to enable raw I/O for pipe 0x'' @ fmt_x 0 (unat pipe_id) @ ''.'') w
        | None \<Rightarrow> Some (NULL, w)
      })"

definition async_in_transfer_free_windows :: "transfer_windows \<Rightarrow> 'w world_scheme \<Rightarrow> 'w world_scheme option" where
  "async_in_transfer_free_windows transfer w =
     (if transfer = NULL then Some w
      else do {
        x \<leftarrow> deref transfer w;
        if tw_pending x then Some w
        else do {
          w \<leftarrow> libusbp_error_free (tw_error x) w;
          w \<leftarrow> unref_if EventHandle (tw_event x) w;
          w \<leftarrow> free (tw_buffer x) w;
          free transfer w
        }
      })"

text \<open>The buffer after the system wrote bytes to it, no more than its size.\<close>

definition write_transfer :: "async_in_transfer_windows \<Rightarrow> 8 word list \<Rightarrow> 'w world_scheme
    \<Rightarrow> 8 word list ptr option" where
  "write_transfer x bytes w = do {
     old \<leftarrow> deref (tw_buffer x) w;
     let b = take (tw_buffer_size x) bytes;
     if length b \<le> length old then store (tw_buffer x) (b @ drop (length b) old) w else None
   }"

definition async_in_transfer_submit_windows :: "'e winusb_async_scheme \<Rightarrow> transfer_windows
    \<Rightarrow> 'w io_world_scheme \<Rightarrow> (transfer_windows \<times> 'w io_world_scheme) option" where
  "async_in_transfer_submit_windows E transfer w = do {
     x \<leftarrow> deref transfer w;
     if tw_pending x then None
     else do {
       w \<leftarrow> libusbp_error_free (tw_error x) w;
       let x = x\<lparr>tw_error := NULL, tw_pending := True, tw_transferred := 0\<rparr>;
       (r, w) \<leftarrow> use_winusb (tw_winusb_handle x)
         (\<lambda>k h. WinUsb_ReadPipe_overlapped E k h (tw_pipe_id x) (tw_buffer_size x)) w;
       (x, w) \<leftarrow> (case r of
           Done bytes n \<Rightarrow> do {
             b \<leftarrow> write_transfer x bytes w;
             Some (x\<lparr>tw_buffer := b, tw_transferred := n, tw_pending := False\<rparr>, w)
           }
         | Started \<Rightarrow> (case transfer of
             Heap n _ \<Rightarrow> Some (x, w\<lparr>io := insert n (io w)\<rparr>) | _ \<Rightarrow> None)
         | Refused e \<Rightarrow> do {
             (error, w) \<leftarrow> error_create_winapi E e ''Failed to submit asynchronous in transfer.'' w;
             Some (x\<lparr>tw_error := error, tw_pending := False\<rparr>, w)
           });
       transfer \<leftarrow> store transfer x w;
       Some (transfer, w)
     }
   }"

text \<open>
  \<open>CloseHandle\<close> on the NULL that a failed \<open>CreateEvent\<close> gives has no effect; \<open>None\<close> stands for that NULL
  and for \<open>INVALID_HANDLE_VALUE\<close>.
\<close>

definition async_in_transfer_create_windows :: "'e winusb_async_scheme \<Rightarrow> generic_handle_windows \<Rightarrow> 8 word
    \<Rightarrow> nat \<Rightarrow> 'w world_scheme \<Rightarrow> ((err \<times> transfer_windows) \<times> 'w world_scheme) option" where
  "async_in_transfer_create_windows E handle pipe_id transfer_size w =
     (if transfer_size = 0 then None
      else if transfer_size > ULONG_MAX then do {
        (error, w) \<leftarrow> error_create E ''Transfer size is too large.'' w;
        Some ((error, NULL), w)
      }
      else do {
        (new_transfer, w) \<leftarrow> malloc E w;
        let error = (if new_transfer = NULL then error_no_memory else NULL);
        ((error, new_buffer), w) \<leftarrow> ok_then error NULL (\<lambda>w. do {
            (new_buffer, w) \<leftarrow> malloc E w;
            Some ((if new_buffer = NULL then error_no_memory else NULL, new_buffer), w)
          }) w;
        ((error, new_event), w) \<leftarrow> ok_then error None (\<lambda>w.
            case CreateEvent E (next_id w) of
              None \<Rightarrow> Some ((NULL, Some (next_id w)), take_res EventHandle w)
            | Some e \<Rightarrow> do {
                (error, w) \<leftarrow> error_create_winapi E e
                  ''Failed to create event for asynchronous in transfer.'' (tick w);
                Some ((error, None), w)
              }) w;
        (transfer, new_buffer, new_event, new_transfer) \<leftarrow>
          (if error = NULL then do {
             h \<leftarrow> libusbp_generic_handle_get_winusb_handle handle w;
             b \<leftarrow> store new_buffer (map (heap_octets E (next_id w)) [0..<transfer_size]) w;
             t \<leftarrow> store new_transfer \<lparr>tw_winusb_handle = h, tw_pipe_id = pipe_id, tw_buffer = b,
               tw_buffer_size = transfer_size, tw_event = new_event, tw_transferred = 0,
               tw_pending = False, tw_error = NULL\<rparr> w;
             Some (t, NULL, None, NULL)
           }
           else Some (NULL, new_buffer, new_event, new_transfer));
        w \<leftarrow> unref_if EventHandle new_event w;
        w \<leftarrow> free new_buffer w;
        w \<leftarrow> free new_transfer w;
        Some ((error, transfer), w)
      })"

text \<open>The results: the caller's buffer, the count and a copy of the error of the transfer.\<close>

definition async_in_transfer_get_results_windows :: "'e environment_scheme \<Rightarrow> transfer_windows
    \<Rightarrow> 8 word list option \<Rightarrow> bool \<Rightarrow> bool \<Rightarrow> 'w world_scheme
    \<Rightarrow> ((err \<times> 8 word list option \<times> nat \<times> err) \<times> 'w world_scheme) option" where
  "async_in_transfer_get_results_windows E transfer buf transferred_given error_given w = do {
     x \<leftarrow> deref transfer w;
     if tw_pending x then None
     else do {
       let tmp = unat (tw_transferred x);
       let tmp_transferred = (if tmp > tw_buffer_size x then tw_buffer_size x else tmp);
       buf \<leftarrow> (case buf of None \<Rightarrow> Some None
         | Some dest \<Rightarrow> do {
             src \<leftarrow> deref (tw_buffer x) w;
             if tmp_transferred \<le> length src then fill_buffer (Some dest) (take tmp_transferred src) else None
           });
       (transfer_error, w) \<leftarrow> (if error_given then libusbp_error_copy E (tw_error x) w
         else Some (NULL, w));
       Some ((NULL, buf, if transferred_given then tmp_transferred else 0, transfer_error), w)
     }
   }"

definition async_in_transfer_cancel_windows :: "'e winusb_async_scheme \<Rightarrow> transfer_windows
    \<Rightarrow> 'w world_scheme \<Rightarrow> (err \<times> 'w world_scheme) option" where
  "async_in_transfer_cancel_windows E transfer w =
     (if transfer = NULL then error_create E ''Transfer to cancel is null.'' w
      else do {
        x \<leftarrow> deref transfer w;
        (r, w) \<leftarrow> use_winusb (tw_winusb_handle x) (\<lambda>k h. WinUsb_AbortPipe E k h (tw_pipe_id x)) w;
        case r of
          Some e \<Rightarrow> error_create_winapi E e
            (''Failed to cancel transfers on pipe 0x'' @ fmt_x 0 (unat (tw_pipe_id x)) @ ''.'') w
        | None \<Rightarrow> Some (NULL, w)
      })"

text \<open>The result is whether the transfer is still pending, and the transfer.\<close>

definition async_in_transfer_pending_windows :: "'e winusb_async_scheme \<Rightarrow> transfer_windows
    \<Rightarrow> 'w io_world_scheme \<Rightarrow> ((bool \<times> transfer_windows) \<times> 'w io_world_scheme) option" where
  "async_in_transfer_pending_windows E transfer w = do {
     x \<leftarrow> deref transfer w;
     if \<not> tw_pending x then Some ((False, transfer), w)
     else (case transfer of
       Heap n _ \<Rightarrow> do {
         (r, w) \<leftarrow> use_winusb (tw_winusb_handle x) (\<lambda>k h. WinUsb_GetOverlappedResult E k h n) w;
         (x, w) \<leftarrow> (case r of
             Finished bytes transferred \<Rightarrow> do {
               b \<leftarrow> write_transfer x bytes w;
               Some (x\<lparr>tw_buffer := b, tw_transferred := transferred, tw_pending := False\<rparr>,
                 w\<lparr>io := io w - {n}\<rparr>)
             }
           | Incomplete transferred \<Rightarrow> Some (x\<lparr>tw_transferred := transferred\<rparr>, w)
           | Failed e transferred \<Rightarrow> do {
               (error, w) \<leftarrow> error_create_overlapped E e ''Asynchronous IN transfer failed.'' w;
               Some (x\<lparr>tw_transferred := transferred, tw_error := error, tw_pending := False\<rparr>,
                 w\<lparr>io := io w - {n}\<rparr>)
             });
         transfer \<leftarrow> store transfer x w;
         Some ((tw_pending x, transfer), w)
       }
     | _ \<Rightarrow> None)
   }"

section \<open>What transfers own\<close>

definition tw_res :: "transfer_windows \<Rightarrow> res multiset" where
  "tw_res t = owns (\<lambda>x. err_res (tw_error x) + opt_res EventHandle (tw_event x) + blk (tw_buffer x)) t"

lemma tw_res_simps [simp]:
  "tw_res NULL = {#}"
  "tw_res (Heap n x) = add_mset (Mem, n) (err_res (tw_error x) + opt_res EventHandle (tw_event x) + blk (tw_buffer x))"
  by (simp_all add: tw_res_def)

lemma later_io: "later w w' \<Longrightarrow> io w' = io (w :: 'a io_world_scheme) \<and> next_id w \<le> next_id w'"
  by (cases w; cases w') (simp add: later_def)

text \<open>
  The invariant of a transfer, with \<open>L\<close> the rest of the ledger: its buffer has the size it says, its
  handle is open, an error is only there when it is over, and it is pending exactly while the system
  works on it.
\<close>

definition tw_inv :: "res multiset \<Rightarrow> transfer_windows \<Rightarrow> 'w io_world_scheme \<Rightarrow> bool" where
  "tw_inv L t w \<longleftrightarrow> (\<exists>n x m s h. t = Heap n x \<and> wf_err (tw_error x) \<and> tw_buffer x = Heap m s \<and>
     length s = tw_buffer_size x \<and> tw_winusb_handle x = Some h \<and> (WinUsbHandle, h) \<in># L \<and>
     live w = tw_res t + L \<and> (tw_pending x \<longleftrightarrow> n \<in> io w) \<and> (tw_pending x \<longrightarrow> tw_error x = NULL))"

text \<open>What the other operations of the system's world do not touch.\<close>

definition others :: "nat \<Rightarrow> 'w io_world_scheme \<Rightarrow> 'w io_world_scheme \<Rightarrow> bool" where
  "others n w w' \<longleftrightarrow> io w' - {n} = io w - {n} \<and> next_id w \<le> next_id w'"

definition written :: "nat \<Rightarrow> 8 word list \<Rightarrow> 8 word list \<Rightarrow> 8 word list" where
  "written k s b = take k b @ drop (length (take k b)) s"

lemma length_written [simp]: "length s = k \<Longrightarrow> length (written k s b) = k"
  by (auto simp: written_def)

lemma write_transfer_ok [simp]:
  "tw_buffer x = Heap m s \<Longrightarrow> length s = tw_buffer_size x \<Longrightarrow> (Mem, m) \<in># live w \<Longrightarrow>
   write_transfer x b w = Some (Heap m (written (tw_buffer_size x) s b))"
  by (simp add: write_transfer_def written_def Let_def)

lemma io_update [simp]:
  "live (w\<lparr>io := S\<rparr>) = live w" "next_id (w\<lparr>io := S\<rparr>) = next_id w" "io (w\<lparr>io := S\<rparr>) = S"
  by (cases w; simp)+

lemma tw_invE:
  assumes "tw_inv L t w"
  obtains n x m s h where "t = Heap n x" "wf_err (tw_error x)" "tw_buffer x = Heap m s"
    "length s = tw_buffer_size x" "tw_winusb_handle x = Some h" "(WinUsbHandle, h) \<in># L"
    "live w = tw_res t + L" "tw_pending x \<longleftrightarrow> n \<in> io w" "tw_pending x \<longrightarrow> tw_error x = NULL"
  using assms unfolding tw_inv_def by blast

lemma io_drop_res [simp]: "io (drop_res R w) = io w"
  by (cases w) (simp add: drop_res_def)

text \<open>The operations keep the invariant and leave the operations on other transfers alone.\<close>

lemma async_in_transfer_submit_windows_spec:
  assumes inv: "tw_inv L (Heap n x) w" and idle: "\<not> tw_pending x"
  shows "runs (async_in_transfer_submit_windows E (Heap n x) w) (\<lambda>t' w'. tw_inv L t' w' \<and> others n w w' \<and>
    (\<exists>x'. t' = Heap n x' \<and> tw_buffer_size x' = tw_buffer_size x))"
proof -
  obtain m s h where i: "wf_err (tw_error x)" "tw_buffer x = Heap m s" "length s = tw_buffer_size x"
      "tw_winusb_handle x = Some h" "(WinUsbHandle, h) \<in># L" "live w = tw_res (Heap n x) + L" "n \<notin> io w"
    using inv idle by (auto elim!: tw_invE)
  have f: "libusbp_error_free (tw_error x) w = Some (drop_res (err_res (tw_error x)) w)"
    by (rule libusbp_error_free_ok) (use i in auto)
  show ?thesis
    unfolding async_in_transfer_submit_windows_def
    using i idle
    by (auto simp: f tw_inv_def others_def says_def Let_def
        split: read_answer.splits dest!: later_io intro!: runs_bind use_winusb_wp error_create_winapi_wp)
qed

lemma async_in_transfer_pending_windows_spec:
  assumes inv: "tw_inv L (Heap n x) w"
  shows "runs (async_in_transfer_pending_windows E (Heap n x) w) (\<lambda>(p, t') w'. tw_inv L t' w' \<and> others n w w' \<and>
    (\<exists>x'. t' = Heap n x' \<and> tw_buffer_size x' = tw_buffer_size x \<and> p = tw_pending x' \<and> (p \<longrightarrow> tw_pending x)))"
proof -
  obtain m s h where i: "wf_err (tw_error x)" "tw_buffer x = Heap m s" "length s = tw_buffer_size x"
      "tw_winusb_handle x = Some h" "(WinUsbHandle, h) \<in># L" "live w = tw_res (Heap n x) + L"
      "tw_pending x \<longleftrightarrow> n \<in> io w" "tw_pending x \<longrightarrow> tw_error x = NULL"
    using inv by (auto elim!: tw_invE)
  show ?thesis
  proof (cases "tw_pending x")
    case False
    with inv i show ?thesis by (simp add: async_in_transfer_pending_windows_def others_def)
  next
    case True
    with i show ?thesis
      unfolding async_in_transfer_pending_windows_def
      by (auto simp: tw_inv_def others_def says_def Let_def
          split: overlapped_answer.splits dest!: later_io
          intro!: runs_bind use_winusb_wp error_create_overlapped_wp)
  qed
qed

text \<open>The system works on transfers that exist: their identities are not new.\<close>

definition io_old :: "'w io_world_scheme \<Rightarrow> bool" where
  "io_old w \<longleftrightarrow> (\<forall>n \<in> io w. n < next_id w)"

lemma malloc_new_wp:
  assumes "\<And>n w'. live w' = add_mset (Mem, n) (live w) \<Longrightarrow> later w w' \<Longrightarrow> next_id w \<le> n \<Longrightarrow> Q (Heap n ()) w'"
    and "\<And>w'. live w' = live w \<Longrightarrow> later w w' \<Longrightarrow> Q NULL w'"
  shows "runs (malloc E w) Q"
  using assms by (auto simp: malloc_def)

definition new_transfer :: "nat \<Rightarrow> nat \<Rightarrow> nat \<Rightarrow> transfer_windows \<Rightarrow> bool" where
  "new_transfer i h k t \<longleftrightarrow> (\<exists>n x m s. t = Heap n x \<and> i \<le> n \<and> tw_error x = NULL \<and> tw_buffer x = Heap m s \<and>
     length s = k \<and> tw_buffer_size x = k \<and> tw_winusb_handle x = Some h \<and> \<not> tw_pending x)"

lemma async_in_transfer_create_windows_gives:
  assumes g: "g = Heap j y" "winusb_handle y = Some h" "(Mem, j) \<in># live w" and "k \<noteq> 0"
  shows "runs (async_in_transfer_create_windows E g p k w)
    (gives tw_res NULL (new_transfer (next_id w) h k) (\<lambda>_. True) w)"
  using assms
  by (auto simp: async_in_transfer_create_windows_def new_transfer_def says_def Let_def later_def
      libusbp_generic_handle_get_winusb_handle_def split: option.splits
      intro!: runs_bind runs_ok_then malloc_new_wp error_create_winapi_wp error_create_wp)

lemma new_transfer_inv:
  assumes "new_transfer (next_id w) h k t" "io_old w" "later w w'" "live w' = live w + tw_res t"
    "(WinUsbHandle, h) \<in># live w"
  shows "tw_inv (live w) t w'"
proof -
  obtain n x where t: "t = Heap n x" "next_id w \<le> n" using assms(1) by (auto simp: new_transfer_def)
  have "n \<notin> io w'" using t(2) assms(2) later_io [OF assms(3)] by (auto simp: io_old_def)
  with t(1) assms(1,4,5) show ?thesis by (auto simp: tw_inv_def new_transfer_def)
qed

lemma async_in_transfer_free_windows_spec:
  assumes "tw_inv L (Heap n x) w"
  shows "async_in_transfer_free_windows (Heap n x) w =
    Some (if n \<in> io w then w else drop_res (tw_res (Heap n x)) w)"
proof -
  obtain m s h where i: "wf_err (tw_error x)" "tw_buffer x = Heap m s" "live w = tw_res (Heap n x) + L"
      "tw_pending x \<longleftrightarrow> n \<in> io w"
    using assms by (auto elim!: tw_invE)
  have f: "libusbp_error_free (tw_error x) w = Some (drop_res (err_res (tw_error x)) w)"
    by (rule libusbp_error_free_ok) (use i in auto)
  have e: "unref_if EventHandle (tw_event x) (drop_res R w) =
      Some (drop_res (R + opt_res EventHandle (tw_event x)) w)"
    if "R = err_res (tw_error x)" for R
    using i that by (subst unref_if_ok) simp_all
  show ?thesis
    using i by (auto simp: async_in_transfer_free_windows_def f e add_mset_commute ac_simps)
qed

lemma async_in_transfer_get_results_windows_spec:
  assumes inv: "tw_inv L (Heap n x) w" and "\<not> tw_pending x" "tw_buffer_size x \<le> length dest"
  shows "runs (async_in_transfer_get_results_windows E (Heap n x) (Some dest) True True w)
    (\<lambda>(e, buf, m, te) w'. e = NULL \<and> m \<le> tw_buffer_size x \<and> m \<le> unat (tw_transferred x) \<and>
      buf = Some (take m (contents [] (tw_buffer x)) @ drop m dest) \<and> later w w' \<and>
      live w' = live w + err_res te \<and> (tw_error x = NULL \<longleftrightarrow> te = NULL))"
proof -
  obtain m s h where i: "wf_err (tw_error x)" "tw_buffer x = Heap m s" "length s = tw_buffer_size x"
      "live w = tw_res (Heap n x) + L"
    using inv by (auto elim!: tw_invE)
  have sub: "err_res (tw_error x) \<subseteq># live w" using i by simp
  have masked: "error_masked_by_no_memory \<noteq> NULL" by (simp add: error_masked_by_no_memory_def)
  note copy = libusbp_error_copy_spec [OF disjI1 [OF i(1)] sub, of E]
  show ?thesis
    using assms(2,3) i masked masked [symmetric]
    by (auto simp: async_in_transfer_get_results_windows_def Let_def fill_buffer_ok split: if_splits
        intro!: runs_bind runs_mono [OF copy])
qed

section \<open>Runs\<close>

text \<open>
  What can happen to a transfer: the library submits it when it is idle, or asks whether it is
  pending; the rest of the program may allocate.
\<close>

inductive tw_step :: "'e winusb_async_scheme \<Rightarrow> transfer_windows \<times> 'w io_world_scheme
    \<Rightarrow> transfer_windows \<times> 'w io_world_scheme \<Rightarrow> bool" for E where
  submit: "async_in_transfer_submit_windows E t w = Some (t', w') \<Longrightarrow> tw_step E (t, w) (t', w')"
| poll: "async_in_transfer_pending_windows E t w = Some ((p, t'), w') \<Longrightarrow> tw_step E (t, w) (t', w')"
| rest: "later w w' \<Longrightarrow> live w' = live w + R \<Longrightarrow> tw_step E (t, w) (t, w')"

inductive_cases tw_stepE: "tw_step E (t, w) (t', w')"

lemma submit_idle:
  "async_in_transfer_submit_windows E (Heap n x) w = Some r \<Longrightarrow> \<not> tw_pending x"
  by (auto simp: async_in_transfer_submit_windows_def deref_def split: if_splits)

text \<open>Every step keeps the identity and the size of the transfer and its invariant.\<close>

definition tw_ok :: "nat \<Rightarrow> nat \<Rightarrow> transfer_windows \<times> 'w io_world_scheme \<Rightarrow> bool" where
  "tw_ok n k = (\<lambda>(t, w). (\<exists>L. tw_inv L t w) \<and> (\<exists>x. t = Heap n x \<and> tw_buffer_size x = k))"

lemma tw_inv_rest: "tw_inv L t w \<Longrightarrow> later w w' \<Longrightarrow> live w' = live w + R \<Longrightarrow> tw_inv (L + R) t w'"
  unfolding tw_inv_def by (fastforce dest: later_io)

lemma tw_step_ok:
  assumes "tw_step E s s'" "tw_ok n k s"
  shows "tw_ok n k s'"
proof -
  obtain t w t' w' where s: "s = (t, w)" "s' = (t', w')" by (cases s; cases s')
  obtain L x where t: "t = Heap n x" "tw_inv L (Heap n x) w" "tw_buffer_size x = k"
    using assms(2) s by (auto simp: tw_ok_def)
  from assms(1) [unfolded s t(1)] show ?thesis
  proof (elim tw_stepE, goal_cases)
    case 1
    then have "\<not> tw_pending x" by (rule submit_idle)
    from runsD [OF async_in_transfer_submit_windows_spec [OF t(2) this, of E]] 1 s t(3)
    show ?case by (auto simp: tw_ok_def)
  next
    case (2 p)
    with runsD [OF async_in_transfer_pending_windows_spec [OF t(2), of E]] s t(3)
    show ?case by (auto simp: tw_ok_def)
  next
    case (3 R)
    then show ?case using s t tw_inv_rest [OF t(2)] by (auto simp: tw_ok_def)
  qed
qed

lemma tw_run_ok: "(tw_step E)\<^sup>*\<^sup>* s s' \<Longrightarrow> tw_ok n k s \<Longrightarrow> tw_ok n k s'"
  by (induction rule: rtranclp_induct) (auto intro: tw_step_ok)

section \<open>Properties\<close>

text \<open>
  C11: On Windows the memory of a transfer is never freed while the system can write to it.  After
  any run of submissions and polls on a transfer that was created for an open handle, freeing it does
  not fault: while the system works on it, nothing is freed, its block and its buffer included;
  otherwise the transfer, its buffer, its event and its error are given back, and nothing else.
\<close>

theorem transfer_free_windows_safe:
  fixes w0 :: "'w io_world_scheme"
  assumes "wf_ghw g" "g \<noteq> NULL" "ghw_res g \<subseteq># live w0" "io_old w0" "k \<noteq> 0"
    and "async_in_transfer_create_windows E g p k w0 = Some ((NULL, t0), w1)"
    and "(tw_step E)\<^sup>*\<^sup>* (t0, w1) (t, w)"
  shows "\<exists>n x. t = Heap n x \<and> (tw_pending x \<longleftrightarrow> n \<in> io w) \<and> tw_res t \<subseteq># live w \<and>
    async_in_transfer_free_windows t w = Some (if n \<in> io w then w else drop_res (tw_res t) w)"
proof -
  obtain j y h where gx: "g = Heap j y" "winusb_handle y = Some h" "(Mem, j) \<in># live w0"
      "(WinUsbHandle, h) \<in># live w0"
    using wf_ghwE [OF assms(1-3)] by (metis add_mset_commute union_single_eq_member)
  have c: "new_transfer (next_id w0) h k t0" "later w0 w1" "live w1 = live w0 + tw_res t0"
    using async_in_transfer_create_windows_gives [OF gx(1-3) assms(5), of E p] assms(6) by auto
  then have "tw_inv (live w0) t0 w1" by (intro new_transfer_inv [OF c(1) assms(4) c(2,3) gx(4)])
  moreover obtain n x0 where "t0 = Heap n x0" "tw_buffer_size x0 = k"
    using c(1) by (auto simp: new_transfer_def)
  ultimately have "tw_ok n k (t0, w1)" by (auto simp: tw_ok_def)
  from tw_run_ok [OF assms(7) this] obtain L x where t: "t = Heap n x" "tw_inv L (Heap n x) w"
    by (auto simp: tw_ok_def)
  then have "tw_pending x \<longleftrightarrow> n \<in> io w" "tw_res t \<subseteq># live w" by (auto elim!: tw_invE)
  with t async_in_transfer_free_windows_spec [OF t(2)] show ?thesis by auto
qed

definition demo_async :: winusb_async where
  "demo_async = winusb.extend demo_winusb \<lparr>heap_octets = \<lambda>_ _. 0, CreateEvent = \<lambda>_. None,
     WinUsb_ReadPipe_overlapped = \<lambda>_ _ _ _. Started,
     WinUsb_GetOverlappedResult = \<lambda>_ _ _. Finished [7] 100, WinUsb_AbortPipe = \<lambda>_ _ _. None\<rparr>"

definition demo_io :: io_world where
  "demo_io = \<lparr>next_id = 3, live = {#(Mem, 0), (FileHandle, 1), (WinUsbHandle, 2)#}, io = {}\<rparr>"

definition demo_transfer :: "bool \<Rightarrow> transfer_windows" where
  "demo_transfer p = Heap 3 \<lparr>tw_winusb_handle = Some 2, tw_pipe_id = 0x81, tw_buffer = Heap 4 [0, 0],
     tw_buffer_size = 2, tw_event = Some 5, tw_transferred = 0, tw_pending = p, tw_error = NULL\<rparr>"

definition demo_io_created :: io_world where
  "demo_io_created = take_res EventHandle (take_res Mem (take_res Mem demo_io))"

lemma demo_created:
  "async_in_transfer_create_windows demo_async demo_ghw 0x81 2 demo_io =
     Some ((NULL, demo_transfer False), demo_io_created)"
  by (simp add: async_in_transfer_create_windows_def demo_async_def demo_ghw_def demo_io_def
      demo_io_created_def malloc_def take_res_def demo_winusb_def demo_registry_def demo_cfgmgr_def
      demo_setup_def winusb.defs registry.defs cfgmgr.defs setup_api.defs UINT32_MAX_def Let_def
      libusbp_generic_handle_get_winusb_handle_def demo_transfer_def upt_rec)

lemma demo_submitted:
  "tw_step demo_async (demo_transfer False, demo_io_created)
     (demo_transfer True, (tick demo_io_created)\<lparr>io := {3}\<rparr>)"
  by (rule submit)
    (simp add: async_in_transfer_submit_windows_def demo_transfer_def demo_io_created_def demo_io_def
      take_res_def tick_def demo_async_def winusb.defs libusbp_error_free_def use_winusb_def Let_def)

theorem transfer_free_windows_safe_witness:
  "async_in_transfer_free_windows (demo_transfer True) ((tick demo_io_created)\<lparr>io := {3}\<rparr>) =
     Some ((tick demo_io_created)\<lparr>io := {3}\<rparr>)"
  using transfer_free_windows_safe [OF _ _ _ _ _ demo_created
      r_into_rtranclp [of "tw_step demo_async", OF demo_submitted]]
  by (auto simp: demo_ghw_def demo_io_def io_old_def demo_transfer_def)

text \<open>
  Reading the results of a transfer that is over never overruns the caller's buffer, whatever
  count the system reported: at most the size of the transfer is copied and reported, these bytes
  are the ones in the transfer's buffer, and the caller's error is a copy that it owns.
\<close>

theorem get_results_windows_bounds:
  assumes "tw_inv L (Heap n x) w" "\<not> tw_pending x" "tw_buffer_size x \<le> length dest"
  shows "runs (async_in_transfer_get_results_windows E (Heap n x) (Some dest) True True w)
    (\<lambda>(e, buf, m, te) w'. e = NULL \<and> m \<le> tw_buffer_size x \<and> m \<le> unat (tw_transferred x) \<and>
      buf = Some (take m (contents [] (tw_buffer x)) @ drop m dest) \<and>
      live w' = live w + err_res te \<and> (tw_error x = NULL \<longleftrightarrow> te = NULL))"
  by (rule runs_mono [OF async_in_transfer_get_results_windows_spec [OF assms]]) auto

lemma demo_transfer_inv: "tw_inv {#(Mem, 0), (FileHandle, 1), (WinUsbHandle, 2)#} (demo_transfer False) demo_io_created"
  by (auto simp: tw_inv_def demo_transfer_def demo_io_created_def demo_io_def take_res_def)

theorem get_results_windows_bounds_witness:
  "runs (async_in_transfer_get_results_windows demo_async (demo_transfer False) (Some [1, 2, 3]) True True
      demo_io_created) (\<lambda>(e, buf, m, te) w'. e = NULL \<and> m = 0 \<and> buf = Some [1, 2, 3])"
  using get_results_windows_bounds [OF demo_transfer_inv [unfolded demo_transfer_def],
      where dest = "[1, 2, 3]" and E = demo_async]
  by (auto simp: demo_transfer_def elim!: runs_mono)

end
