(* ===== verification/MacErrors.thy ===== *)
theory MacErrors
  imports Basics
begin

text \<open>
  \<open>src/src/mac/error_mac.c\<close>: the conversion of \<open>kern_return_t\<close> codes of Mach and IOKit to errors.  The
  lemmas give the text and the codes of the error made from each value.
\<close>

abbreviation (input) "kIOReturnNoDevice \<equiv> (0xE00002C0 :: 32 word)"
abbreviation (input) "kIOReturnExclusiveAccess \<equiv> (0xE00002C5 :: 32 word)"
abbreviation (input) "kIOReturnOverrun \<equiv> (0xE00002E8 :: 32 word)"
abbreviation (input) "kIOReturnAborted \<equiv> (0xE00002EB :: 32 word)"
abbreviation (input) "kIOUSBPipeStalled \<equiv> (0xE000404F :: 32 word)"
abbreviation (input) "kIOUSBTransactionTimeout \<equiv> (0xE0004051 :: 32 word)"

text \<open>
  \<open>mach_error_string\<close> is the system's text for a code; it is never NULL.  An answer of the system is
  the result of a call, or \<open>Inl\<close> of a code other than \<open>KERN_SUCCESS\<close>.
\<close>

record mach = environment +
  mach_error_string :: "32 word \<Rightarrow> string"

section \<open>The operation of error_mac.c\<close>

text \<open>The switch: the error after the case for the code, and \<open>skip_standard_message\<close>.\<close>

definition mach_case :: "'e mach_scheme \<Rightarrow> err \<Rightarrow> 32 word \<Rightarrow> 'w world_scheme
    \<Rightarrow> ((err \<times> bool) \<times> 'w world_scheme) option" where
  "mach_case E error error_code w =
     (if error_code = kIOUSBPipeStalled then do {
        (error, w) \<leftarrow> error_add E error ''The request was invalid or there was an I/O problem.'' w;
        (error, w) \<leftarrow> error_add_code E error (code_of LIBUSBP_ERROR_STALL) w;
        (error, w) \<leftarrow> error_add_code E error (code_of LIBUSBP_ERROR_DEVICE_DISCONNECTED) w;
        Some ((error, True), w)
      }
      else if error_code = kIOReturnNoDevice then do {
        (error, w) \<leftarrow> error_add_code E error (code_of LIBUSBP_ERROR_DEVICE_DISCONNECTED) w;
        Some ((error, False), w)
      }
      else if error_code = kIOUSBTransactionTimeout then do {
        (error, w) \<leftarrow> error_add E error ''The operation timed out.'' w;
        (error, w) \<leftarrow> error_add_code E error (code_of LIBUSBP_ERROR_TIMEOUT) w;
        Some ((error, True), w)
      }
      else if error_code = kIOReturnExclusiveAccess then do {
        (error, w) \<leftarrow> error_add E error
          ''Access is denied.  Try closing all other programs that are using the device.'' w;
        (error, w) \<leftarrow> error_add_code E error (code_of LIBUSBP_ERROR_ACCESS_DENIED) w;
        Some ((error, True), w)
      }
      else if error_code = kIOReturnOverrun then do {
        (error, w) \<leftarrow> error_add E error ''The transfer overflowed.'' w;
        Some ((error, True), w)
      }
      else if error_code = kIOReturnAborted then do {
        (error, w) \<leftarrow> error_add E error ''The operation was cancelled.'' w;
        (error, w) \<leftarrow> error_add_code E error (code_of LIBUSBP_ERROR_CANCELLED) w;
        Some ((error, True), w)
      }
      else Some ((error, False), w))"

definition error_create_mach :: "'e mach_scheme \<Rightarrow> 32 word \<Rightarrow> string \<Rightarrow> 'w world_scheme
    \<Rightarrow> (err \<times> 'w world_scheme) option" where
  "error_create_mach E error_code format w = do {
     (error, w) \<leftarrow> error_create E (''Error code 0x'' @ fmt_x 0 (unat error_code) @ ''.'') w;
     ((error, skip_standard_message), w) \<leftarrow> mach_case E error error_code w;
     (error, w) \<leftarrow> (if \<not> skip_standard_message
       then error_add E error (mach_error_string E error_code @ ''.'') w
       else Some (error, w));
     error_add_v E error (Some format) w
   }"

section \<open>What the errors say\<close>

definition mach_codes :: "32 word \<Rightarrow> libusbp_error_code list" where
  "mach_codes n =
     (if n = kIOUSBPipeStalled then [LIBUSBP_ERROR_STALL, LIBUSBP_ERROR_DEVICE_DISCONNECTED]
      else if n = kIOReturnNoDevice then [LIBUSBP_ERROR_DEVICE_DISCONNECTED]
      else if n = kIOUSBTransactionTimeout then [LIBUSBP_ERROR_TIMEOUT]
      else if n = kIOReturnExclusiveAccess then [LIBUSBP_ERROR_ACCESS_DENIED]
      else if n = kIOReturnAborted then [LIBUSBP_ERROR_CANCELLED]
      else [])"

text \<open>The sentence of the library for a code, which takes the place of the system's.\<close>

definition mach_sentence :: "32 word \<Rightarrow> string option" where
  "mach_sentence n =
     (if n = kIOUSBPipeStalled then Some ''The request was invalid or there was an I/O problem.''
      else if n = kIOUSBTransactionTimeout then Some ''The operation timed out.''
      else if n = kIOReturnExclusiveAccess then
        Some ''Access is denied.  Try closing all other programs that are using the device.''
      else if n = kIOReturnOverrun then Some ''The transfer overflowed.''
      else if n = kIOReturnAborted then Some ''The operation was cancelled.''
      else None)"

definition mach_text :: "'e mach_scheme \<Rightarrow> 32 word \<Rightarrow> string" where
  "mach_text E n = join_message
     (case mach_sentence n of Some s \<Rightarrow> s | None \<Rightarrow> mach_error_string E n @ ''.'')
     (''Error code 0x'' @ fmt_x 0 (unat n) @ ''.'')"

lemma mach_case_spec:
  assumes e: "says E t [] e" "err_res e \<subseteq># live w"
  shows "runs (mach_case E e n w) (\<lambda>(e', skip) w'. later w w' \<and>
     live w' = live w - err_res e + err_res e' \<and> (skip \<longleftrightarrow> mach_sentence n \<noteq> None) \<and>
     says E (case mach_sentence n of None \<Rightarrow> t | Some s \<Rightarrow> join_message s t)
       (map code_of (mach_codes n)) e')"
proof -
  obtain L where "live w = err_res e + L"
    using e(2) by (auto simp: mset_subset_eq_exists_conv)
  then show ?thesis
    using e(1)
    by (auto simp: mach_case_def mach_sentence_def mach_codes_def says_def later_def intro!: wp)
qed

lemmas mach_case_wp = mach_case_spec [THEN runs_mono]

lemma error_create_mach_wp [wp]:
  assumes "\<And>e' w'. later w w' \<Longrightarrow> live w' = live w + err_res e' \<Longrightarrow>
    says E (join_message fmt (mach_text E n)) (map code_of (mach_codes n)) e' \<Longrightarrow> Q e' w'"
  shows "runs (error_create_mach E n fmt w) Q"
  using assms
  by (auto simp: error_create_mach_def mach_text_def later_def says_def
      split: option.splits intro!: mach_case_wp wp)

end
