(* ===== verification/IOKit.thy ===== *)
theory IOKit
  imports MacErrors WinErrors
begin

text \<open>
  \<open>src/src/mac/iokit_mac.c\<close>: what the macOS back end does with the I/O Registry.  The lemmas show that
  every reference to an object of IOKit that a call takes is given back or handed to the caller, and
  which interface of a device the search finds.
\<close>

section \<open>IOKit and Core Foundation\<close>

text \<open>
  Entries of the registry are numbers.  A service is a reference to an entry, an iterator a reference
  that comes with the entries it has still to give; references are entries of the ledger, and \<open>None\<close>
  is \<open>MACH_PORT_NULL\<close> or NULL.  Every call is an event with a number of its own, so that the registry
  may change between any two calls.  A \<open>CFString\<close> has no text when it has characters that ASCII lacks.
\<close>

datatype cf_value = CFString "string option" | CFNumber int | CFOther

datatype matching = MatchID "64 word" | MatchClass string

datatype plug_in_type = kIOUSBDeviceUserClientTypeID | kIOUSBInterfaceUserClientTypeID

datatype interface_id = kIOUSBDeviceInterfaceID197 | kIOUSBInterfaceInterfaceID182

abbreviation (input) "kIOUSBInterfaceClassName \<equiv> ''IOUSBInterface''"

type_synonym io_service = "(nat \<times> nat) option"

record iokit = mach +
  matching_dictionary :: "nat \<Rightarrow> matching \<Rightarrow> bool"
  IOServiceGetMatchingService :: "nat \<Rightarrow> matching \<Rightarrow> nat option"
  IOServiceGetMatchingServices :: "nat \<Rightarrow> matching \<Rightarrow> 32 word + nat list"
  IORegistryEntryGetChildIterator :: "nat \<Rightarrow> nat \<Rightarrow> 32 word + nat list"
  IORegistryEntryCreateIterator :: "nat \<Rightarrow> nat \<Rightarrow> 32 word + nat list"
  IOObjectConformsTo :: "nat \<Rightarrow> nat \<Rightarrow> string \<Rightarrow> bool"
  IORegistryEntryGetRegistryEntryID :: "nat \<Rightarrow> nat \<Rightarrow> 32 word + 64 word"
  IORegistryEntryCreateCFProperty :: "nat \<Rightarrow> nat \<Rightarrow> string \<Rightarrow> cf_value option"
  IOCreatePlugInInterfaceForService :: "nat \<Rightarrow> nat \<Rightarrow> plug_in_type \<Rightarrow> 32 word option"
  QueryInterface :: "nat \<Rightarrow> nat \<Rightarrow> interface_id \<Rightarrow> 32 word option"

text \<open>A new object of a kind with its data, and the call that releases one.\<close>

definition new_object :: "kind \<Rightarrow> 'a \<Rightarrow> 'w world_scheme \<Rightarrow> ((nat \<times> 'a) \<times> 'w world_scheme) option" where
  "new_object k x w = Some ((next_id w, x), take_res k w)"

definition release_object :: "kind \<Rightarrow> (nat \<times> 'a) option \<Rightarrow> 'w world_scheme \<Rightarrow> 'w world_scheme option" where
  "release_object k r w = unref_if k (map_option fst r) w"

text \<open>A question about an object, which has to be there: the answer may depend on its data.\<close>

definition ask_object :: "kind \<Rightarrow> (nat \<times> 'a) option \<Rightarrow> (nat \<Rightarrow> 'a \<Rightarrow> 'b) \<Rightarrow> 'w world_scheme
    \<Rightarrow> ('b \<times> 'w world_scheme) option" where
  "ask_object k r q w = do {
     (n, x) \<leftarrow> r;
     borrow (k, n) w;
     ask (\<lambda>j. q j x) w
   }"

section \<open>Services\<close>

definition iokit_id_to_string :: "'e environment_scheme \<Rightarrow> 64 word \<Rightarrow> 'w world_scheme
    \<Rightarrow> ((err \<times> cstr) \<times> 'w world_scheme) option" where
  "iokit_id_to_string E id' w = string_copy E (Static (take 16 (fmt_x 0 (unat id')))) w"

text \<open>The dictionary is consumed by \<open>IOServiceGetMatchingService\<close>.\<close>

definition service_get_from_id :: "'e iokit_scheme \<Rightarrow> 64 word \<Rightarrow> 'w world_scheme
    \<Rightarrow> ((err \<times> io_service) \<times> 'w world_scheme) option" where
  "service_get_from_id E id' w = do {
     (dict, w) \<leftarrow> open_res CFObject (\<lambda>k. matching_dictionary E k (MatchID id')) w;
     if dict = None then do {
       (error, w) \<leftarrow> error_create E ''Failed to create a dictionary matching the ID.'' w;
       Some ((error, None), w)
     }
     else do {
       w \<leftarrow> unref_if CFObject dict w;
       (r, w) \<leftarrow> ask (\<lambda>k. IOServiceGetMatchingService E k (MatchID id')) w;
       case r of
         None \<Rightarrow> do {
           (error, w) \<leftarrow> error_create E
             (''Failed to find service with ID 0x'' @ fmt_x 0 (unat id') @ ''.'') w;
           Some ((error, None), w)
         }
       | Some x \<Rightarrow> do {
           (service, w) \<leftarrow> new_object IoObject x w;
           Some ((NULL, Some service), w)
         }
     }
   }"

definition service_to_interface :: "'e iokit_scheme \<Rightarrow> io_service \<Rightarrow> plug_in_type \<Rightarrow> interface_id \<Rightarrow> bool
    \<Rightarrow> 'w world_scheme \<Rightarrow> ((err \<times> (nat \<times> nat) option \<times> nat option) \<times> 'w world_scheme) option" where
  "service_to_interface E service plugin_type rid plug_in_given w = do {
     (n, x) \<leftarrow> service;
     (r, w) \<leftarrow> ask_object IoObject service (\<lambda>k x. IOCreatePlugInInterfaceForService E k x plugin_type) w;
     ((error, new_plug_in), w) \<leftarrow> (case r of
         Some kr \<Rightarrow> do {
           (error, w) \<leftarrow> error_create_mach E kr ''Failed to create plug-in interface.'' w;
           Some ((error, None), w)
         }
       | None \<Rightarrow> do {
           (p, w) \<leftarrow> new_object PlugIn () w;
           Some ((NULL, Some (fst p)), w)
         });
     ((error, object), w) \<leftarrow> ok_then error None (\<lambda>w. do {
         p \<leftarrow> new_plug_in;
         borrow (PlugIn, p) w;
         (r, w) \<leftarrow> ask (\<lambda>k. QueryInterface E k x rid) w;
         case r of
           Some hr \<Rightarrow> do {
             (error, w) \<leftarrow> error_create_hr E hr ''Failed to query interface.'' w;
             Some ((error, None), w)
           }
         | None \<Rightarrow> do {
             (object, w) \<leftarrow> new_object UsbObject x w;
             Some ((NULL, Some object), w)
           }
       }) w;
     let (plug_in, new_plug_in) =
       (if error = NULL \<and> plug_in_given then (new_plug_in, None) else (None, new_plug_in));
     w \<leftarrow> unref_if PlugIn new_plug_in w;
     Some ((error, object, plug_in), w)
   }"

section \<open>Properties of registry entries\<close>

definition get_id :: "'e iokit_scheme \<Rightarrow> io_service \<Rightarrow> 'w world_scheme
    \<Rightarrow> ((err \<times> 64 word) \<times> 'w world_scheme) option" where
  "get_id E entry w = do {
     (r, w) \<leftarrow> ask_object IoObject entry (IORegistryEntryGetRegistryEntryID E) w;
     case r of
       Inl result \<Rightarrow> do {
         (error, w) \<leftarrow> error_create_mach E result ''Failed to get registry entry ID.'' w;
         Some ((error, 0), w)
       }
     | Inr id' \<Rightarrow> Some ((NULL, id'), w)
   }"

definition cf_property :: "'e iokit_scheme \<Rightarrow> io_service \<Rightarrow> string \<Rightarrow> 'w world_scheme
    \<Rightarrow> ((nat \<times> cf_value) option \<times> 'w world_scheme) option" where
  "cf_property E entry name w = do {
     (r, w) \<leftarrow> ask_object IoObject entry (\<lambda>k x. IORegistryEntryCreateCFProperty E k x name) w;
     case r of
       None \<Rightarrow> Some (None, w)
     | Some v \<Rightarrow> do { (v, w) \<leftarrow> new_object CFObject v w; Some (Some v, w) }
   }"

text \<open>
  \<open>CFStringGetCString\<close> into a buffer of \<open>n\<close> bytes, as the C string the buffer then holds, and
  \<open>CFNumberGetValue\<close>: the value, and whether it is the number.
\<close>

definition cf_string_get :: "cf_value \<Rightarrow> nat \<Rightarrow> string option" where
  "cf_string_get v n = (case v of
     CFString (Some s) \<Rightarrow>
       if length s < n then Some (takeWhile (\<lambda>c. c \<noteq> CHR 0x00) s) else None
   | _ \<Rightarrow> None)"

definition cf_number_get :: "cf_value \<Rightarrow> 32 word \<times> bool" where
  "cf_number_get v = (case v of CFNumber i \<Rightarrow> (word_of_int i, sint (word_of_int i :: 32 word) = i)
     | _ \<Rightarrow> (0, False))"

definition is_cf_string :: "cf_value \<Rightarrow> bool" where
  "is_cf_string v = (case v of CFString s \<Rightarrow> True | _ \<Rightarrow> False)"

definition is_cf_number :: "cf_value \<Rightarrow> bool" where
  "is_cf_number v = (case v of CFNumber i \<Rightarrow> True | _ \<Rightarrow> False)"

definition get_string :: "'e iokit_scheme \<Rightarrow> io_service \<Rightarrow> string \<Rightarrow> 'w world_scheme
    \<Rightarrow> ((err \<times> cstr) \<times> 'w world_scheme) option" where
  "get_string E entry name w = do {
     (cf_value, w) \<leftarrow> cf_property E entry name w;
     case cf_value of
       None \<Rightarrow> Some ((NULL, NULL), w)
     | Some (n, v) \<Rightarrow> do {
         (error, w) \<leftarrow> (if \<not> is_cf_string v
           then error_create E ''Property is not a string.'' w else Some (NULL, w));
         ((error, buffer), w) \<leftarrow> ok_then error '''' (\<lambda>w.
           case cf_string_get v 256 of
             None \<Rightarrow> do {
               (error, w) \<leftarrow> error_create E ''Failed to convert property to C string.'' w;
               Some ((error, ''''), w)
             }
           | Some s \<Rightarrow> Some ((NULL, s), w)) w;
         ((error, value), w) \<leftarrow> ok_then error NULL (string_copy E (Static buffer)) w;
         w \<leftarrow> release_object CFObject cf_value w;
         Some ((error, value), w)
       }
   }"

definition get_int32 :: "'e iokit_scheme \<Rightarrow> io_service \<Rightarrow> string \<Rightarrow> 'w world_scheme
    \<Rightarrow> ((err \<times> 32 word) \<times> 'w world_scheme) option" where
  "get_int32 E entry name w = do {
     (cf_value, w) \<leftarrow> cf_property E entry name w;
     (error, w) \<leftarrow> (if cf_value = None
       then error_create E ''Failed to get int32 property from IORegistryEntry.'' w
       else Some (NULL, w));
     (error, w) \<leftarrow> ok_do error (\<lambda>w. do {
         (n, v) \<leftarrow> cf_value;
         if \<not> is_cf_number v then error_create E ''Property is not a number.'' w else Some (NULL, w)
       }) w;
     ((error, value), w) \<leftarrow> ok_then error 0 (\<lambda>w. do {
         (n, v) \<leftarrow> cf_value;
         let (value, success) = cf_number_get v;
         if \<not> success then do {
           (error, w) \<leftarrow> error_create E ''Failed to convert property to C integer.'' w;
           Some ((error, value), w)
         }
         else Some ((NULL, value), w)
       }) w;
     w \<leftarrow> release_object CFObject cf_value w;
     Some ((error, value), w)
   }"

text \<open>
  The result is \<open>None\<close> when the caller's variable is not written.  The conversion from \<open>int32_t\<close> keeps
  the low 16 bits.
\<close>

definition get_uint16 :: "'e iokit_scheme \<Rightarrow> io_service \<Rightarrow> string \<Rightarrow> 'w world_scheme
    \<Rightarrow> ((err \<times> 16 word option) \<times> 'w world_scheme) option" where
  "get_uint16 E entry name w = do {
     ((error, tmp), w) \<leftarrow> get_int32 E entry name w;
     Some ((error, if error = NULL then Some (ucast tmp) else None), w)
   }"

section \<open>The search for an interface\<close>

text \<open>\<open>IOIteratorNext\<close> and the loop, over the entries that the iterator \<open>i\<close> has still to give.\<close>

fun usb_interface_loop :: "'e iokit_scheme \<Rightarrow> 8 word \<Rightarrow> nat \<Rightarrow> nat list \<Rightarrow> 'w world_scheme
    \<Rightarrow> ((err \<times> io_service) \<times> 'w world_scheme) option" where
  "usb_interface_loop E interface_number i [] w = do {
     borrow (IoObject, i) w;
     Some ((NULL, None), w)
   }"
| "usb_interface_loop E interface_number i (x # xs) w = do {
     borrow (IoObject, i) w;
     (candidate, w) \<leftarrow> new_object IoObject x w;
     (conforms, w) \<leftarrow> ask_object IoObject (Some candidate) (\<lambda>k x. IOObjectConformsTo E k x kIOUSBInterfaceClassName) w;
     if \<not> conforms then do {
       w \<leftarrow> release_object IoObject (Some candidate) w;
       usb_interface_loop E interface_number i xs w
     }
     else do {
       ((error, actual_num), w) \<leftarrow> get_int32 E (Some candidate) ''bInterfaceNumber'' w;
       if error = NULL \<and> sint actual_num = uint interface_number
       then Some ((NULL, Some candidate), w)
       else do {
         w \<leftarrow> release_object IoObject (Some candidate) w;
         if error = NULL then usb_interface_loop E interface_number i xs w
         else Some ((error, None), w)
       }
     }
   }"

definition service_get_usb_interface :: "'e iokit_scheme \<Rightarrow> io_service \<Rightarrow> 8 word \<Rightarrow> 'w world_scheme
    \<Rightarrow> ((err \<times> io_service) \<times> 'w world_scheme) option" where
  "service_get_usb_interface E service interface_number w = do {
     (r, w) \<leftarrow> ask_object IoObject service (IORegistryEntryGetChildIterator E) w;
     ((error, iterator), w) \<leftarrow> (case r of
         Inl result \<Rightarrow> do {
           (error, w) \<leftarrow> error_create_mach E result ''Failed to get child iterator.'' w;
           Some ((error, None), w)
         }
       | Inr xs \<Rightarrow> do { (i, w) \<leftarrow> new_object IoObject xs w; Some ((NULL, Some i), w) });
     ((error, interface_service), w) \<leftarrow> ok_then error None (\<lambda>w. do {
         (i, xs) \<leftarrow> iterator;
         usb_interface_loop E interface_number i xs w
       }) w;
     (error, w) \<leftarrow> (if error = NULL \<and> interface_service = None then do {
         (error, w) \<leftarrow> error_create E
           (''Could not find interface '' @ fmt_d (uint interface_number) @ ''.'') w;
         error_add_code E error (code_of LIBUSBP_ERROR_NOT_READY) w
       }
       else Some (error, w));
     w \<leftarrow> release_object IoObject iterator w;
     Some ((error, interface_service), w)
   }"

section \<open>Contracts of objects\<close>

abbreviation io_res :: "(nat \<times> 'a) option \<Rightarrow> res multiset" where
  "io_res r \<equiv> opt_res IoObject (map_option fst r)"

lemma new_object_wp [wp]:
  assumes "\<And>n w'. later w w' \<Longrightarrow> live w' = add_mset (k, n) (live w) \<Longrightarrow> next_id w \<le> n \<Longrightarrow> Q (n, x) w'"
  shows "runs (new_object k x w) Q"
  using assms [of "take_res k w" "next_id w"] by (simp add: new_object_def)

lemma release_object_simps [simp]:
  "release_object k None w = Some w"
  "(k, n) \<in># live w \<Longrightarrow> release_object k (Some (n, x)) w = Some (drop_res {#(k, n)#} w)"
  by (simp_all add: release_object_def)

lemma ask_object_wp [wp]:
  assumes "(k, n) \<in># live w"
    and "\<And>j w'. later w w' \<Longrightarrow> live w' = live w \<Longrightarrow> Q (q j x) w'"
  shows "runs (ask_object k (Some (n, x)) q w) Q"
  using assms by (auto simp: ask_object_def intro!: wp)

interpretation iokit_object: releases "release_object k" "\<lambda>r. opt_res k (map_option fst r)" "\<lambda>_. True"
  by unfold_locales (simp add: release_object_def unref_if_ok)

text \<open>What a property is as an integer and as a string; \<open>Some None\<close> is a string that is not there.\<close>

definition int_value :: "cf_value option \<Rightarrow> 32 word option" where
  "int_value v = (case v of Some (CFNumber i) \<Rightarrow>
       if sint (word_of_int i :: 32 word) = i then Some (word_of_int i) else None
     | _ \<Rightarrow> None)"

definition string_value :: "cf_value option \<Rightarrow> string option option" where
  "string_value v = (case v of None \<Rightarrow> Some None
     | Some v \<Rightarrow> (case cf_string_get v 256 of None \<Rightarrow> None | Some s \<Rightarrow> Some (Some s)))"

lemma cf_property_wp:
  assumes "(IoObject, n) \<in># live w"
    and "\<And>k w'. later w w' \<Longrightarrow> live w' = live w \<Longrightarrow>
      IORegistryEntryCreateCFProperty E k x name = None \<Longrightarrow> Q None w'"
    and "\<And>k c v w'. later w w' \<Longrightarrow> live w' = add_mset (CFObject, c) (live w) \<Longrightarrow>
      IORegistryEntryCreateCFProperty E k x name = Some v \<Longrightarrow> Q (Some (c, v)) w'"
  shows "runs (cf_property E (Some (n, x)) name w) Q"
  unfolding cf_property_def
proof (rule runs_bind, rule ask_object_wp [OF assms(1)], goal_cases)
  case (1 j w')
  show ?case
    using 1 assms(2) [of w' j] assms(3) [where k = j]
    by (cases "IORegistryEntryCreateCFProperty E j x name") (auto simp: later_def intro!: wp)
qed

text \<open>
  What reading an integer or a string gives: the value that the property has when it is asked for.
\<close>

definition reads_int :: "'e iokit_scheme \<Rightarrow> nat \<Rightarrow> string \<Rightarrow> err \<Rightarrow> 32 word \<Rightarrow> bool" where
  "reads_int E x name e v \<longleftrightarrow> wf_err e \<and> (memory_ok E \<longrightarrow> err_codes e = []) \<and>
     (\<exists>k. int_value (IORegistryEntryCreateCFProperty E k x name) = (if e = NULL then Some v else None))"

definition reads_string :: "'e iokit_scheme \<Rightarrow> nat \<Rightarrow> string \<Rightarrow> err \<Rightarrow> cstr \<Rightarrow> bool" where
  "reads_string E x name e p \<longleftrightarrow> wf_err e \<and> \<not> is_static p \<and> (e \<noteq> NULL \<longrightarrow> p = NULL) \<and>
     (e = error_no_memory \<and> \<not> memory_ok E \<or> (\<exists>k. string_value (IORegistryEntryCreateCFProperty E k x name) =
        (if e = NULL then Some (str_view p) else None)))"

lemma get_int32_spec:
  assumes "(IoObject, n) \<in># live w"
  shows "runs (get_int32 E (Some (n, x)) name w) (\<lambda>(e, v) w'. later w w' \<and>
     live w' = live w + err_res e \<and> reads_int E x name e v)"
  unfolding get_int32_def
proof (rule runs_bind, rule cf_property_wp [OF assms], goal_cases)
  case (1 k w')
  then have "int_value (IORegistryEntryCreateCFProperty E k x name) = None"
    by (simp add: int_value_def)
  then have "reads_int E x name e v" if "e \<noteq> NULL" "wf_err e" "memory_ok E \<longrightarrow> err_codes e = []" for e v
    using that unfolding reads_int_def by auto
  with 1 show ?case by (auto simp: later_def says_def intro!: wp)
next
  case (2 k c v w')
  then have k: "int_value (IORegistryEntryCreateCFProperty E k x name) = int_value (Some v)" by simp
  then have "reads_int E x name e u" if "e \<noteq> NULL" "wf_err e" "memory_ok E \<longrightarrow> err_codes e = []"
      "int_value (Some v) = None" for e u
    using that unfolding reads_int_def by auto
  moreover have "reads_int E x name NULL u" if "int_value (Some v) = Some u" for u
    unfolding reads_int_def using k that by auto
  ultimately show ?case using 2
    by (cases v) (auto simp: later_def says_def is_cf_number_def cf_number_get_def int_value_def
        intro!: wp)
qed

lemmas get_int32_wp = get_int32_spec [THEN runs_mono]

lemma get_string_spec:
  assumes "(IoObject, n) \<in># live w"
  shows "runs (get_string E (Some (n, x)) name w) (\<lambda>(e, p) w'. later w w' \<and>
     live w' = live w + err_res e + blk p \<and> reads_string E x name e p)"
  unfolding get_string_def
proof (rule runs_bind, rule cf_property_wp [OF assms], goal_cases)
  case (1 k w')
  then have "reads_string E x name NULL NULL"
    unfolding reads_string_def by (auto simp: string_value_def intro!: exI [of _ k])
  with 1 show ?case by simp
next
  case (2 k c v w')
  then have k: "string_value (IORegistryEntryCreateCFProperty E k x name) = string_value (Some v)" by simp
  have "reads_string E x name e NULL" if "e \<noteq> NULL" "wf_err e" "string_value (Some v) = None" for e
    using k that unfolding reads_string_def by (auto intro!: exI [of _ k])
  moreover have "reads_string E x name NULL (Heap m s)" if "string_value (Some v) = Some (Some s)" for m s
    unfolding reads_string_def using k that by (auto intro!: exI [of _ k])
  moreover have "reads_string E x name error_no_memory NULL" if "\<not> memory_ok E"
    using that by (simp add: reads_string_def)
  ultimately show ?case using 2
    by (cases v) (auto simp: later_def says_def is_cf_string_def cf_string_get_def string_value_def
        split: option.splits intro!: wp)
qed

lemmas get_string_wp = get_string_spec [THEN runs_mono]

lemma get_uint16_spec:
  assumes "(IoObject, n) \<in># live w"
  shows "runs (get_uint16 E (Some (n, x)) name w) (\<lambda>(e, v) w'. later w w' \<and>
     live w' = live w + err_res e \<and>
     (\<exists>u. reads_int E x name e u \<and> v = (if e = NULL then Some (ucast u) else None)))"
  using assms by (auto simp: get_uint16_def later_def intro!: runs_bind get_int32_wp)

lemmas get_uint16_wp = get_uint16_spec [THEN runs_mono]

text \<open>IDs that the system has given an entry.\<close>

definition entry_id :: "'e iokit_scheme \<Rightarrow> nat \<Rightarrow> 64 word \<Rightarrow> bool" where
  "entry_id E x i \<longleftrightarrow> (\<exists>k. IORegistryEntryGetRegistryEntryID E k x = Inr i)"

definition entry_without_id :: "'e iokit_scheme \<Rightarrow> nat \<Rightarrow> bool" where
  "entry_without_id E x \<longleftrightarrow> (\<exists>k c. IORegistryEntryGetRegistryEntryID E k x = Inl c)"

lemma get_id_gives:
  assumes "(IoObject, n) \<in># live w"
  shows "runs (get_id E (Some (n, x)) w) (gives nothing 0 (entry_id E x) (\<lambda>_. entry_without_id E x) w)"
  unfolding get_id_def
proof (rule runs_bind, rule ask_object_wp [OF assms], goal_cases)
  case (1 j w')
  have "entry_without_id E x" if "IORegistryEntryGetRegistryEntryID E j x = Inl c" for c
    using that by (auto simp: entry_without_id_def)
  moreover have "entry_id E x i" if "IORegistryEntryGetRegistryEntryID E j x = Inr i" for i
    using that by (auto simp: entry_id_def)
  ultimately show ?case
    using 1 by (auto simp: later_def says_def split: sum.splits intro!: wp)
qed

lemmas get_id_wp = gives_wp [OF get_id_gives]

definition entry_with_id :: "'e iokit_scheme \<Rightarrow> 64 word \<Rightarrow> nat \<Rightarrow> bool" where
  "entry_with_id E i x \<longleftrightarrow> (\<exists>k. IOServiceGetMatchingService E k (MatchID i) = Some x)"

definition no_service :: "'e iokit_scheme \<Rightarrow> 64 word \<Rightarrow> bool" where
  "no_service E i \<longleftrightarrow> (\<exists>k. \<not> matching_dictionary E k (MatchID i) \<or>
     IOServiceGetMatchingService E k (MatchID i) = None)"

lemma service_get_from_id_gives:
  "runs (service_get_from_id E i w) (gives io_res None
     (\<lambda>r. \<exists>n x. r = Some (n, x) \<and> entry_with_id E i x) (\<lambda>_. no_service E i) w)"
  unfolding service_get_from_id_def
proof (rule runs_bind, goal_cases)
  case 1
  have "entry_with_id E i x" if "IOServiceGetMatchingService E k (MatchID i) = Some x" for k x
    using that by (auto simp: entry_with_id_def)
  moreover have "no_service E i" if "IOServiceGetMatchingService E k (MatchID i) = None" for k
    using that by (auto simp: no_service_def)
  moreover have "no_service E i" if "\<not> matching_dictionary E k (MatchID i)" for k
    using that by (auto simp: no_service_def)
  ultimately show ?case
    by (cases "matching_dictionary E (next_id w) (MatchID i)")
      (auto simp: open_res_def later_def says_def split: option.splits intro!: runs_bind wp)
qed

lemmas service_get_from_id_wp = gives_wp [OF service_get_from_id_gives]

text \<open>The interface object belongs to the entry of the service.\<close>

definition interface_res :: "(nat \<times> nat) option \<times> nat option \<Rightarrow> res multiset" where
  "interface_res r = opt_res UsbObject (map_option fst (fst r)) + opt_res PlugIn (snd r)"

lemma interface_res_simps [simp]:
  "interface_res (None, None) = {#}"
  "interface_res (Some (u, x), Some p) = {#(UsbObject, u), (PlugIn, p)#}"
  "interface_res (Some (u, x), None) = {#(UsbObject, u)#}"
  by (simp_all add: interface_res_def)

lemma service_to_interface_gives:
  assumes "(IoObject, n) \<in># live w"
  shows "runs (service_to_interface E (Some (n, x)) t rid given w) (gives interface_res (None, None)
     (\<lambda>r. \<exists>u p. r = (Some (u, x), if given then Some p else None) \<and> next_id w \<le> u) (\<lambda>_. True) w)"
  using assms
  by (auto simp: service_to_interface_def later_def says_def Let_def split: option.splits intro!: wp)

lemmas service_to_interface_wp = gives_wp [OF service_to_interface_gives]

section \<open>The search for an interface\<close>

text \<open>
  An entry stands for an interface when the system has said that it is of the class and has the
  number.  While the registry answers every question the same way, the search finds the first such
  child: \<open>None\<close> is an interface in front of it without a readable number, \<open>Some None\<close> no such child.
\<close>

definition stands_for_interface :: "'e iokit_scheme \<Rightarrow> 8 word \<Rightarrow> nat \<Rightarrow> bool" where
  "stands_for_interface E num x \<longleftrightarrow> (\<exists>j k v. IOObjectConformsTo E j x kIOUSBInterfaceClassName \<and>
     int_value (IORegistryEntryCreateCFProperty E k x ''bInterfaceNumber'') = Some v \<and> sint v = uint num)"

definition steady :: "'e iokit_scheme \<Rightarrow> bool" where
  "steady E \<longleftrightarrow> (\<forall>k. IOObjectConformsTo E k = IOObjectConformsTo E 0 \<and>
     IORegistryEntryCreateCFProperty E k = IORegistryEntryCreateCFProperty E 0)"

fun find_interface :: "'e iokit_scheme \<Rightarrow> 8 word \<Rightarrow> nat list \<Rightarrow> nat option option" where
  "find_interface E num [] = Some None"
| "find_interface E num (x # xs) =
     (if IOObjectConformsTo E 0 x kIOUSBInterfaceClassName
      then (case int_value (IORegistryEntryCreateCFProperty E 0 x ''bInterfaceNumber'') of
              None \<Rightarrow> None
            | Some v \<Rightarrow> if sint v = uint num then Some (Some x) else find_interface E num xs)
      else find_interface E num xs)"

definition search_result :: "'e iokit_scheme \<Rightarrow> 8 word \<Rightarrow> nat list \<Rightarrow> err \<Rightarrow> io_service \<Rightarrow> bool" where
  "search_result E num xs e r \<longleftrightarrow> wf_err e \<and> (memory_ok E \<longrightarrow> err_codes e = []) \<and>
     (case r of None \<Rightarrow> True | Some (m, x) \<Rightarrow> e = NULL \<and> x \<in> set xs \<and> stands_for_interface E num x) \<and>
     (steady E \<longrightarrow> (case find_interface E num xs of None \<Rightarrow> e \<noteq> NULL
        | Some f \<Rightarrow> e = NULL \<and> map_option snd r = f))"

lemma steady_int:
  assumes "steady E" "reads_int E x name e v"
  shows "int_value (IORegistryEntryCreateCFProperty E 0 x name) = (if e = NULL then Some v else None)"
  using assms unfolding steady_def reads_int_def by metis

lemma steady_conforms: "steady E \<Longrightarrow> IOObjectConformsTo E k x c = IOObjectConformsTo E 0 x c"
  unfolding steady_def by metis

lemma search_result_skip:
  "\<not> IOObjectConformsTo E k x kIOUSBInterfaceClassName \<Longrightarrow> search_result E num xs e r \<Longrightarrow>
   search_result E num (x # xs) e r"
  using steady_conforms [of E k x kIOUSBInterfaceClassName]
  by (auto simp: search_result_def split: option.splits)

lemma search_result_next:
  "reads_int E x ''bInterfaceNumber'' NULL v \<Longrightarrow>
   sint v \<noteq> uint num \<Longrightarrow> search_result E num xs e r \<Longrightarrow> search_result E num (x # xs) e r"
  by (auto simp: search_result_def steady_int split: option.splits)

lemma search_result_found:
  assumes "IOObjectConformsTo E k x kIOUSBInterfaceClassName"
    and "reads_int E x ''bInterfaceNumber'' NULL v" "sint v = uint num"
  shows "search_result E num (x # xs) NULL (Some (m, x))"
proof -
  have "stands_for_interface E num x"
    using assms unfolding stands_for_interface_def reads_int_def by auto
  moreover have "IOObjectConformsTo E 0 x kIOUSBInterfaceClassName" if "steady E"
    using that assms(1) steady_conforms [of E k] by simp
  ultimately show ?thesis
    using assms(2,3) by (auto simp: search_result_def steady_int)
qed

lemma search_result_error:
  assumes "IOObjectConformsTo E k x kIOUSBInterfaceClassName" "reads_int E x ''bInterfaceNumber'' e v" "e \<noteq> NULL"
  shows "search_result E num (x # xs) e None"
proof -
  have "IOObjectConformsTo E 0 x kIOUSBInterfaceClassName" if "steady E"
    using that assms(1) steady_conforms [of E k] by simp
  then show ?thesis
    using assms(2,3) by (auto simp: search_result_def steady_int) (simp add: reads_int_def)+
qed

lemma usb_interface_loop_spec:
  fixes w :: "'w world_scheme"
  assumes "(IoObject, i) \<in># live w"
  shows "runs (usb_interface_loop E num i xs w) (\<lambda>(e, r) w'. later w w' \<and>
     live w' = live w + err_res e + io_res r \<and> search_result E num xs e r)"
  using assms
proof (induction xs arbitrary: w)
  case Nil
  then show ?case by (simp add: search_result_def)
next
  case (Cons x xs)
  have IH: "runs (usb_interface_loop E num i xs v) Q"
    if "live v = live w"
      and "\<And>e r w'. later v w' \<Longrightarrow> live w' = live w + err_res e + io_res r \<Longrightarrow>
        search_result E num xs e r \<Longrightarrow> Q (e, r) w'" for v :: "'w world_scheme" and Q
    by (rule runs_mono [OF Cons.IH]) (use that Cons.prems in auto)
  show ?case
    unfolding usb_interface_loop.simps
    using Cons.prems
    by (auto simp: later_def intro!: runs_bind new_object_wp ask_object_wp get_int32_wp IH)
      (blast intro: search_result_skip search_result_next search_result_found search_result_error)+
qed

lemmas usb_interface_loop_wp = usb_interface_loop_spec [THEN runs_mono]

text \<open>
  The search among the children that the system lists.  Not to find the interface is an error with
  the code that the caller may try again.
\<close>

definition children_of :: "'e iokit_scheme \<Rightarrow> nat \<Rightarrow> nat list \<Rightarrow> bool" where
  "children_of E x xs \<longleftrightarrow> (\<exists>k. IORegistryEntryGetChildIterator E k x = Inr xs)"

definition interface_of :: "'e iokit_scheme \<Rightarrow> nat \<Rightarrow> 8 word \<Rightarrow> nat \<Rightarrow> bool" where
  "interface_of E x num y \<longleftrightarrow> (\<exists>xs. children_of E x xs \<and> y \<in> set xs \<and> stands_for_interface E num y \<and>
     (steady E \<longrightarrow> find_interface E num xs = Some (Some y)))"

definition no_interface :: "'e iokit_scheme \<Rightarrow> nat \<Rightarrow> 8 word \<Rightarrow> err \<Rightarrow> bool" where
  "no_interface E x num e \<longleftrightarrow> (steady E \<longrightarrow>
     (\<forall>xs. (\<forall>k. IORegistryEntryGetChildIterator E k x = Inr xs) \<longrightarrow>
        (\<forall>y. find_interface E num xs \<noteq> Some (Some y)) \<and> (memory_ok E \<longrightarrow>
          (code_of LIBUSBP_ERROR_NOT_READY \<in> set (err_codes e) \<longleftrightarrow> find_interface E num xs = Some None))))"

lemma service_get_usb_interface_gives:
  assumes "(IoObject, n) \<in># live w"
  shows "runs (service_get_usb_interface E (Some (n, x)) num w) (gives io_res None
     (\<lambda>r. \<exists>m y. r = Some (m, y) \<and> interface_of E x num y)
     (no_interface E x num) w)"
  unfolding service_get_usb_interface_def
proof (rule runs_bind, rule ask_object_wp [OF assms], goal_cases)
  case (1 j w')
  show ?case
  proof (cases "IORegistryEntryGetChildIterator E j x")
    case (Inl c)
    then have "\<not> (\<forall>k. IORegistryEntryGetChildIterator E k x = Inr xs)" for xs by (metis sum.distinct(1))
    with 1 Inl show ?thesis by (auto simp: later_def says_def no_interface_def intro!: wp)
  next
    case (Inr xs)
    then have "interface_of E x num y" if "search_result E num xs NULL (Some (m, y))" for m y
      using that unfolding interface_of_def children_of_def search_result_def
      by (auto split: option.splits intro!: exI [of _ xs])
    with 1 Inr show ?thesis
      by (auto simp: later_def says_def search_result_def no_interface_def split: option.splits
          intro!: wp usb_interface_loop_wp)
  qed
qed


lemmas service_get_usb_interface_wp = gives_wp [OF service_get_usb_interface_gives]

interpretation interface_service: constructor "release_object IoObject" io_res "\<lambda>_. True"
    "\<lambda>(service, num). service_get_usb_interface E service num" None
    "\<lambda>(service, num) w. \<exists>n x. service = Some (n, x) \<and> (IoObject, n) \<in># live w"
    "\<lambda>(service, num) r. \<exists>n x m y. service = Some (n, x) \<and> r = Some (m, y) \<and> interface_of E x num y"
    for E :: "'e iokit_scheme"
  by unfold_locales (auto intro!: service_get_usb_interface_wp)

interpretation device_service: constructor "release_object IoObject" io_res "\<lambda>_. True"
    "service_get_from_id E" None "\<lambda>_ _. True" "\<lambda>i r. \<exists>n x. r = Some (n, x) \<and> entry_with_id E i x"
    for E :: "'e iokit_scheme"
  by unfold_locales (auto intro!: service_get_from_id_wp)

section \<open>Properties\<close>

definition is_usb_interface :: "'e iokit_scheme \<Rightarrow> nat \<Rightarrow> bool" where
  "is_usb_interface E y \<longleftrightarrow> IOObjectConformsTo E 0 y kIOUSBInterfaceClassName"

definition interface_number_of :: "'e iokit_scheme \<Rightarrow> nat \<Rightarrow> int option" where
  "interface_number_of E y =
     map_option sint (int_value (IORegistryEntryCreateCFProperty E 0 y ''bInterfaceNumber''))"

lemma find_interface_find:
  "\<forall>y \<in> set xs. is_usb_interface E y \<longrightarrow> interface_number_of E y \<noteq> None \<Longrightarrow>
   find_interface E num xs =
     Some (find (\<lambda>y. is_usb_interface E y \<and> interface_number_of E y = Some (uint num)) xs)"
  by (induction xs) (auto simp: is_usb_interface_def interface_number_of_def split: option.splits)

text \<open>
  On a registry that does not change during the call, and where every interface of the device
  has a number, the search returns a reference to the first child of the device that is a USB
  interface with the number asked for; when there is none it returns an error with the code for a
  device that is not ready.  Of the references it takes it keeps only the one it returns.
\<close>

theorem service_get_usb_interface_correct:
  assumes "(IoObject, n) \<in># live w" and "steady E" and "memory_ok E"
    and "\<forall>k. IORegistryEntryGetChildIterator E k x = Inr xs"
    and "\<forall>y \<in> set xs. is_usb_interface E y \<longrightarrow> interface_number_of E y \<noteq> None"
  shows "runs (service_get_usb_interface E (Some (n, x)) num w) (\<lambda>(e, r) w'.
     live w' = live w + err_res e + io_res r \<and>
     (case find (\<lambda>y. is_usb_interface E y \<and> interface_number_of E y = Some (uint num)) xs of
        Some y \<Rightarrow> e = NULL \<and> map_option snd r = Some y
      | None \<Rightarrow> r = None \<and>
          libusbp_error_has_code e (code_of LIBUSBP_ERROR_NOT_READY) w' = Some True))"
proof (rule service_get_usb_interface_wp [OF assms(1)], goal_cases)
  case (1 r w')
  then obtain m y where r: "r = Some (m, y)" "interface_of E x num y" by blast
  then have "find_interface E num xs = Some (Some y)"
    using assms(2,4) unfolding interface_of_def children_of_def by (metis sum.inject(2))
  with 1 r assms(5) show ?case by (simp add: find_interface_find)
next
  case (2 e w')
  then have "find_interface E num xs \<noteq> Some (Some y)" for y
    using assms(2,4) unfolding no_interface_def by blast
  moreover have "code_of LIBUSBP_ERROR_NOT_READY \<in> set (err_codes e)"
    if "find_interface E num xs = Some None"
    using 2 that assms(2-4) unfolding no_interface_def by blast
  ultimately show ?case
    using 2 assms(5) by (auto simp: find_interface_find libusbp_error_has_code_ok split: option.splits)
qed

text \<open>A registry with a device whose second child is its interface 1.\<close>

definition demo_iokit :: iokit where
  "demo_iokit = \<lparr>malloc_ok = \<lambda>_. True, mach_error_string = \<lambda>_. ''(os/kern) failure'',
     matching_dictionary = \<lambda>_ _. True, IOServiceGetMatchingService = \<lambda>_ m. if m = MatchID 0x1001 then Some 1
       else if m = MatchID 0x100B then Some 11 else None,
     IOServiceGetMatchingServices = \<lambda>_ _. Inr [1],
     IORegistryEntryGetChildIterator = \<lambda>_ x. Inr (if x = 1 then [10, 11] else []),
     IORegistryEntryCreateIterator = \<lambda>_ _. Inr [10, 11, 12],
     IOObjectConformsTo = \<lambda>_ x c. x \<in> {10, 11} \<and> c = ''IOUSBInterface'' \<or> x = 12 \<and> c = ''IOSerialBSDClient'',
     IORegistryEntryGetRegistryEntryID = \<lambda>_ x.
       Inr (if x = 10 then 0x100A else if x = 11 then 0x100B else 0x1001),
     IORegistryEntryCreateCFProperty = \<lambda>_ x name.
       if name = ''bInterfaceNumber'' then Some (CFNumber (int x - 10))
       else if name = ''IOCalloutDevice'' then Some (CFString (Some ''/dev/cu.usbmodem1'')) else None,
     IOCreatePlugInInterfaceForService = \<lambda>_ _ _. None, QueryInterface = \<lambda>_ _ _. None\<rparr>"

theorem service_get_usb_interface_correct_witness:
  "runs (service_get_usb_interface demo_iokit (Some (0, 1)) 1 \<lparr>next_id = 1, live = {#(IoObject, 0)#}\<rparr>)
    (\<lambda>(e, r) w'. e = NULL \<and> map_option snd r = Some 11)"
  by (rule runs_mono [OF service_get_usb_interface_correct [where xs = "[10, 11]"]])
    (auto simp: steady_def memory_ok_def demo_iokit_def is_usb_interface_def interface_number_of_def
      int_value_def signed_take_bit_int_eq_self)

end
