(* ===== verification/DeviceMac.thy ===== *)
theory DeviceMac
  imports IOKit DeviceArray
begin

text \<open>
  \<open>src/src/mac/device_mac.c\<close> and \<open>src/src/mac/list_mac.c\<close>.  A name that another back end has too ends in
  \<open>_mac\<close>.  The lemmas show what a device object records of the properties of its registry entry, and
  what the list of the connected devices leaves behind.
\<close>

section \<open>device_mac.c\<close>

abbreviation (input) "kUSBVendorID \<equiv> ''idVendor''"
abbreviation (input) "kUSBProductID \<equiv> ''idProduct''"
abbreviation (input) "kUSBDeviceReleaseNumber \<equiv> ''bcdDevice''"
abbreviation (input) "kUSBSerialNumberString \<equiv> ''USB Serial Number''"

record libusbp_device_mac =
  id_mac :: "64 word"
  product_id_mac :: "16 word"
  vendor_id_mac :: "16 word"
  revision_mac :: "16 word"
  serial_number_mac :: cstr

type_synonym device_mac = "libusbp_device_mac ptr"

definition device_allocate_mac :: "'e environment_scheme \<Rightarrow> 'w world_scheme
    \<Rightarrow> ((err \<times> device_mac) \<times> 'w world_scheme) option" where
  "device_allocate_mac E w = do {
     (device, w) \<leftarrow> malloc E w;
     if device = NULL then Some ((error_no_memory, NULL), w)
     else do {
       device \<leftarrow> store device \<lparr>id_mac = 0, product_id_mac = 0, vendor_id_mac = 0, revision_mac = 0,
         serial_number_mac = NULL\<rparr> w;
       Some ((NULL, device), w)
     }
   }"

definition libusbp_device_free_mac :: "device_mac \<Rightarrow> 'w world_scheme \<Rightarrow> 'w world_scheme option" where
  "libusbp_device_free_mac device w =
     (if device \<noteq> NULL then do {
        x \<leftarrow> deref device w;
        w \<leftarrow> libusbp_string_free (serial_number_mac x) w;
        free device w
      }
      else Some w)"

text \<open>A field that is written only when there is something to write.\<close>

definition when_given :: "('v \<Rightarrow> 'a \<Rightarrow> 'a) \<Rightarrow> 'v option \<Rightarrow> 'a \<Rightarrow> 'a" where
  "when_given put v x = (case v of None \<Rightarrow> x | Some v \<Rightarrow> put v x)"

definition create_device_mac :: "'e iokit_scheme \<Rightarrow> io_service \<Rightarrow> 'w world_scheme
    \<Rightarrow> ((err \<times> device_mac) \<times> 'w world_scheme) option" where
  "create_device_mac E service w =
     (if service = None then None
      else do {
        ((error, new_device), w) \<leftarrow> device_allocate_mac E w;
        ((error, new_device), w) \<leftarrow> ok_then error new_device
          (set_field (get_uint16 E service kUSBVendorID)
            (when_given (\<lambda>v x. x\<lparr>vendor_id_mac := v\<rparr>)) new_device) w;
        ((error, new_device), w) \<leftarrow> ok_then error new_device
          (set_field (get_uint16 E service kUSBProductID)
            (when_given (\<lambda>v x. x\<lparr>product_id_mac := v\<rparr>)) new_device) w;
        ((error, new_device), w) \<leftarrow> ok_then error new_device
          (set_field (get_uint16 E service kUSBDeviceReleaseNumber)
            (when_given (\<lambda>v x. x\<lparr>revision_mac := v\<rparr>)) new_device) w;
        ((error, new_device), w) \<leftarrow> ok_then error new_device
          (set_field (get_string E service kUSBSerialNumberString)
            (\<lambda>v x. x\<lparr>serial_number_mac := v\<rparr>) new_device) w;
        ((error, new_device), w) \<leftarrow> ok_then error new_device
          (set_field (get_id E service) (\<lambda>v x. x\<lparr>id_mac := v\<rparr>) new_device) w;
        let (device, new_device) = (if error = NULL then (new_device, NULL) else (NULL, new_device));
        w \<leftarrow> libusbp_device_free_mac new_device w;
        Some ((error, device), w)
      })"

definition libusbp_device_copy_mac :: "'e environment_scheme \<Rightarrow> device_mac \<Rightarrow> bool
    \<Rightarrow> 'w world_scheme \<Rightarrow> ((err \<times> device_mac) \<times> 'w world_scheme) option" where
  "libusbp_device_copy_mac E source given w =
     (if \<not> given then do {
        (error, w) \<leftarrow> error_create E ''Device output pointer is null.'' w;
        Some ((error, NULL), w)
      }
      else if source = NULL then Some ((NULL, NULL), w)
      else do {
        ((error, new_device), w) \<leftarrow> device_allocate_mac E w;
        ((error, new_device), w) \<leftarrow> ok_then error new_device (\<lambda>w. do {
            x \<leftarrow> deref source w;
            new_device \<leftarrow> store new_device x w;
            y \<leftarrow> deref new_device w;
            new_device \<leftarrow> store new_device (y\<lparr>serial_number_mac := NULL\<rparr>) w;
            Some ((NULL, new_device), w)
          }) w;
        x \<leftarrow> deref source w;
        ((error, new_device), w) \<leftarrow> (if error = NULL \<and> serial_number_mac x \<noteq> NULL
          then set_field (string_copy E (serial_number_mac x))
            (\<lambda>v x. x\<lparr>serial_number_mac := v\<rparr>) new_device w
          else Some ((error, new_device), w));
        let (dest, new_device) = (if error = NULL then (new_device, NULL) else (NULL, new_device));
        w \<leftarrow> libusbp_device_free_mac new_device w;
        Some ((error, dest), w)
      })"

definition device_get_id :: "device_mac \<Rightarrow> 'w world_scheme \<Rightarrow> 64 word option" where
  "device_get_id device w =
     (if device = NULL then None else do { x \<leftarrow> deref device w; Some (id_mac x) })"

text \<open>The getters; \<open>given\<close> says whether the output pointer is there.\<close>

definition libusbp_device_get_vendor_id_mac :: "'e environment_scheme \<Rightarrow> device_mac \<Rightarrow> bool
    \<Rightarrow> 'w world_scheme \<Rightarrow> ((err \<times> 16 word) \<times> 'w world_scheme) option" where
  "libusbp_device_get_vendor_id_mac E device given w =
     (if \<not> given then do {
        (error, w) \<leftarrow> error_create E ''Vendor ID output pointer is null.'' w;
        Some ((error, 0), w)
      }
      else if device = NULL then do {
        (error, w) \<leftarrow> error_create E ''Device is null.'' w;
        Some ((error, 0), w)
      }
      else do { x \<leftarrow> deref device w; Some ((NULL, vendor_id_mac x), w) })"

definition libusbp_device_get_product_id_mac :: "'e environment_scheme \<Rightarrow> device_mac \<Rightarrow> bool
    \<Rightarrow> 'w world_scheme \<Rightarrow> ((err \<times> 16 word) \<times> 'w world_scheme) option" where
  "libusbp_device_get_product_id_mac E device given w =
     (if \<not> given then do {
        (error, w) \<leftarrow> error_create E ''Product ID output pointer is null.'' w;
        Some ((error, 0), w)
      }
      else if device = NULL then do {
        (error, w) \<leftarrow> error_create E ''Device is null.'' w;
        Some ((error, 0), w)
      }
      else do { x \<leftarrow> deref device w; Some ((NULL, product_id_mac x), w) })"

definition libusbp_device_get_revision_mac :: "'e environment_scheme \<Rightarrow> device_mac \<Rightarrow> bool
    \<Rightarrow> 'w world_scheme \<Rightarrow> ((err \<times> 16 word) \<times> 'w world_scheme) option" where
  "libusbp_device_get_revision_mac E device given w =
     (if \<not> given then do {
        (error, w) \<leftarrow> error_create E ''Device revision output pointer is null.'' w;
        Some ((error, 0), w)
      }
      else if device = NULL then do {
        (error, w) \<leftarrow> error_create E ''Device is null.'' w;
        Some ((error, 0), w)
      }
      else do { x \<leftarrow> deref device w; Some ((NULL, revision_mac x), w) })"

definition libusbp_device_get_serial_number_mac :: "'e environment_scheme \<Rightarrow> device_mac \<Rightarrow> bool
    \<Rightarrow> 'w world_scheme \<Rightarrow> ((err \<times> cstr) \<times> 'w world_scheme) option" where
  "libusbp_device_get_serial_number_mac E device given w =
     (if \<not> given then do {
        (error, w) \<leftarrow> error_create E ''Serial number output pointer is null.'' w;
        Some ((error, NULL), w)
      }
      else if device = NULL then do {
        (error, w) \<leftarrow> error_create E ''Device is null.'' w;
        Some ((error, NULL), w)
      }
      else do {
        x \<leftarrow> deref device w;
        if serial_number_mac x = NULL then do {
          (error, w) \<leftarrow> error_create E ''Device does not have a serial number.'' w;
          (error, w) \<leftarrow> error_add_code E error (code_of LIBUSBP_ERROR_NO_SERIAL_NUMBER) w;
          Some ((error, NULL), w)
        }
        else string_copy E (serial_number_mac x) w
      })"

definition libusbp_device_get_os_id_mac :: "'e environment_scheme \<Rightarrow> device_mac \<Rightarrow> bool
    \<Rightarrow> 'w world_scheme \<Rightarrow> ((err \<times> cstr) \<times> 'w world_scheme) option" where
  "libusbp_device_get_os_id_mac E device given w =
     (if \<not> given then do {
        (error, w) \<leftarrow> error_create E ''Device OS ID output pointer is null.'' w;
        Some ((error, NULL), w)
      }
      else if device = NULL then do {
        (error, w) \<leftarrow> error_create E ''Device is null.'' w;
        Some ((error, NULL), w)
      }
      else do { x \<leftarrow> deref device w; iokit_id_to_string E (id_mac x) w })"

section \<open>list_mac.c\<close>

definition try_create_device_mac :: "'e iokit_scheme \<Rightarrow> io_service \<Rightarrow> 'w world_scheme
    \<Rightarrow> (device_mac \<times> 'w world_scheme) option" where
  "try_create_device_mac E service w = do {
     ((error, device), w) \<leftarrow> create_device_mac E service w;
     if error \<noteq> NULL then
       (if device \<noteq> NULL then None
        else do { w \<leftarrow> libusbp_error_free error w; Some (NULL, w) })
     else Some (device, w)
   }"

text \<open>The loop, over the entries that the iterator has still to give.\<close>

fun list_loop_mac :: "'e iokit_scheme \<Rightarrow> nat \<Rightarrow> nat list \<Rightarrow> libusbp_device_mac device_list \<Rightarrow> nat
    \<Rightarrow> 'w world_scheme
    \<Rightarrow> ((err \<times> libusbp_device_mac device_list \<times> nat) \<times> 'w world_scheme) option" where
  "list_loop_mac E i [] new_list n w = do {
     borrow (IoObject, i) w;
     Some ((NULL, new_list, n), w)
   }"
| "list_loop_mac E i (x # xs) new_list n w = do {
     borrow (IoObject, i) w;
     (service, w) \<leftarrow> new_object IoObject x w;
     (device, w) \<leftarrow> try_create_device_mac E (Some service) w;
     ((error, new_list, n), w) \<leftarrow> (if device \<noteq> NULL
       then device_list_append E (new_list, n) device w
       else Some ((NULL, new_list, n), w));
     w \<leftarrow> release_object IoObject (Some service) w;
     if error = NULL then list_loop_mac E i xs new_list n w
     else Some ((error, new_list, n), w)
   }"

text \<open>The results are the error, the list and the count the caller sees.\<close>

definition libusbp_list_connected_devices_mac :: "'e iokit_scheme \<Rightarrow> bool \<Rightarrow> bool
    \<Rightarrow> 'w world_scheme
    \<Rightarrow> ((err \<times> libusbp_device_mac device_list \<times> nat option) \<times> 'w world_scheme) option" where
  "libusbp_list_connected_devices_mac E list_given count_given w =
     (let device_count = (if count_given then Some 0 else None)
      in if \<not> list_given then do {
        (error, w) \<leftarrow> error_create E ''Device list output pointer is null.'' w;
        Some ((error, NULL, device_count), w)
      }
      else do {
        let criterion = MatchClass ''IOUSBHostDevice'';
        (dict, w) \<leftarrow> open_res CFObject (\<lambda>k. matching_dictionary E k criterion) w;
        (error, w) \<leftarrow> (if dict = None
          then error_create E ''IOServiceMatching returned null.'' w else Some (NULL, w));
        ((error, dict, iterator), w) \<leftarrow> (if error = NULL then do {
            w \<leftarrow> unref_if CFObject dict w;
            (r, w) \<leftarrow> ask (\<lambda>k. IOServiceGetMatchingServices E k criterion) w;
            case r of
              Inl result \<Rightarrow> do {
                (error, w) \<leftarrow> error_create_mach E result ''Failed to get matching services.'' w;
                Some ((error, None, None), w)
              }
            | Inr xs \<Rightarrow> do {
                (i, w) \<leftarrow> new_object IoObject xs w;
                Some ((NULL, None, Some i), w)
              }
          }
          else Some ((error, dict, None), w));
        ((error, new_list), w) \<leftarrow> ok_then error NULL (device_list_create E) w;
        ((error, new_list, count), w) \<leftarrow> (if error = NULL then do {
            (i, xs) \<leftarrow> iterator;
            list_loop_mac E i xs new_list 0 w
          }
          else Some ((error, new_list, 0), w));
        let (device_list, new_list, device_count) =
          (if error = NULL then (new_list, NULL, if count_given then Some count else None)
           else (NULL, new_list, device_count));
        if dict \<noteq> None then None
        else do {
          w \<leftarrow> release_object IoObject iterator w;
          w \<leftarrow> free_devices_and_list libusbp_device_free_mac new_list w;
          Some ((error, device_list, device_count), w)
        }
      })"

section \<open>What devices own and say\<close>

definition dev_res_mac :: "device_mac \<Rightarrow> res multiset" where
  "dev_res_mac d = owns (\<lambda>x. blk (serial_number_mac x)) d"

definition wf_device_mac :: "device_mac \<Rightarrow> bool" where
  "wf_device_mac d = (case d of NULL \<Rightarrow> True
     | Heap n x \<Rightarrow> \<not> is_static (serial_number_mac x) | Static x \<Rightarrow> False)"

text \<open>What a caller can see: the registry ID, the vendor, product and revision IDs, the serial number.\<close>

type_synonym device_view_mac = "64 word \<times> 16 word \<times> 16 word \<times> 16 word \<times> string option"

definition dev_view_mac :: "device_mac \<Rightarrow> device_view_mac option" where
  "dev_view_mac d = (case d of
     Heap n x \<Rightarrow> Some (id_mac x, vendor_id_mac x, product_id_mac x, revision_mac x,
       str_view (serial_number_mac x))
   | _ \<Rightarrow> None)"

lemma dev_mac_simps [simp]:
  "dev_res_mac NULL = {#}" "wf_device_mac NULL" "dev_view_mac NULL = None"
  "dev_res_mac (Heap n x) = add_mset (Mem, n) (blk (serial_number_mac x))"
  "wf_device_mac (Heap n x) \<longleftrightarrow> \<not> is_static (serial_number_mac x)"
  "\<not> wf_device_mac (Static x)"
  "dev_view_mac (Heap n x) = Some (id_mac x, vendor_id_mac x, product_id_mac x, revision_mac x,
     str_view (serial_number_mac x))"
  by (simp_all add: dev_res_mac_def wf_device_mac_def dev_view_mac_def)

lemma libusbp_device_free_mac_ok:
  assumes "wf_device_mac d" and "dev_res_mac d \<subseteq># live w"
  shows "libusbp_device_free_mac d w = Some (drop_res (dev_res_mac d) w)"
proof -
  obtain L where "live w = dev_res_mac d + L"
    using assms(2) by (auto simp: mset_subset_eq_exists_conv)
  with assms(1) show ?thesis
    by (cases d) (auto simp: libusbp_device_free_mac_def libusbp_string_free_def not_static_conv
        add_mset_commute)
qed

interpretation device_mac: releases libusbp_device_free_mac dev_res_mac wf_device_mac
  by unfold_locales (rule libusbp_device_free_mac_ok)

interpretation listed_mac: listed_device libusbp_device_free_mac dev_res_mac wf_device_mac
  by unfold_locales simp_all

text \<open>What the registry has said of an entry: a number, cut down to 16 bits, and a string or none.\<close>

definition number_property :: "'e iokit_scheme \<Rightarrow> nat \<Rightarrow> string \<Rightarrow> 16 word \<Rightarrow> bool" where
  "number_property E y name v \<longleftrightarrow>
     (\<exists>k u. int_value (IORegistryEntryCreateCFProperty E k y name) = Some u \<and> v = ucast u)"

definition string_property :: "'e iokit_scheme \<Rightarrow> nat \<Rightarrow> string \<Rightarrow> string option \<Rightarrow> bool" where
  "string_property E y name s \<longleftrightarrow>
     (\<exists>k. string_value (IORegistryEntryCreateCFProperty E k y name) = Some s)"

definition describes_mac :: "'e iokit_scheme \<Rightarrow> nat \<Rightarrow> device_view_mac \<Rightarrow> bool" where
  "describes_mac E y = (\<lambda>(i, v, p, r, s). entry_id E y i \<and> number_property E y kUSBVendorID v \<and>
     number_property E y kUSBProductID p \<and> number_property E y kUSBDeviceReleaseNumber r \<and>
     string_property E y kUSBSerialNumberString s)"

lemma number_propertyI: "reads_int E y name NULL u \<Longrightarrow> number_property E y name (ucast u)"
  by (auto simp: reads_int_def number_property_def)

lemma string_propertyI: "reads_string E y name NULL p \<Longrightarrow> string_property E y name (str_view p) \<and> \<not> is_static p"
  by (auto simp: reads_string_def string_property_def dest!: sym [of NULL])

lemma reads_wf:
  "reads_int E y name e u \<Longrightarrow> wf_err e" "reads_string E y name e p \<Longrightarrow> wf_err e"
  "reads_string E y name e p \<Longrightarrow> \<not> is_static p"
  by (auto simp: reads_int_def reads_string_def)

text \<open>Why there may be no device object for an entry.\<close>

definition unreadable :: "'e iokit_scheme \<Rightarrow> nat \<Rightarrow> bool" where
  "unreadable E y \<longleftrightarrow> \<not> memory_ok E \<or> entry_without_id E y \<or> (\<exists>k.
     int_value (IORegistryEntryCreateCFProperty E k y kUSBVendorID) = None \<or>
     int_value (IORegistryEntryCreateCFProperty E k y kUSBProductID) = None \<or>
     int_value (IORegistryEntryCreateCFProperty E k y kUSBDeviceReleaseNumber) = None \<or>
     string_value (IORegistryEntryCreateCFProperty E k y kUSBSerialNumberString) = None)"

lemma unreadableI:
  "\<not> memory_ok E \<Longrightarrow> unreadable E y" "entry_without_id E y \<Longrightarrow> unreadable E y"
  "reads_int E y kUSBVendorID e u \<Longrightarrow> e \<noteq> NULL \<Longrightarrow> unreadable E y"
  "reads_int E y kUSBProductID e u \<Longrightarrow> e \<noteq> NULL \<Longrightarrow> unreadable E y"
  "reads_int E y kUSBDeviceReleaseNumber e u \<Longrightarrow> e \<noteq> NULL \<Longrightarrow> unreadable E y"
  "reads_string E y kUSBSerialNumberString e p \<Longrightarrow> e \<noteq> NULL \<Longrightarrow> unreadable E y"
  unfolding unreadable_def reads_int_def reads_string_def by auto

lemma create_device_mac_gives:
  assumes "(IoObject, n) \<in># live w"
  shows "runs (create_device_mac E (Some (n, y)) w) (gives dev_res_mac NULL
     (\<lambda>d. wf_device_mac d \<and> (\<exists>i. dev_view_mac d = Some i \<and> describes_mac E y i)) (\<lambda>_. unreadable E y) w)"
  using assms
  by (auto simp: create_device_mac_def device_allocate_mac_def set_field_def when_given_def Let_def
      later_def describes_mac_def libusbp_device_free_mac_ok reads_wf
      dest!: number_propertyI string_propertyI
      intro!: wp get_uint16_wp get_string_wp get_id_wp)
    (blast intro: unreadableI)+

lemmas create_device_mac_wp = gives_wp [OF create_device_mac_gives]

interpretation device_mac_new: constructor libusbp_device_free_mac dev_res_mac wf_device_mac
    "create_device_mac E" NULL "\<lambda>service w. \<exists>n y. service = Some (n, y) \<and> (IoObject, n) \<in># live w"
    "\<lambda>service d. wf_device_mac d \<and> (\<exists>n y i. service = Some (n, y) \<and> dev_view_mac d = Some i \<and>
       describes_mac E y i)"
    for E :: "'e iokit_scheme"
  by unfold_locales (auto intro!: create_device_mac_wp)

lemma libusbp_device_copy_mac_gives:
  assumes "wf_device_mac d" and "dev_res_mac d \<subseteq># live w"
  shows "runs (libusbp_device_copy_mac E d True w) (gives dev_res_mac NULL
     (\<lambda>c. wf_device_mac c \<and> dev_view_mac c = dev_view_mac d)
     (\<lambda>e. e = error_no_memory \<and> \<not> memory_ok E) w)"
proof -
  obtain L where "live w = dev_res_mac d + L"
    using assms(2) by (auto simp: mset_subset_eq_exists_conv)
  with assms(1) show ?thesis
    by (cases d) (auto simp: libusbp_device_copy_mac_def device_allocate_mac_def Let_def later_def
        set_field_def libusbp_device_free_mac_def libusbp_string_free_def not_static_conv intro!: wp)
qed

lemmas libusbp_device_copy_mac_wp = gives_wp [OF libusbp_device_copy_mac_gives]

text \<open>The ID of a device as text.\<close>

lemma length_hex64: "length (fmt_x 0 (unat (i :: 64 word))) \<le> 16"
proof -
  have "unat i < 16 ^ 16" using unsigned_less [of i] by simp
  then show ?thesis using length_digits_of [of 16 "unat i"] by (simp add: fmt_x_def Let_def)
qed

lemma iokit_id_to_string_gives:
  "runs (iokit_id_to_string E i w) (gives blk NULL (\<lambda>p. \<exists>n. p = Heap n (fmt_x 0 (unat i)))
     (\<lambda>e. e = error_no_memory \<and> \<not> memory_ok E) w)"
  using length_hex64 [of i] by (auto simp: iokit_id_to_string_def intro!: wp)

lemmas iokit_id_to_string_wp = gives_wp [OF iokit_id_to_string_gives]

section \<open>Lists\<close>

text \<open>A device of a list stands for an entry that the system listed.\<close>

definition connected_mac :: "'e iokit_scheme \<Rightarrow> device_mac \<Rightarrow> bool" where
  "connected_mac E d \<longleftrightarrow> (\<exists>k xs y i. IOServiceGetMatchingServices E k (MatchClass ''IOUSBHostDevice'') = Inr xs \<and>
     y \<in> set xs \<and> dev_view_mac d = Some i \<and> describes_mac E y i)"

abbreviation lists_mac :: "'e iokit_scheme \<Rightarrow> libusbp_device_mac device_list \<Rightarrow> nat \<Rightarrow> bool" where
  "lists_mac E \<equiv> lists_of wf_device_mac (connected_mac E)"

abbreviation list_res_mac :: "libusbp_device_mac device_list \<Rightarrow> res multiset" where
  "list_res_mac \<equiv> list_res_of dev_res_mac"

abbreviation listing_mac :: "'e iokit_scheme \<Rightarrow> res multiset \<Rightarrow> 'w world_scheme
    \<Rightarrow> err \<times> libusbp_device_mac device_list \<times> nat \<Rightarrow> 'w world_scheme \<Rightarrow> bool" where
  "listing_mac E \<equiv> listing_of dev_res_mac wf_device_mac (connected_mac E) E"

lemma try_create_device_mac_wp:
  assumes "(IoObject, n) \<in># live w"
    and "IOServiceGetMatchingServices E k (MatchClass ''IOUSBHostDevice'') = Inr xs" "y \<in> set xs"
    and "\<And>d w'. later w w' \<Longrightarrow> wf_device_mac d \<Longrightarrow> connected_mac E d \<Longrightarrow>
      live w' = live w + dev_res_mac d \<Longrightarrow> Q d w'"
    and "\<And>w'. later w w' \<Longrightarrow> live w' = live w \<Longrightarrow> Q NULL w'"
  shows "runs (try_create_device_mac E (Some (n, y)) w) Q"
proof -
  have "connected_mac E d" if "dev_view_mac d = Some i" "describes_mac E y i" for d i
    unfolding connected_mac_def using that assms(2,3) by blast
  with assms show ?thesis
    by (auto simp: try_create_device_mac_def libusbp_error_free_ok later_def
        intro!: wp create_device_mac_wp)
qed

lemma list_loop_mac_spec:
  assumes "IOServiceGetMatchingServices E k (MatchClass ''IOUSBHostDevice'') = Inr (done' @ xs)"
    and "(IoObject, i) \<in># L" "lists_mac E l n" "live w = list_res_mac l + L"
  shows "runs (list_loop_mac E i xs l n w) (listing_mac E L w)"
  using assms(1,3,4)
proof (induction xs arbitrary: done' l n w)
  case Nil
  with assms(2) show ?case by (auto intro!: listed_mac.listingI)
next
  case (Cons y xs)
  have IH: "runs (list_loop_mac E i xs l' n' v) (listing_mac E L w)"
    if "lists_mac E l' n'" "live v = list_res_mac l' + L" "later w v" for l' n' v
    by (rule runs_mono [OF Cons.IH [of "done' @ [y]"]])
      (use that Cons.prems(1) in \<open>auto elim!: listing_later\<close>)
  show ?case
    unfolding list_loop_mac.simps
  proof (simp add: assms(2) Cons.prems(3), rule runs_bind, rule new_object_wp, goal_cases)
    case (1 m v)
    note append = listed_mac.append_listing_wp [where P = "connected_mac E" and L = "add_mset (IoObject, m) L"]
    note create = try_create_device_mac_wp [where n = m, OF _ Cons.prems(1)]
    from 1 Cons.prems(2,3) show ?case
      by (auto simp: later_def listing_release(1) intro!: runs_bind create append IH
          elim!: listing_release(2))
  qed
qed


lemmas list_loop_mac_wp = list_loop_mac_spec [where done' = "[]", unfolded append_Nil, THEN runs_mono]

lemma libusbp_list_connected_devices_mac_spec:
  fixes w :: "'w world_scheme"
  shows "runs (libusbp_list_connected_devices_mac E True True w) (\<lambda>(e, l, n) w'. later w w' \<and>
    (if e = NULL then \<exists>k. n = Some k \<and> lists_mac E l k \<and> live w' = live w + list_res_mac l
     else wf_err e \<and> l = NULL \<and> n = Some 0 \<and> (\<exists>lost.
       live w' = live w + err_res e + dev_res_mac lost \<and>
       (lost = NULL \<or> e = error_no_memory \<and> \<not> memory_ok E))))"
proof -
  have fr: "free_devices_and_list libusbp_device_free_mac l u = Some (drop_res (list_res_mac l) u)"
    if "lists_mac E l k" "list_res_mac l \<subseteq># live u" for l k and u :: "'w world_scheme"
    using that by (rule listed_mac.free_listed)
  have new: "holds_of wf_device_mac l [] \<Longrightarrow> lists_mac E l 0" for l by (rule lists_of_new)
  have null: "free_devices_and_list libusbp_device_free_mac NULL u = Some u" for u :: "'w world_scheme"
    by (simp add: free_devices_and_list_def)
  have loop: "runs (list_loop_mac E i xs l n v) Q"
    if "IOServiceGetMatchingServices E k (MatchClass ''IOUSBHostDevice'') = Inr xs"
      "lists_mac E l n" "live v = add_mset (IoObject, i) (list_res_mac l + live w)"
      "\<And>e l n w'. listing_mac E (add_mset (IoObject, i) (live w)) v (e, l, n) w' \<Longrightarrow> Q (e, l, n) w'"
    for i xs l n k Q and v :: "'w world_scheme"
    by (rule list_loop_mac_wp [OF that(1) _ that(2), where L = "add_mset (IoObject, i) (live w)"])
      (use that in auto)
  show ?thesis
    unfolding libusbp_list_connected_devices_mac_def Let_def if_True not_True_eq_False if_False
    by (auto simp: later_def says_def listing_of_def fr null split: sum.splits
        intro!: wp loop gives_wp [OF listed_mac.device_list_create_gives] new)
      (blast intro: dev_mac_simps(1))+
qed


section \<open>Properties\<close>

lemma steady_property:
  assumes "steady E"
  shows "number_property E y name v \<longleftrightarrow>
      map_option ucast (int_value (IORegistryEntryCreateCFProperty E 0 y name)) = Some v"
    and "string_property E y name s \<longleftrightarrow>
      string_value (IORegistryEntryCreateCFProperty E 0 y name) = Some s"
    and "unreadable E y \<longleftrightarrow> \<not> memory_ok E \<or> entry_without_id E y \<or>
      int_value (IORegistryEntryCreateCFProperty E 0 y kUSBVendorID) = None \<or>
      int_value (IORegistryEntryCreateCFProperty E 0 y kUSBProductID) = None \<or>
      int_value (IORegistryEntryCreateCFProperty E 0 y kUSBDeviceReleaseNumber) = None \<or>
      string_value (IORegistryEntryCreateCFProperty E 0 y kUSBSerialNumberString) = None"
proof -
  have eq: "(\<exists>k. Q (IORegistryEntryCreateCFProperty E k)) = Q (IORegistryEntryCreateCFProperty E 0)" for Q
    using assms unfolding steady_def by metis
  show "number_property E y name v \<longleftrightarrow>
      map_option ucast (int_value (IORegistryEntryCreateCFProperty E 0 y name)) = Some v"
    unfolding number_property_def by (subst eq) auto
  show "string_property E y name s \<longleftrightarrow>
      string_value (IORegistryEntryCreateCFProperty E 0 y name) = Some s"
    unfolding string_property_def by (rule eq)
  show "unreadable E y \<longleftrightarrow> \<not> memory_ok E \<or> entry_without_id E y \<or>
      int_value (IORegistryEntryCreateCFProperty E 0 y kUSBVendorID) = None \<or>
      int_value (IORegistryEntryCreateCFProperty E 0 y kUSBProductID) = None \<or>
      int_value (IORegistryEntryCreateCFProperty E 0 y kUSBDeviceReleaseNumber) = None \<or>
      string_value (IORegistryEntryCreateCFProperty E 0 y kUSBSerialNumberString) = None"
    unfolding unreadable_def by (subst eq) auto
qed

text \<open>
  A device object made while the registry does not change records the properties of its entry:
  making it succeeds, the getters then give the vendor ID, product ID and revision cut down to 16 bits,
  the ID of the entry in hexadecimal, and the serial number; a device without one has an error with
  the code for that.  The object is all that is left, and a copy shows the same.
\<close>

theorem create_device_mac_correct:
  assumes service: "(IoObject, n) \<in># live w" and mem: "memory_ok E" and steady: "steady E"
    and i: "\<forall>k. IORegistryEntryGetRegistryEntryID E k y = Inr i"
    and numbers: "int_value (IORegistryEntryCreateCFProperty E 0 y kUSBVendorID) = Some v"
      "int_value (IORegistryEntryCreateCFProperty E 0 y kUSBProductID) = Some p"
      "int_value (IORegistryEntryCreateCFProperty E 0 y kUSBDeviceReleaseNumber) = Some r"
    and serial: "string_value (IORegistryEntryCreateCFProperty E 0 y kUSBSerialNumberString) = Some s"
  shows "runs (create_device_mac E (Some (n, y)) w) (\<lambda>(e, d) w1. e = NULL \<and>
    live w1 = live w + dev_res_mac d \<and>
    libusbp_device_get_vendor_id_mac E d True w1 = Some ((NULL, ucast v), w1) \<and>
    libusbp_device_get_product_id_mac E d True w1 = Some ((NULL, ucast p), w1) \<and>
    libusbp_device_get_revision_mac E d True w1 = Some ((NULL, ucast r), w1) \<and>
    runs (libusbp_device_get_os_id_mac E d True w1) (\<lambda>(e, t) w2. e = NULL \<and>
      live w2 = live w1 + blk t \<and> str_view t = Some (fmt_x 0 (unat i))) \<and>
    runs (libusbp_device_get_serial_number_mac E d True w1) (\<lambda>(e, t) w2.
      live w2 = live w1 + err_res e + blk t \<and> str_view t = s \<and>
      libusbp_error_has_code e (code_of LIBUSBP_ERROR_NO_SERIAL_NUMBER) w2 = Some (s = None)) \<and>
    runs (libusbp_device_copy_mac E d True w1) (\<lambda>(e, c) w2. e = NULL \<and>
      live w2 = live w1 + dev_res_mac c \<and> dev_view_mac c = dev_view_mac d))"
proof (rule create_device_mac_wp [OF service], goal_cases)
  case (1 d w1)
  from 1 obtain a x where d: "d = Heap a x" "wf_device_mac d" by (cases d) auto
  have x: "id_mac x = i" "vendor_id_mac x = ucast v" "product_id_mac x = ucast p"
    "revision_mac x = ucast r" "str_view (serial_number_mac x) = s"
    using 1 d i numbers serial
    by (auto simp: describes_mac_def entry_id_def steady_property [OF steady])
  have live: "(Mem, a) \<in># live w1" "blk (serial_number_mac x) \<subseteq># live w1"
    using 1 d by auto
  have "runs (libusbp_device_get_serial_number_mac E d True w1) (\<lambda>(e, t) w2.
      live w2 = live w1 + err_res e + blk t \<and> str_view t = s \<and>
      libusbp_error_has_code e (code_of LIBUSBP_ERROR_NO_SERIAL_NUMBER) w2 = Some (s = None))"
    using d live mem x(5)
    by (auto simp: libusbp_device_get_serial_number_mac_def not_static_conv says_def
        libusbp_error_has_code_ok intro!: wp)
  moreover have "runs (libusbp_device_get_os_id_mac E d True w1) (\<lambda>(e, t) w2. e = NULL \<and>
      live w2 = live w1 + blk t \<and> str_view t = Some (fmt_x 0 (unat i)))"
    using d live mem x(1)
    by (auto simp: libusbp_device_get_os_id_mac_def intro!: wp iokit_id_to_string_wp)
  moreover have "runs (libusbp_device_copy_mac E d True w1) (\<lambda>(e, c) w2. e = NULL \<and>
      live w2 = live w1 + dev_res_mac c \<and> dev_view_mac c = dev_view_mac d)"
    by (rule libusbp_device_copy_mac_wp [where d = d]) (use 1 d mem in auto)
  ultimately show ?case
    using 1 d(1) live x(2-4)
    by (simp add: libusbp_device_get_vendor_id_mac_def libusbp_device_get_product_id_mac_def
        libusbp_device_get_revision_mac_def)
next
  case (2 e w1)
  with mem i numbers serial show ?case
    by (simp add: steady_property [OF steady] entry_without_id_def)
qed


text \<open>A registry whose entries are a device with a serial number.\<close>

definition demo_dev_mac :: iokit where
  "demo_dev_mac = demo_iokit\<lparr>IORegistryEntryCreateCFProperty := \<lambda>_ _ name.
     if name = kUSBSerialNumberString then Some (CFString (Some ''012A''))
     else Some (CFNumber 0x1FFB)\<rparr>"

theorem create_device_mac_correct_witness:
  "runs (create_device_mac demo_dev_mac (Some (0, 7)) \<lparr>next_id = 1, live = {#(IoObject, 0)#}\<rparr>)
    (\<lambda>(e, d) w1. e = NULL \<and> libusbp_device_get_vendor_id_mac demo_dev_mac d True w1 = Some ((NULL, 0x1FFB), w1) \<and>
       runs (libusbp_device_get_serial_number_mac demo_dev_mac d True w1) (\<lambda>(e, t) w2. str_view t = Some ''012A''))"
  by (rule runs_mono [OF create_device_mac_correct [where i = "0x1001" and v = "0x1FFB" and p = "0x1FFB" and r = "0x1FFB"
          and s = "Some ''012A''"]])
    (auto simp: demo_dev_mac_def demo_iokit_def memory_ok_def steady_def int_value_def string_value_def
      cf_string_get_def signed_take_bit_int_eq_self elim!: runs_mono)

text \<open>
  C25: Listing the devices of a Mac returns, whatever the system answers: it gives a NULL-terminated
  list with the count reported, of devices that show the properties of entries that the system
  listed, and takes nothing but the list; or it gives an error and no list.  Only when memory runs
  out while the list grows does it leave something behind, one device.
\<close>

theorem list_connected_devices_mac_correct:
  "runs (libusbp_list_connected_devices_mac E True True w) (\<lambda>(e, l, n) w'.
    (if e = NULL then \<exists>ds. holds_of wf_device_mac l ds \<and> n = Some (length ds) \<and>
       set ds \<subseteq> {d. connected_mac E d} \<and>
       (\<exists>w''. free_devices_and_list libusbp_device_free_mac l w' = Some w'' \<and> live w'' = live w)
     else l = NULL \<and> n = Some 0 \<and> (live w' = live w + err_res e \<or>
       \<not> memory_ok E \<and> e = error_no_memory \<and> (\<exists>d. live w' = live w + dev_res_mac d))))"
proof (rule runs_mono [OF libusbp_list_connected_devices_mac_spec], clarify, goal_cases)
  case (1 e l n w')
  show ?case
  proof (cases "e = NULL")
    case True
    with 1 obtain ds where "holds_of wf_device_mac l ds" "n = Some (length ds)"
        "\<forall>d \<in> set ds. connected_mac E d" "live w' = live w + list_res_mac l"
      by (auto simp: lists_of_def)
    then show ?thesis
      using True listed_mac.free_devices_and_list_ok [of l ds w']
      by (auto intro!: exI [of _ ds])
  next
    case False
    with 1 show ?thesis by auto
  qed
qed

end
