(* ===== verification/SerialPortMac.thy ===== *)
theory SerialPortMac
  imports DeviceMac
begin

text \<open>
  \<open>src/src/mac/serial_port_mac.c\<close>: finding the serial port of an interface on macOS.  The lemmas give
  the interface number that the search assigns to each serial port below a device, show that nothing
  leaks, and that the ports of a device with several ACM functions are found under the numbers of
  their control interfaces, as on the other systems.
\<close>

abbreviation (input) "kIOUSBHostInterfaceClassName \<equiv> ''IOUSBHostInterface''"
abbreviation (input) "kIOSerialBSDServiceValue \<equiv> ''IOSerialBSDClient''"
abbreviation (input) "kIOCalloutDeviceKey \<equiv> ''IOCalloutDevice''"

section \<open>The operations of serial_port_mac.c\<close>

record libusbp_serial_port_mac =
  port_name_mac :: cstr

type_synonym serial_port_mac = "libusbp_serial_port_mac ptr"

text \<open>
  The variables of the search: \<open>current_interface\<close>, \<open>last_acm_control_interface_with_no_port\<close> and
  \<open>last_acm_data_interface\<close>.
\<close>

record serial_search =
  current_interface :: "32 word"
  last_acm_control :: "32 word"
  last_acm_data :: "32 word"

definition fixed_interface :: "serial_search \<Rightarrow> 32 word" where
  "fixed_interface s = (if last_acm_data s = current_interface s \<and> 0 \<le> sint (last_acm_control s)
     then last_acm_control s else current_interface s)"

text \<open>
  One pass of the loop for a service: the error, the variables, and whether this is the serial port.
\<close>

definition serial_step :: "'e iokit_scheme \<Rightarrow> 8 word \<Rightarrow> nat \<times> nat \<Rightarrow> serial_search \<Rightarrow> 'w world_scheme
    \<Rightarrow> ((err \<times> serial_search \<times> bool) \<times> 'w world_scheme) option" where
  "serial_step E interface_number service s w = do {
     (c, w) \<leftarrow> ask_object IoObject (Some service) (\<lambda>k x. IOObjectConformsTo E k x kIOUSBHostInterfaceClassName) w;
     if c then do {
       ((error, v), w) \<leftarrow> get_int32 E (Some service) ''bInterfaceNumber'' w;
       Some ((error, s\<lparr>current_interface := v\<rparr>, False), w)
     }
     else do {
       (c, w) \<leftarrow> ask_object IoObject (Some service) (\<lambda>k x. IOObjectConformsTo E k x ''AppleUSBACMControl'') w;
       if c then Some ((NULL, s\<lparr>last_acm_control := current_interface s\<rparr>, False), w)
       else do {
         (c, w) \<leftarrow> ask_object IoObject (Some service) (\<lambda>k x. IOObjectConformsTo E k x ''AppleUSBACMData'') w;
         if c then Some ((NULL, s\<lparr>last_acm_data := current_interface s\<rparr>, False), w)
         else do {
           (c, w) \<leftarrow> ask_object IoObject (Some service)
             (\<lambda>k x. IOObjectConformsTo E k x kIOSerialBSDServiceValue) w;
           if c then Some ((NULL, s\<lparr>last_acm_control := - 1\<rparr>,
               sint (fixed_interface s) = uint interface_number), w)
           else Some ((NULL, s, False), w)
         }
       }
     }
   }"

fun serial_loop :: "'e iokit_scheme \<Rightarrow> 8 word \<Rightarrow> nat \<Rightarrow> nat list \<Rightarrow> serial_search \<Rightarrow> 'w world_scheme
    \<Rightarrow> ((err \<times> io_service) \<times> 'w world_scheme) option" where
  "serial_loop E interface_number i [] s w = do {
     borrow (IoObject, i) w;
     Some ((NULL, None), w)
   }"
| "serial_loop E interface_number i (x # xs) s w = do {
     borrow (IoObject, i) w;
     (service, w) \<leftarrow> new_object IoObject x w;
     ((error, s, found), w) \<leftarrow> serial_step E interface_number service s w;
     if found then Some ((error, Some service), w)
     else do {
       w \<leftarrow> release_object IoObject (Some service) w;
       if error = NULL then serial_loop E interface_number i xs s w
       else Some ((error, None), w)
     }
   }"

definition libusbp_serial_port_free_mac :: "serial_port_mac \<Rightarrow> 'w world_scheme \<Rightarrow> 'w world_scheme option" where
  "libusbp_serial_port_free_mac port w =
     (if port \<noteq> NULL then do {
        x \<leftarrow> deref port w;
        w \<leftarrow> libusbp_string_free (port_name_mac x) w;
        free port w
      }
      else Some w)"

definition serial_port_allocate_mac :: "'e environment_scheme \<Rightarrow> 'w world_scheme
    \<Rightarrow> ((err \<times> serial_port_mac) \<times> 'w world_scheme) option" where
  "serial_port_allocate_mac E w = do {
     (new_port, w) \<leftarrow> malloc E w;
     if new_port = NULL then Some ((error_no_memory, NULL), w)
     else do {
       new_port \<leftarrow> store new_port \<lparr>port_name_mac = NULL\<rparr> w;
       Some ((NULL, new_port), w)
     }
   }"

definition libusbp_serial_port_create_mac :: "'e iokit_scheme \<Rightarrow> device_mac \<Rightarrow> 8 word \<Rightarrow> bool
    \<Rightarrow> bool \<Rightarrow> 'w world_scheme \<Rightarrow> ((err \<times> serial_port_mac) \<times> 'w world_scheme) option" where
  "libusbp_serial_port_create_mac E device interface_number composite given w =
     (if \<not> given then do {
        (error, w) \<leftarrow> error_create E ''Serial port output pointer is null.'' w;
        Some ((error, NULL), w)
      }
      else if device = NULL then do {
        (error, w) \<leftarrow> error_create E ''Device is null.'' w;
        Some ((error, NULL), w)
      }
      else do {
        ((error, new_port), w) \<leftarrow> serial_port_allocate_mac E w;
        device_id \<leftarrow> (if error = NULL then device_get_id device w else Some 0);
        ((error, device_service), w) \<leftarrow> ok_then error None (service_get_from_id E device_id) w;
        ((error, iterator), w) \<leftarrow> ok_then error None (\<lambda>w. do {
            (r, w) \<leftarrow> ask_object IoObject device_service (IORegistryEntryCreateIterator E) w;
            case r of
              Inl result \<Rightarrow> do {
                (error, w) \<leftarrow> error_create_mach E result ''Failed to get recursive iterator.'' w;
                Some ((error, None), w)
              }
            | Inr xs \<Rightarrow> do { (i, w) \<leftarrow> new_object IoObject xs w; Some ((NULL, Some i), w) }
          }) w;
        ((error, serial_service), w) \<leftarrow> ok_then error None (\<lambda>w. do {
            (i, xs) \<leftarrow> iterator;
            serial_loop E interface_number i xs
              \<lparr>current_interface = - 1, last_acm_control = - 1, last_acm_data = - 1\<rparr> w
          }) w;
        (error, w) \<leftarrow> (if error = NULL \<and> serial_service = None then do {
            (error, w) \<leftarrow> error_create E ''Could not find entry with class IOSerialBSDClient.'' w;
            error_add_code E error (code_of LIBUSBP_ERROR_NOT_READY) w
          }
          else Some (error, w));
        ((error, new_port), w) \<leftarrow> ok_then error new_port
          (set_field (get_string E serial_service kIOCalloutDeviceKey)
            (\<lambda>v x. x\<lparr>port_name_mac := v\<rparr>) new_port) w;
        let (port, new_port) = (if error = NULL then (new_port, NULL) else (NULL, new_port));
        w \<leftarrow> release_object IoObject serial_service w;
        w \<leftarrow> release_object IoObject iterator w;
        w \<leftarrow> release_object IoObject device_service w;
        w \<leftarrow> libusbp_serial_port_free_mac new_port w;
        Some ((error, port), w)
      })"

definition libusbp_serial_port_copy_mac :: "'e environment_scheme \<Rightarrow> serial_port_mac \<Rightarrow> bool
    \<Rightarrow> 'w world_scheme \<Rightarrow> ((err \<times> serial_port_mac) \<times> 'w world_scheme) option" where
  "libusbp_serial_port_copy_mac E source given w =
     (if \<not> given then do {
        (error, w) \<leftarrow> error_create E ''Serial port output pointer is null.'' w;
        Some ((error, NULL), w)
      }
      else if source = NULL then Some ((NULL, NULL), w)
      else do {
        ((error, new_port), w) \<leftarrow> serial_port_allocate_mac E w;
        ((error, new_port), w) \<leftarrow> ok_then error new_port (\<lambda>w. do {
            x \<leftarrow> deref source w;
            set_field (string_copy E (port_name_mac x)) (\<lambda>v y. y\<lparr>port_name_mac := v\<rparr>) new_port w
          }) w;
        let (dest, new_port) = (if error = NULL then (new_port, NULL) else (NULL, new_port));
        w \<leftarrow> libusbp_serial_port_free_mac new_port w;
        Some ((error, dest), w)
      })"

definition libusbp_serial_port_get_name_mac :: "'e environment_scheme \<Rightarrow> serial_port_mac \<Rightarrow> bool
    \<Rightarrow> 'w world_scheme \<Rightarrow> ((err \<times> cstr) \<times> 'w world_scheme) option" where
  "libusbp_serial_port_get_name_mac E port given w =
     (if \<not> given then do {
        (error, w) \<leftarrow> error_create E ''String output pointer is null.'' w;
        Some ((error, NULL), w)
      }
      else if port = NULL then do {
        (error, w) \<leftarrow> error_create E ''Serial port is null.'' w;
        Some ((error, NULL), w)
      }
      else do { x \<leftarrow> deref port w; string_copy E (port_name_mac x) w })"

section \<open>The numbers of serial ports\<close>

text \<open>
  What an entry is for the search, while the registry does not change, and the walk over the entries:
  the serial ports in order, each with the interface number assigned to it.  The walk needs every
  interface to have a number; \<open>None\<close> is one without.
\<close>

datatype entry_class = HostInterface "32 word option" | ACMControl | ACMData | SerialClient | OtherEntry

definition class_of :: "'e iokit_scheme \<Rightarrow> nat \<Rightarrow> entry_class" where
  "class_of E y =
     (if IOObjectConformsTo E 0 y kIOUSBHostInterfaceClassName
      then HostInterface (int_value (IORegistryEntryCreateCFProperty E 0 y ''bInterfaceNumber''))
      else if IOObjectConformsTo E 0 y ''AppleUSBACMControl'' then ACMControl
      else if IOObjectConformsTo E 0 y ''AppleUSBACMData'' then ACMData
      else if IOObjectConformsTo E 0 y kIOSerialBSDServiceValue then SerialClient
      else OtherEntry)"

fun search_next :: "entry_class \<Rightarrow> serial_search \<Rightarrow> serial_search" where
  "search_next (HostInterface (Some v)) s = s\<lparr>current_interface := v\<rparr>"
| "search_next (HostInterface None) s = s"
| "search_next ACMControl s = s\<lparr>last_acm_control := current_interface s\<rparr>"
| "search_next ACMData s = s\<lparr>last_acm_data := current_interface s\<rparr>"
| "search_next SerialClient s = s\<lparr>last_acm_control := - 1\<rparr>"
| "search_next OtherEntry s = s"

fun numbered_ports :: "('a \<Rightarrow> entry_class) \<Rightarrow> 'a list \<Rightarrow> serial_search \<Rightarrow> ('a \<times> int) list" where
  "numbered_ports c [] s = []"
| "numbered_ports c (y # ys) s =
     (if c y = SerialClient then [(y, sint (fixed_interface s))] else []) @
     numbered_ports c ys (search_next (c y) s)"

text \<open>All interfaces among the entries have a number.\<close>

definition all_numbered :: "'e iokit_scheme \<Rightarrow> nat list \<Rightarrow> bool" where
  "all_numbered E xs \<longleftrightarrow> (\<forall>y \<in> set xs. class_of E y \<noteq> HostInterface None)"

definition serial_client :: "'e iokit_scheme \<Rightarrow> nat \<Rightarrow> bool" where
  "serial_client E y \<longleftrightarrow> (\<exists>k. IOObjectConformsTo E k y kIOSerialBSDServiceValue)"

definition step_result :: "'e iokit_scheme \<Rightarrow> 8 word \<Rightarrow> nat \<Rightarrow> serial_search \<Rightarrow> err \<Rightarrow> serial_search \<Rightarrow> bool \<Rightarrow> bool" where
  "step_result E num y s e s' found \<longleftrightarrow> wf_err e \<and> (memory_ok E \<longrightarrow> err_codes e = []) \<and>
     (found \<longrightarrow> e = NULL \<and> serial_client E y) \<and>
     (steady E \<longrightarrow> class_of E y \<noteq> HostInterface None \<longrightarrow> e = NULL \<and> s' = search_next (class_of E y) s \<and>
        found = (class_of E y = SerialClient \<and> sint (fixed_interface s) = uint num))"

lemma step_result_other:
  assumes "\<not> IOObjectConformsTo E j y kIOUSBHostInterfaceClassName"
    and "if IOObjectConformsTo E k y ''AppleUSBACMControl'' then c = ACMControl
      else if IOObjectConformsTo E l y ''AppleUSBACMData'' then c = ACMData
      else if IOObjectConformsTo E m y kIOSerialBSDServiceValue then c = SerialClient else c = OtherEntry"
  shows "step_result E num y s NULL (search_next c s) (c = SerialClient \<and> sint (fixed_interface s) = uint num)"
proof -
  have "class_of E y = c" if "steady E"
    using assms steady_conforms [OF that, of j y] steady_conforms [OF that, of k y]
      steady_conforms [OF that, of l y] steady_conforms [OF that, of m y]
    by (simp add: class_of_def split: if_splits)
  moreover have "serial_client E y" if "c = SerialClient"
    using assms(2) that by (auto simp: serial_client_def split: if_splits)
  ultimately show ?thesis by (auto simp: step_result_def)
qed

lemma step_result_interface:
  assumes "IOObjectConformsTo E j y kIOUSBHostInterfaceClassName" "reads_int E y ''bInterfaceNumber'' e v"
  shows "step_result E num y s e (s\<lparr>current_interface := v\<rparr>) False"
proof -
  have "class_of E y = HostInterface (if e = NULL then Some v else None)" if "steady E"
    using assms steady_conforms [OF that, of j y] steady_int [OF that assms(2)] by (simp add: class_of_def)
  then show ?thesis using assms(2) by (auto simp: step_result_def reads_int_def)
qed

lemma serial_step_spec:
  assumes "(IoObject, m) \<in># live w"
  shows "runs (serial_step E num (m, y) s w) (\<lambda>(e, s', found) w'. later w w' \<and>
    live w' = live w + err_res e \<and> step_result E num y s e s' found)"
proof -
  have control: "step_result E num y s NULL (s\<lparr>last_acm_control := current_interface s\<rparr>) False"
    if "\<not> IOObjectConformsTo E j y kIOUSBHostInterfaceClassName"
      "IOObjectConformsTo E k y ''AppleUSBACMControl''" for j k
    using step_result_other [OF that(1), of k ACMControl] that(2) by simp
  have data: "step_result E num y s NULL (s\<lparr>last_acm_data := current_interface s\<rparr>) False"
    if "\<not> IOObjectConformsTo E j y kIOUSBHostInterfaceClassName"
      "\<not> IOObjectConformsTo E k y ''AppleUSBACMControl''" "IOObjectConformsTo E l y ''AppleUSBACMData''" for j k l
    using step_result_other [OF that(1), of k ACMData l] that(2,3) by simp
  have client: "step_result E num y s NULL (s\<lparr>last_acm_control := - 1\<rparr>) (sint (fixed_interface s) = uint num)"
    if "\<not> IOObjectConformsTo E j y kIOUSBHostInterfaceClassName"
      "\<not> IOObjectConformsTo E k y ''AppleUSBACMControl''" "\<not> IOObjectConformsTo E l y ''AppleUSBACMData''"
      "IOObjectConformsTo E i y kIOSerialBSDServiceValue" for j k l i
    using step_result_other [OF that(1), of k SerialClient l i] that(2-4) by simp
  have none: "step_result E num y s NULL s False"
    if "\<not> IOObjectConformsTo E j y kIOUSBHostInterfaceClassName"
      "\<not> IOObjectConformsTo E k y ''AppleUSBACMControl''" "\<not> IOObjectConformsTo E l y ''AppleUSBACMData''"
      "\<not> IOObjectConformsTo E i y kIOSerialBSDServiceValue" for j k l i
    using step_result_other [OF that(1), of k OtherEntry l i] that(2-4) by simp
  show ?thesis
    unfolding serial_step_def
    using assms
    by (auto simp: later_def intro!: runs_bind ask_object_wp get_int32_wp step_result_interface)
      (blast intro: step_result_interface control data client none)+
qed

lemmas serial_step_wp = serial_step_spec [THEN runs_mono]

text \<open>The serial port that the walk assigns the number to.\<close>

definition port_numbered :: "'e iokit_scheme \<Rightarrow> 8 word \<Rightarrow> nat list \<Rightarrow> serial_search \<Rightarrow> nat option" where
  "port_numbered E num xs s =
     map_option fst (find (\<lambda>(y, n). n = uint num) (numbered_ports (class_of E) xs s))"

definition loop_result :: "'e iokit_scheme \<Rightarrow> 8 word \<Rightarrow> nat list \<Rightarrow> serial_search \<Rightarrow> err \<Rightarrow> io_service \<Rightarrow> bool" where
  "loop_result E num xs s e r \<longleftrightarrow> wf_err e \<and> (memory_ok E \<longrightarrow> err_codes e = []) \<and>
     (case r of None \<Rightarrow> True | Some (m, y) \<Rightarrow> e = NULL \<and> y \<in> set xs \<and> serial_client E y) \<and>
     (steady E \<longrightarrow> all_numbered E xs \<longrightarrow> e = NULL \<and> map_option snd r = port_numbered E num xs s)"

lemma loop_result_found:
  "step_result E num y s e s' True \<Longrightarrow> e = NULL \<and>
   (\<forall>m xs. loop_result E num (y # xs) s NULL (Some (m, y)))"
  by (auto simp: step_result_def loop_result_def all_numbered_def port_numbered_def)

lemma loop_result_next:
  "step_result E num y s NULL s' False \<Longrightarrow> loop_result E num xs s' e r \<Longrightarrow> loop_result E num (y # xs) s e r"
  by (auto simp: step_result_def loop_result_def all_numbered_def port_numbered_def split: option.splits)

lemma loop_result_error:
  "step_result E num y s e s' False \<Longrightarrow> e \<noteq> NULL \<Longrightarrow> loop_result E num (y # xs) s e None"
  by (auto simp: step_result_def loop_result_def all_numbered_def)

lemma serial_loop_spec:
  fixes w :: "'w world_scheme"
  assumes "(IoObject, i) \<in># live w"
  shows "runs (serial_loop E num i xs s w) (\<lambda>(e, r) w'. later w w' \<and>
     live w' = live w + err_res e + io_res r \<and> loop_result E num xs s e r)"
  using assms
proof (induction xs arbitrary: s w)
  case Nil
  then show ?case by (simp add: loop_result_def port_numbered_def)
next
  case (Cons y xs)
  have IH: "runs (serial_loop E num i xs s' v) Q"
    if "live v = live w"
      and "\<And>e r w'. later v w' \<Longrightarrow> live w' = live w + err_res e + io_res r \<Longrightarrow>
        loop_result E num xs s' e r \<Longrightarrow> Q (e, r) w'" for s' Q and v :: "'w world_scheme"
    by (rule runs_mono [OF Cons.IH]) (use that Cons.prems in auto)
  show ?case
    unfolding serial_loop.simps
    using Cons.prems
    by (auto simp: later_def dest!: loop_result_found
        intro!: runs_bind new_object_wp serial_step_wp IH)
      (blast intro: loop_result_next loop_result_error)+
qed

lemma serial_loop_wp:
  assumes "(IoObject, i) \<in># live w"
    and "\<And>m y w'. later w w' \<Longrightarrow> live w' = add_mset (IoObject, m) (live w) \<Longrightarrow>
      loop_result E num xs s NULL (Some (m, y)) \<Longrightarrow> Q (NULL, Some (m, y)) w'"
    and "\<And>w'. later w w' \<Longrightarrow> live w' = live w \<Longrightarrow> loop_result E num xs s NULL None \<Longrightarrow> Q (NULL, None) w'"
    and "\<And>e w'. e \<noteq> NULL \<Longrightarrow> wf_err e \<Longrightarrow> later w w' \<Longrightarrow> live w' = live w + err_res e \<Longrightarrow>
      loop_result E num xs s e None \<Longrightarrow> Q (e, None) w'"
  shows "runs (serial_loop E num i xs s w) Q"
proof (rule runs_mono [OF serial_loop_spec [OF assms(1)]], clarify, goal_cases)
  case (1 e r w')
  then have "wf_err e" "r \<noteq> None \<Longrightarrow> e = NULL" by (auto simp: loop_result_def)
  with 1 show ?case
    using assms(2) [of w'] assms(3) [of w'] assms(4) [of e w'] by (cases r; cases "e = NULL") auto
qed

section \<open>What serial ports own and say\<close>

definition port_res_mac :: "serial_port_mac \<Rightarrow> res multiset" where
  "port_res_mac p = owns (\<lambda>x. blk (port_name_mac x)) p"

definition wf_port_mac :: "serial_port_mac \<Rightarrow> bool" where
  "wf_port_mac p = (case p of NULL \<Rightarrow> True
     | Heap n x \<Rightarrow> \<not> is_static (port_name_mac x) | Static x \<Rightarrow> False)"

lemma port_mac_simps [simp]:
  "port_res_mac NULL = {#}" "wf_port_mac NULL" "\<not> wf_port_mac (Static x)"
  "port_res_mac (Heap n x) = add_mset (Mem, n) (blk (port_name_mac x))"
  "wf_port_mac (Heap n x) \<longleftrightarrow> \<not> is_static (port_name_mac x)"
  by (simp_all add: port_res_mac_def wf_port_mac_def)

lemma libusbp_serial_port_free_mac_ok:
  assumes "wf_port_mac p" and "port_res_mac p \<subseteq># live w"
  shows "libusbp_serial_port_free_mac p w = Some (drop_res (port_res_mac p) w)"
proof -
  obtain L where "live w = port_res_mac p + L"
    using assms(2) by (auto simp: mset_subset_eq_exists_conv)
  with assms(1) show ?thesis
    by (cases p) (auto simp: libusbp_serial_port_free_mac_def libusbp_string_free_def not_static_conv
        add_mset_commute)
qed

interpretation serial_port_mac: releases libusbp_serial_port_free_mac port_res_mac wf_port_mac
  by unfold_locales (rule libusbp_serial_port_free_mac_ok)

abbreviation initial_search :: serial_search where
  "initial_search \<equiv> \<lparr>current_interface = - 1, last_acm_control = - 1, last_acm_data = - 1\<rparr>"

text \<open>
  The entry behind a port: a serial client below the device, the one with the number if the registry
  does not change.  \<open>offers_port\<close> says that all questions about the port are answered, the entries
  below the device being \<open>xs\<close>.
\<close>

definition port_entry :: "'e iokit_scheme \<Rightarrow> 64 word \<Rightarrow> 8 word \<Rightarrow> nat \<Rightarrow> bool" where
  "port_entry E dev num y \<longleftrightarrow> serial_client E y \<and> (\<exists>x xs k. entry_with_id E dev x \<and>
     IORegistryEntryCreateIterator E k x = Inr xs \<and> y \<in> set xs \<and>
     (steady E \<longrightarrow> all_numbered E xs \<longrightarrow> port_numbered E num xs initial_search = Some y))"

definition entries_below :: "'e iokit_scheme \<Rightarrow> 64 word \<Rightarrow> nat list \<Rightarrow> bool" where
  "entries_below E dev xs \<longleftrightarrow> (\<exists>x. (\<forall>k. matching_dictionary E k (MatchID dev) \<and>
     IOServiceGetMatchingService E k (MatchID dev) = Some x \<and> IORegistryEntryCreateIterator E k x = Inr xs))"

definition offers_port :: "'e iokit_scheme \<Rightarrow> 64 word \<Rightarrow> 8 word \<Rightarrow> nat list \<Rightarrow> nat \<Rightarrow> bool" where
  "offers_port E dev num xs y \<longleftrightarrow> memory_ok E \<and> steady E \<and> all_numbered E xs \<and>
     port_numbered E num xs initial_search = Some y \<and>
     string_value (IORegistryEntryCreateCFProperty E 0 y kIOCalloutDeviceKey) \<noteq> None \<and>
     entries_below E dev xs"

definition port_made_mac :: "'e iokit_scheme \<Rightarrow> 64 word \<Rightarrow> 8 word \<Rightarrow> serial_port_mac \<Rightarrow> bool" where
  "port_made_mac E dev num p \<longleftrightarrow> wf_port_mac p \<and> (\<exists>n x y. p = Heap n x \<and> port_entry E dev num y \<and>
     string_property E y kIOCalloutDeviceKey (str_view (port_name_mac x)))"

definition no_port :: "'e iokit_scheme \<Rightarrow> 64 word \<Rightarrow> 8 word \<Rightarrow> bool" where
  "no_port E dev num \<longleftrightarrow> (\<forall>xs y. \<not> offers_port E dev num xs y)"

lemma offers_portD:
  assumes "offers_port E dev num xs y"
  shows "memory_ok E" "steady E" "all_numbered E xs" "port_numbered E num xs initial_search = Some y"
    "string_value (IORegistryEntryCreateCFProperty E 0 y kIOCalloutDeviceKey) \<noteq> None"
    "\<not> no_service E dev" "entry_with_id E dev x \<Longrightarrow> IORegistryEntryCreateIterator E k x = Inr xs"
proof -
  obtain x' where x': "\<And>k. matching_dictionary E k (MatchID dev)"
      "\<And>k. IOServiceGetMatchingService E k (MatchID dev) = Some x'"
      "\<And>k. IORegistryEntryCreateIterator E k x' = Inr xs"
    using assms unfolding offers_port_def entries_below_def by blast
  then show "\<not> no_service E dev" "entry_with_id E dev x \<Longrightarrow> IORegistryEntryCreateIterator E k x = Inr xs"
    by (auto simp: no_service_def entry_with_id_def)
qed (use assms in \<open>simp_all add: offers_port_def\<close>)

lemma no_portI:
  "\<not> memory_ok E \<Longrightarrow> no_port E dev num" "no_service E dev \<Longrightarrow> no_port E dev num"
  unfolding no_port_def using offers_portD(1,6) by blast+

lemma no_port_iterator:
  "entry_with_id E dev x \<Longrightarrow> IORegistryEntryCreateIterator E k x = Inl c \<Longrightarrow> no_port E dev num"
  unfolding no_port_def using offers_portD(7) by fastforce

lemma no_port_loop:
  assumes x: "entry_with_id E dev x" "IORegistryEntryCreateIterator E k x = Inr xs"
    and l: "loop_result E num xs initial_search e None"
  shows "no_port E dev num"
  unfolding no_port_def
proof clarify
  fix ys y
  assume o: "offers_port E dev num ys y"
  then have "ys = xs" using offers_portD(7) [OF o x(1), of k] x(2) by simp
  then show False using offers_portD(2-4) [OF o] l by (simp add: loop_result_def)
qed

lemma no_port_name:
  assumes x: "entry_with_id E dev x" "IORegistryEntryCreateIterator E k x = Inr xs"
    and l: "loop_result E num xs initial_search NULL (Some (m, y))"
    and s: "reads_string E y kIOCalloutDeviceKey e p" "e \<noteq> NULL"
  shows "no_port E dev num"
  unfolding no_port_def
proof clarify
  fix ys z
  assume o: "offers_port E dev num ys z"
  then have "ys = xs" using offers_portD(7) [OF o x(1), of k] x(2) by simp
  then have "z = y" using offers_portD(2-4) [OF o] l by (simp add: loop_result_def)
  obtain j where "string_value (IORegistryEntryCreateCFProperty E j y kIOCalloutDeviceKey) = None"
    using s offers_portD(1) [OF o] by (auto simp: reads_string_def)
  moreover have "IORegistryEntryCreateCFProperty E j = IORegistryEntryCreateCFProperty E 0"
    using offers_portD(2) [OF o] unfolding steady_def by blast
  ultimately show False using offers_portD(5) [OF o] \<open>z = y\<close> by simp
qed

lemma port_entryI:
  assumes "entry_with_id E dev x" "IORegistryEntryCreateIterator E k x = Inr xs"
    "loop_result E num xs initial_search NULL (Some (m, y))"
  shows "port_entry E dev num y"
  using assms unfolding port_entry_def loop_result_def
  by (intro conjI exI [of _ x] exI [of _ xs] exI [of _ k]) simp_all

lemma port_madeI:
  assumes "entry_with_id E dev x" "IORegistryEntryCreateIterator E k x = Inr xs"
    "loop_result E num xs initial_search NULL (Some (m, y))" "reads_string E y kIOCalloutDeviceKey NULL p"
  shows "port_made_mac E dev num (Heap n \<lparr>port_name_mac = p\<rparr>)"
  using port_entryI [OF assms(1-3)] string_propertyI [OF assms(4)]
  unfolding port_made_mac_def by auto

lemma libusbp_serial_port_create_mac_gives:
  assumes "wf_device_mac d" "d \<noteq> NULL" "dev_res_mac d \<subseteq># live w" "dev_view_mac d = Some (dev, v)"
  shows "runs (libusbp_serial_port_create_mac E d num composite True w) (gives port_res_mac NULL
     (port_made_mac E dev num) (\<lambda>_. no_port E dev num) w)"
proof -
  obtain n x where d: "d = Heap n x" using assms(1,2) by (cases d) auto
  with assms(3) have "(Mem, n) \<in># live w" by (auto simp: mset_subset_eq_exists_conv)
  with d assms(4) show ?thesis
    by (auto simp: libusbp_serial_port_create_mac_def serial_port_allocate_mac_def Let_def
        device_get_id_def set_field_def ok_then_error libusbp_serial_port_free_mac_ok later_def says_def reads_wf
        split: sum.splits
        intro!: wp service_get_from_id_wp serial_loop_wp get_string_wp)
      (blast intro: port_madeI no_portI no_port_iterator no_port_loop no_port_name)+
qed

lemmas libusbp_serial_port_create_mac_wp = gives_wp [OF libusbp_serial_port_create_mac_gives]

interpretation serial_port_mac_new: constructor libusbp_serial_port_free_mac port_res_mac wf_port_mac
    "\<lambda>(d, num, composite). libusbp_serial_port_create_mac E d num composite True" NULL
    "\<lambda>(d, num, composite) w. wf_device_mac d \<and> d \<noteq> NULL \<and> dev_res_mac d \<subseteq># live w"
    "\<lambda>(d, num, composite) p. \<exists>dev v. dev_view_mac d = Some (dev, v) \<and> port_made_mac E dev num p"
    for E :: "'e iokit_scheme"
proof (unfold_locales, clarsimp, goal_cases)
  case (1 d num composite w)
  then obtain n x where d: "d = Heap n x" by (cases d) auto
  show ?case
    by (rule libusbp_serial_port_create_mac_wp [of d w "id_mac x"]) (use 1 d in auto)
qed (auto simp: port_made_mac_def)

text \<open>A port with a name can be copied.\<close>

lemma libusbp_serial_port_copy_mac_gives:
  assumes "port_res_mac (Heap n x) \<subseteq># live w" "port_name_mac x = Heap m s"
  shows "runs (libusbp_serial_port_copy_mac E (Heap n x) True w) (gives port_res_mac NULL
     (\<lambda>c. \<exists>k y j. c = Heap k y \<and> port_name_mac y = Heap j s) (\<lambda>e. e = error_no_memory \<and> \<not> memory_ok E) w)"
proof -
  obtain L where "live w = port_res_mac (Heap n x) + L"
    using assms(1) by (auto simp: mset_subset_eq_exists_conv)
  with assms(2) show ?thesis
    by (auto simp: libusbp_serial_port_copy_mac_def serial_port_allocate_mac_def Let_def later_def
        set_field_def libusbp_serial_port_free_mac_ok intro!: wp)
qed


section \<open>Devices with several serial ports\<close>

text \<open>
  The entries of a serial function below a device, in the order of the recursive iterator: an ACM
  function has a control interface, whose driver has no port, and a data interface whose driver has
  it; a function with another driver has an interface with a port.  Its number is that of its first
  interface.
\<close>

datatype 'a serial_function =
    ACMFunction (interface: 'a) (control: 'a) (data_interface: 'a) (data: 'a) (port: 'a)
  | PlainFunction (interface: 'a) (port: 'a)

fun function_entries :: "'a serial_function \<Rightarrow> 'a list" where
  "function_entries (ACMFunction i c j d p) = [i, c, j, d, p]"
| "function_entries (PlainFunction i p) = [i, p]"

fun function_classes :: "('a \<Rightarrow> entry_class) \<Rightarrow> 'a serial_function \<Rightarrow> 32 word \<Rightarrow> bool" where
  "function_classes cl (ACMFunction i c j d p) n \<longleftrightarrow> cl i = HostInterface (Some n) \<and> 0 \<le> sint n \<and>
     cl c = ACMControl \<and> (\<exists>m. cl j = HostInterface (Some m)) \<and> cl d = ACMData \<and> cl p = SerialClient"
| "function_classes cl (PlainFunction i p) n \<longleftrightarrow> cl i = HostInterface (Some n) \<and> cl p = SerialClient"

lemma numbered_ports_filter:
  "numbered_ports cl (filter (\<lambda>y. cl y \<noteq> OtherEntry) ys) s = numbered_ports cl ys s"
  by (induction ys arbitrary: s) auto

lemma numbered_ports_functions:
  assumes "\<forall>(f, n) \<in> set fs. function_classes cl f n" and "last_acm_control s = - 1"
  shows "numbered_ports cl (concat (map (function_entries \<circ> fst) fs)) s =
    map (\<lambda>(f, n). (port f, sint n)) fs"
  using assms
proof (induction fs arbitrary: s)
  case Nil
  then show ?case by simp
next
  case (Cons a fs)
  obtain f n where a: "a = (f, n)" by (cases a)
  then have f: "function_classes cl f n" using Cons.prems(1) by auto
  have IH: "last_acm_control t = - 1 \<Longrightarrow> numbered_ports cl (concat (map (function_entries \<circ> fst) fs)) t =
      map (\<lambda>(f, n). (port f, sint n)) fs" for t
    using Cons.prems(1) by (intro Cons.IH) auto
  show ?case
    using f Cons.prems(2) by (cases f) (auto simp: a IH [unfolded comp_def] fixed_interface_def)
qed

lemma find_number:
  assumes "distinct (map (sint \<circ> snd) fs)" "(f, n) \<in> set fs" "sint n = m"
  shows "find (\<lambda>(y, k). k = m) (map (\<lambda>(f, n). (port f, sint n)) fs) = Some (port f, m)"
  using assms by (induction fs) (force+)

lemma functions_numbered:
  assumes "filter (\<lambda>y. class_of E y \<noteq> OtherEntry) xs = concat (map (function_entries \<circ> fst) fs)"
    and "\<forall>(f, n) \<in> set fs. function_classes (class_of E) f n"
  shows "all_numbered E xs"
  unfolding all_numbered_def
proof (rule ballI, rule notI)
  fix y
  assume "y \<in> set xs" "class_of E y = HostInterface None"
  then have "y \<in> set (filter (\<lambda>y. class_of E y \<noteq> OtherEntry) xs)" by simp
  then obtain f n where f: "(f, n) \<in> set fs" "y \<in> set (function_entries f)"
    unfolding assms(1) by auto
  then have "function_classes (class_of E) f n" using assms(2) by blast
  with f(2) \<open>class_of E y = HostInterface None\<close> show False by (cases f) auto
qed

lemma port_numbered_function:
  assumes "filter (\<lambda>y. class_of E y \<noteq> OtherEntry) xs = concat (map (function_entries \<circ> fst) fs)"
    and "\<forall>(f, n) \<in> set fs. function_classes (class_of E) f n" "distinct (map (sint \<circ> snd) fs)"
    and "(f, n) \<in> set fs" "sint n = uint num"
  shows "port_numbered E num xs initial_search = Some (port f)"
proof -
  have "numbered_ports (class_of E) xs initial_search = map (\<lambda>(f, n). (port f, sint n)) fs"
    using numbered_ports_filter [of "class_of E" xs] numbered_ports_functions [OF assms(2), of initial_search]
    by (simp add: assms(1))
  then show ?thesis using find_number [OF assms(3-5)] by (simp add: port_numbered_def)
qed

text \<open>What is made when a port is offered.\<close>

lemma offered_port_made:
  assumes o: "offers_port E dev num xs y" and "port_made_mac E dev num p"
  shows "\<exists>n x. p = Heap n x \<and> \<not> is_static (port_name_mac x) \<and>
    string_value (IORegistryEntryCreateCFProperty E 0 y kIOCalloutDeviceKey) = Some (str_view (port_name_mac x))"
proof -
  obtain n x z where p: "p = Heap n x" "\<not> is_static (port_name_mac x)" "port_entry E dev num z"
      "string_property E z kIOCalloutDeviceKey (str_view (port_name_mac x))"
    using assms(2) unfolding port_made_mac_def by auto
  obtain a ys k where a: "entry_with_id E dev a" "IORegistryEntryCreateIterator E k a = Inr ys"
      "steady E \<longrightarrow> all_numbered E ys \<longrightarrow> port_numbered E num ys initial_search = Some z"
    using p(3) unfolding port_entry_def by blast
  then have "ys = xs" using offers_portD(7) [OF o a(1), of k] by simp
  then have "z = y" using a(3) offers_portD(2-4) [OF o] by simp
  with p show ?thesis
    using steady_property(2) [OF offers_portD(2) [OF o]] by auto
qed

section \<open>Properties\<close>



text \<open>A device with an ACM function on the interfaces 2 and 3, whose driver has a port, and a hub entry.\<close>

definition demo_serial :: iokit where
  "demo_serial = demo_iokit\<lparr>IORegistryEntryCreateIterator := \<lambda>_ _. Inr [2, 20, 3, 9, 30, 31],
     IOServiceGetMatchingService := \<lambda>_ _. Some 1,
     IOObjectConformsTo := \<lambda>_ x c. c = (if x \<in> {2, 3} then kIOUSBHostInterfaceClassName
       else if x = 20 then ''AppleUSBACMControl'' else if x = 30 then ''AppleUSBACMData''
       else if x = 31 then kIOSerialBSDServiceValue else ''AppleUSBHub''),
     IORegistryEntryCreateCFProperty := \<lambda>_ x name.
       if name = ''bInterfaceNumber'' then Some (CFNumber (int x))
       else if name = kIOCalloutDeviceKey then Some (CFString (Some ''/dev/cu.usbmodem1'')) else None\<rparr>"

definition demo_device_mac :: device_mac where
  "demo_device_mac = Heap 5 \<lparr>id_mac = 0x1001, product_id_mac = 1, vendor_id_mac = 2, revision_mac = 3,
     serial_number_mac = NULL\<rparr>"



text \<open>
  C38: A serial port whose registry entry has no name for its file is made without an error all the
  same, and then every attempt to get its name or to copy it reads through a null pointer; freeing
  it works.
\<close>

theorem serial_port_without_name:
  assumes d: "wf_device_mac d" "d \<noteq> NULL" "dev_res_mac d \<subseteq># live w" "dev_view_mac d = Some (dev, v)"
    and port: "offers_port E dev num xs y"
      "IORegistryEntryCreateCFProperty E 0 y kIOCalloutDeviceKey = None"
  shows "runs (libusbp_serial_port_create_mac E d num composite True w) (\<lambda>(e, p) w'. e = NULL \<and> p \<noteq> NULL \<and>
    libusbp_serial_port_get_name_mac E p True w' = None \<and>
    libusbp_serial_port_copy_mac E p True w' = None \<and>
    (\<exists>w''. libusbp_serial_port_free_mac p w' = Some w'' \<and> live w'' = live w))"
proof (rule libusbp_serial_port_create_mac_wp [OF d], goal_cases)
  case (1 r w')
  obtain m x where r: "r = Heap m x" "str_view (port_name_mac x) = None" "\<not> is_static (port_name_mac x)"
    using offered_port_made [OF port(1) 1(2)] port(2) by (auto simp: string_value_def)
  then have "port_name_mac x = NULL" by (cases "port_name_mac x") auto
  with 1 r offers_portD(1) [OF port(1)] show ?case
    by (auto simp: libusbp_serial_port_get_name_mac_def libusbp_serial_port_copy_mac_def
        serial_port_allocate_mac_def string_copy_def set_field_def malloc_def memory_ok_def
        libusbp_serial_port_free_mac_ok)
next
  case (2 e w')
  with port(1) show ?case by (auto simp: no_port_def)
qed

definition demo_nameless :: iokit where
  "demo_nameless = demo_serial\<lparr>IORegistryEntryCreateCFProperty := \<lambda>_ x name.
     if name = ''bInterfaceNumber'' then Some (CFNumber (int x)) else None\<rparr>"

theorem serial_port_without_name_witness:
  "runs (libusbp_serial_port_create_mac demo_nameless demo_device_mac 2 True True \<lparr>next_id = 6, live = {#(Mem, 5)#}\<rparr>)
    (\<lambda>(e, p) w'. e = NULL \<and> p \<noteq> NULL \<and> libusbp_serial_port_get_name_mac demo_nameless p True w' = None)"
  by (rule runs_mono [OF serial_port_without_name [where xs = "[2, 20, 3, 9, 30, 31]" and y = 31]])
    (auto simp: offers_port_def demo_nameless_def demo_serial_def demo_iokit_def demo_device_mac_def
      memory_ok_def steady_def entries_below_def all_numbered_def port_numbered_def fixed_interface_def
      string_value_def class_of_def int_value_def signed_take_bit_int_eq_self)

end
