(* ===== verification/GenericInterfaceMac.thy ===== *)
theory GenericInterfaceMac
  imports DeviceMac
begin

text \<open>
  \<open>src/src/mac/generic_interface_mac.c\<close>: generic interfaces on macOS.  For a composite device the entry
  of the interface is found when the object is made; for another device only the number is recorded,
  and the entry is found when a handle is opened.  The lemmas show that the asserted facts about IDs
  hold on a registry where a child never has the ID of its parent.
\<close>

section \<open>The operations of generic_interface_mac.c\<close>

record libusbp_generic_interface_mac =
  gi_device_id :: "64 word"
  gi_interface_number :: "8 word"
  has_interface_id :: bool
  gi_interface_id :: "64 word"

type_synonym generic_interface_mac = "libusbp_generic_interface_mac ptr"

definition generic_interface_allocate_mac :: "'e environment_scheme \<Rightarrow> 'w world_scheme
    \<Rightarrow> ((err \<times> generic_interface_mac) \<times> 'w world_scheme) option" where
  "generic_interface_allocate_mac E w = do {
     (gi, w) \<leftarrow> malloc E w;
     if gi = NULL then Some ((error_no_memory, NULL), w)
     else do {
       gi \<leftarrow> store gi \<lparr>gi_device_id = 0, gi_interface_number = 0, has_interface_id = False,
         gi_interface_id = 0\<rparr> w;
       Some ((NULL, gi), w)
     }
   }"

definition libusbp_generic_interface_free_mac :: "generic_interface_mac \<Rightarrow> 'w world_scheme
    \<Rightarrow> 'w world_scheme option" where
  "libusbp_generic_interface_free_mac gi w = free gi w"

text \<open>The block for composite devices; a failed \<open>assert\<close> is a fault.\<close>

definition record_interface_id :: "'e iokit_scheme \<Rightarrow> 8 word \<Rightarrow> generic_interface_mac \<Rightarrow> 'w world_scheme
    \<Rightarrow> ((err \<times> generic_interface_mac) \<times> 'w world_scheme) option" where
  "record_interface_id E interface_number new_gi w = do {
     x \<leftarrow> deref new_gi w;
     ((error, device_service), w) \<leftarrow> service_get_from_id E (gi_device_id x) w;
     ((error, interface_service), w) \<leftarrow> ok_then error None
       (service_get_usb_interface E device_service interface_number) w;
     ((error, new_gi), w) \<leftarrow> ok_then error new_gi
       (set_field (get_id E interface_service) (\<lambda>v x. x\<lparr>gi_interface_id := v\<rparr>) new_gi) w;
     new_gi \<leftarrow> (if error = NULL then do {
         x \<leftarrow> deref new_gi w;
         if gi_interface_id x = 0 \<or> gi_interface_id x = gi_device_id x then None
         else store new_gi (x\<lparr>has_interface_id := True\<rparr>) w
       }
       else Some new_gi);
     w \<leftarrow> release_object IoObject device_service w;
     w \<leftarrow> release_object IoObject interface_service w;
     Some ((error, new_gi), w)
   }"

definition libusbp_generic_interface_create_mac :: "'e iokit_scheme \<Rightarrow> device_mac \<Rightarrow> 8 word \<Rightarrow> bool
    \<Rightarrow> bool \<Rightarrow> 'w world_scheme \<Rightarrow> ((err \<times> generic_interface_mac) \<times> 'w world_scheme) option" where
  "libusbp_generic_interface_create_mac E device interface_number composite given w =
     (if \<not> given then do {
        (error, w) \<leftarrow> error_create E ''Generic interface output pointer is null.'' w;
        Some ((error, NULL), w)
      }
      else if device = NULL then do {
        (error, w) \<leftarrow> error_create E ''Device is null.'' w;
        Some ((error, NULL), w)
      }
      else do {
        ((error, new_gi), w) \<leftarrow> generic_interface_allocate_mac E w;
        ((error, new_gi), w) \<leftarrow> ok_then error new_gi (\<lambda>w. do {
            i \<leftarrow> device_get_id device w;
            x \<leftarrow> deref new_gi w;
            new_gi \<leftarrow> store new_gi (x\<lparr>gi_device_id := i\<rparr>) w;
            Some ((NULL, new_gi), w)
          }) w;
        ((error, new_gi), w) \<leftarrow> ok_then error new_gi (\<lambda>w. do {
            x \<leftarrow> deref new_gi w;
            new_gi \<leftarrow> store new_gi (x\<lparr>gi_interface_number := interface_number\<rparr>) w;
            Some ((NULL, new_gi), w)
          }) w;
        ((error, new_gi), w) \<leftarrow> (if error = NULL \<and> composite
          then record_interface_id E interface_number new_gi w else Some ((error, new_gi), w));
        let (gi, new_gi) = (if error = NULL then (new_gi, NULL) else (NULL, new_gi));
        w \<leftarrow> libusbp_generic_interface_free_mac new_gi w;
        Some ((error, gi), w)
      })"

definition libusbp_generic_interface_copy_mac :: "'e environment_scheme \<Rightarrow> generic_interface_mac
    \<Rightarrow> bool \<Rightarrow> 'w world_scheme \<Rightarrow> ((err \<times> generic_interface_mac) \<times> 'w world_scheme) option" where
  "libusbp_generic_interface_copy_mac E source given w =
     (if \<not> given then do {
        (error, w) \<leftarrow> error_create E ''Generic interface output pointer is null.'' w;
        Some ((error, NULL), w)
      }
      else if source = NULL then Some ((NULL, NULL), w)
      else do {
        ((error, new_gi), w) \<leftarrow> generic_interface_allocate_mac E w;
        ((error, new_gi), w) \<leftarrow> ok_then error new_gi (\<lambda>w. do {
            x \<leftarrow> deref source w;
            new_gi \<leftarrow> store new_gi x w;
            Some ((NULL, new_gi), w)
          }) w;
        let (dest, new_gi) = (if error = NULL then (new_gi, NULL) else (NULL, new_gi));
        w \<leftarrow> libusbp_generic_interface_free_mac new_gi w;
        Some ((error, dest), w)
      })"

definition generic_interface_get_device_id :: "generic_interface_mac \<Rightarrow> 'w world_scheme \<Rightarrow> 64 word option" where
  "generic_interface_get_device_id gi w =
     (if gi = NULL then None else do { x \<leftarrow> deref gi w; Some (gi_device_id x) })"

definition generic_interface_get_interface_number :: "generic_interface_mac \<Rightarrow> 'w world_scheme
    \<Rightarrow> 8 word option" where
  "generic_interface_get_interface_number gi w =
     (if gi = NULL then None else do { x \<leftarrow> deref gi w; Some (gi_interface_number x) })"

definition generic_interface_get_interface_id :: "generic_interface_mac \<Rightarrow> 'w world_scheme
    \<Rightarrow> (bool \<times> 64 word) option" where
  "generic_interface_get_interface_id gi w =
     (if gi = NULL then None
      else do {
        x \<leftarrow> deref gi w;
        if has_interface_id x then Some (True, gi_interface_id x) else Some (False, 0)
      })"

definition libusbp_generic_interface_get_os_id_mac :: "'e environment_scheme \<Rightarrow> generic_interface_mac
    \<Rightarrow> bool \<Rightarrow> 'w world_scheme \<Rightarrow> ((err \<times> cstr) \<times> 'w world_scheme) option" where
  "libusbp_generic_interface_get_os_id_mac E gi given w =
     (if \<not> given then do {
        (error, w) \<leftarrow> error_create E ''String output pointer is null.'' w;
        Some ((error, NULL), w)
      }
      else if gi = NULL then do {
        (error, w) \<leftarrow> error_create E ''Generic interface is null.'' w;
        Some ((error, NULL), w)
      }
      else do {
        x \<leftarrow> deref gi w;
        let idnum = (if has_interface_id x then gi_interface_id x else gi_device_id x);
        iokit_id_to_string E idnum w
      })"

definition libusbp_generic_interface_get_os_filename_mac :: "'e environment_scheme
    \<Rightarrow> generic_interface_mac \<Rightarrow> bool \<Rightarrow> 'w world_scheme \<Rightarrow> ((err \<times> cstr) \<times> 'w world_scheme) option" where
  "libusbp_generic_interface_get_os_filename_mac E gi given w =
     libusbp_generic_interface_get_os_id_mac E gi given w"

section \<open>What generic interfaces own and say\<close>

text \<open>
  The IDs of the registry: none is zero, and a child of an entry does not have the ID that the entry
  was found by.
\<close>

definition registry_ids :: "'e iokit_scheme \<Rightarrow> bool" where
  "registry_ids E \<longleftrightarrow> (\<forall>y. \<not> entry_id E y 0) \<and>
     (\<forall>i x xs y. entry_with_id E i x \<longrightarrow> children_of E x xs \<longrightarrow> y \<in> set xs \<longrightarrow> \<not> entry_id E y i)"

definition wf_gi_mac :: "generic_interface_mac \<Rightarrow> bool" where
  "wf_gi_mac gi \<longleftrightarrow> \<not> is_static gi"

text \<open>The ID of an interface of the device with a given ID.\<close>

definition usb_interface_id :: "'e iokit_scheme \<Rightarrow> 64 word \<Rightarrow> 8 word \<Rightarrow> 64 word \<Rightarrow> bool" where
  "usb_interface_id E dev num i \<longleftrightarrow>
     (\<exists>x y. entry_with_id E dev x \<and> interface_of E x num y \<and> entry_id E y i)"

definition gi_made_mac :: "'e iokit_scheme \<Rightarrow> 64 word \<Rightarrow> 8 word \<Rightarrow> bool \<Rightarrow> generic_interface_mac \<Rightarrow> bool" where
  "gi_made_mac E dev num composite gi \<longleftrightarrow> (\<exists>n x. gi = Heap n x \<and> gi_device_id x = dev \<and>
     gi_interface_number x = num \<and> has_interface_id x = composite \<and>
     (composite \<longrightarrow> usb_interface_id E dev num (gi_interface_id x)))"

lemma usb_interface_id_ok:
  "registry_ids E \<Longrightarrow> usb_interface_id E dev num i \<Longrightarrow> i \<noteq> 0 \<and> i \<noteq> dev"
  unfolding registry_ids_def usb_interface_id_def interface_of_def by blast

lemma usb_interface_idI:
  "entry_with_id E dev x \<Longrightarrow> interface_of E x num y \<Longrightarrow> entry_id E y i \<Longrightarrow> usb_interface_id E dev num i"
  unfolding usb_interface_id_def by blast

lemma record_interface_id_wp:
  assumes "registry_ids E" "(Mem, n) \<in># live w"
    and "\<And>i w'. later w w' \<Longrightarrow> live w' = live w \<Longrightarrow> usb_interface_id E (gi_device_id x) num i \<Longrightarrow>
      Q (NULL, Heap n (x\<lparr>gi_interface_id := i, has_interface_id := True\<rparr>)) w'"
    and "\<And>e y w'. e \<noteq> NULL \<Longrightarrow> wf_err e \<Longrightarrow> later w w' \<Longrightarrow> live w' = live w + err_res e \<Longrightarrow>
      Q (e, Heap n y) w'"
  shows "runs (record_interface_id E num (Heap n x) w) Q"
proof -
  have ids: "i \<noteq> 0" "i \<noteq> gi_device_id x"
    if "entry_with_id E (gi_device_id x) z" "interface_of E z num y" "entry_id E y i" for z y i
    using usb_interface_id_ok [OF assms(1) usb_interface_idI [OF that]] by simp_all
  show ?thesis
    unfolding record_interface_id_def
    using assms(2-4) ids
    by (auto simp: set_field_def later_def ok_then_error
        intro!: runs_bind service_get_from_id_wp service_get_usb_interface_wp get_id_wp)
      (rule assms(3) [OF _ _ usb_interface_idI], simp_all add: later_def)
qed

lemma libusbp_generic_interface_create_mac_gives:
  assumes "wf_device_mac d" "d \<noteq> NULL" "dev_res_mac d \<subseteq># live w" "dev_view_mac d = Some (dev, v)"
    and "composite \<Longrightarrow> registry_ids E"
  shows "runs (libusbp_generic_interface_create_mac E d num composite True w) (gives blk NULL
     (gi_made_mac E dev num composite)
     (\<lambda>e. composite \<or> e = error_no_memory \<and> \<not> memory_ok E) w)"
proof -
  obtain n x where d: "d = Heap n x" using assms(1,2) by (cases d) auto
  with assms(3) have "(Mem, n) \<in># live w" by (auto simp: mset_subset_eq_exists_conv)
  with d assms(4,5) show ?thesis
    by (auto simp: libusbp_generic_interface_create_mac_def generic_interface_allocate_mac_def Let_def
        device_get_id_def gi_made_mac_def libusbp_generic_interface_free_mac_def later_def
        intro!: wp record_interface_id_wp)
qed

lemmas libusbp_generic_interface_create_mac_wp = gives_wp [OF libusbp_generic_interface_create_mac_gives]

lemma libusbp_generic_interface_copy_mac_gives:
  assumes "wf_gi_mac gi" and "blk gi \<subseteq># live w"
  shows "runs (libusbp_generic_interface_copy_mac E gi True w) (gives blk NULL
     (\<lambda>c. wf_gi_mac c \<and> (case gi of NULL \<Rightarrow> c = NULL | Heap n x \<Rightarrow> \<exists>m. c = Heap m x))
     (\<lambda>e. e = error_no_memory \<and> \<not> memory_ok E) w)"
  using assms
  by (cases gi) (auto simp: libusbp_generic_interface_copy_mac_def generic_interface_allocate_mac_def
      Let_def wf_gi_mac_def libusbp_generic_interface_free_mac_def later_def intro!: wp)

interpretation generic_interface_mac: releases libusbp_generic_interface_free_mac blk wf_gi_mac
  by unfold_locales (simp add: libusbp_generic_interface_free_mac_def wf_gi_mac_def free_ok)

interpretation generic_interface_mac_new: constructor libusbp_generic_interface_free_mac blk wf_gi_mac
    "\<lambda>(d, num, composite). libusbp_generic_interface_create_mac E d num composite True" NULL
    "\<lambda>(d, num, composite) w. wf_device_mac d \<and> d \<noteq> NULL \<and> dev_res_mac d \<subseteq># live w \<and>
       (composite \<longrightarrow> registry_ids E)"
    "\<lambda>(d, num, composite) gi. wf_gi_mac gi \<and> (\<exists>dev v. dev_view_mac d = Some (dev, v) \<and>
       gi_made_mac E dev num composite gi)"
    for E :: "'e iokit_scheme"
proof (unfold_locales, clarsimp, goal_cases)
  case (1 d num composite w)
  then obtain n x where d: "d = Heap n x" by (cases d) auto
  show ?case
    by (rule libusbp_generic_interface_create_mac_wp [of d w "id_mac x"])
      (use 1 d in \<open>auto simp: wf_gi_mac_def gi_made_mac_def\<close>)
qed (auto simp: wf_gi_mac_def)


section \<open>Properties\<close>

text \<open>
  A generic interface made on macOS records the ID of the device and the number of the interface,
  and, for a composite device only, the ID of an entry that stands for this interface; the asserted
  facts that this ID is not zero and not the device's always hold.  The ID for the user is that of the
  interface if it is known and else that of the device, whatever the number.  Freeing the object gives
  back everything.
\<close>

theorem generic_interface_create_mac_correct:
  assumes d: "wf_device_mac d" "d \<noteq> NULL" "dev_res_mac d \<subseteq># live w" "dev_view_mac d = Some (dev, v)"
    and ids: "registry_ids E"
  shows "runs (libusbp_generic_interface_create_mac E d num composite True w) (\<lambda>(e, gi) w'.
    live w' = live w + err_res e + blk gi \<and>
    (if e = NULL then
       generic_interface_get_device_id gi w' = Some dev \<and>
       generic_interface_get_interface_number gi w' = Some num \<and>
       (\<exists>i. generic_interface_get_interface_id gi w' = Some (composite, i) \<and>
         (composite \<longrightarrow> usb_interface_id E dev num i \<and> i \<noteq> 0 \<and> i \<noteq> dev) \<and>
         runs (libusbp_generic_interface_get_os_id_mac E gi True w') (\<lambda>(e2, s) w2.
           e2 = NULL \<and> str_view s = Some (fmt_x 0 (unat (if composite then i else dev))) \<or>
           e2 = error_no_memory \<and> s = NULL \<and> \<not> memory_ok E)) \<and>
       (\<exists>w''. libusbp_generic_interface_free_mac gi w' = Some w'' \<and> live w'' = live w)
     else gi = NULL \<and> (composite \<or> e = error_no_memory \<and> \<not> memory_ok E)))"
proof (rule libusbp_generic_interface_create_mac_wp [OF d ids], goal_cases)
  case (1 r w')
  then obtain n x where gi: "r = Heap n x" "gi_device_id x = dev" "gi_interface_number x = num"
      "has_interface_id x = composite" "composite \<longrightarrow> usb_interface_id E dev num (gi_interface_id x)"
    by (auto simp: gi_made_mac_def)
  then have "runs (libusbp_generic_interface_get_os_id_mac E r True w') (\<lambda>(e2, s) w2.
      e2 = NULL \<and> str_view s = Some (fmt_x 0 (unat (if composite then gi_interface_id x else dev))) \<or>
      e2 = error_no_memory \<and> s = NULL \<and> \<not> memory_ok E)"
    using 1 by (auto simp: libusbp_generic_interface_get_os_id_mac_def Let_def intro!: iokit_id_to_string_wp)
  with 1 gi show ?case
    using usb_interface_id_ok [OF ids, of dev num "gi_interface_id x"]
    by (auto simp: generic_interface_get_device_id_def generic_interface_get_interface_number_def
        generic_interface_get_interface_id_def libusbp_generic_interface_free_mac_def)
qed auto

theorem generic_interface_create_mac_correct_witness:
  "runs (libusbp_generic_interface_create_mac demo_iokit
      (Heap 5 \<lparr>id_mac = 0x1001, product_id_mac = 1, vendor_id_mac = 2, revision_mac = 3, serial_number_mac = NULL\<rparr>)
      1 True True \<lparr>next_id = 6, live = {#(Mem, 5)#}\<rparr>)
    (\<lambda>(e, gi) w'. if e = NULL then generic_interface_get_device_id gi w' = Some 0x1001 else gi = NULL)"
  by (rule runs_mono [OF generic_interface_create_mac_correct])
    (auto simp: registry_ids_def entry_id_def entry_with_id_def children_of_def demo_iokit_def
      split: if_splits)

end
