(* ===== verification/GenericHandleMac.thy ===== *)
theory GenericHandleMac
  imports GenericInterfaceMac Buffers
begin

text \<open>
  \<open>src/src/mac/generic_handle_mac.c\<close> without its event loop: handles on macOS, which own an interface
  object of IOKit with exclusive access and the plug-in it was made with, the tables that turn
  endpoint addresses into pipe indices, and synchronous transfers.
\<close>

unbundle bit_operations_syntax

section \<open>IOUSBLib\<close>

text \<open>
  What the sources use of the interfaces of devices and interfaces.  An object is its identity and the
  registry entry it stands for.  A transfer answers a code or none; a read and a control transfer answer
  as well the bytes that were written to the buffer, never more than the length they are given, and the
  number that is left in the variable for the size.
\<close>

record IOUSBDevRequestTO =
  bmRequestType_mac :: "8 word"
  bRequest_mac :: "8 word"
  wValue_mac :: "16 word"
  wIndex_mac :: "16 word"
  wLength_mac :: "16 word"
  completionTimeout :: "32 word"

record iousb = iokit +
  GetConfiguration :: "nat \<Rightarrow> nat \<Rightarrow> 32 word + 8 word"
  SetConfiguration :: "nat \<Rightarrow> nat \<Rightarrow> 8 word \<Rightarrow> 32 word option"
  USBDeviceOpen :: "nat \<Rightarrow> nat \<Rightarrow> 32 word option"
  USBInterfaceOpen :: "nat \<Rightarrow> nat \<Rightarrow> 32 word option"
  GetNumEndpoints :: "nat \<Rightarrow> nat \<Rightarrow> 32 word + 8 word"
  GetPipeProperties :: "nat \<Rightarrow> nat \<Rightarrow> 32 word \<Rightarrow> 32 word + 8 word \<times> 8 word"
  CreateInterfaceAsyncPort :: "nat \<Rightarrow> nat \<Rightarrow> 32 word + nat"
  ControlRequestTO :: "nat \<Rightarrow> nat \<Rightarrow> IOUSBDevRequestTO \<Rightarrow> 8 word list option
    \<Rightarrow> 32 word option \<times> 8 word list \<times> 32 word"
  ReadPipeTO :: "nat \<Rightarrow> nat \<Rightarrow> 32 word \<Rightarrow> 32 word \<Rightarrow> 32 word \<Rightarrow> 32 word
    \<Rightarrow> 32 word option \<times> 8 word list \<times> 32 word"
  WritePipeTO :: "nat \<Rightarrow> nat \<Rightarrow> 32 word \<Rightarrow> 8 word list \<Rightarrow> 32 word \<Rightarrow> 32 word \<Rightarrow> 32 word option"

type_synonym usb_object = "(nat \<times> nat) option"

text \<open>Opening an object for exclusive access, and closing it, which has no effect on one that is not open.\<close>

definition usb_open :: "(nat \<Rightarrow> nat \<Rightarrow> 32 word option) \<Rightarrow> usb_object \<Rightarrow> 'w world_scheme
    \<Rightarrow> (32 word option \<times> 'w world_scheme) option" where
  "usb_open q obj w = do {
     (u, x) \<leftarrow> obj;
     (r, w) \<leftarrow> ask_object UsbObject obj q w;
     Some (r, if r = None then w\<lparr>live := add_mset (ExclusiveAccess, u) (live w)\<rparr> else w)
   }"

definition usb_close :: "usb_object \<Rightarrow> 'w world_scheme \<Rightarrow> 'w world_scheme option" where
  "usb_close obj w = do {
     (u, x) \<leftarrow> obj;
     borrow (UsbObject, u) w;
     Some (if (ExclusiveAccess, u) \<in># live w then drop_res {#(ExclusiveAccess, u)#} w else w)
   }"

section \<open>The operations of generic_handle_mac.c\<close>

record libusbp_generic_handle_mac =
  ioh :: usb_object
  plug_in :: "nat option"
  async_port :: "nat option"
  out_timeout_mac :: "32 word list"
  in_timeout_mac :: "32 word list"
  out_pipe_index :: "8 word list"
  in_pipe_index :: "8 word list"

type_synonym generic_handle_mac = "libusbp_generic_handle_mac ptr"

lemma unat_ucast_8 [simp]: "unat (ucast (c :: 8 word) :: 32 word) = unat c"
proof -
  have "unat c < 2 ^ 32" using unsigned_less [of c] by (rule order.strict_trans) simp
  then show ?thesis by (simp add: unsigned_ucast_eq take_bit_nat_eq_self)
qed

function pipe_loop :: "'e iousb_scheme \<Rightarrow> 8 word \<Rightarrow> 32 word \<Rightarrow> generic_handle_mac \<Rightarrow> 'w world_scheme
    \<Rightarrow> ((err \<times> generic_handle_mac) \<times> 'w world_scheme) option" where
  "pipe_loop E endpoint_count i handle w =
     (if i \<le> ucast endpoint_count then do {
        x \<leftarrow> deref handle w;
        (r, w) \<leftarrow> ask_object UsbObject (ioh x) (\<lambda>k y. GetPipeProperties E k y i) w;
        case r of
          Inl kr \<Rightarrow> do {
            (error, w) \<leftarrow> error_create_mach E kr
              (''Failed to get pipe properties for pipe '' @ fmt_d (sint i) @ ''.'') w;
            Some ((error, handle), w)
          }
        | Inr (direction, endpoint_number) \<Rightarrow> do {
            handle \<leftarrow> (if endpoint_number \<le> MAX_ENDPOINT_NUMBER
              then if direction \<noteq> 0
                then do {
                  a \<leftarrow> array_set (in_pipe_index x) (unat endpoint_number) (ucast i);
                  store handle (x\<lparr>in_pipe_index := a\<rparr>) w
                }
                else do {
                  a \<leftarrow> array_set (out_pipe_index x) (unat endpoint_number) (ucast i);
                  store handle (x\<lparr>out_pipe_index := a\<rparr>) w
                }
              else Some handle);
            pipe_loop E endpoint_count (i + 1) handle w
          }
      }
      else Some ((NULL, handle), w))"
  by pat_completeness auto

termination
proof (relation "measure (\<lambda>(E, c, i, h, w). 257 - unat i)", goal_cases)
  case 1
  then show ?case by simp
next
  case (2 E c i)
  then have "unat i \<le> unat c"
    by (simp add: word_le_nat_alt)
  moreover have "unat c < 256" using unsigned_less [of c] by simp
  ultimately have "unat (i + 1) = unat i + 1" "unat i < 256" by (simp_all add: unat_word_ariths)
  then show ?case by simp
qed

declare pipe_loop.simps [simp del]

definition process_pipe_properties :: "'e iousb_scheme \<Rightarrow> generic_handle_mac \<Rightarrow> 'w world_scheme
    \<Rightarrow> ((err \<times> generic_handle_mac) \<times> 'w world_scheme) option" where
  "process_pipe_properties E handle w = do {
     x \<leftarrow> deref handle w;
     (r, w) \<leftarrow> ask_object UsbObject (ioh x) (GetNumEndpoints E) w;
     case r of
       Inl kr \<Rightarrow> do {
         (error, w) \<leftarrow> error_create_mach E kr ''Failed to get number of endpoints.'' w;
         Some ((error, handle), w)
       }
     | Inr endpoint_count \<Rightarrow> pipe_loop E endpoint_count 1 handle w
   }"

text \<open>A call that answers a code or none, as an error.\<close>

definition mach_check :: "'e iousb_scheme \<Rightarrow> 32 word option \<Rightarrow> string \<Rightarrow> 'w world_scheme
    \<Rightarrow> (err \<times> 'w world_scheme) option" where
  "mach_check E r format w = (case r of Some kr \<Rightarrow> error_create_mach E kr format w | None \<Rightarrow> Some (NULL, w))"

definition set_configuration :: "'e iousb_scheme \<Rightarrow> io_service \<Rightarrow> 'w world_scheme
    \<Rightarrow> (err \<times> 'w world_scheme) option" where
  "set_configuration E service w = do {
     ((error, dev_handle, plug_in), w) \<leftarrow> service_to_interface E service kIOUSBDeviceUserClientTypeID
       kIOUSBDeviceInterfaceID197 True w;
     (config_num, w) \<leftarrow> (if error = NULL then do {
         (r, w) \<leftarrow> ask_object UsbObject dev_handle (GetConfiguration E) w;
         Some (case r of Inl kr \<Rightarrow> 0 | Inr n \<Rightarrow> n, w)
       }
       else Some (0, w));
     (error, w) \<leftarrow> (if error = NULL \<and> config_num = 0 then do {
         (r, w) \<leftarrow> usb_open (USBDeviceOpen E) dev_handle w;
         mach_check E r ''Failed to open handle to device.'' w
       }
       else Some (error, w));
     (error, w) \<leftarrow> (if error = NULL \<and> config_num = 0 then do {
         (r, w) \<leftarrow> ask_object UsbObject dev_handle (\<lambda>k x. SetConfiguration E k x 1) w;
         mach_check E r ''Failed to set configuration to 1.'' w
       }
       else Some (error, w));
     w \<leftarrow> (if dev_handle \<noteq> None then do {
         w \<leftarrow> usb_close dev_handle w;
         w \<leftarrow> release_object UsbObject dev_handle w;
         p \<leftarrow> plug_in;
         release (PlugIn, p) w
       }
       else Some w);
     Some (error, w)
   }"

definition set_configuration_and_get_service :: "'e iousb_scheme \<Rightarrow> generic_interface_mac
    \<Rightarrow> 'w world_scheme \<Rightarrow> ((err \<times> io_service) \<times> 'w world_scheme) option" where
  "set_configuration_and_get_service E gi w = do {
     device_id \<leftarrow> generic_interface_get_device_id gi w;
     interface_number \<leftarrow> generic_interface_get_interface_number gi w;
     ((error, device_service), w) \<leftarrow> service_get_from_id E device_id w;
     (error, w) \<leftarrow> ok_do error (set_configuration E device_service) w;
     ((error, service), w) \<leftarrow> ok_then error None
       (service_get_usb_interface E device_service interface_number) w;
     w \<leftarrow> release_object IoObject device_service w;
     Some ((error, service), w)
   }"

definition libusbp_generic_handle_close_mac :: "generic_handle_mac \<Rightarrow> 'w world_scheme
    \<Rightarrow> 'w world_scheme option" where
  "libusbp_generic_handle_close_mac handle w =
     (if handle \<noteq> NULL then do {
        x \<leftarrow> deref handle w;
        w \<leftarrow> (if ioh x \<noteq> None then do {
            w \<leftarrow> usb_close (ioh x) w;
            w \<leftarrow> release_object UsbObject (ioh x) w;
            p \<leftarrow> plug_in x;
            release (PlugIn, p) w
          }
          else Some w);
        free handle w
      }
      else Some w)"

definition generic_handle_allocate_mac :: "'e environment_scheme \<Rightarrow> 'w world_scheme
    \<Rightarrow> ((err \<times> generic_handle_mac) \<times> 'w world_scheme) option" where
  "generic_handle_allocate_mac E w = do {
     (new_handle, w) \<leftarrow> malloc E w;
     if new_handle = NULL then Some ((error_no_memory, NULL), w)
     else do {
       new_handle \<leftarrow> store new_handle \<lparr>ioh = None, plug_in = None, async_port = None,
         out_timeout_mac = replicate 16 0, in_timeout_mac = replicate 16 0,
         out_pipe_index = replicate 16 0, in_pipe_index = replicate 16 0\<rparr> w;
       Some ((NULL, new_handle), w)
     }
   }"

definition libusbp_generic_handle_open_mac :: "'e iousb_scheme \<Rightarrow> generic_interface_mac \<Rightarrow> bool
    \<Rightarrow> 'w world_scheme \<Rightarrow> ((err \<times> generic_handle_mac) \<times> 'w world_scheme) option" where
  "libusbp_generic_handle_open_mac E gi given w =
     (if \<not> given then do {
        (error, w) \<leftarrow> error_create E ''Generic handle output pointer is null.'' w;
        Some ((error, NULL), w)
      }
      else if gi = NULL then do {
        (error, w) \<leftarrow> error_create E ''Generic interface is null.'' w;
        Some ((error, NULL), w)
      }
      else do {
        ((error, new_handle), w) \<leftarrow> generic_handle_allocate_mac E w;
        ((error, service), w) \<leftarrow> ok_then error None (\<lambda>w. do {
            (has_interface_id, interface_id) \<leftarrow> generic_interface_get_interface_id gi w;
            if has_interface_id then service_get_from_id E interface_id w
            else set_configuration_and_get_service E gi w
          }) w;
        ((error, new_handle), w) \<leftarrow> ok_then error new_handle
          (set_field (service_to_interface E service kIOUSBInterfaceUserClientTypeID
              kIOUSBInterfaceInterfaceID182 True)
            (\<lambda>(object, p) x. x\<lparr>ioh := object, plug_in := p\<rparr>) new_handle) w;
        (error, w) \<leftarrow> ok_do error (\<lambda>w. do {
            x \<leftarrow> deref new_handle w;
            (r, w) \<leftarrow> usb_open (USBInterfaceOpen E) (ioh x) w;
            mach_check E r ''Failed to open generic handle.'' w
          }) w;
        ((error, new_handle), w) \<leftarrow> ok_then error new_handle (process_pipe_properties E new_handle) w;
        ((error, new_handle), w) \<leftarrow> ok_then error new_handle (\<lambda>w. do {
            x \<leftarrow> deref new_handle w;
            (r, w) \<leftarrow> ask_object UsbObject (ioh x) (CreateInterfaceAsyncPort E) w;
            case r of
              Inl kr \<Rightarrow> do {
                (error, w) \<leftarrow> error_create_mach E kr ''Failed to create asynchronous port.'' w;
                Some ((error, new_handle), w)
              }
            | Inr p \<Rightarrow> do {
                new_handle \<leftarrow> store new_handle (x\<lparr>async_port := Some p\<rparr>) w;
                Some ((NULL, new_handle), w)
              }
          }) w;
        let (handle, new_handle) = (if error = NULL then (new_handle, NULL) else (NULL, new_handle));
        w \<leftarrow> libusbp_generic_handle_close_mac new_handle w;
        w \<leftarrow> release_object IoObject service w;
        Some ((error, handle), w)
      })"

definition libusbp_generic_handle_set_timeout_mac :: "'e environment_scheme \<Rightarrow> generic_handle_mac
    \<Rightarrow> 8 word \<Rightarrow> 32 word \<Rightarrow> 'w world_scheme \<Rightarrow> ((err \<times> generic_handle_mac) \<times> 'w world_scheme) option" where
  "libusbp_generic_handle_set_timeout_mac E handle pipe_id timeout w =
     (if handle = NULL then do {
        (error, w) \<leftarrow> error_create E ''Generic handle is null.'' w;
        Some ((error, handle), w)
      }
      else do {
        (error, w) \<leftarrow> check_pipe_id E pipe_id w;
        ok_then error handle (\<lambda>w. do {
          x \<leftarrow> deref handle w;
          let endpoint_number = unat (pipe_id AND MAX_ENDPOINT_NUMBER);
          handle \<leftarrow> (if pipe_id AND 0x80 \<noteq> 0
            then do {
              a \<leftarrow> array_set (in_timeout_mac x) endpoint_number timeout;
              store handle (x\<lparr>in_timeout_mac := a\<rparr>) w
            }
            else do {
              a \<leftarrow> array_set (out_timeout_mac x) endpoint_number timeout;
              store handle (x\<lparr>out_timeout_mac := a\<rparr>) w
            });
          Some ((NULL, handle), w)
        }) w
      })"

text \<open>
  Transfers return the error, the count the caller sees (\<open>None\<close> without an output pointer) and the
  caller's buffer.  A control transfer uses the timeout of endpoint 0, and it reports the count also
  when it fails.
\<close>

definition libusbp_control_transfer_mac :: "'e iousb_scheme \<Rightarrow> generic_handle_mac \<Rightarrow> 8 word
    \<Rightarrow> 8 word \<Rightarrow> 16 word \<Rightarrow> 16 word \<Rightarrow> 8 word list option \<Rightarrow> 16 word \<Rightarrow> bool \<Rightarrow> 'w world_scheme
    \<Rightarrow> ((err \<times> nat option \<times> 8 word list option) \<times> 'w world_scheme) option" where
  "libusbp_control_transfer_mac E handle request_type request v i data len given w =
     (if handle = NULL then do {
        (error, w) \<leftarrow> error_create E ''Generic handle is null.'' w;
        Some ((error, if given then Some 0 else None, data), w)
      }
      else do {
        x \<leftarrow> deref handle w;
        timeout \<leftarrow> array_get (out_timeout_mac x) 0;
        let r = \<lparr>bmRequestType_mac = request_type, bRequest_mac = request, wValue_mac = v, wIndex_mac = i,
          wLength_mac = len, completionTimeout = timeout\<rparr>;
        ((kr, bytes, wLenDone), w) \<leftarrow> ask_object UsbObject (ioh x) (\<lambda>k y. ControlRequestTO E k y r data) w;
        data \<leftarrow> (if request_type AND 0x80 \<noteq> 0 then fill_buffer data (take (unat len) bytes) else Some data);
        let transferred = (if given then Some (unat wLenDone) else None);
        (error, w) \<leftarrow> mach_check E kr ''Control transfer failed.'' w;
        Some ((error, transferred, data), w)
      })"

definition libusbp_read_pipe_mac :: "'e iousb_scheme \<Rightarrow> generic_handle_mac \<Rightarrow> 8 word
    \<Rightarrow> 8 word list option \<Rightarrow> nat \<Rightarrow> bool \<Rightarrow> 'w world_scheme
    \<Rightarrow> ((err \<times> nat option \<times> 8 word list option) \<times> 'w world_scheme) option" where
  "libusbp_read_pipe_mac E handle pipe_id data n given w =
     (let none = (if given then Some 0 else None)
      in if handle = NULL then do {
        (error, w) \<leftarrow> error_create E ''Generic handle is null.'' w;
        Some ((error, none, data), w)
      }
      else do {
        (error, w) \<leftarrow> (if n = 0 then error_create E ''Transfer size 0 is not allowed.'' w
          else Some (NULL, w));
        (error, w) \<leftarrow> (if error = NULL \<and> n > UINT32_MAX
          then error_create E ''Transfer size is too large.'' w else Some (error, w));
        (error, w) \<leftarrow> (if error = NULL \<and> data = None
          then error_create E ''Buffer is null.'' w else Some (error, w));
        (error, w) \<leftarrow> ok_do error (check_pipe_id_in E pipe_id) w;
        ((error, transferred, data), w) \<leftarrow> ok_then error (none, data) (\<lambda>w. do {
            x \<leftarrow> deref handle w;
            let endpoint_number = unat (pipe_id AND MAX_ENDPOINT_NUMBER);
            completion_timeout \<leftarrow> array_get (in_timeout_mac x) endpoint_number;
            pipe_index \<leftarrow> array_get (in_pipe_index x) endpoint_number;
            let iokit_size = (of_nat n :: 32 word);
            ((kr, bytes, iokit_size), w) \<leftarrow> ask_object UsbObject (ioh x)
              (\<lambda>k y. ReadPipeTO E k y (ucast pipe_index) iokit_size 0 completion_timeout) w;
            data \<leftarrow> fill_buffer data (take n bytes);
            (error, w) \<leftarrow> mach_check E kr '''' w;
            Some ((error, if given then Some (unat iokit_size) else None, data), w)
          }) w;
        (error, w) \<leftarrow> (if error \<noteq> NULL
          then error_add E error ''Failed to read from pipe.'' w else Some (NULL, w));
        Some ((error, transferred, data), w)
      })"

definition libusbp_write_pipe_mac :: "'e iousb_scheme \<Rightarrow> generic_handle_mac \<Rightarrow> 8 word
    \<Rightarrow> 8 word list option \<Rightarrow> nat \<Rightarrow> bool \<Rightarrow> 'w world_scheme \<Rightarrow> ((err \<times> nat option) \<times> 'w world_scheme) option" where
  "libusbp_write_pipe_mac E handle pipe_id data n given w =
     (let none = (if given then Some 0 else None)
      in if handle = NULL then do {
        (error, w) \<leftarrow> error_create E ''Generic handle is null.'' w;
        Some ((error, none), w)
      }
      else do {
        (error, w) \<leftarrow> (if n > UINT32_MAX
          then error_create E ''Transfer size is too large.'' w else Some (NULL, w));
        (error, w) \<leftarrow> (if error = NULL \<and> data = None \<and> n \<noteq> 0
          then error_create E ''Buffer is null.'' w else Some (error, w));
        (error, w) \<leftarrow> ok_do error (check_pipe_id_out E pipe_id) w;
        (error, w) \<leftarrow> ok_do error (\<lambda>w. do {
            x \<leftarrow> deref handle w;
            let endpoint_number = unat (pipe_id AND MAX_ENDPOINT_NUMBER);
            completion_timeout \<leftarrow> array_get (out_timeout_mac x) endpoint_number;
            pipe_index \<leftarrow> array_get (out_pipe_index x) endpoint_number;
            bytes \<leftarrow> (case data of None \<Rightarrow> Some [] | Some b \<Rightarrow>
              if n \<le> length b then Some (take n b) else None);
            (kr, w) \<leftarrow> ask_object UsbObject (ioh x)
              (\<lambda>k y. WritePipeTO E k y (ucast pipe_index) bytes 0 completion_timeout) w;
            mach_check E kr '''' w
          }) w;
        let transferred = (if error = NULL \<and> given then Some n else none);
        (error, w) \<leftarrow> (if error \<noteq> NULL
          then error_add E error ''Failed to write to pipe.'' w else Some (NULL, w));
        Some ((error, transferred), w)
      })"

definition libusbp_generic_handle_get_cf_plug_in :: "generic_handle_mac \<Rightarrow> 'w world_scheme
    \<Rightarrow> nat option option" where
  "libusbp_generic_handle_get_cf_plug_in handle w =
     (if handle = NULL then Some None else do { x \<leftarrow> deref handle w; Some (plug_in x) })"

definition generic_handle_get_ioh :: "generic_handle_mac \<Rightarrow> 'w world_scheme \<Rightarrow> usb_object option" where
  "generic_handle_get_ioh handle w =
     (if handle = NULL then None else do { x \<leftarrow> deref handle w; Some (ioh x) })"

definition generic_handle_get_pipe_index :: "generic_handle_mac \<Rightarrow> 8 word \<Rightarrow> 'w world_scheme
    \<Rightarrow> 8 word option" where
  "generic_handle_get_pipe_index handle pipe_id w = do {
     x \<leftarrow> deref handle w;
     let endpoint_number = unat (pipe_id AND MAX_ENDPOINT_NUMBER);
     if pipe_id AND 0x80 \<noteq> 0 then array_get (in_pipe_index x) endpoint_number
     else array_get (out_pipe_index x) endpoint_number
   }"

section \<open>Contracts\<close>

lemma live_update [simp]:
  "live (w\<lparr>live := L\<rparr>) = L" "next_id (w\<lparr>live := L\<rparr>) = next_id w"
  "world.more (w\<lparr>live := L\<rparr>) = world.more w"
  by simp_all

lemma memory_only [simp]: "k \<noteq> Mem \<Longrightarrow> (k, u) \<notin># err_res e" "k \<noteq> Mem \<Longrightarrow> (k, u) \<notin># blk p"
  by (auto simp: err_res_def owns_def blk_def split: ptr.splits)

lemma usb_open_wp:
  assumes "(UsbObject, u) \<in># live w"
    and "\<And>w'. later w w' \<Longrightarrow> live w' = add_mset (ExclusiveAccess, u) (live w) \<Longrightarrow> Q None w'"
    and "\<And>kr w'. later w w' \<Longrightarrow> live w' = live w \<Longrightarrow> Q (Some kr) w'"
  shows "runs (usb_open q (Some (u, x)) w) Q"
  unfolding usb_open_def Option.bind.simps prod.case
proof (rule runs_bind, rule ask_object_wp [OF assms(1)], goal_cases)
  case (1 j w')
  show ?case
  proof (cases "q j x")
    case None
    with 1 assms(2) [of "w'\<lparr>live := add_mset (ExclusiveAccess, u) (live w')\<rparr>"] show ?thesis
      by (simp add: later_def)
  next
    case (Some kr)
    with 1 assms(3) [of w'] show ?thesis by simp
  qed
qed

lemma usb_close_simps [simp]:
  "(UsbObject, u) \<in># live w \<Longrightarrow> (ExclusiveAccess, u) \<in># live w \<Longrightarrow>
   usb_close (Some (u, x)) w = Some (drop_res {#(ExclusiveAccess, u)#} w)"
  "(UsbObject, u) \<in># live w \<Longrightarrow> (ExclusiveAccess, u) \<notin># live w \<Longrightarrow> usb_close (Some (u, x)) w = Some w"
  by (simp_all add: usb_close_def)

lemma mach_check_spec:
  "runs (mach_check E r fmt w) (\<lambda>e w'. later w w' \<and> live w' = live w + err_res e \<and> wf_err e \<and>
     (e = NULL \<longleftrightarrow> r = None))"
  by (auto simp: mach_check_def says_def split: option.splits intro!: wp)

lemmas mach_check_wp = mach_check_spec [THEN runs_mono]

text \<open>All resources have identities that were given out before.\<close>

definition ids_below :: "'w world_scheme \<Rightarrow> bool" where
  "ids_below w \<longleftrightarrow> (\<forall>r \<in># live w. snd r < next_id w)"

lemma no_access: "ids_below w \<Longrightarrow> next_id w \<le> u \<Longrightarrow> (k, u) \<notin># live w"
  by (auto simp: ids_below_def)

text \<open>The device is closed again on every path, and only the error is left.\<close>

lemma set_configuration_spec:
  assumes s: "(IoObject, n) \<in># live w" and "(\<And>u. next_id w \<le> u \<Longrightarrow> (ExclusiveAccess, u) \<notin># live w)"
  shows "runs (set_configuration E (Some (n, x)) w) (\<lambda>e w'. later w w' \<and> live w' = live w + err_res e \<and> wf_err e)"
  using assms
  by (auto simp: set_configuration_def later_def ok_do_error
      intro!: runs_bind service_to_interface_wp ask_object_wp usb_open_wp mach_check_wp)

lemmas set_configuration_wp = set_configuration_spec [THEN runs_mono]


lemma set_configuration_and_get_service_gives:
  assumes g: "(Mem, m) \<in># live w" and a: "(\<And>u. next_id w \<le> u \<Longrightarrow> (ExclusiveAccess, u) \<notin># live w)"
  shows "runs (set_configuration_and_get_service E (Heap m x) w) (gives io_res None
     (\<lambda>r. \<exists>n y z. r = Some (n, y) \<and> entry_with_id E (gi_device_id x) z \<and>
       interface_of E z (gi_interface_number x) y) (\<lambda>_. True) w)"
  using assms
  by (auto simp: set_configuration_and_get_service_def generic_interface_get_device_id_def
      generic_interface_get_interface_number_def later_def ok_then_error ok_do_error
      intro!: runs_bind runs_ok_then service_get_from_id_wp set_configuration_wp service_get_usb_interface_wp) blast

lemmas set_configuration_and_get_service_wp = gives_wp [OF set_configuration_and_get_service_gives]

section \<open>The tables of pipes\<close>

text \<open>The last of the pipes 1 to \<open>m\<close> with a property, 0 if there is none.\<close>

primrec latest :: "(nat \<Rightarrow> bool) \<Rightarrow> nat \<Rightarrow> nat" where
  "latest P 0 = 0"
| "latest P (Suc m) = (if P (Suc m) then Suc m else latest P m)"

text \<open>
  The properties that the system has given of the pipes 1 to \<open>m\<close>, and tables made from them: for an
  endpoint the last pipe with its direction and number.
\<close>

definition pipes_of :: "'e iousb_scheme \<Rightarrow> nat \<Rightarrow> nat \<Rightarrow> (nat \<Rightarrow> 8 word \<times> 8 word) \<Rightarrow> bool" where
  "pipes_of E y m f \<longleftrightarrow> (\<forall>j. 1 \<le> j \<longrightarrow> j \<le> m \<longrightarrow> (\<exists>k. GetPipeProperties E k y (of_nat j) = Inr (f j)))"

definition tables :: "(nat \<Rightarrow> 8 word \<times> 8 word) \<Rightarrow> nat \<Rightarrow> libusbp_generic_handle_mac \<Rightarrow> bool" where
  "tables f m x \<longleftrightarrow> length (in_pipe_index x) = 16 \<and> length (out_pipe_index x) = 16 \<and> (\<forall>e < 16.
     in_pipe_index x ! e = of_nat (latest (\<lambda>j. fst (f j) \<noteq> 0 \<and> unat (snd (f j)) = e) m) \<and>
     out_pipe_index x ! e = of_nat (latest (\<lambda>j. fst (f j) = 0 \<and> unat (snd (f j)) = e) m))"

text \<open>Everything but the tables.\<close>

definition same_but_tables :: "libusbp_generic_handle_mac \<Rightarrow> libusbp_generic_handle_mac \<Rightarrow> bool" where
  "same_but_tables x x' \<longleftrightarrow> ioh x' = ioh x \<and> plug_in x' = plug_in x \<and> async_port x' = async_port x \<and>
     in_timeout_mac x' = in_timeout_mac x \<and> out_timeout_mac x' = out_timeout_mac x"

lemma latest_cong: "(\<And>j. 1 \<le> j \<Longrightarrow> j \<le> m \<Longrightarrow> P j = Q j) \<Longrightarrow> latest P m = latest Q m"
  by (induction m) auto

lemma pipe_step:
  assumes "tables f m x" "pipes_of E y m f" "GetPipeProperties E k y (of_nat (Suc m)) = Inr (d, e)"
    and "x' = (if e \<le> MAX_ENDPOINT_NUMBER
      then if d \<noteq> 0 then x\<lparr>in_pipe_index := (in_pipe_index x)[unat e := of_nat (Suc m)]\<rparr>
        else x\<lparr>out_pipe_index := (out_pipe_index x)[unat e := of_nat (Suc m)]\<rparr>
      else x)"
  shows "tables (f(Suc m := (d, e))) (Suc m) x' \<and> pipes_of E y (Suc m) (f(Suc m := (d, e)))"
proof
  have e: "e \<le> MAX_ENDPOINT_NUMBER \<longleftrightarrow> unat e < 16"
    by (simp add: word_le_nat_alt MAX_ENDPOINT_NUMBER_def less_Suc_eq_le [of _ 15, simplified])
  define g where "g = f(Suc m := (d, e))"
  have g: "g (Suc m) = (d, e)" by (simp add: g_def)
  have "latest (\<lambda>j. fst (g j) \<noteq> 0 \<and> unat (snd (g j)) = i) m =
      latest (\<lambda>j. fst (f j) \<noteq> 0 \<and> unat (snd (f j)) = i) m"
    "latest (\<lambda>j. fst (g j) = 0 \<and> unat (snd (g j)) = i) m =
      latest (\<lambda>j. fst (f j) = 0 \<and> unat (snd (f j)) = i) m" for i
    by (rule latest_cong; simp add: g_def)+
  note l = this
  have t: "length (in_pipe_index x) = 16" "length (out_pipe_index x) = 16"
    "i < 16 \<Longrightarrow> in_pipe_index x ! i = of_nat (latest (\<lambda>j. fst (f j) \<noteq> 0 \<and> unat (snd (f j)) = i) m)"
    "i < 16 \<Longrightarrow> out_pipe_index x ! i = of_nat (latest (\<lambda>j. fst (f j) = 0 \<and> unat (snd (f j)) = i) m)" for i
    using assms(1) by (simp_all add: tables_def)
  have "tables g (Suc m) x'"
  proof (cases "unat e < 16")
    case True
    then show ?thesis
      unfolding tables_def using t assms(4) e
      by (simp add: g l nth_list_update)
  next
    case False
    then have "i < 16 \<Longrightarrow> unat e \<noteq> i" for i by auto
    with False show ?thesis
      unfolding tables_def using t assms(4) e by (simp add: g l)
  qed
  then show "tables (f(Suc m := (d, e))) (Suc m) x'" by (simp add: g_def)
  show "pipes_of E y (Suc m) (f(Suc m := (d, e)))"
    using assms(2,3) by (auto simp: pipes_of_def le_Suc_eq)
qed


lemma pipe_loop_spec:
  fixes w :: "'w world_scheme"
  assumes io: "ioh x = Some (u, y)" "(UsbObject, u) \<in># L" "(Mem, n) \<in># L"
    and "1 \<le> unat i" "unat i \<le> Suc (unat c)" "live w = L"
    and "tables f (unat i - 1) x" "pipes_of E y (unat i - 1) f"
  shows "runs (pipe_loop E c i (Heap n x) w) (\<lambda>(e, h) w'. later w w' \<and> live w' = L + err_res e \<and> wf_err e \<and>
    (\<exists>x'. h = Heap n x' \<and> same_but_tables x x' \<and>
       (e = NULL \<longrightarrow> (\<exists>f. pipes_of E y (unat c) f \<and> tables f (unat c) x'))))"
  using assms
proof (induction i arbitrary: x f w rule: index_induct [of "Suc (unat c)"])
  case 1
  show ?case using unsigned_less [of c, where 'a = nat] by simp
next
  case 2
  show ?case by (rule assms(5))
next
  case (3 i)
  note prems = "3"(3-)
  show ?case
  proof (cases "i \<le> ucast c")
    case False
    then have "unat i - 1 = unat c" using 3 by (simp add: word_le_nat_alt)
    with False prems show ?thesis
      by (subst pipe_loop.simps) (auto simp: same_but_tables_def)
  next
    case True
    then have i: "unat i \<le> unat c" by (simp add: word_le_nat_alt)
    moreover have "unat c < 256" using unsigned_less [of c, where 'a = nat] by simp
    ultimately have i1: "unat (i + 1) = Suc (unat i)" by (simp add: unat_word_ariths)
    obtain m where m: "unat i = Suc m" using prems(4) by (cases "unat i") auto
    then have im: "i = of_nat (Suc m)" by (metis of_nat_unat ucast_id)
    let ?Q = "\<lambda>(e, h) w'. later w w' \<and> live w' = L + err_res e \<and> wf_err e \<and>
      (\<exists>x'. h = Heap n x' \<and> same_but_tables x x' \<and>
        (e = NULL \<longrightarrow> (\<exists>f. pipes_of E y (unat c) f \<and> tables f (unat c) x')))"
    have IH: "runs (pipe_loop E c (i + 1) (Heap n x') v) ?Q"
      if v: "later w v" "live v = L" "same_but_tables x x'"
        and p: "GetPipeProperties E k y i = Inr (d, e)"
        and x': "x' = (if e \<le> MAX_ENDPOINT_NUMBER
          then if d \<noteq> 0 then x\<lparr>in_pipe_index := (in_pipe_index x)[unat e := ucast i]\<rparr>
            else x\<lparr>out_pipe_index := (out_pipe_index x)[unat e := ucast i]\<rparr>
          else x)" for x' k d e and v :: "'w world_scheme"
    proof -
      have u: "ucast i = (of_nat (Suc m) :: 8 word)" by (metis m of_nat_unat)
      have "tables f m x" "pipes_of E y m f" using prems(7,8) m by simp_all
      moreover have "GetPipeProperties E k y (of_nat (Suc m)) = Inr (d, e)" using p im by metis
      ultimately obtain g where t: "tables g (Suc m) x'" "pipes_of E y (Suc m) g"
        using x' pipe_step [of f m x E y k d e x'] unfolding u by blast
      show ?thesis
        by (rule runs_mono [OF "3"(2) [of x' v g]])
          (use t v prems i i1 m in \<open>auto simp: same_but_tables_def elim: later_trans\<close>)
    qed
    show ?thesis
    proof (subst pipe_loop.simps, simp add: True prems(1,3,6) del: of_nat_Suc,
        rule runs_bind, rule ask_object_wp, goal_cases)
      case 1
      show ?case using prems by simp
    next
      case (2 k v)
      then have v: "later w v" "live v = L" using prems(6) by simp_all
      show ?case
      proof (cases "GetPipeProperties E k y i")
        case (Inl kr)
        with v show ?thesis
          by (auto simp: later_def says_def same_but_tables_def intro!: wp)
      next
        case (Inr p)
        obtain d e where p: "p = (d, e)" by (cases p)
        have "unat e < 16" if "e \<le> MAX_ENDPOINT_NUMBER"
          using that by (simp add: word_le_nat_alt MAX_ENDPOINT_NUMBER_def)
        then show ?thesis
          using IH [OF v _ Inr [unfolded p]] prems v Inr p
          by (auto simp: same_but_tables_def tables_def)
      qed
    qed
  qed
qed

lemma process_pipe_properties_spec:
  assumes io: "ioh x = Some (u, y)" "(UsbObject, u) \<in># live w" "(Mem, n) \<in># live w"
    and zero: "in_pipe_index x = replicate 16 0" "out_pipe_index x = replicate 16 0"
  shows "runs (process_pipe_properties E (Heap n x) w) (\<lambda>(e, h) w'. later w w' \<and>
    live w' = live w + err_res e \<and> wf_err e \<and> (\<exists>x'. h = Heap n x' \<and> same_but_tables x x' \<and>
      (e = NULL \<longrightarrow> (\<exists>f k c. GetNumEndpoints E k y = Inr c \<and> pipes_of E y (unat c) f \<and> tables f (unat c) x'))))"
  (is "runs _ ?Q")
proof -
  have ask: "runs (ask_object UsbObject (ioh x) q w) Q"
    if "\<And>k w'. later w w' \<Longrightarrow> live w' = live w \<Longrightarrow> Q (q k y) w'" for q Q
    using ask_object_wp [of UsbObject u w Q q y] io that by simp
  have start: "tables f 0 x" "pipes_of E y 0 f" for f
    using zero by (simp_all add: tables_def pipes_of_def)
  show ?thesis
  proof (simp add: process_pipe_properties_def io(3), rule runs_bind, rule ask, goal_cases)
    case (1 k v)
    show ?case
    proof (cases "GetNumEndpoints E k y")
      case (Inl kr)
      with 1 show ?thesis
        by (auto simp: later_def says_def same_but_tables_def intro!: wp)
    next
      case (Inr c)
      show ?thesis
        by (simp add: Inr, rule runs_mono [OF pipe_loop_spec [where L = "live w" and f = "\<lambda>_. (0, 0)"]])
          (use io 1 start Inr in \<open>auto elim: later_trans\<close>, blast)
    qed
  qed
qed

lemmas process_pipe_properties_wp = process_pipe_properties_spec
  [of x "fst (the (ioh x))" "snd (the (ioh x))" for x, simplified, THEN runs_mono]

section \<open>What handles own\<close>

definition ghm_res :: "generic_handle_mac \<Rightarrow> res multiset" where
  "ghm_res g = owns (\<lambda>x. case ioh x of None \<Rightarrow> {#}
     | Some (u, y) \<Rightarrow> {#(UsbObject, u), (ExclusiveAccess, u)#} + opt_res PlugIn (plug_in x)) g"

text \<open>
  A handle that was opened: it has its interface object, the plug-in and the port, and its tables have an
  element for every endpoint number.
\<close>

definition wf_ghm :: "generic_handle_mac \<Rightarrow> bool" where
  "wf_ghm g = (case g of NULL \<Rightarrow> True
     | Heap n x \<Rightarrow> ioh x \<noteq> None \<and> plug_in x \<noteq> None \<and> async_port x \<noteq> None \<and>
         length (in_timeout_mac x) = 16 \<and> length (out_timeout_mac x) = 16 \<and>
         length (in_pipe_index x) = 16 \<and> length (out_pipe_index x) = 16
     | Static x \<Rightarrow> False)"

lemma ghm_simps [simp]:
  "ghm_res NULL = {#}" "wf_ghm NULL" "\<not> wf_ghm (Static x)"
  "ioh x = Some (u, y) \<Longrightarrow> ghm_res (Heap n x) =
     add_mset (Mem, n) ({#(UsbObject, u), (ExclusiveAccess, u)#} + opt_res PlugIn (plug_in x))"
  by (simp_all add: ghm_res_def wf_ghm_def)

lemma wf_ghmE:
  assumes "wf_ghm g" "g \<noteq> NULL"
  obtains n x u y p q where "g = Heap n x" "ioh x = Some (u, y)" "plug_in x = Some p" "async_port x = Some q"
    "length (in_timeout_mac x) = 16" "length (out_timeout_mac x) = 16"
    "length (in_pipe_index x) = 16" "length (out_pipe_index x) = 16"
  using assms by (cases g) (auto simp: wf_ghm_def)

lemma libusbp_generic_handle_close_mac_ok:
  assumes "wf_ghm g" and "ghm_res g \<subseteq># live w"
  shows "libusbp_generic_handle_close_mac g w = Some (drop_res (ghm_res g) w)"
proof (cases "g = NULL")
  case False
  obtain n x u y p q where g: "g = Heap n x" "ioh x = Some (u, y)" "plug_in x = Some p" "async_port x = Some q"
    by (rule wf_ghmE [OF assms(1) False])
  obtain L where "live w = ghm_res g + L"
    using assms(2) by (auto simp: mset_subset_eq_exists_conv)
  with g show ?thesis by (simp add: libusbp_generic_handle_close_mac_def add_mset_commute)
qed (simp add: libusbp_generic_handle_close_mac_def)

interpretation generic_handle_mac: releases libusbp_generic_handle_close_mac ghm_res wf_ghm
  by unfold_locales (rule libusbp_generic_handle_close_mac_ok)

text \<open>The registry entry a generic interface stands for.\<close>

definition entry_of :: "'e iokit_scheme \<Rightarrow> libusbp_generic_interface_mac \<Rightarrow> nat \<Rightarrow> bool" where
  "entry_of E i y \<longleftrightarrow> (if has_interface_id i then entry_with_id E (gi_interface_id i) y
     else \<exists>z. entry_with_id E (gi_device_id i) z \<and> interface_of E z (gi_interface_number i) y)"

text \<open>A handle for a generic interface: its tables are those of the pipes of this entry's interface.\<close>

definition opened_for :: "'e iousb_scheme \<Rightarrow> libusbp_generic_interface_mac \<Rightarrow> generic_handle_mac \<Rightarrow> bool" where
  "opened_for E i g \<longleftrightarrow> (\<exists>n x u y p q f k c. g = Heap n x \<and> ioh x = Some (u, y) \<and> plug_in x = Some p \<and>
     async_port x = Some q \<and> entry_of E i y \<and>
     in_timeout_mac x = replicate 16 0 \<and> out_timeout_mac x = replicate 16 0 \<and>
     GetNumEndpoints E k y = Inr c \<and> pipes_of E y (unat c) f \<and> tables f (unat c) x)"

lemma opened_for_wf: "opened_for E i g \<Longrightarrow> wf_ghm g"
  by (auto simp: opened_for_def wf_ghm_def tables_def)

lemma opened_forI:
  assumes "ioh x = Some (u, y)" "plug_in x = Some p"
    "in_timeout_mac x = replicate 16 0" "out_timeout_mac x = replicate 16 0"
    "entry_of E i y" "GetNumEndpoints E k y = Inr c" "pipes_of E y (unat c) f" "tables f (unat c) x"
  shows "opened_for E i (Heap n (x\<lparr>async_port := Some q\<rparr>))"
  using assms by (auto simp: opened_for_def tables_def)

lemma entry_ofI:
  "has_interface_id i \<Longrightarrow> entry_with_id E (gi_interface_id i) y \<Longrightarrow> entry_of E i y"
  "\<not> has_interface_id i \<Longrightarrow> entry_with_id E (gi_device_id i) z \<Longrightarrow>
   interface_of E z (gi_interface_number i) y \<Longrightarrow> entry_of E i y"
  by (auto simp: entry_of_def)

lemma libusbp_generic_handle_open_mac_gives:
  fixes w :: "'w world_scheme"
  assumes g: "(Mem, m) \<in># live w" and a: "\<And>u. next_id w \<le> u \<Longrightarrow> (ExclusiveAccess, u) \<notin># live w"
  shows "runs (libusbp_generic_handle_open_mac E (Heap m i) True w)
    (gives ghm_res NULL (opened_for E i) (\<lambda>_. True) w)"
  unfolding libusbp_generic_handle_open_mac_def generic_handle_allocate_mac_def
  using assms
  by (auto simp: later_def says_def Let_def set_field_def ok_then_error ok_do_error
      libusbp_generic_handle_close_mac_def same_but_tables_def
      generic_interface_get_interface_id_def
      intro!: wp service_get_from_id_wp set_configuration_and_get_service_wp service_to_interface_wp usb_open_wp mach_check_wp
        process_pipe_properties_wp ask_object_wp split: sum.splits)
    (blast intro: opened_forI entry_ofI)+

lemmas libusbp_generic_handle_open_mac_wp = gives_wp [OF libusbp_generic_handle_open_mac_gives]

interpretation generic_handle_mac_new: constructor libusbp_generic_handle_close_mac ghm_res wf_ghm
    "\<lambda>gi. libusbp_generic_handle_open_mac E gi True" NULL
    "\<lambda>gi w. wf_gi_mac gi \<and> gi \<noteq> NULL \<and> blk gi \<subseteq># live w \<and> ids_below w"
    "\<lambda>gi g. wf_ghm g \<and> (\<exists>m i. gi = Heap m i \<and> opened_for E i g)"
    for E :: "'e iousb_scheme"
proof (unfold_locales, clarsimp, goal_cases)
  case (1 gi w)
  then obtain m i where "gi = Heap m i" by (cases gi) (auto simp: wf_gi_mac_def)
  with 1 show ?case
    by (auto simp: opened_for_wf no_access intro!: libusbp_generic_handle_open_mac_wp)
qed auto

section \<open>Timeouts and transfers\<close>

text \<open>
  The timeout and the pipe of an endpoint address, as the tables of a handle have them.
\<close>

definition timeout_of :: "libusbp_generic_handle_mac \<Rightarrow> 8 word \<Rightarrow> 32 word" where
  "timeout_of x p = (if p AND 0x80 \<noteq> 0 then in_timeout_mac x else out_timeout_mac x) ! (unat p mod 16)"

definition pipe_of :: "libusbp_generic_handle_mac \<Rightarrow> 8 word \<Rightarrow> 32 word" where
  "pipe_of x p = ucast ((if p AND 0x80 \<noteq> 0 then in_pipe_index x else out_pipe_index x) ! (unat p mod 16))"

definition same_endpoint :: "8 word \<Rightarrow> 8 word \<Rightarrow> bool" where
  "same_endpoint p q \<longleftrightarrow> (p AND 0x80 = 0) = (q AND 0x80 = 0) \<and> unat p mod 16 = unat q mod 16"

lemma bad_or_good: "pipe_check E ok p e \<Longrightarrow> wf_err e \<and> (e = NULL \<longleftrightarrow> ok)"
  by (auto simp: pipe_check_def says_def split: if_splits)

lemma pipe_in_80: "pipe_in p \<Longrightarrow> p AND 0x80 \<noteq> 0" and pipe_out_80: "pipe_out p \<Longrightarrow> p AND 0x80 = 0"
  by (simp_all add: pipe_in_iff pipe_out_iff)

lemma libusbp_generic_handle_set_timeout_mac_spec:
  assumes g: "wf_ghm g" "g = Heap n x" "(Mem, n) \<in># live w"
  shows "runs (libusbp_generic_handle_set_timeout_mac E g p t w) (\<lambda>(e, g') w'. later w w' \<and>
    live w' = live w + err_res e \<and> wf_err e \<and> (e = NULL \<longleftrightarrow> pipe_in p \<or> pipe_out p) \<and>
    (\<exists>x'. g' = Heap n x' \<and> wf_ghm g' \<and> ioh x' = ioh x \<and> plug_in x' = plug_in x \<and>
      (\<forall>q. pipe_of x' q = pipe_of x q \<and>
        timeout_of x' q = (if e = NULL \<and> same_endpoint p q then t else timeout_of x q))))"
  using assms
  by (auto simp: libusbp_generic_handle_set_timeout_mac_def wf_ghm_def unat_endpoint timeout_of_def
      pipe_of_def same_endpoint_def Let_def nth_list_update dest!: bad_or_good
      intro!: wp check_pipe_id_wp)

lemmas libusbp_generic_handle_set_timeout_mac_wp = libusbp_generic_handle_set_timeout_mac_spec [THEN runs_mono]

lemma libusbp_read_pipe_mac_spec:
  assumes g: "wf_ghm g" "g = Heap n x" "ioh x = Some (u, y)" "(Mem, n) \<in># live w" "(UsbObject, u) \<in># live w"
    and "buffer_for data k"
  shows "runs (libusbp_read_pipe_mac E g p data k True w) (\<lambda>(e, t, d) w'. wf_err e \<and>
    live w' = live w + err_res e \<and>
    (if bad_read p data k then e \<noteq> NULL \<and> t = Some 0 \<and> d = data
     else \<exists>j r bytes m. ReadPipeTO E j y (pipe_of x p) (of_nat k) 0 (timeout_of x p) = (r, bytes, m) \<and>
       (e = NULL \<longleftrightarrow> r = None) \<and> t = Some (unat m) \<and> fill_buffer data (take k bytes) = Some d))"
proof (cases "bad_read p data k")
  case True
  with g show ?thesis
    by (auto simp: libusbp_read_pipe_mac_def bad_read_def says_def Let_def dest!: bad_or_good
        split: if_splits intro!: wp check_pipe_id_in_wp)
next
  case False
  then obtain old where old: "data = Some old" "pipe_in p" "k \<noteq> 0" "k \<le> UINT32_MAX"
    by (auto simp: bad_read_def)
  with assms(6) have "k \<le> length old" by (simp add: buffer_for_def)
  with g old pipe_in_80 [OF old(2)] show ?thesis
    by (auto simp: libusbp_read_pipe_mac_def bad_read_def says_def Let_def wf_ghm_def unat_endpoint
        timeout_of_def pipe_of_def fill_buffer_ok min.coboundedI2 dest!: bad_or_good
        split: if_splits prod.splits intro!: wp check_pipe_id_in_wp mach_check_wp)
      blast+
qed

lemmas libusbp_read_pipe_mac_wp = libusbp_read_pipe_mac_spec [THEN runs_mono]

lemma libusbp_write_pipe_mac_spec:
  assumes g: "wf_ghm g" "g = Heap n x" "ioh x = Some (u, y)" "(Mem, n) \<in># live w" "(UsbObject, u) \<in># live w"
    and "buffer_for data k"
  shows "runs (libusbp_write_pipe_mac E g p data k True w) (\<lambda>(e, t) w'. wf_err e \<and>
    live w' = live w + err_res e \<and> t = Some (if e = NULL then k else 0) \<and>
    (if bad_write p data k then e \<noteq> NULL
     else \<exists>j. e = NULL \<longleftrightarrow> WritePipeTO E j y (pipe_of x p)
       (case data of None \<Rightarrow> [] | Some b \<Rightarrow> take k b) 0 (timeout_of x p) = None))"
proof (cases "bad_write p data k")
  case True
  with g show ?thesis
    by (auto simp: libusbp_write_pipe_mac_def bad_write_def says_def Let_def dest!: bad_or_good
        split: if_splits intro!: wp check_pipe_id_out_wp)
next
  case False
  then have "pipe_out p" by (simp add: bad_write_def)
  with False g assms(6) pipe_out_80 [OF this] show ?thesis
    by (auto simp: libusbp_write_pipe_mac_def bad_write_def buffer_for_def says_def Let_def wf_ghm_def
        unat_endpoint timeout_of_def pipe_of_def dest!: bad_or_good
        split: if_splits option.splits intro!: wp check_pipe_id_out_wp mach_check_wp)
      blast+
qed

lemma libusbp_control_transfer_mac_spec:
  assumes g: "wf_ghm g" "g = Heap n x" "ioh x = Some (u, y)" "(Mem, n) \<in># live w" "(UsbObject, u) \<in># live w"
    and "data = Some old" "unat len \<le> length old"
  shows "runs (libusbp_control_transfer_mac E g rt r v i data len True w) (\<lambda>(e, t, d) w'. wf_err e \<and>
    live w' = live w + err_res e \<and> touched data (unat len) d \<and> (rt AND 0x80 = 0 \<longrightarrow> d = data) \<and>
    (\<exists>j kr bytes m. ControlRequestTO E j y \<lparr>bmRequestType_mac = rt, bRequest_mac = r, wValue_mac = v,
        wIndex_mac = i, wLength_mac = len, completionTimeout = timeout_of x 0\<rparr> data = (kr, bytes, m) \<and>
      (e = NULL \<longleftrightarrow> kr = None) \<and> t = Some (unat m)))"
  using assms
  by (auto simp: libusbp_control_transfer_mac_def says_def Let_def wf_ghm_def timeout_of_def fill_buffer_ok
      min.coboundedI2 split: prod.splits intro!: wp mach_check_wp) blast+

section \<open>Properties\<close>

text \<open>
  C15: Opening a handle on macOS gives a handle or an error and no handle.  The handle is for the entry of
  the generic interface; the pipe index of any endpoint address is that of the last pipe, among those
  that the system reported, with the address's direction and number, and 0 if there is none.  Closing the
  handle gives back everything, the exclusive access included.
\<close>

theorem generic_handle_open_mac_correct:
  assumes "(Mem, m) \<in># live w" "ids_below w"
  shows "runs (libusbp_generic_handle_open_mac E (Heap m i) True w) (\<lambda>(e, g) w'.
    (if e = NULL then \<exists>u y k c f. generic_handle_get_ioh g w' = Some (Some (u, y)) \<and> entry_of E i y \<and>
       GetNumEndpoints E k y = Inr c \<and> pipes_of E y (unat c) f \<and>
       (\<forall>p. generic_handle_get_pipe_index g p w' = Some (of_nat (latest (\<lambda>j.
          (fst (f j) = 0) = (p AND 0x80 = 0) \<and> unat (snd (f j)) = unat p mod 16) (unat c))))
     else g = NULL) \<and>
    (\<exists>w''. libusbp_generic_handle_close_mac g w' = Some w'' \<and> live w'' = live w + err_res e))"
proof (rule libusbp_generic_handle_open_mac_wp [OF assms(1) no_access [OF assms(2)]], assumption, goal_cases)
  case (1 g w')
  then obtain n x u y p q f k c where g: "g = Heap n x" "ioh x = Some (u, y)" "plug_in x = Some p"
      "entry_of E i y" "GetNumEndpoints E k y = Inr c" "pipes_of E y (unat c) f" "tables f (unat c) x"
    by (auto simp: opened_for_def)
  have "generic_handle_get_pipe_index g a w' = Some (of_nat (latest (\<lambda>j.
      (fst (f j) = 0) = (a AND 0x80 = 0) \<and> unat (snd (f j)) = unat a mod 16) (unat c)))" for a
    using g 1 by (auto simp: generic_handle_get_pipe_index_def tables_def unat_endpoint Let_def)
  with g 1 have "generic_handle_get_ioh g w' = Some (Some (u, y))" "wf_ghm g"
    by (auto simp: generic_handle_get_ioh_def opened_for_wf)
  with 1 g \<open>\<And>a. generic_handle_get_pipe_index g a w' = _\<close> show ?case
    by (auto simp: generic_handle_mac.rel_ok)
qed (auto simp: libusbp_generic_handle_close_mac_def)

definition demo_iousb :: iousb where
  "demo_iousb = iokit.extend demo_iokit \<lparr>GetConfiguration = \<lambda>_ _. Inr 1, SetConfiguration = \<lambda>_ _ _. None,
     USBDeviceOpen = \<lambda>_ _. None, USBInterfaceOpen = \<lambda>_ _. None, GetNumEndpoints = \<lambda>_ _. Inr 3,
     GetPipeProperties = \<lambda>_ _ i. Inr (if i = 1 then (1, 1) else if i = 2 then (0, 1) else (1, 2)),
     CreateInterfaceAsyncPort = \<lambda>_ _. Inr 7, ControlRequestTO = \<lambda>_ _ _ _. (None, [], 0),
     ReadPipeTO = \<lambda>_ _ _ n _ _. (None, replicate (unat n) 5, n), WritePipeTO = \<lambda>_ _ _ _ _ _. None\<rparr>"

lemma demo_pipes:
  assumes "pipes_of demo_iousb y 3 f"
  shows "f (Suc 0) = (1, 1)" "f 2 = (0, 1)" "f 3 = (1, 2)"
proof -
  have p: "\<exists>k. GetPipeProperties demo_iousb k y (of_nat j) = Inr (f j)" if "1 \<le> j" "j \<le> 3" for j
    using assms that unfolding pipes_of_def by simp
  show "f (Suc 0) = (1, 1)" "f 2 = (0, 1)" "f 3 = (1, 2)"
    using p [of 1] p [of 2] p [of 3] by (simp_all add: demo_iousb_def iokit.defs)
qed

lemma latest_3: "latest P 3 = (if P 3 then 3 else if P 2 then 2 else if P (Suc 0) then Suc 0 else 0)"
  by (simp add: numeral_3_eq_3 numeral_2_eq_2)

theorem generic_handle_open_mac_correct_witness:
  "runs (libusbp_generic_handle_open_mac demo_iousb (Heap 0 \<lparr>gi_device_id = 0x1001, gi_interface_number = 1,
        has_interface_id = True, gi_interface_id = 0x100B\<rparr>) True \<lparr>next_id = 1, live = {#(Mem, 0)#}\<rparr>)
    (\<lambda>(e, g) w'. if e = NULL then generic_handle_get_pipe_index g 0x82 w' = Some 3 \<and>
      generic_handle_get_pipe_index g 1 w' = Some 2 else g = NULL)"
proof (rule runs_mono [OF generic_handle_open_mac_correct], goal_cases)
  case (3 r w')
  obtain e g where r: "r = (e, g)" by (cases r)
  show ?case
  proof (cases "e = NULL")
    case True
    have "GetNumEndpoints demo_iousb k y = Inr 3" for k y by (simp add: demo_iousb_def iokit.defs)
    with 3 True r obtain y f where f: "pipes_of demo_iousb y 3 f"
        "\<And>p. generic_handle_get_pipe_index g p w' = Some (of_nat (latest (\<lambda>j.
           (fst (f j) = 0) = (p AND 0x80 = 0) \<and> unat (snd (f j)) = unat p mod 16) 3))"
      by auto
    show ?thesis by (simp add: r True f(2) latest_3 demo_pipes [OF f(1)])
  qed (use 3 r in simp)
qed (auto simp: ids_below_def)

text \<open>
  C23: Setting a timeout keeps the type of a handle: all that a handle has to have is still there, it owns the
  same objects and its table of pipes is the same.  Exactly the addresses of endpoints are accepted, and
  then exactly the timeout of this endpoint is the new one; the two directions of a number have
  timeouts of their own.
\<close>

theorem set_timeout_mac_type:
  assumes "wf_ghm g" "g \<noteq> NULL" "ghm_res g \<subseteq># live w"
  shows "runs (libusbp_generic_handle_set_timeout_mac E g p t w) (\<lambda>(e, g') w'. wf_ghm g' \<and>
    ghm_res g' = ghm_res g \<and> live w' = live w + err_res e \<and> (e = NULL \<longleftrightarrow> pipe_in p \<or> pipe_out p) \<and>
    (\<exists>n x x'. g = Heap n x \<and> g' = Heap n x' \<and> (\<forall>q. pipe_of x' q = pipe_of x q \<and>
       timeout_of x' q = (if e = NULL \<and> same_endpoint p q then t else timeout_of x q))))"
proof -
  obtain n x u y where g: "g = Heap n x" "ioh x = Some (u, y)"
    by (rule wf_ghmE [OF assms(1,2)])
  with assms(3) have n: "(Mem, n) \<in># live w"
    by (auto simp: mset_subset_eq_exists_conv)
  show ?thesis
    by (rule libusbp_generic_handle_set_timeout_mac_wp [OF assms(1) g(1) n]) (use g in auto)
qed

definition demo_ghm :: generic_handle_mac where
  "demo_ghm = Heap 0 \<lparr>ioh = Some (1, 11), plug_in = Some 2, async_port = Some 7,
     out_timeout_mac = replicate 16 0, in_timeout_mac = replicate 16 0,
     out_pipe_index = (replicate 16 0)[1 := 2], in_pipe_index = (replicate 16 0)[1 := 1, 2 := 3]\<rparr>"

definition demo_ghm_world :: world where
  "demo_ghm_world = \<lparr>next_id = 3, live = ghm_res demo_ghm\<rparr>"

lemma demo_ghm_ok:
  "wf_ghm demo_ghm" "demo_ghm \<noteq> NULL" "ghm_res demo_ghm \<subseteq># live demo_ghm_world"
  by (simp_all add: demo_ghm_def demo_ghm_world_def wf_ghm_def)

theorem set_timeout_mac_type_witness:
  "runs (libusbp_generic_handle_set_timeout_mac demo_iousb demo_ghm 0x81 100 demo_ghm_world)
    (\<lambda>(e, g) w'. e = NULL \<and> wf_ghm g \<and> (\<exists>n x. g = Heap n x \<and> timeout_of x 0x81 = 100))"
  by (rule runs_mono [OF set_timeout_mac_type [OF demo_ghm_ok]])
    (auto simp: pipe_in_def same_endpoint_def)

text \<open>
  A read after its timeout was set uses this timeout and the pipe of its endpoint.  Into a buffer of at
  least \<open>k\<close> bytes it writes at most the first \<open>k\<close> and leaves the rest alone; the error says whether the
  system failed, and the count is the system's, on failure too.  An address that is not an IN endpoint
  and a size that is 0 or too large are refused with nothing read.
\<close>

theorem read_after_timeout_mac:
  assumes g: "wf_ghm g" "g = Heap n x" "ioh x = Some (u, y)" "ghm_res g \<subseteq># live w" and k: "k \<le> length old"
  shows "runs (do {
      ((e1, g), w) \<leftarrow> libusbp_generic_handle_set_timeout_mac E g p t w;
      ((e, c, d), w) \<leftarrow> libusbp_read_pipe_mac E g p (Some old) k True w;
      Some ((e1, e, c, d), w)
    }) (\<lambda>(e1, e, c, d) w'. live w' = live w + err_res e1 + err_res e \<and>
      (if pipe_in p \<and> 0 < k \<and> k \<le> UINT32_MAX
       then e1 = NULL \<and> (\<exists>j r bytes m. ReadPipeTO E j y (pipe_of x p) (of_nat k) 0 t = (r, bytes, m) \<and>
         (e = NULL \<longleftrightarrow> r = None) \<and> c = Some (unat m) \<and>
         d = Some (take k bytes @ drop (min (length bytes) k) old))
       else e \<noteq> NULL \<and> c = Some 0 \<and> d = Some old))"
proof -
  have l: "(Mem, n) \<in># live w" "(UsbObject, u) \<in># live w"
    using g by (auto simp: mset_subset_eq_exists_conv)
  have s: "same_endpoint p p" by (simp add: same_endpoint_def)
  have b: "buffer_for (Some old) k" using k by (simp add: buffer_for_def)
  have f: "fill_buffer (Some old) (take k bytes) = Some d \<longleftrightarrow>
      d = Some (take k bytes @ drop (min (length bytes) k) old)" for bytes d
    using k by (auto simp: fill_buffer_def)
  show ?thesis
  proof (rule runs_bind, rule libusbp_generic_handle_set_timeout_mac_wp [OF g(1,2) l(1)], clarsimp, goal_cases)
    case (1 e1 w1 x')
    show ?case
      by (rule runs_bind, rule libusbp_read_pipe_mac_wp [of _ n x' u y, OF _ refl _ _ _ b])
        (use 1 g l s f in \<open>auto simp: bad_read_def split: if_splits\<close>)
  qed
qed

theorem read_after_timeout_mac_witness:
  "runs (do {
      ((e1, g), w) \<leftarrow> libusbp_generic_handle_set_timeout_mac demo_iousb demo_ghm 0x81 100 demo_ghm_world;
      ((e, c, d), w) \<leftarrow> libusbp_read_pipe_mac demo_iousb g 0x81 (Some [1, 2, 3]) 2 True w;
      Some ((e1, e, c, d), w)
    }) (\<lambda>(e1, e, c, d) w'. e = NULL \<and> c = Some 2 \<and> d = Some [5, 5, 3])"
proof (rule runs_mono [OF read_after_timeout_mac [where u = 1 and y = 11,
      OF demo_ghm_ok(1) demo_ghm_def _ demo_ghm_ok(3)]], goal_cases)
  case (3 r w')
  have "pipe_in 0x81" "2 \<le> UINT32_MAX" by (simp_all add: pipe_in_def UINT32_MAX_def)
  moreover have "ReadPipeTO demo_iousb j 11 p (of_nat 2) 0 t = (None, [5, 5], 2)" for j p t
    by (simp add: demo_iousb_def iokit.defs, simp only: numeral_2_eq_2 replicate.simps)
  ultimately show ?case using 3 by (cases r) auto
qed simp_all

end
