(* ===== verification/AsyncTransferMac.thy ===== *)
theory AsyncTransferMac
  imports GenericHandleMac TransferStore
begin

text \<open>
  \<open>src/src/mac/async_in_transfer_mac.c\<close>, asynchronous IN transfers on macOS, and the event loop of
  \<open>src/src/mac/generic_handle_mac.c\<close>, which receives the messages about completed reads and runs
  their callbacks.  The lemmas show that a transfer is pending exactly while the system works on it, that
  the assertions of the callback hold and that the loop ends.
\<close>

unbundle bit_operations_syntax

section \<open>Reads that the system works on\<close>

record async_in_transfer_mac =
  tm_ioh :: usb_object
  tm_pipe_index :: "8 word"
  tm_buffer :: "8 word list ptr"
  tm_size :: "32 word"
  tm_pending :: bool
  tm_transferred :: "64 word"
  tm_error :: err

text \<open>
  Transfers are shared with the system, which writes to the buffer of a transfer and calls back with its
  address, so they are kept in the world, by the identity of their block.  \<open>reads\<close> are the reads the system
  works on: the transfer and the number of bytes it may write.
\<close>

record mac_world = world +
  mac_transfers :: "nat \<Rightarrow> async_in_transfer_mac option"
  reads :: "(nat \<times> nat) list"

definition get_tm :: "nat option \<Rightarrow> 'w mac_world_scheme \<Rightarrow> (nat \<times> async_in_transfer_mac) option" where
  "get_tm t w = do {
     i \<leftarrow> t;
     x \<leftarrow> mac_transfers w i;
     if (Mem, i) \<in># live w then Some (i, x) else None
   }"

definition put_tm :: "nat \<Rightarrow> async_in_transfer_mac \<Rightarrow> 'w mac_world_scheme \<Rightarrow> 'w mac_world_scheme" where
  "put_tm t x w = w\<lparr>mac_transfers := (mac_transfers w)(t \<mapsto> x)\<rparr>"

text \<open>
  What \<open>mach_msg\<close> answers on a port: nothing yet, a message that is too large, another failure, or the
  message about the \<open>i\<close>th of the reads in progress, with its code, the bytes read and the count that is passed to
  the callback.  A message about a read that is not in progress is none.
\<close>

datatype mach_answer = NoMessage | MessageTooLarge "32 word" | ReceiveFailed "32 word"
  | Completion nat "32 word option" "8 word list" "64 word"

text \<open>What the loop sees of it: the read is named by the transfer that is passed to its callback.\<close>

datatype received = Timeout | TooLarge "32 word" | NotReceived "32 word" | Message nat "32 word option" "64 word"

record iousb_async = iousb +
  heap_octets_mac :: "nat \<Rightarrow> nat \<Rightarrow> 8 word"
  ReadPipeAsync :: "nat \<Rightarrow> nat \<Rightarrow> 8 word \<Rightarrow> 32 word \<Rightarrow> 32 word option"
  AbortPipe :: "nat \<Rightarrow> nat \<Rightarrow> 8 word \<Rightarrow> 32 word option"
  mach_msg :: "nat \<Rightarrow> nat option \<Rightarrow> (nat \<times> nat) list \<Rightarrow> mach_answer"

definition read_pipe_async :: "'e iousb_async_scheme \<Rightarrow> nat \<Rightarrow> async_in_transfer_mac
    \<Rightarrow> 'w mac_world_scheme \<Rightarrow> (32 word option \<times> 'w mac_world_scheme) option" where
  "read_pipe_async E t x w = do {
     (r, w) \<leftarrow> ask_object UsbObject (tm_ioh x) (\<lambda>k y. ReadPipeAsync E k y (tm_pipe_index x) (tm_size x)) w;
     Some (r, if r = None then w\<lparr>reads := reads w @ [(t, unat (tm_size x))]\<rparr> else w)
   }"

text \<open>
  Receiving a message: a completed read is over, and its bytes are in the buffer of its transfer; a
  transfer or a buffer that was freed meanwhile is a fault.
\<close>

definition receive_message :: "'e iousb_async_scheme \<Rightarrow> nat option \<Rightarrow> 'w mac_world_scheme
    \<Rightarrow> (received \<times> 'w mac_world_scheme) option" where
  "receive_message E port w = (case mach_msg E (next_id w) port (reads w) of
       NoMessage \<Rightarrow> Some (Timeout, tick w)
     | MessageTooLarge n \<Rightarrow> Some (TooLarge n, tick w)
     | ReceiveFailed mr \<Rightarrow> Some (NotReceived mr, tick w)
     | Completion i kr bytes n \<Rightarrow>
         if i < length (reads w) then do {
           let (t, limit) = reads w ! i;
           (t, x) \<leftarrow> get_tm (Some t) w;
           old \<leftarrow> deref (tm_buffer x) w;
           d \<leftarrow> fill_buffer (Some old) (take limit bytes);
           d \<leftarrow> d;
           b \<leftarrow> store (tm_buffer x) d w;
           Some (Message t kr n,
             tick ((put_tm t (x\<lparr>tm_buffer := b\<rparr>) w)\<lparr>reads := take i (reads w) @ drop (Suc i) (reads w)\<rparr>))
         }
         else Some (Timeout, tick w))"

section \<open>The operations of async_in_transfer_mac.c\<close>

definition async_in_transfer_callback_mac :: "'e iousb_scheme \<Rightarrow> nat option \<Rightarrow> 32 word option \<Rightarrow> 64 word
    \<Rightarrow> 'w mac_world_scheme \<Rightarrow> 'w mac_world_scheme option" where
  "async_in_transfer_callback_mac E context kr arg0 w = do {
     (t, x) \<leftarrow> get_tm context w;
     if \<not> tm_pending x \<or> tm_error x \<noteq> NULL \<or> tm_transferred x \<noteq> 0 then None
     else do {
       (error, w) \<leftarrow> mach_check E kr ''Asynchronous IN transfer failed.'' w;
       Some (put_tm t (x\<lparr>tm_transferred := arg0, tm_pending := False, tm_error := error\<rparr>) w)
     }
   }"

definition async_in_transfer_free_mac :: "nat option \<Rightarrow> 'w mac_world_scheme
    \<Rightarrow> 'w mac_world_scheme option" where
  "async_in_transfer_free_mac transfer w =
     (if transfer = None then Some w
      else do {
        (t, x) \<leftarrow> get_tm transfer w;
        if tm_pending x then Some w
        else do {
          w \<leftarrow> libusbp_error_free (tm_error x) w;
          w \<leftarrow> free (tm_buffer x) w;
          w \<leftarrow> release (Mem, t) w;
          Some (w\<lparr>mac_transfers := (mac_transfers w)(t := None)\<rparr>)
        }
      })"

definition async_in_transfer_create_mac :: "'e iousb_async_scheme \<Rightarrow> generic_handle_mac \<Rightarrow> 8 word
    \<Rightarrow> nat \<Rightarrow> 'w mac_world_scheme \<Rightarrow> ((err \<times> nat option) \<times> 'w mac_world_scheme) option" where
  "async_in_transfer_create_mac E handle pipe_id transfer_size w =
     (if handle = NULL then None
      else if transfer_size > UINT32_MAX then do {
        (error, w) \<leftarrow> error_create E ''Transfer size is too large.'' w;
        Some ((error, None), w)
      }
      else do {
        (p, w) \<leftarrow> malloc E w;
        let (error, new_transfer, w) = (case p of
            Heap n _ \<Rightarrow> (NULL, Some n, put_tm n \<lparr>tm_ioh = None, tm_pipe_index = 0, tm_buffer = NULL,
              tm_size = 0, tm_pending = False, tm_transferred = 0, tm_error = NULL\<rparr> w)
          | _ \<Rightarrow> (error_no_memory, None, w));
        (error, w) \<leftarrow> ok_do error (\<lambda>w. do {
            (t, x) \<leftarrow> get_tm new_transfer w;
            let x = x\<lparr>tm_size := of_nat transfer_size\<rparr>;
            (p, w) \<leftarrow> malloc E w;
            case p of
              Heap n _ \<Rightarrow> Some (NULL,
                put_tm t (x\<lparr>tm_buffer := Heap n (map (heap_octets_mac E n) [0..<transfer_size])\<rparr>) w)
            | _ \<Rightarrow> Some (error_no_memory, put_tm t x w)
          }) w;
        (error, w) \<leftarrow> ok_do error (\<lambda>w. do {
            (t, x) \<leftarrow> get_tm new_transfer w;
            i \<leftarrow> generic_handle_get_ioh handle w;
            p \<leftarrow> generic_handle_get_pipe_index handle pipe_id w;
            Some (NULL, put_tm t (x\<lparr>tm_ioh := i, tm_pipe_index := p\<rparr>) w)
          }) w;
        let (transfer, new_transfer) = (if error = NULL then (new_transfer, None) else (None, new_transfer));
        w \<leftarrow> async_in_transfer_free_mac new_transfer w;
        Some ((error, transfer), w)
      })"

definition async_in_pipe_setup_mac :: "generic_handle_mac \<Rightarrow> 8 word \<Rightarrow> 'w world_scheme
    \<Rightarrow> (err \<times> 'w world_scheme) option" where
  "async_in_pipe_setup_mac gh pipe_id w = Some (NULL, w)"

definition async_in_transfer_submit_mac :: "'e iousb_async_scheme \<Rightarrow> nat option \<Rightarrow> 'w mac_world_scheme
    \<Rightarrow> 'w mac_world_scheme option" where
  "async_in_transfer_submit_mac E transfer w = do {
     (t, x) \<leftarrow> get_tm transfer w;
     if tm_pending x then None
     else do {
       w \<leftarrow> libusbp_error_free (tm_error x) w;
       let x = x\<lparr>tm_error := NULL, tm_transferred := 0, tm_pending := True\<rparr>;
       (r, w) \<leftarrow> read_pipe_async E t x (put_tm t x w);
       case r of
         None \<Rightarrow> Some w
       | Some kr \<Rightarrow> do {
           (error, w) \<leftarrow> error_create_mach E kr ''Failed to submit asynchronous read transfer.'' w;
           Some (put_tm t (x\<lparr>tm_pending := False, tm_error := error\<rparr>) w)
         }
     }
   }"

text \<open>A count above the size of the transfer is caught by an assertion.\<close>

definition async_in_transfer_get_results_mac :: "'e environment_scheme \<Rightarrow> nat option \<Rightarrow> 8 word list option
    \<Rightarrow> bool \<Rightarrow> bool \<Rightarrow> 'w mac_world_scheme
    \<Rightarrow> ((err \<times> 8 word list option \<times> nat option \<times> err) \<times> 'w mac_world_scheme) option" where
  "async_in_transfer_get_results_mac E transfer buf transferred_given error_given w = do {
     (t, x) \<leftarrow> get_tm transfer w;
     if tm_pending x then None
     else if unat (tm_transferred x) > unat (tm_size x) then None
     else do {
       let tmp_transferred = unat (tm_transferred x);
       buf \<leftarrow> (case buf of None \<Rightarrow> Some None
         | Some dest \<Rightarrow> do {
             src \<leftarrow> deref (tm_buffer x) w;
             if tmp_transferred \<le> length src then fill_buffer (Some dest) (take tmp_transferred src) else None
           });
       (transfer_error, w) \<leftarrow> (if error_given then libusbp_error_copy E (tm_error x) w
         else Some (NULL, w));
       Some ((NULL, buf, if transferred_given then Some tmp_transferred else None, transfer_error), w)
     }
   }"

definition async_in_transfer_cancel_mac :: "'e iousb_async_scheme \<Rightarrow> nat option \<Rightarrow> 'w mac_world_scheme
    \<Rightarrow> (err \<times> 'w mac_world_scheme) option" where
  "async_in_transfer_cancel_mac E transfer w =
     (if transfer = None then Some (NULL, w)
      else do {
        (t, x) \<leftarrow> get_tm transfer w;
        (r, w) \<leftarrow> ask_object UsbObject (tm_ioh x) (\<lambda>k y. AbortPipe E k y (tm_pipe_index x)) w;
        mach_check E r ''Failed to cancel transfers.'' w
      })"

definition async_in_transfer_pending_mac :: "nat option \<Rightarrow> 'w mac_world_scheme \<Rightarrow> bool option" where
  "async_in_transfer_pending_mac transfer w = do {
     (t, x) \<leftarrow> get_tm transfer w;
     Some (tm_pending x)
   }"

section \<open>The event loop of generic_handle_mac.c\<close>

text \<open>The size of the buffer for messages: a header of six words and 1024 bytes.\<close>

definition our_msg_size :: int where
  "our_msg_size = 24 + 1024"

text \<open>The loop has no bound of its own: not returning is \<open>None\<close>, and has to be excluded by proof.\<close>

partial_function (option) events_loop_mac :: "'e iousb_async_scheme \<Rightarrow> generic_handle_mac
    \<Rightarrow> 'w mac_world_scheme \<Rightarrow> (err \<times> 'w mac_world_scheme) option" where
  "events_loop_mac E handle w = do {
     x \<leftarrow> deref handle w;
     (m, w) \<leftarrow> receive_message E (async_port x) w;
     case m of
       Timeout \<Rightarrow> Some (NULL, w)
     | TooLarge msgh_size \<Rightarrow> error_create E (''Mach message received was too large: '' @
         fmt_d (sint msgh_size) @ '' > '' @ fmt_d our_msg_size @ [CHR 0x0A]) w
     | NotReceived mr \<Rightarrow> error_create_mach E mr ''Failed to receive mach message.'' w
     | Message t kr n \<Rightarrow> do {
         w \<leftarrow> async_in_transfer_callback_mac E (Some t) kr n w;
         events_loop_mac E handle w
       }
   }"

definition generic_handle_events_mac :: "'e iousb_async_scheme \<Rightarrow> generic_handle_mac
    \<Rightarrow> 'w mac_world_scheme \<Rightarrow> (err \<times> 'w mac_world_scheme) option" where
  "generic_handle_events_mac E handle w = (if handle = NULL then None else events_loop_mac E handle w)"

section \<open>The invariant of the transfers\<close>

definition tm_res :: "nat \<Rightarrow> async_in_transfer_mac \<Rightarrow> res multiset" where
  "tm_res t x = add_mset (Mem, t) (blk (tm_buffer x) + err_res (tm_error x))"

definition wf_tm :: "nat \<Rightarrow> async_in_transfer_mac \<Rightarrow> bool" where
  "wf_tm t x \<longleftrightarrow> (\<exists>b d. tm_buffer x = Heap b d \<and> length d = unat (tm_size x)) \<and> wf_err (tm_error x) \<and>
     (tm_pending x \<longrightarrow> tm_error x = NULL \<and> tm_transferred x = 0)"

text \<open>The read of a transfer: one of all of its buffer, while it is pending.\<close>

definition read_of :: "async_in_transfer_mac \<Rightarrow> nat \<times> nat \<Rightarrow> bool" where
  "read_of x k \<longleftrightarrow> tm_pending x \<and> snd k = unat (tm_size x)"

definition mac_inv :: "'w mac_world_scheme \<Rightarrow> res multiset \<Rightarrow> bool" where
  "mac_inv w L \<longleftrightarrow> shared_inv tm_res wf_tm read_of fst (mac_transfers w) (reads w) (next_id w) (live w) L"

lemma mac_fields_of_more:
  fixes w w' :: "'w mac_world_scheme"
  assumes "world.more w' = world.more w"
  shows "mac_transfers w' = mac_transfers w" "reads w' = reads w"
  using assms by (cases w; cases w'; simp)+

lemma later_mac:
  fixes w w' :: "'w mac_world_scheme"
  shows "later w w' \<Longrightarrow> mac_transfers w' = mac_transfers w \<and> reads w' = reads w \<and> next_id w \<le> next_id w'"
  using mac_fields_of_more [of w' w] by (simp add: later_def)

lemma mac_fields_simps [simp]:
  "mac_transfers (tick w) = mac_transfers w" "reads (tick w) = reads w"
  "mac_transfers (take_res k w) = mac_transfers w" "reads (take_res k w) = reads w"
  "mac_transfers (drop_res R w) = mac_transfers w" "reads (drop_res R w) = reads w"
  by (simp_all add: tick_def take_res_def drop_res_def)

lemma put_tm_simps [simp]:
  "mac_transfers (put_tm t x w) = (mac_transfers w)(t \<mapsto> x)" "live (put_tm t x w) = live w"
  "next_id (put_tm t x w) = next_id w" "reads (put_tm t x w) = reads w"
  by (simp_all add: put_tm_def)

lemma get_tm_ok [simp]:
  "mac_transfers w t = Some x \<Longrightarrow> (Mem, t) \<in># live w \<Longrightarrow> get_tm (Some t) w = Some (t, x)"
  by (simp add: get_tm_def)

lemma mac_inv_split:
  assumes "mac_inv w L" "mac_transfers w t = Some x"
  shows "live w = tm_res t x + store_res_of tm_res ((mac_transfers w)(t := None)) + L"
    "get_tm (Some t) w = Some (t, x)" "wf_tm t x"
    "(t, n) \<in> set (reads w) \<longleftrightarrow> tm_pending x \<and> n = unat (tm_size x)"
proof -
  note s = shared_split [OF assms(1) [unfolded mac_inv_def] assms(2)]
  show "live w = tm_res t x + store_res_of tm_res ((mac_transfers w)(t := None)) + L" "wf_tm t x"
    by (rule s)+
  then show "get_tm (Some t) w = Some (t, x)"
    using assms(2) by (simp add: tm_res_def)
  show "(t, n) \<in> set (reads w) \<longleftrightarrow> tm_pending x \<and> n = unat (tm_size x)"
    using s(3) [of "(t, n)"] by (simp add: read_of_def)
qed

lemma mac_inv_upd:
  assumes "mac_inv w L" "mac_transfers w t = Some x" "mac_transfers w' = (mac_transfers w)(t \<mapsto> x')"
    and "live w' = tm_res t x' + store_res_of tm_res ((mac_transfers w)(t := None)) + L'"
    and "next_id w \<le> next_id w'" "wf_tm t x'" "distinct (reads w')"
    and "\<And>s n. (s, n) \<in> set (reads w') \<longleftrightarrow>
      (if s = t then tm_pending x' \<and> n = unat (tm_size x') else (s, n) \<in> set (reads w))"
  shows "mac_inv w' L'"
  unfolding mac_inv_def assms(3)
  by (rule shared_upd [OF assms(1) [unfolded mac_inv_def] assms(2,6,4,5,7)]) (auto simp: assms(8) read_of_def)

lemma mac_inv_keep:
  fixes w w' :: "'w mac_world_scheme"
  assumes "mac_inv w L" "later w w'" "live w' = live w + R"
  shows "mac_inv w' (L + R)"
  using shared_keep [OF assms(1) [unfolded mac_inv_def]] later_mac [OF assms(2)] assms(3)
  by (simp add: mac_inv_def)

lemma mac_inv_distinct: "mac_inv w L \<Longrightarrow> distinct (reads w)"
  and mac_inv_read: "mac_inv w L \<Longrightarrow> (t, n) \<in> set (reads w) \<Longrightarrow> \<exists>x. mac_transfers w t = Some x"
  and mac_inv_old: "mac_inv w L \<Longrightarrow> mac_transfers w t = Some x \<Longrightarrow> t < next_id w"
  and mac_inv_rest: "mac_inv w L \<Longrightarrow> L \<subseteq># live w"
  unfolding mac_inv_def shared_inv_def by force+

section \<open>Submitting, freeing, cancelling\<close>

text \<open>The interface object of a transfer is alive.\<close>

definition interface_alive :: "async_in_transfer_mac \<Rightarrow> res multiset \<Rightarrow> bool" where
  "interface_alive x L \<longleftrightarrow> (\<exists>u y. tm_ioh x = Some (u, y) \<and> (UsbObject, u) \<in># L)"

lemma read_pipe_async_spec:
  fixes w :: "'w mac_world_scheme"
  assumes "interface_alive x (live w)"
  shows "runs (read_pipe_async E t x w) (\<lambda>r w'. next_id w \<le> next_id w' \<and> live w' = live w \<and>
    mac_transfers w' = mac_transfers w \<and>
    reads w' = (if r = None then reads w @ [(t, unat (tm_size x))] else reads w))"
proof -
  obtain u y where "tm_ioh x = Some (u, y)" "(UsbObject, u) \<in># live w"
    using assms by (auto simp: interface_alive_def)
  then show ?thesis
    by (auto simp: read_pipe_async_def dest: later_mac intro!: runs_bind ask_object_wp)
qed

lemma async_in_transfer_submit_mac_ok:
  fixes w :: "'w mac_world_scheme"
  assumes inv: "mac_inv w L" and x: "mac_transfers w t = Some x" and p: "\<not> tm_pending x"
    and io: "interface_alive x L"
  shows "\<exists>w' x'. async_in_transfer_submit_mac E (Some t) w = Some w' \<and> mac_inv w' L \<and>
    mac_transfers w' = (mac_transfers w)(t \<mapsto> x') \<and> tm_ioh x' = tm_ioh x \<and> tm_size x' = tm_size x \<and>
    tm_transferred x' = 0 \<and>
    (if tm_pending x' then reads w' = reads w @ [(t, unat (tm_size x))]
     else tm_error x' \<noteq> NULL \<and> reads w' = reads w)"
proof -
  note s = mac_inv_split [OF inv x]
  let ?x = "x\<lparr>tm_error := NULL, tm_transferred := 0, tm_pending := True\<rparr>"
  let ?w = "put_tm t ?x (drop_res (err_res (tm_error x)) w)"
  have e: "wf_err (tm_error x)" using s(3) by (simp add: wf_tm_def)
  have f: "libusbp_error_free (tm_error x) w = Some (drop_res (err_res (tm_error x)) w)"
    by (rule libusbp_error_free_ok [OF e]) (simp add: s(1) tm_res_def)
  have live: "live ?w = tm_res t ?x + store_res_of tm_res ((mac_transfers w)(t := None)) + L"
    by (simp add: s(1) tm_res_def)
  have "interface_alive ?x (live ?w)" using io live by (auto simp: interface_alive_def)
  then obtain r w1 where r: "read_pipe_async E t ?x ?w = Some (r, w1)" and w1: "next_id w \<le> next_id w1"
      "live w1 = live ?w" "mac_transfers w1 = (mac_transfers w)(t \<mapsto> ?x)"
      "reads w1 = (if r = None then reads w @ [(t, unat (tm_size x))] else reads w)"
    using runsD [OF read_pipe_async_spec [of ?x ?w E t]] by (auto simp del: live_drop_res)
  have old: "(t, n) \<notin> set (reads w)" for n using s(4) p by simp
  show ?thesis
  proof (cases r)
    case None
    have "mac_inv w1 L"
      by (rule mac_inv_upd [OF inv x w1(3)])
        (use None w1 live s(3) old mac_inv_distinct [OF inv] in \<open>auto simp: wf_tm_def\<close>)
    with None f s(2) p r w1 show ?thesis
      by (auto simp: async_in_transfer_submit_mac_def intro!: exI [of _ ?x])
  next
    case (Some kr)
    obtain e' w2 where e': "error_create_mach E kr ''Failed to submit asynchronous read transfer.'' w1 = Some (e', w2)"
        "later w1 w2" "live w2 = live w1 + err_res e'" "wf_err e'" "e' \<noteq> NULL"
      using runsD [OF mach_check_spec [of E "Some kr" "''Failed to submit asynchronous read transfer.''" w1]] by (auto simp: mach_check_def)
    let ?y = "?x\<lparr>tm_pending := False, tm_error := e'\<rparr>"
    have "mac_inv (put_tm t ?y w2) L"
      by (rule mac_inv_upd [OF inv x, of _ ?y])
        (use Some w1 live s(3) old mac_inv_distinct [OF inv] e' later_mac [OF e'(2)] in
          \<open>auto simp: wf_tm_def tm_res_def\<close>)
    with Some f s(2) p r w1 e' later_mac [OF e'(2)] show ?thesis
      by (auto simp: async_in_transfer_submit_mac_def intro!: exI [of _ ?y])
  qed
qed

lemma async_in_transfer_free_mac_ok:
  fixes w :: "'w mac_world_scheme"
  assumes inv: "mac_inv w L" and x: "mac_transfers w t = Some x"
  shows "\<exists>w'. async_in_transfer_free_mac (Some t) w = Some w' \<and> mac_inv w' L \<and> reads w' = reads w \<and>
    mac_transfers w' = (if tm_pending x then mac_transfers w else (mac_transfers w)(t := None)) \<and>
    live w' = (if tm_pending x then live w else live w - tm_res t x)"
proof (cases "tm_pending x")
  case True
  then show ?thesis
    using inv mac_inv_split [OF inv x] by (simp add: async_in_transfer_free_mac_def)
next
  case False
  note s = mac_inv_split [OF inv x]
  obtain b d where b: "tm_buffer x = Heap b d" using s(3) by (auto simp: wf_tm_def)
  have e: "wf_err (tm_error x)" using s(3) by (simp add: wf_tm_def)
  let ?w = "drop_res (tm_res t x) w\<lparr>mac_transfers := (mac_transfers w)(t := None)\<rparr>"
  have f: "libusbp_error_free (tm_error x) w = Some (drop_res (err_res (tm_error x)) w)"
    by (rule libusbp_error_free_ok [OF e]) (simp add: s(1) tm_res_def)
  have "async_in_transfer_free_mac (Some t) w = Some ?w"
    using False s(2) f b
    by (simp add: async_in_transfer_free_mac_def s(1) tm_res_def ac_simps add_mset_commute)
  moreover have "mac_inv ?w L"
    using shared_remove [OF inv [unfolded mac_inv_def] x] False by (simp add: mac_inv_def read_of_def)
  ultimately show ?thesis using False by simp
qed

lemma async_in_transfer_cancel_mac_spec:
  fixes w :: "'w mac_world_scheme"
  assumes inv: "mac_inv w L" and x: "mac_transfers w t = Some x" and io: "interface_alive x L"
  shows "runs (async_in_transfer_cancel_mac E (Some t) w) (\<lambda>e w'. later w w' \<and> wf_err e \<and>
    live w' = live w + err_res e)"
proof -
  obtain u y where "tm_ioh x = Some (u, y)" "(UsbObject, u) \<in># live w"
    using io mac_inv_split(1) [OF inv x] by (auto simp: interface_alive_def)
  then show ?thesis
    using mac_inv_split(2) [OF inv x]
    by (auto simp: async_in_transfer_cancel_mac_def intro!: runs_bind ask_object_wp mach_check_wp
        elim: later_trans)
qed

section \<open>Creating a transfer\<close>

lemma put_tm_commute [simp]:
  "tick (put_tm t x w) = put_tm t x (tick w)" "take_res k (put_tm t x w) = put_tm t x (take_res k w)"
  "drop_res R (put_tm t x w) = put_tm t x (drop_res R w)" "put_tm t x (put_tm t y w) = put_tm t x w"
  by (simp_all add: put_tm_def tick_def take_res_def drop_res_def)

lemma async_in_transfer_create_mac_spec:
  fixes w :: "'w mac_world_scheme"
  assumes inv: "mac_inv w L" and h: "h = Heap k x" "wf_ghm h" "(Mem, k) \<in># L"
  shows "runs (async_in_transfer_create_mac E h p n w) (\<lambda>(e, t) w'. wf_err e \<and>
    mac_inv w' (L + err_res e) \<and> reads w' = reads w \<and>
    (if e = NULL
     then \<exists>i y. t = Some i \<and> mac_transfers w i = None \<and> mac_transfers w' = (mac_transfers w)(i \<mapsto> y) \<and>
       \<not> tm_pending y \<and> tm_error y = NULL \<and> tm_transferred y = 0 \<and> unat (tm_size y) = n \<and>
       tm_ioh y = ioh x \<and> generic_handle_get_pipe_index h p w = Some (tm_pipe_index y)
     else t = None \<and> mac_transfers w' = mac_transfers w))"
proof (cases "n > UINT32_MAX")
  case True
  then show ?thesis
    using h(1)
    by (auto simp: async_in_transfer_create_mac_def says_def dest: later_mac
        intro!: wp intro: mac_inv_keep [OF inv])
next
  case False
  let ?i = "next_id w"
  have fresh: "mac_transfers w ?i = None" using mac_inv_old [OF inv] by fastforce
  have k: "(Mem, k) \<in># live w" using mac_inv_rest [OF inv] h(3) by (rule mset_subset_eqD)
  have n: "unat (of_nat n :: 32 word) = n"
    using False by (simp add: UINT32_MAX_def unsigned_of_nat take_bit_nat_eq_self)
  have "\<exists>j. generic_handle_get_pipe_index h p w = Some j"
    using h k by (auto simp: generic_handle_get_pipe_index_def wf_ghm_def unat_endpoint Let_def)
  then obtain j where j: "generic_handle_get_pipe_index h p w = Some j" ..
  have j': "generic_handle_get_pipe_index h p v = Some j" if "(Mem, k) \<in># live v"
    for v :: "'w mac_world_scheme"
    using h k j that by (simp add: generic_handle_get_pipe_index_def)
  show ?thesis
  proof (cases "malloc_ok E ?i \<and> malloc_ok E (Suc ?i)")
    case True
    let ?x = "\<lparr>tm_ioh = ioh x, tm_pipe_index = j,
      tm_buffer = Heap (Suc ?i) (map (heap_octets_mac E (Suc ?i)) [0..<n]), tm_size = of_nat n,
      tm_pending = False, tm_transferred = 0, tm_error = NULL\<rparr>"
    let ?w = "put_tm ?i ?x (take_res Mem (take_res Mem w))"
    have "async_in_transfer_create_mac E h p n w = Some ((NULL, Some ?i), ?w)"
      using True False h(1) k
      by (simp add: async_in_transfer_create_mac_def malloc_def generic_handle_get_ioh_def
          async_in_transfer_free_mac_def j' [unfolded h(1)])
    moreover have "mac_inv ?w L"
      unfolding mac_inv_def put_tm_simps mac_fields_simps
      by (rule shared_new [OF inv [unfolded mac_inv_def] fresh])
        (simp_all add: wf_tm_def tm_res_def read_of_def n)
    ultimately show ?thesis using fresh n j by auto
  next
    case bad: False
    have "runs (async_in_transfer_create_mac E h p n w) (\<lambda>(e, t) w'. e = error_no_memory \<and>
        t = None \<and> next_id w \<le> next_id w' \<and> live w' = live w \<and> mac_transfers w' = mac_transfers w \<and>
        reads w' = reads w)"
      using bad False h(1) fresh
      by (auto simp: async_in_transfer_create_mac_def malloc_def ok_do_error async_in_transfer_free_mac_def
          libusbp_error_free_def)
    then show ?thesis
      using shared_keep [OF inv [unfolded mac_inv_def], where S = "{#}"]
      by (auto simp: mac_inv_def elim!: runs_mono)
  qed
qed

section \<open>Receiving messages\<close>

text \<open>A system that never reports more bytes of a read than were asked for.\<close>

definition honest :: "'e iousb_async_scheme \<Rightarrow> bool" where
  "honest E \<longleftrightarrow> (\<forall>k p rs i c b n. mach_msg E k p rs = Completion i c b n \<longrightarrow> i < length rs \<longrightarrow>
     unat n \<le> snd (rs ! i))"

text \<open>A system that has no message on a port about any of the reads in progress.\<close>

definition quiet :: "'e iousb_async_scheme \<Rightarrow> nat option \<Rightarrow> (nat \<times> nat) list \<Rightarrow> bool" where
  "quiet E p rs \<longleftrightarrow> (\<exists>k. \<forall>i c b n. mach_msg E k p rs = Completion i c b n \<longrightarrow> length rs \<le> i)"

lemma quietI: "(\<And>i c b n. mach_msg E k p rs = Completion i c b n \<Longrightarrow> length rs \<le> i) \<Longrightarrow> quiet E p rs"
  unfolding quiet_def by blast

text \<open>What the system changes of a transfer: the contents of its buffer.\<close>

definition refilled :: "async_in_transfer_mac \<Rightarrow> async_in_transfer_mac \<Rightarrow> bool" where
  "refilled x x' \<longleftrightarrow> (\<exists>b d d'. tm_buffer x = Heap b d \<and> length d' = length d \<and> x' = x\<lparr>tm_buffer := Heap b d'\<rparr>)"

lemma refilledD:
  assumes "refilled x x'" "wf_tm t x"
  shows "wf_tm t x'" "tm_res t x' = tm_res t x" "tm_pending x' = tm_pending x"
    "tm_ioh x' = tm_ioh x" "tm_error x' = tm_error x" "tm_size x' = tm_size x"
    "tm_transferred x' = tm_transferred x"
  using assms by (auto simp: refilled_def wf_tm_def tm_res_def)

lemma without_nth:
  assumes "distinct xs" "i < length xs"
  shows "distinct (take i xs @ drop (Suc i) xs)"
    "set (take i xs @ drop (Suc i) xs) = set xs - {xs ! i}"
    "length (take i xs @ drop (Suc i) xs) < length xs"
proof -
  have xs: "xs = take i xs @ xs ! i # drop (Suc i) xs" by (rule id_take_nth_drop [OF assms(2)])
  then have "distinct (take i xs @ xs ! i # drop (Suc i) xs)" using assms(1) by simp
  then show "distinct (take i xs @ drop (Suc i) xs)" by auto
  have "set xs = set (take i xs @ xs ! i # drop (Suc i) xs)" using xs by simp
  with \<open>distinct (take i xs @ xs ! i # drop (Suc i) xs)\<close>
  show "set (take i xs @ drop (Suc i) xs) = set xs - {xs ! i}" by auto
  show "length (take i xs @ drop (Suc i) xs) < length xs" using assms(2) by simp
qed

text \<open>A message that was received ends the read of a pending transfer; anything else changes nothing.\<close>

definition ends_read :: "bool \<Rightarrow> nat \<Rightarrow> 64 word \<Rightarrow> 'w mac_world_scheme \<Rightarrow> 'w mac_world_scheme \<Rightarrow> bool" where
  "ends_read h t n w w' \<longleftrightarrow> (\<exists>x x'. mac_transfers w t = Some x \<and> tm_pending x \<and> refilled x x' \<and>
     mac_transfers w' = (mac_transfers w)(t \<mapsto> x') \<and> distinct (reads w') \<and>
     set (reads w') = set (reads w) - {(t, unat (tm_size x))} \<and> length (reads w') < length (reads w) \<and>
     (h \<longrightarrow> unat n \<le> unat (tm_size x)))"

lemma receive_message_spec:
  fixes w :: "'w mac_world_scheme"
  assumes inv: "mac_inv w L"
  shows "runs (receive_message E p w) (\<lambda>m w'. next_id w \<le> next_id w' \<and> live w' = live w \<and>
    (case m of Message t kr n \<Rightarrow> ends_read (honest E) t n w w'
     | _ \<Rightarrow> mac_transfers w' = mac_transfers w \<and> reads w' = reads w) \<and>
    (m = Timeout \<longrightarrow> quiet E p (reads w)))"
proof (cases "mach_msg E (next_id w) p (reads w)")
  case (Completion i kr bytes n)
  show ?thesis
  proof (cases "i < length (reads w)")
    case True
    obtain t m where r: "reads w ! i = (t, m)" by (cases "reads w ! i")
    then have "(t, m) \<in> set (reads w)" using True by (metis nth_mem)
    moreover from this obtain x where x: "mac_transfers w t = Some x"
      using mac_inv_read [OF inv] by blast
    moreover note s = mac_inv_split [OF inv x]
    ultimately have m: "tm_pending x" "m = unat (tm_size x)" by simp_all
    obtain b d where b: "tm_buffer x = Heap b d" "length d = unat (tm_size x)"
      using s(3) by (auto simp: wf_tm_def)
    let ?b = "take m bytes"
    let ?x = "x\<lparr>tm_buffer := Heap b (?b @ drop (length ?b) d)\<rparr>"
    let ?w = "tick ((put_tm t ?x w)\<lparr>reads := take i (reads w) @ drop (Suc i) (reads w)\<rparr>)"
    have "receive_message E p w = Some (Message t kr n, ?w)"
      using Completion True r b m s(2) by (simp add: receive_message_def s(1) tm_res_def fill_buffer_ok)
    moreover have "refilled x ?x"
      unfolding refilled_def using b m by (intro exI [of _ b] exI [of _ d] exI [of _ "?b @ drop (length ?b) d"]) simp
    moreover have "unat n \<le> unat (tm_size x)" if "honest E"
    proof -
      have "unat n \<le> snd (reads w ! i)" using that Completion True unfolding honest_def by blast
      then show ?thesis using r m by simp
    qed
    ultimately show ?thesis
      using x m r without_nth [OF mac_inv_distinct [OF inv] True]
      by (auto simp: ends_read_def simp del: put_tm_commute)
  next
    case False
    then have "quiet E p (reads w)" by (intro quietI [of E "next_id w"]) (simp add: Completion)
    with False show ?thesis by (simp add: receive_message_def Completion)
  qed
next
  case NoMessage
  then have "quiet E p (reads w)" by (intro quietI [of E "next_id w"]) simp
  with NoMessage show ?thesis by (simp add: receive_message_def)
qed (simp_all add: receive_message_def)

lemma async_in_transfer_callback_mac_ok:
  fixes w :: "'w mac_world_scheme"
  assumes inv: "mac_inv w L" and r: "ends_read h t n w w1" and w1: "live w1 = live w" "next_id w \<le> next_id w1"
    and x: "mac_transfers w t = Some x"
  shows "\<exists>w2 x2. async_in_transfer_callback_mac E (Some t) kr n w1 = Some w2 \<and> mac_inv w2 L \<and>
    next_id w1 \<le> next_id w2 \<and> mac_transfers w2 = (mac_transfers w)(t \<mapsto> x2) \<and> \<not> tm_pending x2 \<and>
    tm_ioh x2 = tm_ioh x \<and> tm_size x2 = tm_size x \<and> tm_transferred x2 = n \<and> (tm_error x2 = NULL \<longleftrightarrow> kr = None) \<and>
    reads w2 = reads w1"
proof -
  obtain x1 where x1: "tm_pending x" "refilled x x1" "mac_transfers w1 = (mac_transfers w)(t \<mapsto> x1)"
      "distinct (reads w1)" "set (reads w1) = set (reads w) - {(t, unat (tm_size x))}"
    using r x unfolding ends_read_def by auto
  note s = mac_inv_split [OF inv x] and r' = refilledD [OF x1(2) mac_inv_split(3) [OF inv x]]
  have z: "tm_error x = NULL" "tm_transferred x = 0" using s(3) x1(1) by (simp_all add: wf_tm_def)
  have live1: "live w1 = tm_res t x1 + store_res_of tm_res ((mac_transfers w)(t := None)) + L"
    using w1(1) s(1) r'(2) by simp
  then have g: "get_tm (Some t) w1 = Some (t, x1)" using x1(3) by (simp add: tm_res_def)
  obtain e w2 where e: "mach_check E kr ''Asynchronous IN transfer failed.'' w1 = Some (e, w2)" "later w1 w2"
      "live w2 = live w1 + err_res e" "wf_err e" "e = NULL \<longleftrightarrow> kr = None"
    using runsD [OF mach_check_spec [of E kr "''Asynchronous IN transfer failed.''" w1]] by blast
  note f = later_mac [OF e(2)]
  let ?x = "x1\<lparr>tm_transferred := n, tm_pending := False, tm_error := e\<rparr>"
  have "mac_inv (put_tm t ?x w2) L"
  proof (rule mac_inv_upd [OF inv x, of _ ?x], goal_cases)
    case (6 q m)
    show ?case using f x1(1,5) s(4) r'(3) by (cases "q = t") auto
  qed (use f x1 e live1 r' z w1(2) in \<open>auto simp: tm_res_def wf_tm_def refilled_def\<close>)
  moreover have "async_in_transfer_callback_mac E (Some t) kr n w1 = Some (put_tm t ?x w2)"
    using g r' x1(1) z e(1) by (simp add: async_in_transfer_callback_mac_def)
  ultimately show ?thesis
    using f x1(3) r' e(5) by (intro exI [of _ "put_tm t ?x w2"] exI [of _ ?x]) simp
qed

section \<open>The event loop\<close>

text \<open>What completions do to the transfers: those that are over stay as they are, pending ones may finish.\<close>

definition completes_mac :: "bool \<Rightarrow> 'w mac_world_scheme \<Rightarrow> 'w mac_world_scheme \<Rightarrow> bool" where
  "completes_mac h w w' \<longleftrightarrow> dom (mac_transfers w') = dom (mac_transfers w) \<and> set (reads w') \<subseteq> set (reads w) \<and>
     (\<forall>t x. mac_transfers w t = Some x \<longrightarrow> (\<exists>x'. mac_transfers w' t = Some x' \<and> tm_ioh x' = tm_ioh x \<and>
        tm_size x' = tm_size x \<and> (\<not> tm_pending x \<longrightarrow> x' = x) \<and>
        (h \<and> tm_pending x \<longrightarrow> unat (tm_transferred x') \<le> unat (tm_size x'))))"

lemma completes_mac_refl:
  assumes "mac_inv w L" "mac_transfers w' = mac_transfers w" "reads w' = reads w"
  shows "completes_mac h w w'"
proof -
  have "tm_transferred x = 0" if "mac_transfers w t = Some x" "tm_pending x" for t x
    using mac_inv_split(3) [OF assms(1) that(1)] that(2) by (simp add: wf_tm_def)
  then show ?thesis using assms by (auto simp: completes_mac_def)
qed

lemma completes_mac_trans:
  assumes "completes_mac h u v" "completes_mac h v w"
  shows "completes_mac h u w"
  unfolding completes_mac_def
proof (intro conjI allI impI)
  fix t x
  assume "mac_transfers u t = Some x"
  then obtain y where y: "mac_transfers v t = Some y" "tm_ioh y = tm_ioh x" "tm_size y = tm_size x"
    "\<not> tm_pending x \<longrightarrow> y = x" "h \<and> tm_pending x \<longrightarrow> unat (tm_transferred y) \<le> unat (tm_size y)"
    using assms(1) unfolding completes_mac_def by blast
  then obtain z where "mac_transfers w t = Some z" "tm_ioh z = tm_ioh y" "tm_size z = tm_size y"
    "\<not> tm_pending y \<longrightarrow> z = y" "h \<and> tm_pending y \<longrightarrow> unat (tm_transferred z) \<le> unat (tm_size z)"
    using assms(2) unfolding completes_mac_def by blast
  with y show "\<exists>x'. mac_transfers w t = Some x' \<and> tm_ioh x' = tm_ioh x \<and> tm_size x' = tm_size x \<and>
      (\<not> tm_pending x \<longrightarrow> x' = x) \<and> (h \<and> tm_pending x \<longrightarrow> unat (tm_transferred x') \<le> unat (tm_size x'))"
    by (cases "tm_pending y") auto
qed (use assms in \<open>auto simp: completes_mac_def\<close>)

text \<open>
  The loop ends, because every message about a read takes one from the system.  When it ends without an
  error, the system had nothing to say about any read that was left.
\<close>

lemma events_loop_mac_spec:
  fixes w :: "'w mac_world_scheme"
  assumes "mac_inv w L" "(Mem, k) \<in># L"
  shows "runs (events_loop_mac E (Heap k h) w) (\<lambda>e w'. wf_err e \<and> mac_inv w' (L + err_res e) \<and>
    completes_mac (honest E) w w' \<and> (e = NULL \<longrightarrow> quiet E (async_port h) (reads w')))"
  using assms(1)
proof (induction "length (reads w)" arbitrary: w rule: less_induct)
  case less
  have h: "deref (Heap k h) w = Some h"
    using mset_subset_eqD [OF mac_inv_rest [OF less.prems] assms(2)] by simp
  obtain m w1 where m: "receive_message E (async_port h) w = Some (m, w1)"
    and w1: "next_id w \<le> next_id w1" "live w1 = live w"
    and c: "case m of Message t kr n \<Rightarrow> ends_read (honest E) t n w w1
      | _ \<Rightarrow> mac_transfers w1 = mac_transfers w \<and> reads w1 = reads w"
    and quiet: "m = Timeout \<Longrightarrow> quiet E (async_port h) (reads w)"
    using runsD [OF receive_message_spec [OF less.prems, of E "async_port h"]] by blast
  have msg: "ends_read (honest E) t n w w1" if "m = Message t kr n" for t kr n using c that by simp
  have other: "mac_transfers w1 = mac_transfers w \<and> reads w1 = reads w" if "\<nexists>t kr n. m = Message t kr n"
    using c that by (cases m) auto
  show ?case
  proof (cases "\<exists>t kr n. m = Message t kr n")
    case True
    then obtain t kr n where t: "m = Message t kr n" by blast
    from msg [OF t] obtain x where x: "mac_transfers w t = Some x" "tm_pending x"
        "set (reads w1) \<subseteq> set (reads w)" "length (reads w1) < length (reads w)"
        "honest E \<longrightarrow> unat n \<le> unat (tm_size x)"
      unfolding ends_read_def by blast
    from async_in_transfer_callback_mac_ok [OF less.prems msg [OF t] w1(2,1) x(1), of E kr] obtain w2 x2 where
      w2: "async_in_transfer_callback_mac E (Some t) kr n w1 = Some w2" "mac_inv w2 L"
        "mac_transfers w2 = (mac_transfers w)(t \<mapsto> x2)" "tm_ioh x2 = tm_ioh x" "tm_size x2 = tm_size x"
        "tm_transferred x2 = n" "reads w2 = reads w1"
      by blast
    have c: "completes_mac (honest E) w w2"
      unfolding completes_mac_def
    proof (intro conjI allI impI)
      fix s y
      assume "mac_transfers w s = Some y"
      then show "\<exists>x'. mac_transfers w2 s = Some x' \<and> tm_ioh x' = tm_ioh y \<and> tm_size x' = tm_size y \<and>
          (\<not> tm_pending y \<longrightarrow> x' = y) \<and> (honest E \<and> tm_pending y \<longrightarrow> unat (tm_transferred x') \<le> unat (tm_size x'))"
        using w2 x mac_inv_split(3) [OF less.prems, of s y] by (cases "s = t") (auto simp: wf_tm_def)
    qed (use x w2 in auto)
    have "runs (events_loop_mac E (Heap k h) w2) (\<lambda>e w'. wf_err e \<and> mac_inv w' (L + err_res e) \<and>
        completes_mac (honest E) w2 w' \<and> (e = NULL \<longrightarrow> quiet E (async_port h) (reads w')))"
      by (rule less.hyps) (use w2 x in simp_all)
    then have "runs (events_loop_mac E (Heap k h) w2) (\<lambda>e w'. wf_err e \<and> mac_inv w' (L + err_res e) \<and>
        completes_mac (honest E) w w' \<and> (e = NULL \<longrightarrow> quiet E (async_port h) (reads w')))"
      by (rule runs_mono) (auto intro: completes_mac_trans [OF c])
    then show ?thesis
      using h m t w2(1) by (subst events_loop_mac.simps) simp
  next
    case False
    then have f: "mac_transfers w1 = mac_transfers w" "reads w1 = reads w" using other [OF False] by blast+
    have fin: "mac_inv w' (L + err_res e)" "completes_mac (honest E) w w'"
      if "later w1 w'" "live w' = live w1 + err_res e" for e and w' :: "'w mac_world_scheme"
    proof -
      note l = later_mac [OF that(1)]
      show "mac_inv w' (L + err_res e)"
        using shared_keep [OF less.prems [unfolded mac_inv_def]] that(2) w1 f l by (simp add: mac_inv_def)
      show "completes_mac (honest E) w w'"
        by (rule completes_mac_refl [OF less.prems]) (use f l in simp_all)
    qed
    have "runs (case m of Timeout \<Rightarrow> Some (NULL, w1)
        | TooLarge s \<Rightarrow> error_create E (''Mach message received was too large: '' @
            fmt_d (sint s) @ '' > '' @ fmt_d our_msg_size @ [CHR 0x0A]) w1
        | NotReceived mr \<Rightarrow> error_create_mach E mr ''Failed to receive mach message.'' w1
        | Message t kr n \<Rightarrow> None)
      (\<lambda>e w'. later w1 w' \<and> live w' = live w1 + err_res e \<and> wf_err e \<and> (e = NULL \<longrightarrow> m = Timeout \<and> w' = w1))"
      using False by (auto simp: says_def split: received.splits intro!: wp)
    then have "runs (case m of Timeout \<Rightarrow> Some (NULL, w1)
        | TooLarge s \<Rightarrow> error_create E (''Mach message received was too large: '' @
            fmt_d (sint s) @ '' > '' @ fmt_d our_msg_size @ [CHR 0x0A]) w1
        | NotReceived mr \<Rightarrow> error_create_mach E mr ''Failed to receive mach message.'' w1
        | Message t kr n \<Rightarrow> None)
      (\<lambda>e w'. wf_err e \<and> mac_inv w' (L + err_res e) \<and>
        completes_mac (honest E) w w' \<and> (e = NULL \<longrightarrow> quiet E (async_port h) (reads w')))"
      by (rule runs_mono) (use fin quiet f in auto)
    then show ?thesis
      using h m False by (subst events_loop_mac.simps) (auto split: received.splits)
  qed
qed

text \<open>The number of bytes a transfer reports is at most its size, as long as the system is honest.\<close>

lemma generic_handle_events_mac_spec:
  fixes w :: "'w mac_world_scheme"
  assumes "mac_inv w L" "(Mem, k) \<in># L"
  shows "runs (generic_handle_events_mac E (Heap k h) w) (\<lambda>e w'. wf_err e \<and> mac_inv w' (L + err_res e) \<and>
    completes_mac (honest E) w w' \<and> (e = NULL \<longrightarrow> quiet E (async_port h) (reads w')))"
  using events_loop_mac_spec [OF assms] by (simp add: generic_handle_events_mac_def)

section \<open>Results\<close>

lemma async_in_transfer_get_results_mac_spec:
  fixes w :: "'w mac_world_scheme"
  assumes inv: "mac_inv w L" and x: "mac_transfers w t = Some x" and p: "\<not> tm_pending x"
    and n: "unat (tm_transferred x) \<le> unat (tm_size x)" and dest: "unat (tm_size x) \<le> length dest"
  shows "runs (async_in_transfer_get_results_mac E (Some t) (Some dest) True True w) (\<lambda>(e, buf, m, te) w'.
    e = NULL \<and> m = Some (unat (tm_transferred x)) \<and>
    buf = Some (take (unat (tm_transferred x)) (contents [] (tm_buffer x)) @
      drop (unat (tm_transferred x)) dest) \<and>
    later w w' \<and> live w' = live w + err_res te \<and> wf_err te \<and> (te = NULL \<longleftrightarrow> tm_error x = NULL))"
proof -
  note s = mac_inv_split [OF inv x]
  obtain b d where b: "tm_buffer x = Heap b d" "length d = unat (tm_size x)" and e: "wf_err (tm_error x)"
    using s(3) by (auto simp: wf_tm_def)
  have copy: "runs (libusbp_error_copy E (tm_error x) w) (\<lambda>te w'. later w w' \<and> wf_err te \<and>
      live w' = live w + err_res te \<and> (te = NULL \<longleftrightarrow> tm_error x = NULL))"
    using e by (auto simp: s(1) tm_res_def static_errors(3) [symmetric] intro!: libusbp_error_copy_wp split: if_splits)
  show ?thesis
    using s(2) p n dest b
    by (auto simp: async_in_transfer_get_results_mac_def s(1) tm_res_def fill_buffer_def Let_def
        intro!: runs_bind runs_mono [OF copy])
qed

section \<open>Runs of a program\<close>

text \<open>
  What a program does with transfers on one handle: it makes them, submits, cancels and frees any of them,
  and lets the handle process events, in any order.
\<close>

inductive mac_step :: "'e iousb_async_scheme \<Rightarrow> generic_handle_mac \<Rightarrow> 'w mac_world_scheme
    \<Rightarrow> 'w mac_world_scheme \<Rightarrow> bool" for E h where
  create: "async_in_transfer_create_mac E h p n w = Some (r, w') \<Longrightarrow> mac_step E h w w'"
| submit: "mac_transfers w t = Some x \<Longrightarrow> async_in_transfer_submit_mac E (Some t) w = Some w' \<Longrightarrow> mac_step E h w w'"
| cancel: "mac_transfers w t = Some x \<Longrightarrow> async_in_transfer_cancel_mac E (Some t) w = Some (e, w') \<Longrightarrow>
    mac_step E h w w'"
| give_back: "mac_transfers w t = Some x \<Longrightarrow> async_in_transfer_free_mac (Some t) w = Some w' \<Longrightarrow> mac_step E h w w'"
| events: "generic_handle_events_mac E h w = Some (e, w') \<Longrightarrow> mac_step E h w w'"

definition safe_with :: "'e iousb_async_scheme \<Rightarrow> generic_handle_mac \<Rightarrow> 'w mac_world_scheme
    \<Rightarrow> res multiset \<Rightarrow> nat \<Rightarrow> libusbp_generic_handle_mac \<Rightarrow> bool" where
  "safe_with E h w L k y \<longleftrightarrow> h = Heap k y \<and> wf_ghm h \<and> mac_inv w L \<and> ghm_res h \<subseteq># L \<and>
     (\<forall>t x. mac_transfers w t = Some x \<longrightarrow> tm_ioh x = ioh y \<and>
        (honest E \<longrightarrow> unat (tm_transferred x) \<le> unat (tm_size x)))"

definition mac_safe :: "'e iousb_async_scheme \<Rightarrow> generic_handle_mac \<Rightarrow> 'w mac_world_scheme \<Rightarrow> bool" where
  "mac_safe E h w \<longleftrightarrow> (\<exists>L k y. safe_with E h w L k y)"

lemma safe_withD:
  assumes "safe_with E h w L k y"
  shows "mac_inv w L" "h = Heap k y" "wf_ghm h" "(Mem, k) \<in># L"
    "mac_transfers w t = Some x \<Longrightarrow> interface_alive x L"
    "mac_transfers w t = Some x \<Longrightarrow> tm_ioh x = ioh y"
    "mac_transfers w t = Some x \<Longrightarrow> honest E \<Longrightarrow> unat (tm_transferred x) \<le> unat (tm_size x)"
proof -
  obtain u z where u: "ioh y = Some (u, z)" using assms by (auto simp: safe_with_def wf_ghm_def)
  have "h = Heap k y" and "ghm_res h \<subseteq># L" using assms by (auto simp: safe_with_def)
  then have "(Mem, k) \<in># L" "(UsbObject, u) \<in># L" using u by (auto intro: mset_subset_eqD)
  with assms u show "mac_inv w L" "h = Heap k y" "wf_ghm h" "(Mem, k) \<in># L"
    "mac_transfers w t = Some x \<Longrightarrow> interface_alive x L"
    "mac_transfers w t = Some x \<Longrightarrow> tm_ioh x = ioh y"
    "mac_transfers w t = Some x \<Longrightarrow> honest E \<Longrightarrow> unat (tm_transferred x) \<le> unat (tm_size x)"
    by (auto simp: safe_with_def interface_alive_def)
qed

lemma safe_with_next:
  assumes "safe_with E h w L k y" "mac_inv w' (L + R)"
    and "\<And>t x. mac_transfers w' t = Some x \<Longrightarrow> tm_ioh x = ioh y \<and>
      (honest E \<longrightarrow> unat (tm_transferred x) \<le> unat (tm_size x))"
  shows "mac_safe E h w'"
proof -
  have "ghm_res h \<subseteq># L" using assms(1) unfolding safe_with_def by blast
  then have "ghm_res h \<subseteq># L + R" by (rule subset_mset.order_trans) simp
  with assms have "safe_with E h w' (L + R) k y" unfolding safe_with_def by blast
  then show ?thesis unfolding mac_safe_def by blast
qed

text \<open>Every call a program may make returns, and it keeps a safe world safe.\<close>

lemma mac_create_safe:
  assumes "mac_safe E h w"
  shows "runs (async_in_transfer_create_mac E h p n w) (\<lambda>_. mac_safe E h)"
proof -
  obtain L k y where s: "safe_with E h w L k y" using assms unfolding mac_safe_def by blast
  note d = safe_withD [OF s]
  show ?thesis
  proof (rule runs_mono [OF async_in_transfer_create_mac_spec [OF d(1-4)]], goal_cases)
    case (1 r w')
    then obtain e t where r: "r = (e, t)" "mac_inv w' (L + err_res e)" by (cases r) auto
    show ?case by (rule safe_with_next [OF s r(2)]) (use 1 r(1) d(6,7) in \<open>auto split: if_splits\<close>)
  qed
qed

lemma mac_events_safe:
  fixes w :: "'w mac_world_scheme"
  assumes "mac_safe E h w"
  shows "runs (generic_handle_events_mac E h w) (\<lambda>_. mac_safe E h)"
proof -
  obtain L k y where s: "safe_with E h w L k y" using assms unfolding mac_safe_def by blast
  note d = safe_withD [OF s]
  have ev: "runs (generic_handle_events_mac E h w) (\<lambda>e w'. mac_inv w' (L + err_res e) \<and> completes_mac (honest E) w w')"
    unfolding d(2) by (rule runs_mono [OF generic_handle_events_mac_spec [OF d(1,4)]]) auto
  show ?thesis
  proof (rule runs_mono [OF ev], elim conjE, goal_cases)
    case (1 e w')
    show ?case
    proof (rule safe_with_next [OF s 1(1)])
      fix t x' assume x': "mac_transfers w' t = Some x'"
      then obtain x where x: "mac_transfers w t = Some x" using 1(2) unfolding completes_mac_def by blast
      then have "tm_ioh x' = tm_ioh x" "\<not> tm_pending x \<longrightarrow> x' = x"
          "honest E \<and> tm_pending x \<longrightarrow> unat (tm_transferred x') \<le> unat (tm_size x')"
        using x' 1(2) unfolding completes_mac_def by fastforce+
      with d(6,7) [OF x] show "tm_ioh x' = ioh y \<and> (honest E \<longrightarrow> unat (tm_transferred x') \<le> unat (tm_size x'))"
        by auto
    qed
  qed
qed

lemma mac_submit_safe:
  assumes "mac_safe E h w" "mac_transfers w t = Some x" "\<not> tm_pending x"
  shows "\<exists>w'. async_in_transfer_submit_mac E (Some t) w = Some w' \<and> mac_safe E h w'"
proof -
  obtain L k y where s: "safe_with E h w L k y" using assms(1) unfolding mac_safe_def by blast
  note d = safe_withD [OF s]
  obtain w' x' where w': "async_in_transfer_submit_mac E (Some t) w = Some w'" "mac_inv w' (L + {#})"
      "mac_transfers w' = (mac_transfers w)(t \<mapsto> x')" "tm_ioh x' = tm_ioh x" "tm_transferred x' = 0"
    using async_in_transfer_submit_mac_ok [OF d(1) assms(2,3) d(5) [OF assms(2)], of E] by auto
  have "mac_safe E h w'"
    by (rule safe_with_next [OF s w'(2)]) (use w'(3-5) d(6,7) assms(2) in \<open>auto split: if_splits\<close>)
  with w'(1) show ?thesis by blast
qed

lemma mac_cancel_safe:
  fixes w :: "'w mac_world_scheme"
  assumes "mac_safe E h w" "mac_transfers w t = Some x"
  shows "runs (async_in_transfer_cancel_mac E (Some t) w) (\<lambda>_. mac_safe E h)"
proof -
  obtain L k y where s: "safe_with E h w L k y" using assms(1) unfolding mac_safe_def by blast
  note d = safe_withD [OF s]
  show ?thesis
  proof (rule runs_mono [OF async_in_transfer_cancel_mac_spec [OF d(1) assms(2) d(5) [OF assms(2)]]],
      elim conjE, goal_cases)
    case (1 e w')
    show ?case
      by (rule safe_with_next [OF s mac_inv_keep [OF d(1) 1(1,3)]]) (use later_mac [OF 1(1)] d(6,7) in auto)
  qed
qed

lemma mac_free_safe:
  assumes "mac_safe E h w" "mac_transfers w t = Some x"
  shows "\<exists>w'. async_in_transfer_free_mac (Some t) w = Some w' \<and> mac_safe E h w' \<and>
    live w' = (if tm_pending x then live w else live w - tm_res t x)"
proof -
  obtain L k y where s: "safe_with E h w L k y" using assms(1) unfolding mac_safe_def by blast
  note d = safe_withD [OF s]
  obtain w' where w': "async_in_transfer_free_mac (Some t) w = Some w'" "mac_inv w' (L + {#})"
      "mac_transfers w' = (if tm_pending x then mac_transfers w else (mac_transfers w)(t := None))"
      "live w' = (if tm_pending x then live w else live w - tm_res t x)"
    using async_in_transfer_free_mac_ok [OF d(1) assms(2)] by auto
  have "mac_safe E h w'"
    by (rule safe_with_next [OF s w'(2)]) (use w'(3) d(6,7) in \<open>auto split: if_splits\<close>)
  with w'(1,4) show ?thesis by blast
qed

lemma mac_step_safe:
  assumes "mac_step E h w w'" "mac_safe E h w"
  shows "mac_safe E h w'"
  using assms(1)
proof cases
  case (create p n r)
  then show ?thesis using mac_create_safe [OF assms(2), of p n] by simp
next
  case (submit t x)
  obtain L k y where "safe_with E h w L k y" using assms(2) unfolding mac_safe_def by blast
  then have "get_tm (Some t) w = Some (t, x)" by (intro mac_inv_split(2) safe_withD(1) submit(1))
  then have "\<not> tm_pending x" using submit(2) by (auto simp: async_in_transfer_submit_mac_def)
  with submit show ?thesis using mac_submit_safe [OF assms(2)] by fastforce
next
  case (cancel t x e)
  then show ?thesis using mac_cancel_safe [OF assms(2)] by fastforce
next
  case (give_back t x)
  then show ?thesis using mac_free_safe [OF assms(2)] by fastforce
next
  case (events e)
  then show ?thesis using mac_events_safe [OF assms(2)] by simp
qed

text \<open>A run starts without transfers.\<close>

definition no_transfers :: "'w mac_world_scheme \<Rightarrow> bool" where
  "no_transfers w \<longleftrightarrow> mac_transfers w = (\<lambda>_. None) \<and> reads w = []"

lemma mac_run_safe:
  assumes "(mac_step E h)\<^sup>*\<^sup>* w0 w" "no_transfers w0" "ghm_res h \<subseteq># live w0" "wf_ghm h" "h \<noteq> NULL"
  shows "mac_safe E h w"
  using assms(1)
proof induction
  case base
  obtain k y where "h = Heap k y" by (rule wf_ghmE [OF assms(4,5)])
  then have "safe_with E h w0 (live w0) k y"
    using assms by (auto simp: safe_with_def mac_inv_def shared_inv_def no_transfers_def)
  then show ?case unfolding mac_safe_def by blast
next
  case (step v w)
  show ?case by (rule mac_step_safe [OF step.hyps(2) step.IH])
qed

section \<open>Properties\<close>

text \<open>
  C12: Asynchronous transfers on macOS are memory safe in every run: in any order of making, submitting,
  cancelling and freeing transfers and of processing events, whatever the system answers, a transfer is
  pending exactly while the system works on a read for it, its block and its buffer are alive then, and
  the next event call, cancellation or release of any transfer returns; so the three assertions of the
  callback never fail.  Freeing a pending transfer changes nothing; any other gives back exactly what it
  owns.  With a system that reports no more bytes than were asked for, the assertion about the count never fails either.
\<close>

theorem transfers_mac_safe:
  assumes "wf_ghm h" "h \<noteq> NULL" "ghm_res h \<subseteq># live w0" "no_transfers w0" "(mac_step E h)\<^sup>*\<^sup>* w0 w"
    and x: "mac_transfers w t = Some x"
  shows "((\<exists>n. (t, n) \<in> set (reads w)) \<longleftrightarrow> tm_pending x) \<and> tm_res t x \<subseteq># live w \<and>
    generic_handle_events_mac E h w \<noteq> None \<and>
    async_in_transfer_cancel_mac E (Some t) w \<noteq> None \<and>
    (\<exists>w'. async_in_transfer_free_mac (Some t) w = Some w' \<and>
       live w' = (if tm_pending x then live w else live w - tm_res t x)) \<and>
    (\<not> tm_pending x \<longrightarrow> async_in_transfer_submit_mac E (Some t) w \<noteq> None) \<and>
    (honest E \<longrightarrow> unat (tm_transferred x) \<le> unat (tm_size x))"
proof -
  have s: "mac_safe E h w" by (rule mac_run_safe [OF assms(5,4,3,1,2)])
  then obtain L k y where "safe_with E h w L k y" unfolding mac_safe_def by blast
  note d = safe_withD [OF this]
  note i = mac_inv_split [OF d(1) x]
  show ?thesis
    using runsD [OF mac_events_safe [OF s]] runsD [OF mac_cancel_safe [OF s x]] mac_free_safe [OF s x]
      mac_submit_safe [OF s x] d(7) [OF x] i(1,4)
    by (intro conjI) auto
qed

definition demo_iousb_async :: iousb_async where
  "demo_iousb_async = iousb.extend demo_iousb \<lparr>heap_octets_mac = \<lambda>_ _. 0, ReadPipeAsync = \<lambda>_ _ _ _. None,
     AbortPipe = \<lambda>_ _ _. None,
     mach_msg = \<lambda>_ _ rs. if rs = [] then NoMessage else Completion 0 None [7] 1\<rparr>"

definition demo_mac_world :: mac_world where
  "demo_mac_world = world.extend demo_ghm_world \<lparr>mac_transfers = \<lambda>_. None, reads = []\<rparr>"

definition demo_tm :: "bool \<Rightarrow> async_in_transfer_mac" where
  "demo_tm p = \<lparr>tm_ioh = Some (1, 11), tm_pipe_index = 1, tm_buffer = Heap 4 [0, 0], tm_size = 2,
     tm_pending = p, tm_transferred = 0, tm_error = NULL\<rparr>"

definition demo_mac_created :: mac_world where
  "demo_mac_created = put_tm 3 (demo_tm False) (take_res Mem (take_res Mem demo_mac_world))"

definition demo_mac_submitted :: mac_world where
  "demo_mac_submitted = (put_tm 3 (demo_tm True) (tick demo_mac_created))\<lparr>reads := [(3, 2)]\<rparr>"

lemma demo_mac_steps: "(mac_step demo_iousb_async demo_ghm)\<^sup>*\<^sup>* demo_mac_world demo_mac_submitted"
proof -
  have "async_in_transfer_create_mac demo_iousb_async demo_ghm 0x81 2 demo_mac_world =
      Some ((NULL, Some 3), demo_mac_created)"
    by (simp add: async_in_transfer_create_mac_def demo_iousb_async_def demo_iousb_def demo_iokit_def
        demo_ghm_def demo_mac_world_def demo_ghm_world_def demo_mac_created_def malloc_def demo_tm_def
        iousb.defs iokit.defs world.defs UINT32_MAX_def Let_def generic_handle_get_ioh_def
        generic_handle_get_pipe_index_def unat_endpoint async_in_transfer_free_mac_def upt_rec)
  moreover have "async_in_transfer_submit_mac demo_iousb_async (Some 3) demo_mac_created = Some demo_mac_submitted"
    by (simp add: async_in_transfer_submit_mac_def demo_iousb_async_def demo_mac_created_def demo_tm_def
        demo_mac_submitted_def read_pipe_async_def ask_object_def iousb.defs demo_mac_world_def
        demo_ghm_world_def demo_ghm_def world.defs libusbp_error_free_def Let_def ask_def)
  moreover have "mac_transfers demo_mac_created 3 = Some (demo_tm False)"
    by (simp add: demo_mac_created_def)
  ultimately show ?thesis
    by (blast intro: mac_step.create mac_step.submit rtranclp.rtrancl_into_rtrancl)
qed

theorem transfers_mac_safe_witness:
  "generic_handle_events_mac demo_iousb_async demo_ghm demo_mac_submitted \<noteq> None \<and>
   (3, 2) \<in> set (reads demo_mac_submitted)"
proof
  show "(3, 2) \<in> set (reads demo_mac_submitted)" by (simp add: demo_mac_submitted_def)
qed (use transfers_mac_safe [OF demo_ghm_ok(1,2) _ _ demo_mac_steps, of 3 "demo_tm True"] demo_ghm_ok(3) in
  \<open>auto simp: demo_mac_submitted_def demo_mac_world_def no_transfers_def world.defs\<close>)



text \<open>
  The results of a transfer that is over are what the system read: the count it reported and that many
  bytes of the transfer's buffer, the rest of the caller's buffer is left alone, and the caller's error
  is a copy of its own.  A count above the size of the transfer stops the program instead of overrunning
  the buffer.
\<close>

theorem get_results_mac_correct:
  fixes w :: "'w mac_world_scheme"
  assumes inv: "mac_inv w L" and x: "mac_transfers w t = Some x" and p: "\<not> tm_pending x"
    and dest: "unat (tm_size x) \<le> length dest"
  shows "if unat (tm_transferred x) \<le> unat (tm_size x)
    then runs (async_in_transfer_get_results_mac E (Some t) (Some dest) True True w) (\<lambda>(e, buf, m, te) w'.
      e = NULL \<and> m = Some (unat (tm_transferred x)) \<and>
      buf = Some (take (unat (tm_transferred x)) (contents [] (tm_buffer x)) @
        drop (unat (tm_transferred x)) dest) \<and>
      live w' = live w + err_res te \<and> (te = NULL \<longleftrightarrow> tm_error x = NULL))
    else async_in_transfer_get_results_mac E (Some t) (Some dest) True True w = None"
  using async_in_transfer_get_results_mac_spec [OF inv x p _ dest, of E] mac_inv_split(2) [OF inv x] p
  by (auto simp: async_in_transfer_get_results_mac_def elim!: runs_mono)

lemma demo_mac_inv: "mac_inv demo_mac_created (ghm_res demo_ghm)"
  by (auto simp: mac_inv_def shared_inv_def demo_mac_created_def demo_mac_world_def demo_ghm_world_def
      world.defs demo_tm_def demo_ghm_def tm_res_def wf_tm_def read_of_def store_res_of_def)

theorem get_results_mac_correct_witness:
  "runs (async_in_transfer_get_results_mac demo_iousb_async (Some 3) (Some [1, 2, 3]) True True demo_mac_created)
    (\<lambda>(e, buf, m, te) w'. e = NULL \<and> m = Some 0 \<and> buf = Some [1, 2, 3])"
  using get_results_mac_correct [OF demo_mac_inv, of 3 "demo_tm False" "[1, 2, 3]" demo_iousb_async]
  by (auto simp: demo_mac_created_def demo_tm_def elim!: runs_mono)

end
