(* ===== verification/CppPointers.thy ===== *)
theory CppPointers
  imports DeviceList SerialPort TransferStore GenericHandle
begin

text \<open>
  The smart pointers of \<open>src/include/libusbp.hpp\<close>: \<open>unique_pointer_wrapper\<close> and
  \<open>unique_pointer_wrapper_with_copy\<close>.  C++ objects are mutable and may be arguments of their own
  assignment, so they live in a store: \<open>m o\<close> is the member \<open>pointer\<close> of the object \<open>o\<close>, and an object
  that does not exist is \<open>None\<close>; using one is a fault.  An exception is a value: \<open>Inl e\<close> is a
  \<open>libusbp::error\<close> that owns \<open>e\<close> and is on its way to a handler.  The lemmas show that a program made
  of the operations of a class never frees a pointer twice, never loses one, and treats the objects as
  values.
\<close>

section \<open>Exceptions\<close>

type_synonym ('r, 'w) cpp = "((err + 'r) \<times> 'w) option"

text \<open>\<open>throw error(err)\<close>: the exception object takes over the pointer.\<close>

definition throw_if_needed :: "err \<Rightarrow> 'w \<Rightarrow> (unit, 'w) cpp" where
  "throw_if_needed err w = Some (if err \<noteq> NULL then Inl err else Inr (), w)"

text \<open>The statements after a call: they are skipped when it throws.\<close>

definition after :: "('r, 'w) cpp \<Rightarrow> ('r \<Rightarrow> 'w \<Rightarrow> ('s, 'w) cpp) \<Rightarrow> ('s, 'w) cpp" where
  "after m f = do { (r, w) \<leftarrow> m; case r of Inl e \<Rightarrow> Some (Inl e, w) | Inr x \<Rightarrow> f x w }"

lemma after_simps [simp]:
  "after (Some (Inl e, w)) f = Some (Inl e, w)"
  "after (Some (Inr x, w)) f = f x w"
  "after None f = None"
  by (simp_all add: after_def)

lemma throw_simps [simp]:
  "throw_if_needed NULL w = Some (Inr (), w)"
  "e \<noteq> NULL \<Longrightarrow> throw_if_needed e w = Some (Inl e, w)"
  by (simp_all add: throw_if_needed_def)

lemma after_wp [wp]:
  "runs m (\<lambda>r w. case r of Inl e \<Rightarrow> Q (Inl e) w | Inr x \<Rightarrow> runs (f x w) Q) \<Longrightarrow> runs (after m f) Q"
  unfolding after_def by (rule runs_bind) (auto elim!: runs_mono split: sum.splits)

section \<open>Freeing and copying what a pointer refers to\<close>

definition pointer_free_error :: "err \<Rightarrow> 'w world_scheme \<Rightarrow> 'w world_scheme option" where
  "pointer_free_error p w = libusbp_error_free p w"

definition pointer_copy_error :: "'e environment_scheme \<Rightarrow> err \<Rightarrow> 'w world_scheme
    \<Rightarrow> (err, 'w world_scheme) cpp" where
  "pointer_copy_error E p w = do { (p, w) \<leftarrow> libusbp_error_copy E p w; Some (Inr p, w) }"

definition pointer_free_device :: "device \<Rightarrow> 'w world_scheme \<Rightarrow> 'w world_scheme option" where
  "pointer_free_device p w = libusbp_device_free p w"

definition pointer_copy_device :: "'e environment_scheme \<Rightarrow> device \<Rightarrow> 'w world_scheme
    \<Rightarrow> (device, 'w world_scheme) cpp" where
  "pointer_copy_device E pointer w = do {
     ((err, copy), w) \<leftarrow> libusbp_device_copy E pointer True w;
     after (throw_if_needed err w) (\<lambda>_ w. Some (Inr copy, w))
   }"

definition pointer_free_generic_interface :: "generic_interface \<Rightarrow> 'w world_scheme
    \<Rightarrow> 'w world_scheme option" where
  "pointer_free_generic_interface p w = libusbp_generic_interface_free p w"

definition pointer_copy_generic_interface :: "'e environment_scheme \<Rightarrow> generic_interface
    \<Rightarrow> 'w world_scheme \<Rightarrow> (generic_interface, 'w world_scheme) cpp" where
  "pointer_copy_generic_interface E pointer w = do {
     ((err, copy), w) \<leftarrow> libusbp_generic_interface_copy E pointer True w;
     after (throw_if_needed err w) (\<lambda>_ w. Some (Inr copy, w))
   }"

definition pointer_free_generic_handle :: "generic_handle \<Rightarrow> 'w usb_world_scheme
    \<Rightarrow> 'w usb_world_scheme option" where
  "pointer_free_generic_handle p w = libusbp_generic_handle_close p w"

definition pointer_copy_serial_port :: "'e environment_scheme \<Rightarrow> serial_port \<Rightarrow> 'w world_scheme
    \<Rightarrow> (serial_port, 'w world_scheme) cpp" where
  "pointer_copy_serial_port E pointer w = do {
     ((err, copy), w) \<leftarrow> libusbp_serial_port_copy E pointer True w;
     after (throw_if_needed err w) (\<lambda>_ w. Some (Inr copy, w))
   }"

definition pointer_free_serial_port :: "serial_port \<Rightarrow> 'w world_scheme
    \<Rightarrow> 'w world_scheme option" where
  "pointer_free_serial_port p w = libusbp_serial_port_free p w"

section \<open>unique_pointer_wrapper\<close>

type_synonym 'a objs = "nat \<Rightarrow> 'a ptr option"

definition construct :: "nat \<Rightarrow> 'a ptr \<Rightarrow> 'a objs \<Rightarrow> 'a objs option" where
  "construct this p m = (if m this = None then Some (m(this \<mapsto> p)) else None)"

definition pointer_get :: "nat \<Rightarrow> 'a objs \<Rightarrow> 'a ptr option" where
  "pointer_get this m = m this"

definition operator_bool :: "nat \<Rightarrow> 'a objs \<Rightarrow> bool option" where
  "operator_bool this m = do { pointer \<leftarrow> m this; Some (pointer \<noteq> NULL) }"

definition pointer_release :: "nat \<Rightarrow> 'a objs \<Rightarrow> ('a ptr \<times> 'a objs) option" where
  "pointer_release this m = do { p \<leftarrow> m this; Some (p, m(this \<mapsto> NULL)) }"

definition pointer_reset :: "('a ptr \<Rightarrow> 'w \<Rightarrow> 'w option) \<Rightarrow> nat \<Rightarrow> 'a ptr \<Rightarrow> 'a objs \<Rightarrow> 'w
    \<Rightarrow> ('a objs \<times> 'w) option" where
  "pointer_reset pointer_free this p m w = do {
     pointer \<leftarrow> m this;
     w \<leftarrow> pointer_free pointer w;
     Some (m(this \<mapsto> p), w)
   }"

definition move_construct :: "nat \<Rightarrow> nat \<Rightarrow> 'a objs \<Rightarrow> 'a objs option" where
  "move_construct this other m = do {
     (p, m) \<leftarrow> pointer_release other m;
     construct this p m
   }"

definition move_assign :: "('a ptr \<Rightarrow> 'w \<Rightarrow> 'w option) \<Rightarrow> nat \<Rightarrow> nat \<Rightarrow> 'a objs \<Rightarrow> 'w
    \<Rightarrow> ('a objs \<times> 'w) option" where
  "move_assign pointer_free this other m w = do {
     (p, m) \<leftarrow> pointer_release other m;
     pointer_reset pointer_free this p m w
   }"

definition destroy :: "('a ptr \<Rightarrow> 'w \<Rightarrow> 'w option) \<Rightarrow> nat \<Rightarrow> 'a objs \<Rightarrow> 'w
    \<Rightarrow> ('a objs \<times> 'w) option" where
  "destroy pointer_free this m w = do {
     (m, w) \<leftarrow> pointer_reset pointer_free this NULL m w;
     Some (m(this := None), w)
   }"

section \<open>unique_pointer_wrapper_with_copy\<close>

text \<open>
  The copy constructor makes the base object, which holds NULL, before it copies; when copying throws,
  the base object is destroyed and the object never exists.
\<close>

definition copy_construct :: "('a ptr \<Rightarrow> 'w \<Rightarrow> 'w option) \<Rightarrow> ('a ptr \<Rightarrow> 'w \<Rightarrow> ('a ptr, 'w) cpp)
    \<Rightarrow> nat \<Rightarrow> nat \<Rightarrow> 'a objs \<Rightarrow> 'w \<Rightarrow> (((err + unit) \<times> 'a objs) \<times> 'w) option" where
  "copy_construct pointer_free pointer_copy this other m w = do {
     m \<leftarrow> construct this NULL m;
     p \<leftarrow> m other;
     (r, w) \<leftarrow> pointer_copy p w;
     case r of
       Inl e \<Rightarrow> do { (m, w) \<leftarrow> destroy pointer_free this m w; Some ((Inl e, m), w) }
     | Inr q \<Rightarrow> Some ((Inr (), m(this \<mapsto> q)), w)
   }"

definition copy_assign :: "('a ptr \<Rightarrow> 'w \<Rightarrow> 'w option) \<Rightarrow> ('a ptr \<Rightarrow> 'w \<Rightarrow> ('a ptr, 'w) cpp)
    \<Rightarrow> nat \<Rightarrow> nat \<Rightarrow> 'a objs \<Rightarrow> 'w \<Rightarrow> (((err + unit) \<times> 'a objs) \<times> 'w) option" where
  "copy_assign pointer_free pointer_copy this other m w = do {
     p \<leftarrow> m other;
     (r, w) \<leftarrow> pointer_copy p w;
     case r of
       Inl e \<Rightarrow> Some ((Inl e, m), w)
     | Inr q \<Rightarrow> do { (m, w) \<leftarrow> pointer_reset pointer_free this q m w; Some ((Inr (), m), w) }
   }"

section \<open>Programs over the objects of a class\<close>

text \<open>
  The state of such a program: its objects, the pointers it holds itself (from the C library or from
  \<open>pointer_release\<close>, and not yet given to an object) and the errors that operations have thrown.
\<close>

record 'a holder =
  objects :: "'a objs"
  hand :: "'a ptr list"
  thrown :: "err list"

datatype wrapper_op =
    Construct nat nat
  | MoveConstruct nat nat
  | CopyConstruct nat nat
  | MoveAssign nat nat
  | CopyAssign nat nat
  | Release nat
  | Reset nat nat
  | Destroy nat

definition drop_nth :: "nat \<Rightarrow> 'b list \<Rightarrow> 'b list" where
  "drop_nth i xs = take i xs @ drop (Suc i) xs"

text \<open>
  What C++ allows at compile time and run time: an object is made once and used while it exists, and a
  pointer that is given to an object was the program's own.  \<open>copyable\<close>: the class has the copy
  operations.
\<close>

fun permitted :: "bool \<Rightarrow> wrapper_op \<Rightarrow> nat set \<Rightarrow> nat \<Rightarrow> bool" where
  "permitted copyable (Construct this i) live_objs n \<longleftrightarrow> this \<notin> live_objs \<and> i < n"
| "permitted copyable (MoveConstruct this other) live_objs n \<longleftrightarrow> this \<notin> live_objs \<and> other \<in> live_objs"
| "permitted copyable (CopyConstruct this other) live_objs n \<longleftrightarrow>
     copyable \<and> this \<notin> live_objs \<and> other \<in> live_objs"
| "permitted copyable (MoveAssign this other) live_objs n \<longleftrightarrow> this \<in> live_objs \<and> other \<in> live_objs"
| "permitted copyable (CopyAssign this other) live_objs n \<longleftrightarrow>
     copyable \<and> this \<in> live_objs \<and> other \<in> live_objs"
| "permitted copyable (Release this) live_objs n \<longleftrightarrow> this \<in> live_objs"
| "permitted copyable (Reset this i) live_objs n \<longleftrightarrow> this \<in> live_objs \<and> i < n"
| "permitted copyable (Destroy this) live_objs n \<longleftrightarrow> this \<in> live_objs"

text \<open>The state after an operation that may have thrown.\<close>

definition after_op :: "err + unit \<Rightarrow> 'a holder \<Rightarrow> 'a holder" where
  "after_op r s = (case r of Inl e \<Rightarrow> s\<lparr>thrown := e # thrown s\<rparr> | Inr _ \<Rightarrow> s)"

fun do_op :: "('a ptr \<Rightarrow> 'w \<Rightarrow> 'w option) \<Rightarrow> ('a ptr \<Rightarrow> 'w \<Rightarrow> ('a ptr, 'w) cpp) \<Rightarrow> wrapper_op
    \<Rightarrow> 'a holder \<Rightarrow> 'w \<Rightarrow> ('a holder \<times> 'w) option" where
  "do_op pfree pcopy (Construct this i) s w = do {
     m \<leftarrow> construct this (hand s ! i) (objects s);
     Some (s\<lparr>objects := m, hand := drop_nth i (hand s)\<rparr>, w)
   }"
| "do_op pfree pcopy (MoveConstruct this other) s w = do {
     m \<leftarrow> move_construct this other (objects s);
     Some (s\<lparr>objects := m\<rparr>, w)
   }"
| "do_op pfree pcopy (CopyConstruct this other) s w = do {
     ((r, m), w) \<leftarrow> copy_construct pfree pcopy this other (objects s) w;
     Some (after_op r (s\<lparr>objects := m\<rparr>), w)
   }"
| "do_op pfree pcopy (MoveAssign this other) s w = do {
     (m, w) \<leftarrow> move_assign pfree this other (objects s) w;
     Some (s\<lparr>objects := m\<rparr>, w)
   }"
| "do_op pfree pcopy (CopyAssign this other) s w = do {
     ((r, m), w) \<leftarrow> copy_assign pfree pcopy this other (objects s) w;
     Some (after_op r (s\<lparr>objects := m\<rparr>), w)
   }"
| "do_op pfree pcopy (Release this) s w = do {
     (p, m) \<leftarrow> pointer_release this (objects s);
     Some (s\<lparr>objects := m, hand := hand s @ [p]\<rparr>, w)
   }"
| "do_op pfree pcopy (Reset this i) s w = do {
     (m, w) \<leftarrow> pointer_reset pfree this (hand s ! i) (objects s) w;
     Some (s\<lparr>objects := m, hand := drop_nth i (hand s)\<rparr>, w)
   }"
| "do_op pfree pcopy (Destroy this) s w = do {
     (m, w) \<leftarrow> destroy pfree this (objects s) w;
     Some (s\<lparr>objects := m\<rparr>, w)
   }"

text \<open>A program is any sequence of operations; those that C++ does not allow are left out.\<close>

fun run_ops :: "bool \<Rightarrow> ('a ptr \<Rightarrow> 'w \<Rightarrow> 'w option) \<Rightarrow> ('a ptr \<Rightarrow> 'w \<Rightarrow> ('a ptr, 'w) cpp)
    \<Rightarrow> wrapper_op list \<Rightarrow> 'a holder \<Rightarrow> 'w \<Rightarrow> ('a holder \<times> 'w) option" where
  "run_ops copyable pfree pcopy [] s w = Some (s, w)"
| "run_ops copyable pfree pcopy (x # xs) s w =
     (if permitted copyable x (dom (objects s)) (length (hand s))
      then do { (s, w) \<leftarrow> do_op pfree pcopy x s w; run_ops copyable pfree pcopy xs s w }
      else run_ops copyable pfree pcopy xs s w)"

section \<open>The objects as values\<close>

text \<open>
  What the programmer expects: objects are variables that hold a value, a moved-from variable holds
  nothing (\<open>nil\<close>), and copying copies.
\<close>

type_synonym 'v variables = "(nat \<Rightarrow> 'v option) \<times> 'v list"

fun value_op :: "'v \<Rightarrow> wrapper_op \<Rightarrow> 'v variables \<Rightarrow> 'v variables" where
  "value_op nil (Construct this i) (m, h) = (m(this \<mapsto> h ! i), drop_nth i h)"
| "value_op nil (MoveConstruct this other) (m, h) = (m(other \<mapsto> nil, this := m other), h)"
| "value_op nil (CopyConstruct this other) (m, h) = (m(this := m other), h)"
| "value_op nil (MoveAssign this other) (m, h) = (m(other \<mapsto> nil, this := m other), h)"
| "value_op nil (CopyAssign this other) (m, h) = (m(this := m other), h)"
| "value_op nil (Release this) (m, h) = (m(this \<mapsto> nil), h @ [the (m this)])"
| "value_op nil (Reset this i) (m, h) = (m(this \<mapsto> h ! i), drop_nth i h)"
| "value_op nil (Destroy this) (m, h) = (m(this := None), h)"

fun value_ops :: "bool \<Rightarrow> 'v \<Rightarrow> wrapper_op list \<Rightarrow> 'v variables \<Rightarrow> 'v variables" where
  "value_ops copyable nil [] v = v"
| "value_ops copyable nil (x # xs) v = value_ops copyable nil xs
     (if permitted copyable x (dom (fst v)) (length (snd v)) then value_op nil x v else v)"

definition holds_values :: "('a ptr \<Rightarrow> 'v) \<Rightarrow> 'a holder \<Rightarrow> 'v variables" where
  "holds_values view s = (map_option view \<circ> objects s, map view (hand s))"

section \<open>What the objects own\<close>

definition held :: "('a ptr \<Rightarrow> res multiset) \<Rightarrow> 'a holder \<Rightarrow> res multiset" where
  "held own s = store_res_of (\<lambda>_. own) (objects s) + sum_list (map own (hand s)) +
     sum_list (map err_res (thrown s))"

definition holder_inv :: "('a ptr \<Rightarrow> res multiset) \<Rightarrow> ('a ptr \<Rightarrow> bool) \<Rightarrow> res multiset
    \<Rightarrow> 'a holder \<Rightarrow> 'w world_scheme \<Rightarrow> bool" where
  "holder_inv own valid L s w \<longleftrightarrow> finite (dom (objects s)) \<and> ran (objects s) \<subseteq> Collect valid \<and>
     set (hand s) \<subseteq> Collect valid \<and> list_all wf_err (thrown s) \<and> live w = held own s + L"

lemma sum_list_drop_nth:
  "i < length xs \<Longrightarrow> sum_list (map f xs) = f (xs ! i) + sum_list (map f (drop_nth i xs) :: res multiset list)"
  by (subst id_take_nth_drop [of i xs]) (simp_all add: drop_nth_def)

lemma map_drop_nth: "map f (drop_nth i xs) = drop_nth i (map f xs)"
  by (simp add: drop_nth_def take_map drop_map)

lemma set_drop_nth: "set (drop_nth i xs) \<subseteq> set xs"
  using set_take_subset [of i xs] set_drop_subset [of "Suc i" xs] by (auto simp: drop_nth_def)

lemma ran_put: "ran m \<subseteq> A \<Longrightarrow> x \<in> A \<Longrightarrow> ran (m(t \<mapsto> x)) \<subseteq> A"
  by (auto simp: ran_def)

lemma ran_drop: "ran m \<subseteq> A \<Longrightarrow> ran (m(t := None)) \<subseteq> A"
  by (auto simp: ran_def)

text \<open>Two ways to change one object: the pointer it held is gone, or was taken by something else.\<close>

lemma store_put_new:
  "finite (dom m) \<Longrightarrow> m t = None \<Longrightarrow> store_res_of f (m(t \<mapsto> x)) = f t x + store_res_of f m"
  by (simp add: store_res_of_upd fun_upd_idem)

lemma store_put_old:
  assumes "finite (dom m)" "m t = Some y"
  shows "store_res_of f (m(t \<mapsto> x)) + f t y = f t x + store_res_of f m"
  using store_res_of_upd [OF assms(1), of f t x] store_res_of_remove [OF assms, of f]
  by (simp add: ac_simps)

lemma store_drop:
  "finite (dom m) \<Longrightarrow> m t = Some y \<Longrightarrow> f t y + store_res_of f (m(t := None)) = store_res_of f m"
  by (simp add: store_res_of_remove)

lemma store_sub:
  "finite (dom m) \<Longrightarrow> m t = Some y \<Longrightarrow> f t y \<subseteq># store_res_of f m"
  by (simp add: store_res_of_remove)

section \<open>The contracts of pointer_free and pointer_copy\<close>

text \<open>
  \<open>pfree\<close> gives back what the pointer owns and accepts NULL.
\<close>

locale unique_pointer =
  fixes pfree :: "'a ptr \<Rightarrow> 'w world_scheme \<Rightarrow> 'w world_scheme option"
    and own :: "'a ptr \<Rightarrow> res multiset" and valid :: "'a ptr \<Rightarrow> bool"
  assumes pfree_ok: "valid p \<Longrightarrow> own p \<subseteq># live w \<Longrightarrow>
      \<exists>w'. pfree p w = Some w' \<and> live w' = live w - own p"
    and valid_NULL: "valid NULL" and own_NULL: "own NULL = {#}"
begin

lemma pointer_reset_spec:
  assumes "finite (dom m)" "ran m \<subseteq> Collect valid" "m this = Some q" "valid p"
    and "live w = store_res_of (\<lambda>_. own) m + own p + R"
  shows "\<exists>w'. pointer_reset pfree this p m w = Some (m(this \<mapsto> p), w') \<and>
    live w' = store_res_of (\<lambda>_. own) (m(this \<mapsto> p)) + R"
proof -
  have "valid q" using assms(2,3) by (auto simp: ran_def)
  have e: "live w = own q + (store_res_of (\<lambda>_. own) (m(this \<mapsto> p)) + R)"
    using store_put_old [OF assms(1,3), of "\<lambda>_. own" p] assms(5) by (simp add: ac_simps)
  then obtain w' where w': "pfree q w = Some w'" "live w' = live w - own q"
    using pfree_ok [OF \<open>valid q\<close>, of w] by auto
  then have "live w' = store_res_of (\<lambda>_. own) (m(this \<mapsto> p)) + R" using e by simp
  with w'(1) assms(3) show ?thesis by (simp add: pointer_reset_def)
qed

text \<open>Every operation but the copies keeps the invariant and does what the values say.\<close>

lemma do_op_spec:
  assumes inv: "holder_inv own valid L s w" and ok: "permitted False x (dom (objects s)) (length (hand s))"
  shows "runs (do_op pfree pcopy x s w) (\<lambda>s' w'. holder_inv own valid L s' w' \<and>
    thrown s' = thrown s \<and> holds_values view s' = value_op (view NULL) x (holds_values view s))"
proof -
  note i = inv [unfolded holder_inv_def held_def]
  have fin: "finite (dom (objects s))" and val: "ran (objects s) \<subseteq> Collect valid" using i by simp_all
  have nth: "valid (hand s ! k)" if "k < length (hand s)" for k
    using i nth_mem [OF that] by auto
  have dn: "set (drop_nth k (hand s)) \<subseteq> Collect valid" for k
    using set_drop_nth [of k "hand s"] i by blast
  show ?thesis
  proof (cases x)
    case (Construct this k)
    then have new: "objects s this = None" "k < length (hand s)" using ok by auto
    show ?thesis
      using i new sum_list_drop_nth [OF new(2), of own] ran_put [OF val] nth [OF new(2)] dn
      by (auto simp: Construct construct_def holder_inv_def held_def store_put_new holds_values_def
          map_drop_nth ac_simps)
  next
    case (MoveConstruct this other)
    then obtain p where o: "objects s this = None" "objects s other = Some p" using ok by auto
    then have ne: "this \<noteq> other" by auto
    have p: "valid p" using o(2) val by (auto simp: ran_def)
    have "store_res_of (\<lambda>_. own) ((objects s)(other \<mapsto> NULL, this \<mapsto> p)) = store_res_of (\<lambda>_. own) (objects s)"
      using store_put_new [of "(objects s)(other \<mapsto> NULL)" this "\<lambda>_. own" p] fin o ne
        store_put_old [OF fin o(2), of "\<lambda>_. own" NULL] own_NULL by (simp add: ac_simps)
    then show ?thesis
      using i o ne ran_put [OF ran_put [OF val], of NULL p other this] p valid_NULL
      by (auto simp: MoveConstruct move_construct_def pointer_release_def construct_def holder_inv_def
          held_def holds_values_def fun_eq_iff)
  next
    case (MoveAssign this other)
    then obtain p q where o: "objects s this = Some q" "objects s other = Some p" using ok by auto
    let ?m = "(objects s)(other \<mapsto> NULL)"
    have p: "valid p" using o(2) val by (auto simp: ran_def)
    obtain q' where q': "?m this = Some q'" using o by (cases "this = other") auto
    have "store_res_of (\<lambda>_. own) ?m + own p = store_res_of (\<lambda>_. own) (objects s)"
      using store_put_old [OF fin o(2), of "\<lambda>_. own" NULL] own_NULL by simp
    then obtain w' where "pointer_reset pfree this p ?m w = Some (?m(this \<mapsto> p), w')"
      "live w' = store_res_of (\<lambda>_. own) (?m(this \<mapsto> p)) +
         (sum_list (map own (hand s)) + sum_list (map err_res (thrown s)) + L)"
      using pointer_reset_spec [of ?m this q' p w] fin ran_put [OF val] valid_NULL q' p i
      by (auto simp: add.assoc)
    then show ?thesis
      using i o ran_put [OF ran_put [OF val], of NULL p other this] p valid_NULL
      by (auto simp: MoveAssign move_assign_def pointer_release_def holder_inv_def held_def
          holds_values_def ac_simps)
  next
    case (Release this)
    then obtain p where o: "objects s this = Some p" using ok by auto
    have p: "valid p" using o val by (auto simp: ran_def)
    show ?thesis
      using i o ran_put [OF val, of NULL] p valid_NULL
        store_put_old [OF fin o, of "\<lambda>_. own" NULL] own_NULL
      by (auto simp: Release pointer_release_def holder_inv_def held_def holds_values_def ac_simps)
  next
    case (Reset this k)
    then obtain q where o: "objects s this = Some q" "k < length (hand s)" using ok by auto
    obtain w' where "pointer_reset pfree this (hand s ! k) (objects s) w =
        Some ((objects s)(this \<mapsto> hand s ! k), w')"
      "live w' = store_res_of (\<lambda>_. own) ((objects s)(this \<mapsto> hand s ! k)) +
         (sum_list (map own (drop_nth k (hand s))) + sum_list (map err_res (thrown s)) + L)"
      using pointer_reset_spec [OF fin val o(1) nth [OF o(2)], of w] i
        sum_list_drop_nth [OF o(2), of own] by (auto simp: ac_simps)
    then show ?thesis
      using i o ran_put [OF val] nth [OF o(2)] dn
      by (auto simp: Reset holder_inv_def held_def holds_values_def map_drop_nth ac_simps)
  next
    case (Destroy this)
    then obtain q where o: "objects s this = Some q" using ok by auto
    obtain w' where "pointer_reset pfree this NULL (objects s) w = Some ((objects s)(this \<mapsto> NULL), w')"
      "live w' = store_res_of (\<lambda>_. own) ((objects s)(this \<mapsto> NULL)) +
         (sum_list (map own (hand s)) + sum_list (map err_res (thrown s)) + L)"
      using pointer_reset_spec [OF fin val o valid_NULL, of w] i own_NULL by (auto simp: ac_simps)
    then show ?thesis
      using i o ran_drop [OF val] store_res_of_upd [OF fin, of "\<lambda>_. own" this NULL] own_NULL
      by (auto simp: Destroy destroy_def holder_inv_def held_def holds_values_def ac_simps)
  qed (use ok in simp_all)
qed


lemma permitted_copyable: "permitted False x A n \<Longrightarrow> permitted True x A n"
  by (cases x) simp_all

lemma dom_values [simp]:
  "dom (fst (holds_values view s)) = dom (objects s)"
  "length (snd (holds_values view s)) = length (hand s)"
  by (auto simp: holds_values_def)

lemma run_ops_spec:
  fixes w :: "'w world_scheme"
  assumes "holder_inv own valid L s w"
  shows "runs (run_ops False pfree pcopy xs s w) (\<lambda>s' w'. holder_inv own valid L s' w' \<and>
    holds_values view s' = value_ops False (view NULL) xs (holds_values view s))"
  using assms
proof (induction xs arbitrary: s w)
  case Nil
  then show ?case by simp
next
  case (Cons x xs)
  show ?case
  proof (cases "permitted False x (dom (objects s)) (length (hand s))")
    case True
    have "runs (do_op pfree pcopy x s w) (\<lambda>s' w'. holder_inv own valid L s' w' \<and>
        thrown s' = thrown s \<and> holds_values view s' = value_op (view NULL) x (holds_values view s))"
      by (rule do_op_spec [OF Cons.prems True])
    with True Cons.IH show ?thesis by (fastforce intro!: runs_bind elim!: runs_mono)
  next
    case False
    with Cons show ?thesis by simp
  qed
qed

text \<open>Destroying the objects that are left gives back all they own.\<close>

lemma destroy_all_spec:
  fixes w :: "'w world_scheme"
  assumes "holder_inv own valid L s w" "dom (objects s) \<subseteq> set os"
  shows "runs (run_ops c pfree pcopy (map Destroy os) s w) (\<lambda>s' w'.
    objects s' = (\<lambda>_. None) \<and> hand s' = hand s \<and> thrown s' = thrown s \<and>
    live w' = sum_list (map own (hand s)) + sum_list (map err_res (thrown s)) + L)"
  using assms
proof (induction os arbitrary: s w)
  case Nil
  then have "objects s = (\<lambda>_. None)" by (simp add: fun_eq_iff dom_def)
  with Nil show ?case by (simp add: holder_inv_def held_def)
next
  case (Cons this os)
  show ?case
  proof (cases "objects s this")
    case None
    with Cons.prems have "dom (objects s) \<subseteq> set os" by auto
    with Cons.IH [OF Cons.prems(1)] None show ?thesis by (auto simp: domIff)
  next
    case (Some p)
    have "runs (do_op pfree pcopy (Destroy this) s w) (\<lambda>s' w'. holder_inv own valid L s' w' \<and>
        thrown s' = thrown s \<and> holds_values (\<lambda>x. x) s' = value_op NULL (Destroy this) (holds_values (\<lambda>x. x) s))"
      using do_op_spec [OF Cons.prems(1), of "Destroy this" pcopy "\<lambda>x. x"] Some by auto
    then obtain s1 w1 where 1: "do_op pfree pcopy (Destroy this) s w = Some (s1, w1)"
      "holder_inv own valid L s1 w1" "objects s1 = (objects s)(this := None)" "hand s1 = hand s"
      "thrown s1 = thrown s"
      by (auto dest!: runsD simp: holds_values_def map_option.id [unfolded id_def] comp_def)
    have "dom (objects s1) \<subseteq> set os" using Cons.prems(2) 1(3) by auto
    moreover have "this \<in> dom (objects s)" using Some by auto
    ultimately show ?thesis
      using Cons.IH [OF 1(2)] 1(1) 1(4) 1(5) by (simp del: do_op.simps)
  qed
qed

end

text \<open>
  \<open>pcopy\<close> gives an object of the same kind that shows the same (\<open>view\<close>), or it throws, and it fails to
  do so only when resources can run out (\<open>\<not> reliable\<close>).
\<close>

locale copyable_pointer = unique_pointer pfree own valid
  for pfree :: "'a ptr \<Rightarrow> 'w world_scheme \<Rightarrow> 'w world_scheme option"
    and own :: "'a ptr \<Rightarrow> res multiset" and valid :: "'a ptr \<Rightarrow> bool" +
  fixes pcopy :: "'a ptr \<Rightarrow> 'w world_scheme \<Rightarrow> ('a ptr, 'w world_scheme) cpp"
    and view :: "'a ptr \<Rightarrow> 'v" and reliable :: bool
  assumes pcopy_ok: "valid p \<Longrightarrow> own p \<subseteq># live w \<Longrightarrow> runs (pcopy p w) (\<lambda>r w'. case r of
      Inl e \<Rightarrow> wf_err e \<and> live w' = live w + err_res e \<and> \<not> reliable
    | Inr q \<Rightarrow> valid q \<and> live w' = live w + own q \<and> (view q = view p \<or> \<not> reliable))"
begin

lemma pcopy_object:
  assumes "finite (dom m)" "ran m \<subseteq> Collect valid" "m other = Some p"
    and "live w = store_res_of (\<lambda>_. own) m + R"
  shows "\<exists>r w'. pcopy p w = Some (r, w') \<and> (case r of
      Inl e \<Rightarrow> wf_err e \<and> live w' = live w + err_res e \<and> \<not> reliable
    | Inr q \<Rightarrow> valid q \<and> live w' = live w + own q \<and> (view q = view p \<or> \<not> reliable))"
proof (rule runsD [OF pcopy_ok])
  show "valid p" using assms(2,3) by (auto simp: ran_def)
  show "own p \<subseteq># live w"
    using store_sub [OF assms(1,3), of "\<lambda>_. own"] by (simp add: assms(4) subset_mset.add_increasing2)
qed

lemma do_op_copy_spec:
  assumes inv: "holder_inv own valid L s w" and ok: "permitted True x (dom (objects s)) (length (hand s))"
  shows "runs (do_op pfree pcopy x s w) (\<lambda>s' w'. holder_inv own valid L s' w' \<and>
    (reliable \<longrightarrow> thrown s' = thrown s \<and>
       holds_values view s' = value_op (view NULL) x (holds_values view s)))"
proof -
  note i = inv [unfolded holder_inv_def held_def]
  have fin: "finite (dom (objects s))" and val: "ran (objects s) \<subseteq> Collect valid" using i by simp_all
  let ?R = "sum_list (map own (hand s)) + sum_list (map err_res (thrown s)) + L"
  have l: "live w = store_res_of (\<lambda>_. own) (objects s) + ?R" using i by (simp add: add.assoc)
  show ?thesis
  proof (cases x)
    case (CopyConstruct this other)
    then obtain p where o: "objects s this = None" "objects s other = Some p" "this \<noteq> other"
      using ok by auto
    obtain r w' where r: "pcopy p w = Some (r, w')" "case r of
        Inl e \<Rightarrow> wf_err e \<and> live w' = live w + err_res e \<and> \<not> reliable
      | Inr q \<Rightarrow> valid q \<and> live w' = live w + own q \<and> (view q = view p \<or> \<not> reliable)"
      using pcopy_object [OF fin val o(2) l] by blast
    obtain w2 where w2: "pfree NULL w' = Some w2" "live w2 = live w'"
      using pfree_ok [OF valid_NULL, of w'] own_NULL by auto
    have u: "(objects s)(this := None) = objects s" using o(1) by (simp add: fun_upd_idem)
    note d = CopyConstruct copy_construct_def construct_def destroy_def pointer_reset_def
      after_op_def holder_inv_def held_def
    show ?thesis
    proof (cases r)
      case (Inl e)
      with i o r w2 show ?thesis by (simp add: d u ac_simps)
    next
      case (Inr q)
      with i o r ran_put [OF val, of q this] show ?thesis
        by (auto simp: d store_put_new holds_values_def fun_eq_iff ac_simps)
    qed
  next
    case (CopyAssign this other)
    then obtain p q where o: "objects s this = Some q" "objects s other = Some p" using ok by auto
    obtain r w' where r: "pcopy p w = Some (r, w')" "case r of
        Inl e \<Rightarrow> wf_err e \<and> live w' = live w + err_res e \<and> \<not> reliable
      | Inr c \<Rightarrow> valid c \<and> live w' = live w + own c \<and> (view c = view p \<or> \<not> reliable)"
      using pcopy_object [OF fin val o(2) l] by blast
    show ?thesis
    proof (cases r)
      case (Inl e)
      with i o r show ?thesis
        by (auto simp: CopyAssign copy_assign_def after_op_def holder_inv_def held_def ac_simps)
    next
      case (Inr c)
      then have c: "valid c" "live w' = store_res_of (\<lambda>_. own) (objects s) + own c + ?R"
        using r(2) l by (simp_all add: ac_simps)
      obtain w2 where "pointer_reset pfree this c (objects s) w' = Some ((objects s)(this \<mapsto> c), w2)"
        "live w2 = store_res_of (\<lambda>_. own) ((objects s)(this \<mapsto> c)) + ?R"
        using pointer_reset_spec [OF fin val o(1) c] by blast
      then show ?thesis
        using i o r Inr ran_put [OF val] c(1)
        by (auto simp: CopyAssign copy_assign_def after_op_def holder_inv_def held_def
            holds_values_def ac_simps)
    qed
  qed (use ok do_op_spec [OF inv, of x pcopy view] in \<open>auto elim!: runs_mono\<close>)
qed


lemma run_ops_copy_spec:
  fixes w :: "'w world_scheme"
  assumes "holder_inv own valid L s w"
  shows "runs (run_ops True pfree pcopy xs s w) (\<lambda>s' w'. holder_inv own valid L s' w' \<and>
    (reliable \<longrightarrow> thrown s' = thrown s \<and>
       holds_values view s' = value_ops True (view NULL) xs (holds_values view s)))"
  using assms
proof (induction xs arbitrary: s w)
  case Nil
  then show ?case by simp
next
  case (Cons x xs)
  show ?case
  proof (cases "permitted True x (dom (objects s)) (length (hand s))")
    case True
    have "runs (do_op pfree pcopy x s w) (\<lambda>s' w'. holder_inv own valid L s' w' \<and>
        (reliable \<longrightarrow> thrown s' = thrown s \<and>
           holds_values view s' = value_op (view NULL) x (holds_values view s)))"
      by (rule do_op_copy_spec [OF Cons.prems True])
    with True Cons.IH show ?thesis
      by (auto intro!: runs_bind elim!: runs_mono) (fastforce elim!: runs_mono)
  next
    case False
    with Cons show ?thesis by simp
  qed
qed

end

text \<open>Objects that give back exactly what they own, whatever else the world holds.\<close>

lemma unique_pointer_of_releases:
  fixes rel :: "'a ptr \<Rightarrow> 'w world_scheme \<Rightarrow> 'w world_scheme option"
  assumes "releases rel own valid" "valid NULL" "own NULL = {#}"
  shows "unique_pointer rel own valid"
  by unfold_locales (simp_all add: assms(2,3) releases.rel_ok [OF assms(1)])

interpretation error_pointer: copyable_pointer pointer_free_error err_res wf_err
    "pointer_copy_error E" "\<lambda>e. (e = NULL, err_text e, err_codes e)" "memory_ok E"
  for E :: "'e environment_scheme"
proof unfold_locales
  fix p and w :: "'w world_scheme"
  assume p: "wf_err p" "err_res p \<subseteq># live w"
  then show "\<exists>w'. pointer_free_error p w = Some w' \<and> live w' = live w - err_res p"
    by (simp add: pointer_free_error_def libusbp_error_free_ok)
  show "runs (pointer_copy_error E p w) (\<lambda>r w'. case r of
      Inl e \<Rightarrow> wf_err e \<and> live w' = live w + err_res e \<and> \<not> memory_ok E
    | Inr q \<Rightarrow> wf_err q \<and> live w' = live w + err_res q \<and>
        ((q = NULL, err_text q, err_codes q) = (p = NULL, err_text p, err_codes p) \<or> \<not> memory_ok E))"
    using p by (auto simp: pointer_copy_error_def intro!: wp split: if_splits)
qed simp_all

interpretation device_pointer: copyable_pointer pointer_free_device dev_res wf_device
    "pointer_copy_device E" dev_view "memory_ok E"
  for E :: "'e environment_scheme"
proof unfold_locales
  fix p and w :: "'w world_scheme"
  assume p: "wf_device p" "dev_res p \<subseteq># live w"
  then show "\<exists>w'. pointer_free_device p w = Some w' \<and> live w' = live w - dev_res p"
    by (simp add: pointer_free_device_def libusbp_device_free_ok)
  show "runs (pointer_copy_device E p w) (\<lambda>r w'. case r of
      Inl e \<Rightarrow> wf_err e \<and> live w' = live w + err_res e \<and> \<not> memory_ok E
    | Inr q \<Rightarrow> wf_device q \<and> live w' = live w + dev_res q \<and> (dev_view q = dev_view p \<or> \<not> memory_ok E))"
    using p by (auto simp: pointer_copy_device_def intro!: wp)
qed simp_all

interpretation generic_interface_pointer: copyable_pointer pointer_free_generic_interface gi_res wf_gi
    "pointer_copy_generic_interface E" gi_view "memory_ok E"
  for E :: "'e environment_scheme"
proof unfold_locales
  fix p and w :: "'w world_scheme"
  assume p: "wf_gi p" "gi_res p \<subseteq># live w"
  then show "\<exists>w'. pointer_free_generic_interface p w = Some w' \<and> live w' = live w - gi_res p"
    by (simp add: pointer_free_generic_interface_def libusbp_generic_interface_free_ok)
  show "runs (pointer_copy_generic_interface E p w) (\<lambda>r w'. case r of
      Inl e \<Rightarrow> wf_err e \<and> live w' = live w + err_res e \<and> \<not> memory_ok E
    | Inr q \<Rightarrow> wf_gi q \<and> live w' = live w + gi_res q \<and> (gi_view q = gi_view p \<or> \<not> memory_ok E))"
    using p by (auto simp: pointer_copy_generic_interface_def
        intro!: wp libusbp_generic_interface_copy_gives [THEN runs_mono])
qed simp_all

text \<open>The pointer of a serial port is one that \<open>libusbp_serial_port_create\<close> or \<open>_copy\<close> made.\<close>

definition whole_port :: "serial_port \<Rightarrow> bool" where
  "whole_port p \<longleftrightarrow> wf_sp p \<and> (p = NULL \<or> sp_view p \<noteq> None)"

interpretation serial_port_pointer: copyable_pointer pointer_free_serial_port sp_res whole_port
    "pointer_copy_serial_port E" sp_view "memory_ok E"
  for E :: "'e environment_scheme"
proof unfold_locales
  fix p and w :: "'w world_scheme"
  assume p: "whole_port p" "sp_res p \<subseteq># live w"
  then show "\<exists>w'. pointer_free_serial_port p w = Some w' \<and> live w' = live w - sp_res p"
    by (simp add: pointer_free_serial_port_def libusbp_serial_port_free_ok whole_port_def)
  show "runs (pointer_copy_serial_port E p w) (\<lambda>r w'. case r of
      Inl e \<Rightarrow> wf_err e \<and> live w' = live w + err_res e \<and> \<not> memory_ok E
    | Inr q \<Rightarrow> whole_port q \<and> live w' = live w + sp_res q \<and> (sp_view q = sp_view p \<or> \<not> memory_ok E))"
  proof (cases "p = NULL")
    case True
    then show ?thesis
      by (simp add: pointer_copy_serial_port_def libusbp_serial_port_copy_def whole_port_def)
  next
    case False
    with p show ?thesis
      by (auto simp: pointer_copy_serial_port_def whole_port_def intro!: wp)
  qed
qed (simp_all add: whole_port_def)

text \<open>Generic handles can be moved but not copied; closing one also takes its descriptor's URBs.\<close>

interpretation generic_handle_pointer: unique_pointer pointer_free_generic_handle gh_res wf_gh
proof unfold_locales
  fix p and w :: "'w usb_world_scheme"
  assume "wf_gh p" "gh_res p \<subseteq># live w"
  then show "\<exists>w'. pointer_free_generic_handle p w = Some w' \<and> live w' = live w - gh_res p"
    by (cases p) (simp_all add: pointer_free_generic_handle_def libusbp_generic_handle_close_ok)
qed simp_all

section \<open>Properties\<close>

text \<open>A program starts with pointers from the C library and no objects.\<close>

definition start_with :: "'a ptr list \<Rightarrow> 'a holder" where
  "start_with ps = \<lparr>objects = (\<lambda>_. None), hand = ps, thrown = []\<rparr>"

text \<open>
  \<open>leak_free\<close>: the program \<open>ops\<close>, started with the pointers \<open>ps\<close>, does not fault, and when the objects it
  leaves behind are destroyed, in any order, what is owned is exactly the pointers in its hand, the errors
  that were thrown, and the rest \<open>L\<close>.
\<close>

definition leak_free :: "bool \<Rightarrow> ('a ptr \<Rightarrow> 'w world_scheme \<Rightarrow> 'w world_scheme option)
    \<Rightarrow> ('a ptr \<Rightarrow> 'w world_scheme \<Rightarrow> ('a ptr, 'w world_scheme) cpp) \<Rightarrow> ('a ptr \<Rightarrow> res multiset)
    \<Rightarrow> wrapper_op list \<Rightarrow> 'a ptr list \<Rightarrow> res multiset \<Rightarrow> 'w world_scheme \<Rightarrow> bool" where
  "leak_free copyable pfree pcopy own ops ps L w \<longleftrightarrow>
     runs (run_ops copyable pfree pcopy ops (start_with ps) w) (\<lambda>s w1. \<forall>os. dom (objects s) \<subseteq> set os \<longrightarrow>
       runs (run_ops copyable pfree pcopy (map Destroy os) s w1) (\<lambda>s' w2.
         objects s' = (\<lambda>_. None) \<and> hand s' = hand s \<and> thrown s' = thrown s \<and>
         live w2 = sum_list (map own (hand s)) + sum_list (map err_res (thrown s)) + L))"

definition like_values :: "('a ptr \<Rightarrow> 'w world_scheme \<Rightarrow> 'w world_scheme option)
    \<Rightarrow> ('a ptr \<Rightarrow> 'w world_scheme \<Rightarrow> ('a ptr, 'w world_scheme) cpp) \<Rightarrow> ('a ptr \<Rightarrow> 'v)
    \<Rightarrow> wrapper_op list \<Rightarrow> 'a ptr list \<Rightarrow> 'w world_scheme \<Rightarrow> bool" where
  "like_values pfree pcopy view ops ps w \<longleftrightarrow>
     runs (run_ops True pfree pcopy ops (start_with ps) w) (\<lambda>s w'. thrown s = [] \<and>
       holds_values view s = value_ops True (view NULL) ops ((\<lambda>_. None), map view ps))"

lemma start_with_inv:
  "list_all valid ps \<Longrightarrow> live w = sum_list (map own ps) + L \<Longrightarrow> holder_inv own valid L (start_with ps) w"
  by (auto simp: holder_inv_def held_def start_with_def list_all_iff ran_def)

lemma start_with_values: "holds_values view (start_with ps) = ((\<lambda>_. None), map view ps)"
  by (simp add: holds_values_def start_with_def comp_def)

context copyable_pointer begin

lemma leak_freeI:
  assumes "list_all valid ps" "live w = sum_list (map own ps) + L"
  shows "leak_free True pfree pcopy own ops ps L w"
  unfolding leak_free_def
  by (rule runs_mono [OF run_ops_copy_spec [OF start_with_inv [OF assms]]])
    (blast intro: destroy_all_spec)

lemma like_valuesI:
  assumes "list_all valid ps" "live w = sum_list (map own ps) + L" reliable
  shows "like_values pfree pcopy view ops ps w"
  unfolding like_values_def
  by (rule runs_mono [OF run_ops_copy_spec [OF start_with_inv [OF assms(1,2)]]])
    (use assms(3) in \<open>simp add: start_with_values\<close>, simp add: start_with_def)

end

context unique_pointer begin

lemma leak_free_moveI:
  assumes "list_all valid ps" "live w = sum_list (map own ps) + L"
  shows "leak_free False pfree pcopy own ops ps L w"
  unfolding leak_free_def
  by (rule runs_mono [OF run_ops_spec [OF start_with_inv [OF assms], where view = id]])
    (blast intro: destroy_all_spec)

end

text \<open>
  C9: C++ objects that wrap the pointers of the C library are safe.  Whatever sequence of constructions,
  moves, copies, assignments (of an object to itself too), \<open>pointer_reset\<close>, \<open>pointer_release\<close> and
  destructions a program makes, whatever allocations fail, nothing is freed twice or used after it was
  freed, and when its objects are gone, all that is left is what it took out of them and the errors that
  were thrown.  This holds for the classes \<open>error\<close>, \<open>device\<close>, \<open>generic_interface\<close> and \<open>serial_port\<close>, and,
  without copies, for \<open>generic_handle\<close>.
\<close>

theorem wrapper_objects_safe:
  fixes w :: "'w usb_world_scheme"
  shows "(list_all wf_err es \<and> live w = sum_list (map err_res es) + L \<longrightarrow>
      leak_free True pointer_free_error (pointer_copy_error E) err_res ops es L w) \<and>
    (list_all wf_device ds \<and> live w = sum_list (map dev_res ds) + L \<longrightarrow>
      leak_free True pointer_free_device (pointer_copy_device E) dev_res ops ds L w) \<and>
    (list_all wf_gi gs \<and> live w = sum_list (map gi_res gs) + L \<longrightarrow>
      leak_free True pointer_free_generic_interface (pointer_copy_generic_interface E) gi_res ops gs L w) \<and>
    (list_all whole_port ss \<and> live w = sum_list (map sp_res ss) + L \<longrightarrow>
      leak_free True pointer_free_serial_port (pointer_copy_serial_port E) sp_res ops ss L w) \<and>
    (list_all wf_gh hs \<and> live w = sum_list (map gh_res hs) + L \<longrightarrow>
      leak_free False pointer_free_generic_handle pcopy gh_res ops hs L w)"
  by (intro conjI impI; erule conjE;
      rule error_pointer.leak_freeI device_pointer.leak_freeI generic_interface_pointer.leak_freeI
        serial_port_pointer.leak_freeI generic_handle_pointer.leak_free_moveI; assumption)

theorem wrapper_objects_safe_witness:
  "leak_free True pointer_free_device (pointer_copy_device plenty) dev_res
     [Construct 0 0, CopyConstruct 1 0, MoveAssign 1 1, CopyAssign 0 0, MoveAssign 0 1, Release 1]
     [demo_device] {#} \<lparr>next_id = 2, live = {#(Mem, 0), (Mem, 1)#}, transfers = (\<lambda>_. None),
       kernel_urbs = []\<rparr>"
  by (rule wrapper_objects_safe [THEN conjunct2, THEN conjunct1, THEN mp]) simp

text \<open>
  C16: With enough memory the objects behave as values: after any program, each object shows what the
  variable of the same name holds in the program over values, where a moved-from variable is empty, a copy
  has the value of its source and assigning a variable to itself changes nothing; and nothing has thrown.
\<close>

theorem wrapper_objects_are_values:
  fixes w :: "'w world_scheme"
  assumes "memory_ok E"
  shows "(list_all wf_err es \<and> live w = sum_list (map err_res es) + L \<longrightarrow>
      like_values pointer_free_error (pointer_copy_error E) (\<lambda>e. (e = NULL, err_text e, err_codes e)) ops es w) \<and>
    (list_all wf_device ds \<and> live w = sum_list (map dev_res ds) + L \<longrightarrow>
      like_values pointer_free_device (pointer_copy_device E) dev_view ops ds w) \<and>
    (list_all wf_gi gs \<and> live w = sum_list (map gi_res gs) + L \<longrightarrow>
      like_values pointer_free_generic_interface (pointer_copy_generic_interface E) gi_view ops gs w) \<and>
    (list_all whole_port ss \<and> live w = sum_list (map sp_res ss) + L \<longrightarrow>
      like_values pointer_free_serial_port (pointer_copy_serial_port E) sp_view ops ss w)"
  by (intro conjI impI; erule conjE;
      rule error_pointer.like_valuesI [OF _ _ assms] device_pointer.like_valuesI [OF _ _ assms]
        generic_interface_pointer.like_valuesI [OF _ _ assms]
        serial_port_pointer.like_valuesI [OF _ _ assms]; assumption)

theorem wrapper_objects_are_values_witness:
  "runs (run_ops True pointer_free_device (pointer_copy_device plenty)
      [Construct 0 0, CopyConstruct 1 0, MoveAssign 1 1, CopyAssign 1 1, MoveConstruct 2 0]
      (start_with [demo_device]) \<lparr>next_id = 2, live = {#(Mem, 0), (Mem, 1)#}\<rparr>) (\<lambda>s w'.
    map (map_option dev_view \<circ> objects s) [0, 1, 2, 3] =
      [Some None, Some (dev_view demo_device), Some (dev_view demo_device), None])"
proof -
  have "like_values pointer_free_device (pointer_copy_device plenty) dev_view
      [Construct 0 0, CopyConstruct 1 0, MoveAssign 1 1, CopyAssign 1 1, MoveConstruct 2 0]
      [demo_device] \<lparr>next_id = 2, live = {#(Mem, 0), (Mem, 1)#}\<rparr>"
    by (rule wrapper_objects_are_values [where L = "{#}", THEN conjunct2, THEN conjunct1, THEN mp])
      simp_all
  then show ?thesis
    unfolding like_values_def
    by (rule runs_mono) (auto simp: holds_values_def drop_nth_def fun_eq_iff split: if_splits)
qed

end
