(* ===== verification/CppWrapper.thy ===== *)
theory CppWrapper
  imports CppPointers PipeRuns
begin

text \<open>
  The classes of \<open>src/include/libusbp.hpp\<close> on the Linux operations.  An object is given by its member
  \<open>pointer\<close>; a method that changes what the pointer refers to also gives the new pointer.  An error of
  the C library becomes an exception.  \<open>std::bad_alloc\<close>, which the standard library can throw, is not
  modelled.  The lemmas give what each method returns or throws, and what it leaves in the ledger.
\<close>

section \<open>Contracts of methods\<close>

text \<open>
  \<open>returns own P F w\<close>: the method returns a value that satisfies \<open>P\<close> and owns \<open>own\<close>, or it throws an
  error that satisfies \<open>F\<close>; in both cases the ledger grows by that and nothing else.
\<close>

definition returns :: "('r \<Rightarrow> res multiset) \<Rightarrow> ('r \<Rightarrow> bool) \<Rightarrow> (err \<Rightarrow> bool) \<Rightarrow> 'w world_scheme
    \<Rightarrow> err + 'r \<Rightarrow> 'w world_scheme \<Rightarrow> bool" where
  "returns own P F w = (\<lambda>r w'. later w w' \<and> (case r of
     Inl e \<Rightarrow> e \<noteq> NULL \<and> wf_err e \<and> F e \<and> live w' = live w + err_res e
   | Inr x \<Rightarrow> P x \<and> live w' = live w + own x))"

lemma returns_simps [simp]:
  "returns own P F w (Inl e) w' \<longleftrightarrow> later w w' \<and> e \<noteq> NULL \<and> wf_err e \<and> F e \<and> live w' = live w + err_res e"
  "returns own P F w (Inr x) w' \<longleftrightarrow> later w w' \<and> P x \<and> live w' = live w + own x"
  by (simp_all add: returns_def)

lemma returns_wp:
  assumes "runs m (returns own P F w)"
    and "\<And>x w'. later w w' \<Longrightarrow> P x \<Longrightarrow> live w' = live w + own x \<Longrightarrow> Q (Inr x) w'"
    and "\<And>e w'. e \<noteq> NULL \<Longrightarrow> later w w' \<Longrightarrow> wf_err e \<Longrightarrow> F e \<Longrightarrow> live w' = live w + err_res e \<Longrightarrow> Q (Inl e) w'"
  shows "runs m Q"
proof (rule runs_mono [OF assms(1)])
  fix r w' assume "returns own P F w r w'"
  then show "Q r w'" using assms(2,3) by (cases r) simp_all
qed

section \<open>Functions shared by the methods\<close>

text \<open>\<open>char * str; throw_if_needed(...(&str)); std::string s = str; libusbp_string_free(str); return s;\<close>\<close>

definition take_string :: "err \<Rightarrow> cstr \<Rightarrow> 'w world_scheme \<Rightarrow> (string, 'w world_scheme) cpp" where
  "take_string err str w = after (throw_if_needed err w) (\<lambda>_ w. do {
     s \<leftarrow> deref str w;
     w \<leftarrow> libusbp_string_free str w;
     Some (Inr s, w)
   })"

text \<open>\<open>throw_if_needed(f(..., &x)); return x;\<close>\<close>

definition take_value :: "err \<Rightarrow> 'v \<Rightarrow> 'w world_scheme \<Rightarrow> ('v, 'w world_scheme) cpp" where
  "take_value err x w = after (throw_if_needed err w) (\<lambda>_ w. Some (Inr x, w))"

text \<open>\<open>throw_if_needed(f(...))\<close> where \<open>f\<close> has outputs \<open>x\<close> that the caller sees even when it throws.\<close>

definition throw_with :: "err \<Rightarrow> 'x \<Rightarrow> 'w world_scheme
    \<Rightarrow> (((err + unit) \<times> 'x) \<times> 'w world_scheme) option" where
  "throw_with err x w = do { (r, w) \<leftarrow> throw_if_needed err w; Some ((r, x), w) }"

text \<open>
  A constructor that lets the C library write to \<open>&pointer\<close>.  When it throws, the base object is
  destroyed.
\<close>

definition construct_from :: "('a ptr \<Rightarrow> 'w \<Rightarrow> 'w option) \<Rightarrow> err \<Rightarrow> 'a ptr \<Rightarrow> 'w \<Rightarrow> ('a ptr, 'w) cpp" where
  "construct_from pointer_free err pointer w = do {
     (r, w) \<leftarrow> throw_if_needed err w;
     case r of
       Inl e \<Rightarrow> do { w \<leftarrow> pointer_free pointer w; Some (Inl e, w) }
     | Inr _ \<Rightarrow> Some (Inr pointer, w)
   }"

section \<open>error\<close>

definition error_what :: "err \<Rightarrow> 'w world_scheme \<Rightarrow> string option" where
  "error_what pointer w = libusbp_error_get_message pointer w"

definition error_message :: "err \<Rightarrow> 'w world_scheme \<Rightarrow> string option" where
  "error_message pointer w = error_what pointer w"

definition error_has_code :: "err \<Rightarrow> 32 word \<Rightarrow> 'w world_scheme \<Rightarrow> bool option" where
  "error_has_code pointer error_code w = libusbp_error_has_code pointer error_code w"

section \<open>async_in_pipe\<close>

definition pointer_free_async_in_pipe :: "async_in_pipe \<Rightarrow> 'w usb_world_scheme
    \<Rightarrow> 'w usb_world_scheme option" where
  "pointer_free_async_in_pipe p w = libusbp_async_in_pipe_close p w"

definition pipe_allocate_transfers :: "'e usb_system_scheme \<Rightarrow> async_in_pipe \<Rightarrow> nat \<Rightarrow> nat
    \<Rightarrow> 'w usb_world_scheme \<Rightarrow> (((err + unit) \<times> async_in_pipe) \<times> 'w usb_world_scheme) option" where
  "pipe_allocate_transfers E pointer count' size' w = do {
     ((err, pointer), w) \<leftarrow> libusbp_async_in_pipe_allocate_transfers E pointer count'
       size' w;
     throw_with err pointer w
   }"

definition pipe_start_endless_transfers :: "'e usb_system_scheme \<Rightarrow> async_in_pipe
    \<Rightarrow> 'w usb_world_scheme \<Rightarrow> (((err + unit) \<times> async_in_pipe) \<times> 'w usb_world_scheme) option" where
  "pipe_start_endless_transfers E pointer w = do {
     ((err, pointer), w) \<leftarrow> libusbp_async_in_pipe_start_endless_transfers E pointer w;
     throw_with err pointer w
   }"

definition pipe_handle_events :: "'e usb_system_scheme \<Rightarrow> async_in_pipe
    \<Rightarrow> 'w usb_world_scheme \<Rightarrow> (unit, 'w usb_world_scheme) cpp" where
  "pipe_handle_events E pointer w = do {
     (err, w) \<leftarrow> libusbp_async_in_pipe_handle_events E pointer w;
     throw_if_needed err w
   }"

definition pipe_has_pending_transfers :: "'e environment_scheme \<Rightarrow> async_in_pipe
    \<Rightarrow> 'w world_scheme \<Rightarrow> (bool, 'w world_scheme) cpp" where
  "pipe_has_pending_transfers E pointer w = do {
     ((err, result), w) \<leftarrow> libusbp_async_in_pipe_has_pending_transfers E pointer True w;
     take_value err result w
   }"

text \<open>
  \<open>transfer_error\<close> is \<open>None\<close> for NULL, or the member \<open>pointer\<close> of the error object it points to: that is
  reset, and the C library writes to it.  The outputs are the pipe, the buffer, \<open>*transferred\<close> and the
  new member \<open>pointer\<close>.
\<close>

definition pipe_handle_finished_transfer :: "'e usb_system_scheme \<Rightarrow> async_in_pipe
    \<Rightarrow> 8 word list option \<Rightarrow> bool \<Rightarrow> err option \<Rightarrow> 'w usb_world_scheme
    \<Rightarrow> (((err + bool) \<times> async_in_pipe \<times> 8 word list option \<times> nat \<times> err option) \<times> 'w usb_world_scheme) option" where
  "pipe_handle_finished_transfer E pointer buf transferred_given transfer_error w = do {
     w \<leftarrow> (case transfer_error of None \<Rightarrow> Some w | Some old \<Rightarrow> pointer_free_error old w);
     ((err, pointer, finished, buf, transferred, error_out), w) \<leftarrow>
       libusbp_async_in_pipe_handle_finished_transfer E pointer True buf transferred_given
         (transfer_error \<noteq> None) w;
     (r, w) \<leftarrow> take_value err finished w;
     Some ((r, pointer, buf, transferred, map_option (\<lambda>_. error_out) transfer_error), w)
   }"

definition pipe_cancel_transfers :: "'e usb_system_scheme \<Rightarrow> async_in_pipe
    \<Rightarrow> 'w usb_world_scheme \<Rightarrow> (((err + unit) \<times> async_in_pipe) \<times> 'w usb_world_scheme) option" where
  "pipe_cancel_transfers E pointer w = do {
     ((err, pointer), w) \<leftarrow> libusbp_async_in_pipe_cancel_transfers E pointer w;
     throw_with err pointer w
   }"

section \<open>device\<close>

definition device_get_vendor_id :: "'e environment_scheme \<Rightarrow> device \<Rightarrow> 'w world_scheme
    \<Rightarrow> (16 word, 'w world_scheme) cpp" where
  "device_get_vendor_id E pointer w = do {
     ((err, id), w) \<leftarrow> libusbp_device_get_vendor_id E pointer True w;
     take_value err id w
   }"

definition device_get_product_id :: "'e environment_scheme \<Rightarrow> device \<Rightarrow> 'w world_scheme
    \<Rightarrow> (16 word, 'w world_scheme) cpp" where
  "device_get_product_id E pointer w = do {
     ((err, id), w) \<leftarrow> libusbp_device_get_product_id E pointer True w;
     take_value err id w
   }"

definition device_get_revision :: "'e environment_scheme \<Rightarrow> device \<Rightarrow> 'w world_scheme
    \<Rightarrow> (16 word, 'w world_scheme) cpp" where
  "device_get_revision E pointer w = do {
     ((err, r), w) \<leftarrow> libusbp_device_get_revision E pointer True w;
     take_value err r w
   }"

definition device_get_serial_number :: "'e environment_scheme \<Rightarrow> device \<Rightarrow> 'w world_scheme
    \<Rightarrow> (string, 'w world_scheme) cpp" where
  "device_get_serial_number E pointer w = do {
     ((err, str), w) \<leftarrow> libusbp_device_get_serial_number E pointer True w;
     take_string err str w
   }"

definition device_get_os_id :: "'e environment_scheme \<Rightarrow> device \<Rightarrow> 'w world_scheme
    \<Rightarrow> (string, 'w world_scheme) cpp" where
  "device_get_os_id E pointer w = do {
     ((err, str), w) \<leftarrow> libusbp_device_get_os_id E pointer True w;
     take_string err str w
   }"

text \<open>
  \<open>vector.push_back(device(p))\<close>: the temporary object takes the pointer, its pointer moves to the new
  element, and the temporary, which now holds NULL, is destroyed.
\<close>

definition push_back_device :: "device list \<Rightarrow> device \<Rightarrow> 'w world_scheme
    \<Rightarrow> (device list \<times> 'w world_scheme) option" where
  "push_back_device v p w = do {
     m \<leftarrow> construct 0 p (\<lambda>_. None);
     m \<leftarrow> move_construct 1 0 m;
     (m, w) \<leftarrow> destroy pointer_free_device 0 m w;
     pointer \<leftarrow> pointer_get 1 m;
     Some (v @ [pointer], w)
   }"

fun push_back_loop :: "device_list \<Rightarrow> nat \<Rightarrow> nat \<Rightarrow> device list \<Rightarrow> 'w world_scheme
    \<Rightarrow> (device list \<times> 'w world_scheme) option" where
  "push_back_loop device_list 0 i v w = Some (v, w)"
| "push_back_loop device_list (Suc n) i v w = do {
     cells \<leftarrow> deref device_list w;
     if length cells \<le> i then None
     else do {
       (v, w) \<leftarrow> push_back_device v (cells ! i) w;
       push_back_loop device_list n (i + 1) v w
     }
   }"

definition list_connected_devices :: "'e libudev_scheme \<Rightarrow> 'w world_scheme
    \<Rightarrow> (device list, 'w world_scheme) cpp" where
  "list_connected_devices E w = do {
     ((err, device_list, n), w) \<leftarrow> libusbp_list_connected_devices E True True w;
     after (throw_if_needed err w) (\<lambda>_ w. do {
       (v, w) \<leftarrow> push_back_loop device_list n 0 [] w;
       w \<leftarrow> libusbp_list_free device_list w;
       Some (Inr v, w)
     })
   }"

definition find_device_with_vid_pid :: "'e libudev_scheme \<Rightarrow> 16 word \<Rightarrow> 16 word \<Rightarrow> 'w world_scheme
    \<Rightarrow> (device, 'w world_scheme) cpp" where
  "find_device_with_vid_pid E vid pid w = do {
     ((err, device_pointer), w) \<leftarrow> libusbp_find_device_with_vid_pid E vid pid True w;
     take_value err device_pointer w
   }"

section \<open>generic_interface\<close>

text \<open>The Linux operations do not use \<open>composite\<close>.\<close>

definition generic_interface_create :: "'e usb_system_scheme \<Rightarrow> device \<Rightarrow> 8 word \<Rightarrow> bool
    \<Rightarrow> 'w world_scheme \<Rightarrow> (generic_interface, 'w world_scheme) cpp" where
  "generic_interface_create E device interface_number composite w = do {
     ((err, pointer), w) \<leftarrow> libusbp_generic_interface_create E device interface_number True w;
     construct_from pointer_free_generic_interface err pointer w
   }"

definition generic_interface_get_os_id :: "'e environment_scheme \<Rightarrow> generic_interface
    \<Rightarrow> 'w world_scheme \<Rightarrow> (string, 'w world_scheme) cpp" where
  "generic_interface_get_os_id E pointer w = do {
     ((err, str), w) \<leftarrow> libusbp_generic_interface_get_os_id E pointer True w;
     take_string err str w
   }"

definition generic_interface_get_os_filename :: "'e environment_scheme \<Rightarrow> generic_interface
    \<Rightarrow> 'w world_scheme \<Rightarrow> (string, 'w world_scheme) cpp" where
  "generic_interface_get_os_filename E pointer w = do {
     ((err, str), w) \<leftarrow> libusbp_generic_interface_get_os_filename E pointer True w;
     take_string err str w
   }"

section \<open>generic_handle\<close>

definition generic_handle_create :: "'e usb_system_scheme \<Rightarrow> generic_interface
    \<Rightarrow> 'w usb_world_scheme \<Rightarrow> (generic_handle, 'w usb_world_scheme) cpp" where
  "generic_handle_create E gi w = do {
     ((err, pointer), w) \<leftarrow> libusbp_generic_handle_open E gi True w;
     construct_from pointer_free_generic_handle err pointer w
   }"

definition generic_handle_close :: "nat \<Rightarrow> libusbp_generic_handle objs \<Rightarrow> 'w usb_world_scheme
    \<Rightarrow> (libusbp_generic_handle objs \<times> 'w usb_world_scheme) option" where
  "generic_handle_close this m w = pointer_reset pointer_free_generic_handle this NULL m w"

definition generic_handle_open_async_in_pipe :: "'e usb_system_scheme \<Rightarrow> generic_handle \<Rightarrow> 8 word
    \<Rightarrow> 'w usb_world_scheme \<Rightarrow> (async_in_pipe, 'w usb_world_scheme) cpp" where
  "generic_handle_open_async_in_pipe E pointer pipe_id w = do {
     ((err, pipe), w) \<leftarrow> libusbp_generic_handle_open_async_in_pipe E pointer pipe_id True w;
     take_value err pipe w
   }"

definition generic_handle_set_timeout :: "'e environment_scheme \<Rightarrow> generic_handle \<Rightarrow> 8 word \<Rightarrow> 32 word
    \<Rightarrow> 'w world_scheme \<Rightarrow> (((err + unit) \<times> generic_handle) \<times> 'w world_scheme) option" where
  "generic_handle_set_timeout E pointer pipe_id timeout w = do {
     ((err, pointer), w) \<leftarrow> libusbp_generic_handle_set_timeout E pointer pipe_id timeout w;
     throw_with err pointer w
   }"

text \<open>The outputs of the transfers are \<open>*transferred\<close> and the buffer.\<close>

definition generic_handle_control_transfer :: "'e usb_system_scheme \<Rightarrow> generic_handle \<Rightarrow> 8 word
    \<Rightarrow> 8 word \<Rightarrow> 16 word \<Rightarrow> 16 word \<Rightarrow> 8 word list option \<Rightarrow> 16 word \<Rightarrow> 'w world_scheme
    \<Rightarrow> (((err + unit) \<times> nat \<times> 8 word list option) \<times> 'w world_scheme) option" where
  "generic_handle_control_transfer E pointer request_type request v i buf len w = do {
     ((err, out), w) \<leftarrow> libusbp_control_transfer E pointer request_type request v i buf len w;
     throw_with err out w
   }"

definition generic_handle_write_pipe :: "'e usb_system_scheme \<Rightarrow> generic_handle \<Rightarrow> 8 word
    \<Rightarrow> 8 word list option \<Rightarrow> nat \<Rightarrow> 'w world_scheme
    \<Rightarrow> (((err + unit) \<times> nat \<times> 8 word list option) \<times> 'w world_scheme) option" where
  "generic_handle_write_pipe E pointer pipe_id buf n w = do {
     ((err, out), w) \<leftarrow> libusbp_write_pipe E pointer pipe_id buf n w;
     throw_with err out w
   }"

definition generic_handle_read_pipe :: "'e usb_system_scheme \<Rightarrow> generic_handle \<Rightarrow> 8 word
    \<Rightarrow> 8 word list option \<Rightarrow> nat \<Rightarrow> 'w world_scheme
    \<Rightarrow> (((err + unit) \<times> nat \<times> 8 word list option) \<times> 'w world_scheme) option" where
  "generic_handle_read_pipe E pointer pipe_id buf n w = do {
     ((err, out), w) \<leftarrow> libusbp_read_pipe E pointer pipe_id buf n w;
     throw_with err out w
   }"

definition generic_handle_get_fd :: "generic_handle \<Rightarrow> 'w world_scheme \<Rightarrow> nat option option" where
  "generic_handle_get_fd pointer w = libusbp_generic_handle_get_fd pointer w"

section \<open>serial_port\<close>

definition serial_port_create :: "'e libudev_scheme \<Rightarrow> device \<Rightarrow> 8 word \<Rightarrow> bool
    \<Rightarrow> 'w world_scheme \<Rightarrow> (serial_port, 'w world_scheme) cpp" where
  "serial_port_create E device interface_number composite w = do {
     ((err, pointer), w) \<leftarrow> libusbp_serial_port_create E device interface_number True w;
     construct_from pointer_free_serial_port err pointer w
   }"

definition serial_port_get_name :: "'e environment_scheme \<Rightarrow> serial_port
    \<Rightarrow> 'w world_scheme \<Rightarrow> (string, 'w world_scheme) cpp" where
  "serial_port_get_name E pointer w = do {
     ((err, str), w) \<leftarrow> libusbp_serial_port_get_name E pointer True w;
     take_string err str w
   }"

section \<open>Handlers and scopes\<close>

text \<open>
  \<open>catch (const libusbp::error &)\<close>: the handler gives a value and the exception object is destroyed, or
  it gives \<open>None\<close>, which is \<open>throw;\<close>.
\<close>

definition catch_error :: "('r, 'w world_scheme) cpp \<Rightarrow> (err \<Rightarrow> 'w world_scheme \<Rightarrow> 'r option option)
    \<Rightarrow> ('r, 'w world_scheme) cpp" where
  "catch_error m handler = do {
     (r, w) \<leftarrow> m;
     case r of
       Inr x \<Rightarrow> Some (Inr x, w)
     | Inl e \<Rightarrow> do {
         h \<leftarrow> handler e w;
         case h of
           None \<Rightarrow> Some (Inl e, w)
         | Some x \<Rightarrow> do { w \<leftarrow> pointer_free_error e w; Some (Inr x, w) }
       }
   }"

text \<open>
  A local object: it is destroyed when the rest of its block returns and when it throws.  The rest of the
  block gives the member \<open>pointer\<close> it leaves in the object.
\<close>

definition local_object :: "('a ptr \<Rightarrow> 'w \<Rightarrow> 'w option) \<Rightarrow> 'a ptr
    \<Rightarrow> ('a ptr \<Rightarrow> 'w \<Rightarrow> (((err + 'r) \<times> 'a ptr) \<times> 'w) option) \<Rightarrow> 'w \<Rightarrow> ('r, 'w) cpp" where
  "local_object pointer_free p body w = do {
     ((r, p), w) \<leftarrow> body p w;
     w \<leftarrow> pointer_free p w;
     Some (r, w)
   }"

text \<open>The destructor of \<open>std::vector<device>\<close>.\<close>

fun destroy_devices :: "device list \<Rightarrow> 'w world_scheme \<Rightarrow> 'w world_scheme option" where
  "destroy_devices [] w = Some w"
| "destroy_devices (d # ds) w = do { w \<leftarrow> pointer_free_device d w; destroy_devices ds w }"

section \<open>What the shared functions do\<close>

lemma take_value_returns:
  "runs m (gives own none P F w) \<Longrightarrow>
   runs (do { ((err, x), w) \<leftarrow> m; take_value err x w }) (returns own P F w)"
  by (rule runs_bind, erule gives_wp) (simp_all add: take_value_def)

lemma take_string_returns:
  "runs m (gives blk NULL (\<lambda>s. \<exists>n t. s = Heap n t \<and> P t) F w) \<Longrightarrow>
   runs (do { ((err, str), w) \<leftarrow> m; take_string err str w }) (returns nothing P F w)"
  by (rule runs_bind, erule gives_wp)
    (auto simp: take_string_def libusbp_string_free_def later_def)

lemma construct_from_returns:
  assumes "runs m (gives own NULL P F w)" "\<And>w. pfree NULL w = Some w"
  shows "runs (do { ((err, p), w) \<leftarrow> m; construct_from pfree err p w }) (returns own P F w)"
  by (rule runs_bind, rule gives_wp [OF assms(1)]) (simp_all add: construct_from_def assms(2))

lemma pointer_free_NULL [simp]:
  "pointer_free_error NULL w = Some w" "pointer_free_device NULL w = Some w"
  "pointer_free_generic_interface NULL w = Some w" "pointer_free_serial_port NULL w = Some w"
  "pointer_free_generic_handle NULL w' = Some w'" "pointer_free_async_in_pipe NULL w' = Some w'"
  by (simp_all add: pointer_free_error_def libusbp_error_free_def pointer_free_device_def
      libusbp_device_free_def pointer_free_generic_interface_def libusbp_generic_interface_free_def
      pointer_free_serial_port_def libusbp_serial_port_free_def pointer_free_generic_handle_def
      pointer_free_async_in_pipe_def libusbp_async_in_pipe_close_def)

lemma catch_error_wp [wp]:
  assumes "runs m (\<lambda>r w. case r of Inr x \<Rightarrow> Q (Inr x) w
    | Inl e \<Rightarrow> \<exists>h. handler e w = Some h \<and> (case h of None \<Rightarrow> Q (Inl e) w
      | Some x \<Rightarrow> wf_err e \<and> err_res e \<subseteq># live w \<and> Q (Inr x) (drop_res (err_res e) w)))"
  shows "runs (catch_error m handler) Q"
  unfolding catch_error_def
  by (rule runs_bind, rule runs_mono [OF assms])
    (auto simp: pointer_free_error_def libusbp_error_free_ok split: sum.splits option.splits)

section \<open>What the methods return\<close>

text \<open>The error of a device that has no serial number, or of a copy that could not be made.\<close>

definition no_serial :: "'e environment_scheme \<Rightarrow> string option \<Rightarrow> err \<Rightarrow> bool" where
  "no_serial E serial e \<longleftrightarrow> (serial = None \<or> e = error_no_memory \<and> \<not> memory_ok E) \<and>
     (memory_ok E \<longrightarrow> code_of LIBUSBP_ERROR_NO_SERIAL_NUMBER \<in> set (err_codes e))"

lemma libusbp_device_get_serial_number_gives:
  assumes "wf_device d" "dev_res d \<subseteq># live w" "dev_view d = Some ((path, serial), ids)"
  shows "runs (libusbp_device_get_serial_number E d True w) (gives blk NULL
    (\<lambda>s. \<exists>n t. s = Heap n t \<and> serial = Some t)
    (no_serial E serial) w)"
proof -
  obtain L where "live w = dev_res d + L"
    using assms(2) by (auto simp: mset_subset_eq_exists_conv)
  with assms(1,3) show ?thesis
    by (cases d) (auto simp: libusbp_device_get_serial_number_def later_def says_def not_static_conv
        no_serial_def intro!: wp)
qed

lemma device_get_serial_number_returns:
  assumes "wf_device d" "dev_res d \<subseteq># live w" "dev_view d = Some ((path, serial), ids)"
  shows "runs (device_get_serial_number E d w) (returns nothing (\<lambda>t. serial = Some t)
    (no_serial E serial) w)"
  unfolding device_get_serial_number_def
  by (rule take_string_returns [OF libusbp_device_get_serial_number_gives [OF assms]])

lemma libusbp_device_get_os_id_gives_path:
  assumes "wf_device d" "dev_res d \<subseteq># live w" "dev_view d = Some ((path, serial), ids)"
  shows "runs (libusbp_device_get_os_id E d True w) (gives blk NULL
    (\<lambda>s. \<exists>n t. s = Heap n t \<and> t = path) (\<lambda>e. \<not> memory_ok E) w)"
proof -
  obtain L where "live w = dev_res d + L"
    using assms(2) by (auto simp: mset_subset_eq_exists_conv)
  with assms(1,3) show ?thesis
    by (cases d) (auto simp: libusbp_device_get_os_id_def later_def intro!: wp)
qed

lemma device_get_os_id_returns:
  assumes "wf_device d" "dev_res d \<subseteq># live w" "dev_view d = Some ((path, serial), ids)"
  shows "runs (device_get_os_id E d w) (returns nothing (\<lambda>t. t = path) (\<lambda>e. \<not> memory_ok E) w)"
  unfolding device_get_os_id_def
  by (rule take_string_returns [OF libusbp_device_get_os_id_gives_path [OF assms]])

lemma device_get_ids:
  assumes "wf_device d" "dev_res d \<subseteq># live w" "dev_view d = Some (s, p, v, r)"
  shows "device_get_vendor_id E d w = Some (Inr v, w)" "device_get_product_id E d w = Some (Inr p, w)"
    "device_get_revision E d w = Some (Inr r, w)"
proof -
  obtain n x where d: "d = Heap n x" "vendor_id x = v" "product_id x = p" "revision x = r"
    "(Mem, n) \<in># live w"
    using assms by (cases d) (auto simp: mset_subset_eq_exists_conv)
  then show "device_get_vendor_id E d w = Some (Inr v, w)"
    "device_get_product_id E d w = Some (Inr p, w)" "device_get_revision E d w = Some (Inr r, w)"
    by (simp_all add: device_get_vendor_id_def device_get_product_id_def device_get_revision_def
        take_value_def)
qed

lemma push_back_device_ok: "push_back_device v p w = Some (v @ [p], w)"
  by (simp add: push_back_device_def construct_def move_construct_def pointer_release_def destroy_def
      pointer_reset_def pointer_get_def)

lemma push_back_loop_ok:
  "deref l w = Some cells \<Longrightarrow> i + n \<le> length cells \<Longrightarrow>
   push_back_loop l n i v w = Some (v @ take n (drop i cells), w)"
  by (induction n arbitrary: i v)
    (simp_all add: push_back_device_ok take_Suc_conv_app_nth Cons_nth_drop_Suc [symmetric])

text \<open>The vector has the devices of the list in their order, and the list itself is gone.\<close>

lemma list_connected_devices_run:
  assumes "libusbp_list_connected_devices E True True w = Some ((NULL, l, length ds), w1)" "holds l ds"
  shows "runs (list_connected_devices E w) (\<lambda>r w'. r = Inr ds \<and> later w w' \<and>
    live w' = live w + sum_list (map dev_res ds))"
proof -
  have g: "later w w1" "live w1 = live w + list_res l"
    using libusbp_list_connected_devices_gives [of E w] by (simp_all add: assms(1))
  obtain n where l: "l = Heap n (ds @ [NULL])" using assms(2) by (auto simp: holds_of_def)
  have "push_back_loop l (length ds) 0 [] w1 = Some ([] @ take (length ds) (drop 0 (ds @ [NULL])), w1)"
    by (rule push_back_loop_ok) (use g l in simp_all)
  with g l show ?thesis
    by (simp add: list_connected_devices_def assms(1) libusbp_list_free_def later_def devs_res_of_def)
qed

lemma list_connected_devices_returns:
  "runs (list_connected_devices E w) (returns (\<lambda>ds. sum_list (map dev_res ds))
     (\<lambda>ds. \<forall>d \<in> set ds. wf_device d \<and> d \<noteq> NULL \<and> connected E d) (\<lambda>_. True) w)"
proof -
  obtain e l n w1 where r: "libusbp_list_connected_devices E True True w = Some ((e, l, n), w1)"
    and g: "gives (list_res \<circ> fst) (NULL, 0) (lists E) (\<lambda>_. True) w (e, l, n) w1"
    using runsD [OF libusbp_list_connected_devices_gives [of E w]] by (auto simp: comp_def)
  show ?thesis
  proof (cases "e = NULL")
    case True
    with g obtain ds where ds: "holds l ds" "n = length ds" "\<forall>d \<in> set ds. connected E d"
      by (auto dest!: listsD)
    then have "\<forall>d \<in> set ds. wf_device d \<and> d \<noteq> NULL" by (auto simp: holds_of_def)
    with ds r True show ?thesis
      by (intro runs_mono [OF list_connected_devices_run [OF _ ds(1)]]) auto
  next
    case False
    with g show ?thesis by (simp add: list_connected_devices_def r)
  qed
qed

lemma find_device_returns:
  "runs (find_device_with_vid_pid E vid pid w) (returns dev_res
     (\<lambda>d. d = NULL \<or> wf_device d \<and> matches vid pid d \<and> connected E d) (\<lambda>_. True) w)"
  unfolding find_device_with_vid_pid_def by (rule take_value_returns [OF find_device_gives])

lemma destroy_devices_ok:
  "\<forall>d \<in> set ds. wf_device d \<Longrightarrow> live w = sum_list (map dev_res ds) + L \<Longrightarrow>
   destroy_devices ds w = Some (drop_res (sum_list (map dev_res ds)) w)"
proof (induction ds arbitrary: w)
  case (Cons d ds)
  then have "pointer_free_device d w = Some (drop_res (dev_res d) w)"
    by (simp add: pointer_free_device_def libusbp_device_free_ok)
  with Cons show ?case by simp
qed simp

lemma generic_interface_create_returns:
  assumes "wf_device d" "d \<noteq> NULL" "dev_res d \<subseteq># live w"
  shows "runs (generic_interface_create E d i composite w) (returns gi_res
    (\<lambda>gi. wf_gi gi \<and> (\<exists>n. gi_for E (dev_view d) i n gi)) (\<lambda>_. True) w)"
  unfolding generic_interface_create_def
  by (rule construct_from_returns [OF libusbp_generic_interface_create_gives [OF assms]]) simp

lemma serial_port_create_returns:
  assumes "wf_device d" "d \<noteq> NULL" "dev_res d \<subseteq># live w"
  shows "runs (serial_port_create E d i composite w) (returns sp_res
    (\<lambda>p. wf_sp p \<and> (\<exists>path v. map_option (fst \<circ> fst) (dev_view d) = Some path \<and> sp_view p = Some v \<and>
      tty_for E path i v)) (\<lambda>_. True) w)"
  unfolding serial_port_create_def
  by (rule construct_from_returns [OF libusbp_serial_port_create_gives [OF assms]]) simp

lemma serial_port_get_name_returns:
  assumes "wf_sp p" "sp_view p = Some (path, name)" "sp_res p \<subseteq># live w"
  shows "runs (serial_port_get_name E p w) (returns nothing (\<lambda>t. t = name) (\<lambda>_. \<not> memory_ok E) w)"
  unfolding serial_port_get_name_def
proof (rule take_string_returns)
  obtain L where "live w = sp_res p + L"
    using assms(3) by (auto simp: mset_subset_eq_exists_conv)
  with assms(1,2) show "runs (libusbp_serial_port_get_name E p True w) (gives blk NULL
      (\<lambda>s. \<exists>n t. s = Heap n t \<and> t = name) (\<lambda>_. \<not> memory_ok E) w)"
    by (cases p) (auto simp: libusbp_serial_port_get_name_def later_def split: ptr.splits intro!: wp)
qed

end
