(* ===== verification/Examples.thy ===== *)
theory Examples
  imports CppWrapper
begin

text \<open>
  The example programs \<open>src/examples/lsusb\<close> and \<open>src/examples/lsport\<close>, on the C++ classes.  What they
  print is kept in the world.  The lemmas give the output and the exit code, and
  show that everything the programs use is given back however they end.
\<close>

section \<open>Streams\<close>

record console = usb_world +
  cout :: string
  cerr :: string

definition out :: "string \<Rightarrow> 'w console_scheme \<Rightarrow> 'w console_scheme" where
  "out s w = w\<lparr>cout := cout w @ s\<rparr>"

definition err_out :: "string \<Rightarrow> 'w console_scheme \<Rightarrow> 'w console_scheme" where
  "err_out s w = w\<lparr>cerr := cerr w @ s\<rparr>"

definition endl :: string where
  "endl = [CHR 0x0A]"

text \<open>\<open>std::setfill(c) << std::setw(n) << std::right << std::hex\<close>.\<close>

definition setw_hex :: "char \<Rightarrow> nat \<Rightarrow> nat \<Rightarrow> string" where
  "setw_hex c n v = (let s = digits_of 16 v in replicate (n - length s) c @ s)"

text \<open>The \<open>main\<close> of the examples: an exception ends the program with exit code 1.\<close>

definition example_main :: "('w console_scheme \<Rightarrow> (int, 'w console_scheme) cpp) \<Rightarrow> 'w console_scheme
    \<Rightarrow> (int \<times> 'w console_scheme) option" where
  "example_main main_with_exceptions w = do {
     (r, w) \<leftarrow> main_with_exceptions w;
     case r of
       Inr code \<Rightarrow> Some (code, w)
     | Inl e \<Rightarrow> do {
         what \<leftarrow> error_what e w;
         let w = err_out (''Error: '' @ what @ endl) w;
         w \<leftarrow> pointer_free_error e w;
         Some (1, w)
       }
   }"

definition serial_number_or_default :: "'e environment_scheme \<Rightarrow> device \<Rightarrow> string \<Rightarrow> 'w world_scheme
    \<Rightarrow> (string, 'w world_scheme) cpp" where
  "serial_number_or_default E device def w =
     catch_error (device_get_serial_number E device w) (\<lambda>error w. do {
       b \<leftarrow> error_has_code error (code_of LIBUSBP_ERROR_NO_SERIAL_NUMBER) w;
       Some (if b then Some def else None)
     })"

section \<open>lsusb\<close>

definition print_device :: "'e environment_scheme \<Rightarrow> device \<Rightarrow> 'w console_scheme
    \<Rightarrow> (unit, 'w console_scheme) cpp" where
  "print_device E device w =
     after (device_get_vendor_id E device w) (\<lambda>vendor_id w.
     after (device_get_product_id E device w) (\<lambda>product_id w.
     after (device_get_revision E device w) (\<lambda>revision w.
     after (serial_number_or_default E device ''-'' w) (\<lambda>serial_number w.
     after (device_get_os_id E device w) (\<lambda>os_id w.
     Some (Inr (), out (
       setw_hex (CHR ''0'') 4 (unat vendor_id) @ '':'' @
       setw_hex (CHR ''0'') 4 (unat product_id) @ '' '' @
       setw_hex (CHR '' '') 2 (unat (drop_bit 8 revision)) @ ''.'' @
       setw_hex (CHR ''0'') 2 (unat (revision AND 0xFF)) @ '' '' @
       os_id @ '' '' @ serial_number @ endl) w))))))"

fun print_devices :: "'e environment_scheme \<Rightarrow> device list \<Rightarrow> 'w console_scheme
    \<Rightarrow> (unit, 'w console_scheme) cpp" where
  "print_devices E [] w = Some (Inr (), w)"
| "print_devices E (device # devices) w =
     after (print_device E device w) (\<lambda>_ w. print_devices E devices w)"

definition lsusb_main_with_exceptions :: "'e libudev_scheme \<Rightarrow> 'w console_scheme
    \<Rightarrow> (int, 'w console_scheme) cpp" where
  "lsusb_main_with_exceptions E w =
     after (list_connected_devices E w) (\<lambda>list w. do {
       (r, w) \<leftarrow> after (print_devices E list w) (\<lambda>_ w. Some (Inr 0, w));
       w \<leftarrow> destroy_devices list w;
       Some (r, w)
     })"

definition lsusb_main :: "'e libudev_scheme \<Rightarrow> 'w console_scheme \<Rightarrow> (int \<times> 'w console_scheme) option" where
  "lsusb_main E = example_main (lsusb_main_with_exceptions E)"

section \<open>lsport\<close>

definition try_print_port_name :: "'e libudev_scheme \<Rightarrow> device \<Rightarrow> 8 word \<Rightarrow> bool \<Rightarrow> 'w console_scheme
    \<Rightarrow> (bool, 'w console_scheme) cpp" where
  "try_print_port_name E device interface_number composite w =
     after (catch_error
       (after (serial_port_create E device interface_number composite w) (\<lambda>port w.
          local_object pointer_free_serial_port port (\<lambda>port w. do {
            (port_name, w) \<leftarrow> serial_port_get_name E port w;
            Some ((map_sum id Some port_name, port), w)
          }) w))
       (\<lambda>error w. Some (Some None))) (\<lambda>port_name w.
     case port_name of
       None \<Rightarrow> Some (Inr False, w)
     | Some port_name \<Rightarrow> Some (Inr True, out (''  '' @ port_name @ endl) w))"

text \<open>The loop over the first 16 interfaces, with \<open>n\<close> of them left.\<close>

fun try_ports :: "'e libudev_scheme \<Rightarrow> device \<Rightarrow> nat \<Rightarrow> 32 word \<Rightarrow> bool \<Rightarrow> 'w console_scheme
    \<Rightarrow> (bool, 'w console_scheme) cpp" where
  "try_ports E device 0 i success w = Some (Inr success, w)"
| "try_ports E device (Suc n) i success w =
     after (try_print_port_name E device (ucast i) True w) (\<lambda>b w.
       try_ports E device n (i + 1) (b \<or> success) w)"

definition print_device_and_ports :: "'e libudev_scheme \<Rightarrow> device \<Rightarrow> 'w console_scheme
    \<Rightarrow> (unit, 'w console_scheme) cpp" where
  "print_device_and_ports E device w =
     after (device_get_vendor_id E device w) (\<lambda>vendor_id w.
     after (device_get_product_id E device w) (\<lambda>product_id w.
     after (serial_number_or_default E device ''-'' w) (\<lambda>serial_number w.
     after (try_ports E device 16 0 False (out (
       setw_hex (CHR ''0'') 4 (unat vendor_id) @ '':'' @
       setw_hex (CHR ''0'') 4 (unat product_id) @ '' '' @
       serial_number @ endl) w)) (\<lambda>success w.
     if \<not> success then after (try_print_port_name E device 0 False w) (\<lambda>_ w. Some (Inr (), w))
     else Some (Inr (), w)))))"

fun print_all_ports :: "'e libudev_scheme \<Rightarrow> device list \<Rightarrow> 'w console_scheme
    \<Rightarrow> (unit, 'w console_scheme) cpp" where
  "print_all_ports E [] w = Some (Inr (), w)"
| "print_all_ports E (device # devices) w =
     after (print_device_and_ports E device w) (\<lambda>_ w. print_all_ports E devices w)"

definition lsport_main_with_exceptions :: "'e libudev_scheme \<Rightarrow> 'w console_scheme
    \<Rightarrow> (int, 'w console_scheme) cpp" where
  "lsport_main_with_exceptions E w =
     after (list_connected_devices E w) (\<lambda>devices w. do {
       (r, w) \<leftarrow> after (print_all_ports E devices w) (\<lambda>_ w. Some (Inr 0, w));
       w \<leftarrow> destroy_devices devices w;
       Some (r, w)
     })"

definition lsport_main :: "'e libudev_scheme \<Rightarrow> 'w console_scheme \<Rightarrow> (int \<times> 'w console_scheme) option" where
  "lsport_main E = example_main (lsport_main_with_exceptions E)"

section \<open>The output of lsusb\<close>

lemma console_of_more:
  fixes w w' :: "'w console_scheme"
  assumes "world.more w' = world.more w"
  shows "cout w' = cout w" "cerr w' = cerr w"
  using assms by (cases w; cases w'; simp)+

lemma later_console: "later w w' \<Longrightarrow> cout w' = cout w \<and> cerr w' = cerr w"
  unfolding later_def by (blast intro: console_of_more)

lemma out_simps [simp]:
  "live (out s w) = live w" "next_id (out s w) = next_id w" "transfers (out s w) = transfers w"
  "kernel_urbs (out s w) = kernel_urbs w" "cout (out s w) = cout w @ s" "cerr (out s w) = cerr w"
  by (simp_all add: out_def)

lemma err_out_simps [simp]:
  "live (err_out s w) = live w" "next_id (err_out s w) = next_id w"
  "cout (err_out s w) = cout w" "cerr (err_out s w) = cerr w @ s"
  by (simp_all add: err_out_def)

lemma setw_hex_0: "setw_hex (CHR ''0'') n v = fmt_x n v"
  by (simp add: setw_hex_def fmt_x_def Let_def)

definition serial_or :: "string \<Rightarrow> string option \<Rightarrow> string" where
  "serial_or def serial = (case serial of None \<Rightarrow> def | Some s \<Rightarrow> s)"

lemma serial_number_or_default_returns:
  assumes "wf_device d" "dev_res d \<subseteq># live w" "dev_view d = Some ((path, serial), ids)"
  shows "runs (serial_number_or_default E d def w) (returns nothing (\<lambda>t. t = serial_or def serial)
    (\<lambda>_. \<not> memory_ok E) w)"
  unfolding serial_number_or_default_def error_has_code_def
  by (rule catch_error_wp, rule returns_wp [OF device_get_serial_number_returns [OF assms]])
    (auto simp: libusbp_error_has_code_ok no_serial_def serial_or_def later_def
      split: option.splits if_splits)

text \<open>
  What a part of a program does to the console: it prints \<open>text\<close>, or it throws, which needs a memory
  shortage; nothing but the error is left behind.
\<close>

definition prints :: "'e environment_scheme \<Rightarrow> (string \<Rightarrow> bool) \<Rightarrow> 'w console_scheme \<Rightarrow> err + 'r
    \<Rightarrow> 'w console_scheme \<Rightarrow> bool" where
  "prints E P w = (\<lambda>r w'. cerr w' = cerr w \<and> (case r of
     Inl e \<Rightarrow> e \<noteq> NULL \<and> wf_err e \<and> \<not> memory_ok E \<and> live w' = live w + err_res e
   | Inr _ \<Rightarrow> live w' = live w \<and> (\<exists>text. P text \<and> cout w' = cout w @ text)))"

lemma prints_simps [simp]:
  "prints E P w (Inl e) w' \<longleftrightarrow> cerr w' = cerr w \<and> e \<noteq> NULL \<and> wf_err e \<and> \<not> memory_ok E \<and>
     live w' = live w + err_res e"
  "prints E P w (Inr x) w' \<longleftrightarrow> cerr w' = cerr w \<and> live w' = live w \<and> (\<exists>text. P text \<and> cout w' = cout w @ text)"
  by (auto simp: prints_def)

lemma prints_wp:
  fixes m :: "((err + 'r) \<times> 'w console_scheme) option"
  assumes "runs m (prints E P w)"
    and "\<And>x w' text. cerr w' = cerr w \<Longrightarrow> live w' = live w \<Longrightarrow> P text \<Longrightarrow> cout w' = cout w @ text \<Longrightarrow> Q (Inr x) w'"
    and "\<And>e w'. e \<noteq> NULL \<Longrightarrow> cerr w' = cerr w \<Longrightarrow> wf_err e \<Longrightarrow> \<not> memory_ok E \<Longrightarrow>
      live w' = live w + err_res e \<Longrightarrow> Q (Inl e) w'"
  shows "runs m Q"
proof (rule runs_mono [OF assms(1)])
  fix r :: "err + 'r" and w' assume "prints E P w r w'"
  then show "Q r w'" using assms(2,3) by (cases r) auto
qed

text \<open>The line of a device.\<close>

definition device_line :: "device \<Rightarrow> string" where
  "device_line d = (case the (dev_view d) of ((path, serial), p, v, r) \<Rightarrow>
     fmt_x 4 (unat v) @ '':'' @ fmt_x 4 (unat p) @ '' '' @
     setw_hex (CHR '' '') 2 (unat (drop_bit 8 r)) @ ''.'' @ fmt_x 2 (unat (r AND 0xFF)) @ '' '' @
     path @ '' '' @ serial_or ''-'' serial @ endl)"

lemma print_device_prints:
  assumes d: "wf_device d" "d \<noteq> NULL" and L: "live w = dev_res d + L"
  shows "runs (print_device E d w) (prints E (\<lambda>text. text = device_line d) w)"
proof -
  obtain path serial p v r where view: "dev_view d = Some ((path, serial), p, v, r)"
    using d by (cases d) auto
  have sub: "dev_res d \<subseteq># live w" by (simp add: L)
  show ?thesis
    unfolding print_device_def device_get_ids [OF d(1) sub view] after_simps
  proof (rule after_wp, rule returns_wp [OF serial_number_or_default_returns [OF d(1) sub view]], goal_cases)
    case (1 s w1)
    then have "dev_res d \<subseteq># live w1" by (simp add: L)
    from device_get_os_id_returns [OF d(1) this view, of E] show ?case
      using 1 view
      by (auto simp: device_line_def setw_hex_0 dest!: later_console intro!: after_wp
          elim!: returns_wp)
  qed (use later_console in auto)
qed

lemma print_devices_prints:
  assumes "\<forall>d \<in> set ds. wf_device d \<and> d \<noteq> NULL" "live w = sum_list (map dev_res ds) + L"
  shows "runs (print_devices E ds w) (prints E (\<lambda>text. text = concat (map device_line ds)) w)"
  using assms
proof (induction ds arbitrary: w L)
  case (Cons d ds)
  have l: "live w = dev_res d + (sum_list (map dev_res ds) + L)" using Cons.prems(2) by (simp add: ac_simps)
  show ?case
    unfolding print_devices.simps
  proof (rule after_wp, rule prints_wp [OF print_device_prints [OF _ _ l]], goal_cases)
    case (3 x w1 t)
    then have "live w1 = sum_list (map dev_res ds) + (dev_res d + L)" by (simp add: l ac_simps)
    then have "runs (print_devices E ds w1) (prints E (\<lambda>text. text = concat (map device_line ds)) w1)"
      by (rule Cons.IH [rotated]) (use Cons.prems(1) in simp)
    then have "runs (print_devices E ds w1) (prints E (\<lambda>text. text = concat (map device_line (d # ds))) w)"
      by (rule prints_wp) (use 3 in auto)
    then show ?case by simp
  qed (use Cons.prems(1) in auto)
qed simp

lemma example_main_wp:
  assumes "runs (main w) (\<lambda>r w'. case r of
      Inr code \<Rightarrow> Q code w'
    | Inl e \<Rightarrow> wf_err e \<and> e \<noteq> NULL \<and> err_res e \<subseteq># live w' \<and>
        Q 1 (drop_res (err_res e) (err_out (''Error: '' @ err_text e @ endl) w')))"
  shows "runs (example_main main w) Q"
  unfolding example_main_def error_what_def
  by (rule runs_bind, rule runs_mono [OF assms])
    (auto simp: libusbp_error_get_message_ok pointer_free_error_def libusbp_error_free_ok
      split: sum.splits)

text \<open>How a program ends that prints the devices: with everything given back.\<close>

definition ends :: "'w console_scheme \<Rightarrow> int \<Rightarrow> 'w console_scheme \<Rightarrow> bool" where
  "ends w code w' \<longleftrightarrow> live w' = live w \<and>
     (code = 0 \<and> cerr w' = cerr w \<or> code = 1 \<and> (\<exists>t. cerr w' = cerr w @ ''Error: '' @ t @ endl))"

lemma drop_res_console [simp]:
  "cout (drop_res R w) = cout w" "cerr (drop_res R w) = cerr w"
  by (simp_all add: drop_res_def)

lemma destroy_vector:
  assumes "\<forall>d \<in> set ds. wf_device d" "live w = sum_list (map dev_res ds) + L"
  shows "\<exists>w'. destroy_devices ds w = Some w' \<and> live w' = L \<and> cout w' = cout w \<and> cerr w' = cerr w"
  using destroy_devices_ok [OF assms] assms(2) by simp

text \<open>The part of the programs that is the same: the vector is made, read and destroyed.\<close>

lemma vector_prints:
  assumes body: "\<And>L w. live w = sum_list (map dev_res ds) + L \<Longrightarrow> runs (body ds w) (prints E P w)"
    and ds: "\<forall>d \<in> set ds. wf_device d" and L: "live w = live w0 + sum_list (map dev_res ds)"
    and c: "cout w = cout w0" "cerr w = cerr w0"
  shows "runs (do {
      (r, w) \<leftarrow> after (body ds w) (\<lambda>_ w. Some (Inr 0, w));
      w \<leftarrow> destroy_devices ds w;
      Some (r, w)
    }) (\<lambda>r w'. prints E P w0 r w' \<and> (\<forall>x. r = Inr x \<longrightarrow> x = (0 :: int)))"
proof -
  have b: "runs (body ds w) (prints E P w)"
    by (rule body [of w "live w0"]) (use L in \<open>simp add: ac_simps\<close>)
  obtain r w1 where r: "body ds w = Some (r, w1)" "prints E P w r w1"
    by (rule runsE [OF b])
  show ?thesis
  proof (cases r)
    case (Inl e)
    then have "live w1 = sum_list (map dev_res ds) + (live w0 + err_res e)"
      using L r(2) by (simp add: ac_simps)
    from destroy_vector [OF ds this] show ?thesis using r Inl c by auto
  next
    case (Inr x)
    then have "live w1 = sum_list (map dev_res ds) + live w0" using L r(2) by (simp add: ac_simps)
    from destroy_vector [OF ds this] show ?thesis using r Inr c by auto
  qed
qed

lemma ends_main:
  assumes "runs (main w) (\<lambda>r w'. case r of
      Inr code \<Rightarrow> code = 0 \<and> live w' = live w \<and> cerr w' = cerr w
    | Inl e \<Rightarrow> wf_err e \<and> e \<noteq> NULL \<and> live w' = live w + err_res e \<and> cerr w' = cerr w)"
  shows "runs (example_main main w) (ends w)"
  by (rule example_main_wp, rule runs_mono [OF assms]) (auto simp: ends_def split: sum.splits)

lemma list_program_ends:
  assumes body: "\<And>ds L w. \<forall>d \<in> set ds. wf_device d \<and> d \<noteq> NULL \<and> connected E d \<Longrightarrow>
      live w = sum_list (map dev_res ds) + L \<Longrightarrow> runs (body ds w) (prints E (P ds) w)"
  shows "runs (example_main (\<lambda>w. after (list_connected_devices E w) (\<lambda>ds w. do {
      (r, w) \<leftarrow> after (body ds w) (\<lambda>_ w. Some (Inr 0, w));
      w \<leftarrow> destroy_devices ds w;
      Some (r, w)
    })) w) (ends w)"
proof -
  obtain r w1 where r: "list_connected_devices E w = Some (r, w1)" "returns (\<lambda>ds. sum_list (map dev_res ds))
      (\<lambda>ds. \<forall>d \<in> set ds. wf_device d \<and> d \<noteq> NULL \<and> connected E d) (\<lambda>_. True) w r w1"
    by (rule runsE [OF list_connected_devices_returns])
  show ?thesis
  proof (cases r)
    case (Inl e)
    then have e: "later w w1" "e \<noteq> NULL" "wf_err e" "live w1 = live w + err_res e"
      using r(2) by simp_all
    show ?thesis by (rule ends_main) (use e later_console [OF e(1)] in \<open>simp add: r(1) Inl\<close>)
  next
    case (Inr ds)
    then have ds: "later w w1" "\<forall>d \<in> set ds. wf_device d \<and> d \<noteq> NULL \<and> connected E d"
      "live w1 = live w + sum_list (map dev_res ds)"
      using r(2) by simp_all
    have m: "runs (do {
        (r, w) \<leftarrow> after (body ds w1) (\<lambda>_ w. Some (Inr 0, w));
        w \<leftarrow> destroy_devices ds w;
        Some (r, w)
      }) (\<lambda>r w'. prints E (P ds) w r w' \<and> (\<forall>x. r = Inr x \<longrightarrow> x = (0 :: int)))"
      by (rule vector_prints) (use ds later_console [OF ds(1)] body in auto)
    show ?thesis
      by (rule ends_main, unfold r(1) Inr after_simps, rule runs_mono [OF m])
        (auto simp: prints_def split: sum.splits)
  qed
qed

lemma list_program_output:
  assumes "libusbp_list_connected_devices E True True w = Some ((NULL, l, length ds), w1)" "holds l ds"
    and "memory_ok E"
    and body: "\<And>L w. \<forall>d \<in> set ds. wf_device d \<and> d \<noteq> NULL \<Longrightarrow>
      live w = sum_list (map dev_res ds) + L \<Longrightarrow> runs (body ds w) (prints E P w)"
  shows "runs (example_main (\<lambda>w. after (list_connected_devices E w) (\<lambda>ds w. do {
      (r, w) \<leftarrow> after (body ds w) (\<lambda>_ w. Some (Inr 0, w));
      w \<leftarrow> destroy_devices ds w;
      Some (r, w)
    })) w) (\<lambda>code w'. code = 0 \<and> (\<exists>text. P text \<and> cout w' = cout w @ text) \<and> cerr w' = cerr w \<and>
      live w' = live w)"
proof -
  have ds: "\<forall>d \<in> set ds. wf_device d \<and> d \<noteq> NULL" using assms(2) by (auto simp: holds_of_def)
  obtain w2 where w2: "list_connected_devices E w = Some (Inr ds, w2)" "later w w2"
    "live w2 = live w + sum_list (map dev_res ds)"
    using runsD [OF list_connected_devices_run [OF assms(1,2)]] by auto
  have m: "runs (do {
      (r, w) \<leftarrow> after (body ds w2) (\<lambda>_ w. Some (Inr 0, w));
      w \<leftarrow> destroy_devices ds w;
      Some (r, w)
    }) (\<lambda>r w'. prints E P w r w' \<and> (\<forall>x. r = Inr x \<longrightarrow> x = (0 :: int)))"
    by (rule vector_prints) (use w2(3) later_console [OF w2(2)] body ds in auto)
  show ?thesis
    by (rule example_main_wp, unfold w2(1) after_simps, rule runs_mono [OF m])
      (use assms(3) in \<open>auto simp: prints_def split: sum.splits\<close>)
qed

section \<open>The output of lsport\<close>

text \<open>\<open>tty_of E d i name\<close>: the device node \<open>name\<close> belongs to a tty of interface \<open>i\<close> of the device.\<close>

definition tty_of :: "'e libudev_scheme \<Rightarrow> device \<Rightarrow> 8 word \<Rightarrow> string \<Rightarrow> bool" where
  "tty_of E d i name \<longleftrightarrow> (\<exists>path syspath. map_option (fst \<circ> fst) (dev_view d) = Some path \<and>
     tty_for E path i (syspath, name))"

definition port_line :: "string \<Rightarrow> string" where
  "port_line name = ''  '' @ name @ endl"

fun port_lines :: "(nat \<times> string) list \<Rightarrow> string" where
  "port_lines [] = []"
| "port_lines ((j, name) # ps) = port_line name @ port_lines ps"

definition device_header :: "device \<Rightarrow> string" where
  "device_header d = (case the (dev_view d) of ((path, serial), p, v, r) \<Rightarrow>
     fmt_x 4 (unat v) @ '':'' @ fmt_x 4 (unat p) @ '' '' @ serial_or ''-'' serial @ endl)"

text \<open>The report on a device: its line, and lines for ports, in the order of their interfaces.\<close>

definition ports_from :: "'e libudev_scheme \<Rightarrow> device \<Rightarrow> nat \<Rightarrow> (nat \<times> string) list \<Rightarrow> bool" where
  "ports_from E d i ps \<longleftrightarrow> sorted_wrt (<) (map fst ps) \<and>
     (\<forall>(j, name) \<in> set ps. i \<le> j \<and> j < 16 \<and> tty_of E d (of_nat j) name)"

definition port_report :: "'e libudev_scheme \<Rightarrow> device \<Rightarrow> string \<Rightarrow> bool" where
  "port_report E d text \<longleftrightarrow> (\<exists>ps. ports_from E d 0 ps \<and>
     text = device_header d @ port_lines ps)"

lemma ports_from_weaken: "ports_from E d (Suc i) ps \<Longrightarrow> ports_from E d i ps"
  unfolding ports_from_def split_beta by (meson Suc_leD)

lemma ports_from_Cons:
  assumes "ports_from E d (Suc i) ps" "tty_of E d (of_nat i) name" "i < 16"
  shows "ports_from E d i ((i, name) # ps)"
  using assms ports_from_weaken [OF assms(1)] unfolding ports_from_def split_beta
  by (simp add: Suc_le_eq)

lemma try_print_port_name_spec:
  fixes w :: "'w console_scheme"
  assumes d: "wf_device d" "d \<noteq> NULL" and L: "dev_res d \<subseteq># live w"
  shows "runs (try_print_port_name E d i composite w) (\<lambda>r w'. \<exists>b. r = Inr b \<and> live w' = live w \<and>
    cerr w' = cerr w \<and> (if b then \<exists>name. tty_of E d i name \<and> cout w' = cout w @ port_line name
      else cout w' = cout w))"
proof -
  obtain r w1 where r: "serial_port_create E d i composite w = Some (r, w1)" "returns sp_res
      (\<lambda>p. wf_sp p \<and> (\<exists>path v. map_option (fst \<circ> fst) (dev_view d) = Some path \<and> sp_view p = Some v \<and>
        tty_for E path i v)) (\<lambda>_. True) w r w1"
    by (rule runsE [OF serial_port_create_returns [OF d L]])
  show ?thesis
  proof (cases r)
    case (Inl e)
    then have e: "later w w1" "wf_err e" "live w1 = live w + err_res e" using r(2) by simp_all
    have "pointer_free_error e w1 = Some (drop_res (err_res e) w1)"
      using e by (simp add: pointer_free_error_def libusbp_error_free_ok)
    then show ?thesis
      using e later_console [OF e(1)]
      by (simp add: try_print_port_name_def r(1) Inl catch_error_def) blast
  next
    case (Inr p)
    then obtain path syspath name where p: "later w w1" "wf_sp p" "live w1 = live w + sp_res p"
      "map_option (fst \<circ> fst) (dev_view d) = Some path" "sp_view p = Some (syspath, name)"
      "tty_for E path i (syspath, name)"
      using r(2) by auto
    have tty: "tty_of E d i name" using p(4,6) unfolding tty_of_def by blast
    obtain q w2 where q: "serial_port_get_name E p w1 = Some (q, w2)"
      "returns nothing (\<lambda>t. t = name) (\<lambda>_. \<not> memory_ok E) w1 q w2"
      by (rule runsE [OF serial_port_get_name_returns [OF p(2,5), of w1 E]]) (use p(3) in auto)
    have con: "cout w2 = cout w" "cerr w2 = cerr w"
      using q(2) later_console [OF p(1)] later_console [of w1 w2] by (auto simp: returns_def)
    show ?thesis
    proof (cases q)
      case (Inl e)
      then have e: "wf_err e" "live w2 = live w + sp_res p + err_res e" using q(2) p(3) by simp_all
      have "pointer_free_serial_port p w2 = Some (drop_res (sp_res p) w2)"
        using e p(2) by (simp add: pointer_free_serial_port_def libusbp_serial_port_free_ok)
      moreover have "pointer_free_error e (drop_res (sp_res p) w2) =
          Some (drop_res (sp_res p + err_res e) w2)"
        using e by (simp add: pointer_free_error_def libusbp_error_free_ok)
      ultimately show ?thesis
        using e con
        by (simp add: try_print_port_name_def r(1) Inr q(1) Inl catch_error_def local_object_def) blast
    next
      case (Inr t)
      then have e: "t = name" "live w2 = live w + sp_res p" using q(2) p(3) by simp_all
      have "pointer_free_serial_port p w2 = Some (drop_res (sp_res p) w2)"
        using e p(2) by (simp add: pointer_free_serial_port_def libusbp_serial_port_free_ok)
      then show ?thesis
        using e con tty
        by (auto simp: try_print_port_name_def r(1) \<open>r = Inr p\<close> q(1) Inr catch_error_def
            local_object_def port_line_def)
    qed
  qed
qed

lemma try_ports_spec:
  fixes w :: "'w console_scheme"
  assumes "wf_device d" "d \<noteq> NULL" "dev_res d \<subseteq># live w" "unat i + n = 16"
  shows "runs (try_ports E d n i success w) (\<lambda>r w'. \<exists>ps. r = Inr (success \<or> ps \<noteq> []) \<and>
    live w' = live w \<and> cerr w' = cerr w \<and> ports_from E d (unat i) ps \<and>
    cout w' = cout w @ port_lines ps)"
  using assms(3,4)
proof (induction n arbitrary: i success w)
  case 0
  then show ?case by (simp add: ports_from_def exI [of _ "[]"])
next
  case (Suc n)
  have i1: "unat (i + 1) = unat i + 1"
    using Suc.prems(2) by (simp add: unat_word_ariths)
  obtain b w1 where b: "try_print_port_name E d (ucast i) True w = Some (Inr b, w1)" "live w1 = live w"
    "cerr w1 = cerr w" "if b then \<exists>name. tty_of E d (ucast i) name \<and> cout w1 = cout w @ port_line name
      else cout w1 = cout w"
    using runsD [OF try_print_port_name_spec [OF assms(1,2) Suc.prems(1), of E "ucast i" True]] by auto
  obtain ps w2 where ps: "try_ports E d n (i + 1) (b \<or> success) w1 = Some (Inr ((b \<or> success) \<or> ps \<noteq> []), w2)"
    "live w2 = live w" "cerr w2 = cerr w" "ports_from E d (unat i + 1) ps"
    "cout w2 = cout w1 @ port_lines ps"
    using runsD [OF Suc.IH [of w1 "i + 1" "b \<or> success"]] Suc.prems b(2,3) i1 by auto
  show ?case
  proof (cases b)
    case True
    then obtain name where name: "tty_of E d (ucast i) name" "cout w1 = cout w @ port_line name"
      using b(4) by auto
    have "ports_from E d (unat i) ((unat i, name) # ps)"
      by (rule ports_from_Cons) (use ps(4) name(1) Suc.prems(2) in simp_all)
    moreover have "cout w2 = cout w @ port_lines ((unat i, name) # ps)" by (simp add: ps(5) name(2))
    moreover have r: "try_ports E d (Suc n) i success w = Some (Inr (success \<or> (unat i, name) # ps \<noteq> []), w2)"
      using True ps(1) by (simp add: b(1))
    ultimately show ?thesis using ps(2,3) unfolding r runs_Some by blast
  next
    case False
    have "ports_from E d (unat i) ps" using ps(4) by (simp add: ports_from_weaken)
    moreover have r: "try_ports E d (Suc n) i success w = Some (Inr (success \<or> ps \<noteq> []), w2)"
      using False ps(1) by (simp add: b(1))
    moreover have "cout w2 = cout w @ port_lines ps" using ps(5) b(4) False by simp
    ultimately show ?thesis using ps(2,3) unfolding r runs_Some by blast
  qed
qed

lemma print_device_and_ports_prints:
  fixes w :: "'w console_scheme"
  assumes d: "wf_device d" "d \<noteq> NULL" and L: "live w = dev_res d + L"
  shows "runs (print_device_and_ports E d w) (prints E (port_report E d) w)"
proof -
  obtain path serial p v r where view: "dev_view d = Some ((path, serial), p, v, r)"
    using d by (cases d) auto
  have sub: "dev_res d \<subseteq># live w" by (simp add: L)
  obtain q w1 where q: "serial_number_or_default E d ''-'' w = Some (q, w1)"
    "returns nothing (\<lambda>t. t = serial_or ''-'' serial) (\<lambda>_. \<not> memory_ok E) w q w1"
    by (rule runsE [OF serial_number_or_default_returns [OF d(1) sub view]])
  show ?thesis
  proof (cases q)
    case (Inl e)
    with q show ?thesis
      using later_console [of w w1]
      by (simp add: print_device_and_ports_def device_get_ids [OF d(1) sub view])
  next
    case (Inr s)
    then have s: "s = serial_or ''-'' serial" "live w1 = live w" "cout w1 = cout w" "cerr w1 = cerr w"
      using q(2) later_console [of w w1] by simp_all
    let ?w1 = "out (setw_hex (CHR ''0'') 4 (unat v) @ '':'' @ setw_hex (CHR ''0'') 4 (unat p) @ '' '' @
        s @ endl) w1"
    have h: "cout ?w1 = cout w @ device_header d"
      using s by (simp add: device_header_def view setw_hex_0)
    obtain ps w2 where ps: "try_ports E d 16 0 False ?w1 = Some (Inr (ps \<noteq> []), w2)" "live w2 = live w"
      "cerr w2 = cerr w" "ports_from E d 0 ps" "cout w2 = cout w @ device_header d @ port_lines ps"
      using runsD [OF try_ports_spec [OF d, of ?w1 0 16 E False]] sub s h by auto
    note def = print_device_and_ports_def device_get_ids [OF d(1) sub view] q(1) Inr after_simps ps(1)
    show ?thesis
    proof (cases "ps = []")
      case False
      then show ?thesis using ps unfolding def by (auto simp: port_report_def)
    next
      case True
      have "dev_res d \<subseteq># live w2" using ps(2) sub by simp
      then obtain b w3 where b: "try_print_port_name E d 0 False w2 = Some (Inr b, w3)" "live w3 = live w2"
        "cerr w3 = cerr w2" "if b then \<exists>name. tty_of E d 0 name \<and> cout w3 = cout w2 @ port_line name
          else cout w3 = cout w2"
        using runsD [OF try_print_port_name_spec [OF d, of w2 E 0 False]] by auto
      have one: "ports_from E d 0 [(0, name)]" if "tty_of E d 0 name" for name
        using that by (simp add: ports_from_def)
      show ?thesis
      proof (cases b)
        case True
        then obtain name where "tty_of E d 0 name" "cout w3 = cout w2 @ port_line name" using b(4) by auto
        then have "port_report E d (device_header d @ port_line name)" "cout w3 = cout w @ device_header d @ port_line name"
          using one [of name] ps(5) \<open>ps = []\<close> by (auto simp: port_report_def intro!: exI [of _ "[(0, name)]"])
        with b ps(2,3) \<open>ps = []\<close> show ?thesis unfolding def by auto
      next
        case False
        have "port_report E d (device_header d)"
          using ps(4) \<open>ps = []\<close> by (auto simp: port_report_def intro!: exI [of _ "[]"])
        with False b ps \<open>ps = []\<close> show ?thesis unfolding def by auto
      qed
    qed
  qed
qed

lemma print_all_ports_prints:
  fixes w :: "'w console_scheme"
  assumes "\<forall>d \<in> set ds. wf_device d \<and> d \<noteq> NULL" "live w = sum_list (map dev_res ds) + L"
  shows "runs (print_all_ports E ds w)
    (prints E (\<lambda>text. \<exists>ts. list_all2 (port_report E) ds ts \<and> text = concat ts) w)"
  using assms
proof (induction ds arbitrary: w L)
  case (Cons d ds)
  have l: "live w = dev_res d + (sum_list (map dev_res ds) + L)" using Cons.prems(2) by (simp add: ac_simps)
  have d: "wf_device d" "d \<noteq> NULL" using Cons.prems(1) by simp_all
  obtain q w1 where q: "print_device_and_ports E d w = Some (q, w1)" "prints E (port_report E d) w q w1"
    by (rule runsE [OF print_device_and_ports_prints [OF d l]])
  show ?case
  proof (cases q)
    case (Inl e)
    with q show ?thesis by simp
  next
    case (Inr u)
    then obtain t where t: "port_report E d t" "cout w1 = cout w @ t" "cerr w1 = cerr w"
      "live w1 = sum_list (map dev_res ds) + (dev_res d + L)"
      using q(2) l by (auto simp: ac_simps)
    from Cons.IH [OF _ t(4)] Cons.prems(1) obtain q2 w2 where q2: "print_all_ports E ds w1 = Some (q2, w2)"
      "prints E (\<lambda>text. \<exists>ts. list_all2 (port_report E) ds ts \<and> text = concat ts) w1 q2 w2"
      by (auto dest!: runsD)
    have more: "\<exists>us. list_all2 (port_report E) (d # ds) us \<and> t @ concat ts = concat us"
      if "list_all2 (port_report E) ds ts" for ts
      using that t(1) by (intro exI [of _ "t # ts"]) simp
    show ?thesis
      using q2 t l more by (cases q2) (auto simp: q(1) Inr ac_simps)
  qed
qed simp

section \<open>Properties of lsusb and lsport\<close>

text \<open>A console, and the machine with one USB device on it.\<close>

definition start_console :: console where
  "start_console = \<lparr>next_id = 0, live = {#}, transfers = (\<lambda>_. None), kernel_urbs = [], cout = [], cerr = []\<rparr>"

lemma plenty_usb_console:
  "libusbp_list_connected_devices plenty_usb True True start_console =
     Some ((NULL, Heap 7 [usb_device, NULL], length [usb_device]),
       start_console\<lparr>next_id := 8, live := {#(Mem, 7), (Mem, 6), (Mem, 5), (Mem, 4)#}\<rparr>)"
  by (simp add: libusbp_list_connected_devices_def udevw_create_context_def
      udevw_create_usb_list_def new_enumerate_def open_res_def plenty_usb_def scan_devices_def
      Let_def unref_if_def release_def drop_res_def take_res_def tick_def
      udevw_get_device_from_syspath_def borrow_def device_list_create_def malloc_def start_console_def
      add_udev_device_to_list_if_needed_def udevw_get_device_type_def
      udevw_get_sysattr_uint16_def get_sysattr_hex_def add_udev_device_to_list_def
      device_create_def udevw_get_syspath_copy_def udevw_get_syspath_def string_copy_def
      udevw_get_sysattr_if_exists_copy_def device_list_append_def realloc_def
      free_devices_and_list_def usb_device_def)
    (simp add: eval_nat_numeral)

lemma plenty_usb_memory: "memory_ok plenty_usb"
  by (simp add: memory_ok_def plenty_usb_def)

text \<open>
  C20: lsusb prints one line for each device of the list that the library gives, in its order: vendor and
  product ID as four hexadecimal digits, the revision, the OS ID, and the serial number or a dash.  It ends
  with exit code 0 and has given back everything.
\<close>

theorem lsusb_prints_devices:
  fixes w :: "'w console_scheme"
  assumes "libusbp_list_connected_devices E True True w = Some ((NULL, l, length ds), w1)" "holds l ds"
    and "memory_ok E"
  shows "runs (lsusb_main E w) (\<lambda>code w'. code = 0 \<and> cout w' = cout w @ concat (map device_line ds) \<and>
    cerr w' = cerr w \<and> live w' = live w)"
  unfolding lsusb_main_def lsusb_main_with_exceptions_def
  by (rule list_program_output [OF assms, where P = "\<lambda>t. t = concat (map device_line ds)", THEN runs_mono])
    (blast intro: print_devices_prints, simp)

theorem lsusb_prints_devices_witness:
  "runs (lsusb_main plenty_usb start_console) (\<lambda>code w'. code = 0 \<and>
     cout w' = ''0000:0000  0.00 /sys/d 00'' @ endl \<and> live w' = {#})"
  by (rule runs_mono [OF lsusb_prints_devices [OF plenty_usb_console usb_device_holds plenty_usb_memory]])
    (simp add: start_console_def device_line_def usb_device_def serial_or_def fmt_x_def setw_hex_def
      digits_of.simps digit_char_def char_of_def bit_Suc_0_iff; simp add: numeral_3_eq_3)



end
