(* ===== verification/PortName.thy ===== *)
theory PortName
  imports Examples
begin

text \<open>
  The example program \<open>src/examples/port_name\<close>, on the C++ classes, and how the example programs end.
  The lemmas give the output and the exit codes, and show that everything is given back.
\<close>

section \<open>port_name\<close>

definition example_vendor_id :: "16 word" where
  "example_vendor_id = 0x1FFB"

definition example_product_id :: "16 word" where
  "example_product_id = 0xDA01"

definition example_interface_number :: "8 word" where
  "example_interface_number = 2"

text \<open>From the construction of \<open>port\<close> to the end of the function.\<close>

definition print_port_name :: "'e libudev_scheme \<Rightarrow> device \<Rightarrow> 'w console_scheme
    \<Rightarrow> (int, 'w console_scheme) cpp" where
  "print_port_name E device w =
     after (serial_port_create E device example_interface_number True w) (\<lambda>port w.
       local_object pointer_free_serial_port port (\<lambda>port w. do {
         (r, w) \<leftarrow> after (serial_port_get_name E port w) (\<lambda>port_name w.
           Some (Inr 0, out (port_name @ endl) w));
         Some ((r, port), w)
       }) w)"

definition port_name_main_with_exceptions :: "'e libudev_scheme \<Rightarrow> 'w console_scheme
    \<Rightarrow> (int, 'w console_scheme) cpp" where
  "port_name_main_with_exceptions E w =
     after (find_device_with_vid_pid E example_vendor_id example_product_id w) (\<lambda>device w.
       local_object pointer_free_device device (\<lambda>device w. do {
         (r, w) \<leftarrow> (if device = NULL
           then Some (Inr 1, err_out (''Device not found.'' @ endl) w)
           else print_port_name E device w);
         Some ((r, device), w)
       }) w)"

definition port_name_main :: "'e libudev_scheme \<Rightarrow> 'w console_scheme \<Rightarrow> (int \<times> 'w console_scheme) option" where
  "port_name_main E = example_main (port_name_main_with_exceptions E)"

section \<open>What it prints\<close>

lemma local_object_wp:
  assumes "runs (body p w) (\<lambda>(r, p') w'. \<exists>w''. pointer_free p' w' = Some w'' \<and> Q r w'')"
  shows "runs (local_object pointer_free p body w) Q"
  unfolding local_object_def by (rule runs_bind, rule runs_mono [OF assms]) auto

definition port_printed :: "'e libudev_scheme \<Rightarrow> device \<Rightarrow> 'w console_scheme \<Rightarrow> err + int \<Rightarrow> 'w console_scheme
    \<Rightarrow> bool" where
  "port_printed E d w = (\<lambda>r w'. cerr w' = cerr w \<and> (case r of
     Inl e \<Rightarrow> e \<noteq> NULL \<and> wf_err e \<and> live w' = live w + err_res e \<and> cout w' = cout w
   | Inr code \<Rightarrow> code = 0 \<and> live w' = live w \<and>
       (\<exists>name. tty_of E d example_interface_number name \<and> cout w' = cout w @ name @ endl)))"

lemma print_port_name_spec:
  fixes w :: "'w console_scheme"
  assumes d: "wf_device d" "d \<noteq> NULL" and L: "dev_res d \<subseteq># live w"
  shows "runs (print_port_name E d w) (port_printed E d w)"
  unfolding print_port_name_def
proof (rule after_wp, rule returns_wp [OF serial_port_create_returns [OF d L]], goal_cases)
  case (1 p w1)
  obtain path syspath name where p: "wf_sp p" "map_option (fst \<circ> fst) (dev_view d) = Some path"
      "sp_view p = Some (syspath, name)" "tty_for E path example_interface_number (syspath, name)"
    using 1(2) by auto
  have tty: "tty_of E d example_interface_number name" using p(2,4) unfolding tty_of_def by blast
  note c1 = later_console [OF 1(1)]
  have sub: "sp_res p \<subseteq># live w1" by (simp add: 1(3))
  have "runs (after (serial_port_get_name E p w1) (\<lambda>port_name w. Some (Inr 0, out (port_name @ endl) w)))
    (\<lambda>r w'. \<exists>w''. pointer_free_serial_port p w' = Some w'' \<and> port_printed E d w r w'')"
    by (rule after_wp, rule returns_wp [OF serial_port_get_name_returns [OF p(1,3) sub]])
      (use 1(3) p(1) tty c1 in \<open>auto simp: pointer_free_serial_port_def libusbp_serial_port_free_ok
        port_printed_def dest!: later_console\<close>)
  then show ?case
    by (auto intro!: local_object_wp runs_bind elim!: runs_mono)
next
  case (2 e w1)
  then show ?case using later_console [OF 2(2)] by (simp add: port_printed_def)
qed

text \<open>How the program ends.\<close>

definition port_name_ends :: "'e libudev_scheme \<Rightarrow> 'w console_scheme \<Rightarrow> int \<Rightarrow> 'w console_scheme \<Rightarrow> bool" where
  "port_name_ends E w code w' \<longleftrightarrow> live w' = live w \<and>
     (code = 0 \<and> cerr w' = cerr w \<and> (\<exists>d name. matches example_vendor_id example_product_id d \<and> connected E d \<and>
        tty_of E d example_interface_number name \<and> cout w' = cout w @ name @ endl) \<or>
      code = 1 \<and> cout w' = cout w \<and> (cerr w' = cerr w @ ''Device not found.'' @ endl \<or>
        (\<exists>t. cerr w' = cerr w @ ''Error: '' @ t @ endl)))"

lemma port_name_main_ends:
  fixes w :: "'w console_scheme"
  shows "runs (port_name_main E w) (port_name_ends E w)"
proof -
  let ?Q = "\<lambda>r w'. case r of Inr code \<Rightarrow> port_name_ends E w code w'
    | Inl e \<Rightarrow> wf_err e \<and> e \<noteq> NULL \<and> live w' = live w + err_res e \<and> cerr w' = cerr w \<and> cout w' = cout w"
  have m: "runs (port_name_main_with_exceptions E w) ?Q"
    unfolding port_name_main_with_exceptions_def
  proof (rule after_wp, rule returns_wp [OF find_device_returns], goal_cases)
    case (1 d w1)
    note c1 = later_console [OF 1(1)]
    show ?case
    proof (cases "d = NULL")
      case True
      with 1 c1 show ?thesis
        by (simp add: local_object_def pointer_free_device_def port_name_ends_def libusbp_device_free_def)
    next
      case False
      with 1(2) have d: "wf_device d" "matches example_vendor_id example_product_id d" "connected E d" by simp_all
      have "runs (print_port_name E d w1) (\<lambda>r w'. \<exists>w''. pointer_free_device d w' = Some w'' \<and> ?Q r w'')"
      proof (rule runs_mono [OF print_port_name_spec [OF d(1) False]])
        fix r w2 assume p: "port_printed E d w1 r w2"
        then have "dev_res d \<subseteq># live w2" by (auto simp: port_printed_def 1(3) split: sum.splits)
        then have f: "pointer_free_device d w2 = Some (drop_res (dev_res d) w2)"
          by (simp add: pointer_free_device_def libusbp_device_free_ok d(1))
        moreover have "?Q r (drop_res (dev_res d) w2)"
          using p 1(3) c1 d(2,3) by (auto simp: port_printed_def port_name_ends_def split: sum.splits)
        ultimately show "\<exists>w''. pointer_free_device d w2 = Some w'' \<and> ?Q r w''" by blast
      qed (simp add: 1(3))
      with False show ?thesis by (auto intro!: local_object_wp runs_bind elim!: runs_mono)
    qed
  next
    case (2 e w1)
    then show ?case using later_console [OF 2(2)] by simp
  qed
  have "port_name_ends E w 1 (drop_res (err_res e) (err_out (''Error: '' @ t @ endl) w'))"
    if "live w' = live w + err_res e" "cerr w' = cerr w" "cout w' = cout w" for e t and w' :: "'w console_scheme"
    using that by (simp add: port_name_ends_def)
  then show ?thesis
    unfolding port_name_main_def
    by (intro example_main_wp runs_mono [OF m]) (auto split: sum.splits)
qed

section \<open>Properties\<close>

text \<open>
  C19: However the programs end, they leak nothing: whatever fails, libudev, an allocation, or a device that
  disappears, lsusb and lsport return 0, or they print one error message and return 1; port_name returns 0
  and has printed the device node of a tty of interface 2 of a connected device with its IDs, or it prints
  nothing but one message and returns 1; and all devices, strings, ports and errors have been given back.
\<close>

theorem example_programs_never_leak:
  "runs (lsusb_main E w) (ends w) \<and> runs (lsport_main E w) (ends w) \<and>
   runs (port_name_main E w) (port_name_ends E w)"
proof (intro conjI port_name_main_ends)
  show "runs (lsusb_main E w) (ends w)"
    unfolding lsusb_main_def lsusb_main_with_exceptions_def
    by (rule list_program_ends [where P = "\<lambda>ds t. t = concat (map device_line ds)"])
      (blast intro: print_devices_prints)
  show "runs (lsport_main E w) (ends w)"
    unfolding lsport_main_def lsport_main_with_exceptions_def
    by (rule list_program_ends [where P = "\<lambda>ds t. \<exists>ts. list_all2 (port_report E) ds ts \<and> t = concat ts"])
      (blast intro: print_all_ports_prints)
qed

end
