(* ===== verification/AsyncExample.thy ===== *)
theory AsyncExample
  imports Examples
begin

text \<open>
  The example program \<open>src/examples/async_in\<close>, which reads an endpoint for ever and prints what it gets.
  The lemmas show that each round of its endless loop ends, that it never reads past its buffer, and that
  the loop goes on, or ends by an error, in a state in which the pipe can be closed.
\<close>

section \<open>The program\<close>

text \<open>The index is a \<open>uint8_t\<close>: for a size of more than 255 it never gets there.\<close>

partial_function (option) print_data_loop :: "8 word list \<Rightarrow> nat \<Rightarrow> 8 word \<Rightarrow> 'w console_scheme
    \<Rightarrow> 'w console_scheme option" where
  "print_data_loop buf n i w =
     (if unat i < n then do {
        b \<leftarrow> array_get buf (unat i);
        let w = out (fmt_x 2 (unat b)) w;
        let w = (if unat i < n - 1 then out '' '' w else w);
        print_data_loop buf n (i + 1) w
      }
      else Some w)"

definition print_data :: "8 word list \<Rightarrow> nat \<Rightarrow> 'w console_scheme \<Rightarrow> 'w console_scheme option" where
  "print_data buf n w = do { w \<leftarrow> print_data_loop buf n 0 w; Some (out endl w) }"

text \<open>
  The inner loop.  An error of a finished transfer is thrown by moving it out of \<open>transfer_error\<close>, which
  is then empty.
\<close>

partial_function (option) print_finished :: "'e usb_system_scheme \<Rightarrow> async_in_pipe \<Rightarrow> 8 word list \<Rightarrow> err
    \<Rightarrow> 'w console_scheme \<Rightarrow> (((err + unit) \<times> async_in_pipe \<times> err) \<times> 'w console_scheme) option" where
  "print_finished E pipe buf transfer_error w = do {
     ((r, pipe, buf, transferred, transfer_error), w) \<leftarrow>
       pipe_handle_finished_transfer E pipe (Some buf) True (Some transfer_error) w;
     buf \<leftarrow> buf;
     transfer_error \<leftarrow> transfer_error;
     case r of
       Inl e \<Rightarrow> Some ((Inl e, pipe, transfer_error), w)
     | Inr finished \<Rightarrow>
         (if \<not> finished then Some ((Inr (), pipe, transfer_error), w)
          else if transfer_error \<noteq> NULL then Some ((Inl transfer_error, pipe, NULL), w)
          else do {
            w \<leftarrow> print_data buf transferred w;
            print_finished E pipe buf transfer_error w
          })
   }"

text \<open>
  One round of the endless loop; \<open>garbage\<close> is what the uninitialised buffer holds.  The error object is
  destroyed at the end of the round and when it throws.
\<close>

definition read_round :: "'e usb_system_scheme \<Rightarrow> (nat \<Rightarrow> 8 word list) \<Rightarrow> async_in_pipe \<Rightarrow> 'w console_scheme
    \<Rightarrow> (((err + unit) \<times> async_in_pipe) \<times> 'w console_scheme) option" where
  "read_round E garbage pipe w = do {
     ((r, pipe, transfer_error), w) \<leftarrow> print_finished E pipe (garbage (next_id w)) NULL w;
     (r, w) \<leftarrow> after (Some (r, w)) (\<lambda>_ w. pipe_handle_events E pipe w);
     w \<leftarrow> pointer_free_error transfer_error w;
     Some ((r, pipe), w)
   }"

partial_function (option) read_rounds :: "'e usb_system_scheme \<Rightarrow> (nat \<Rightarrow> 8 word list) \<Rightarrow> async_in_pipe
    \<Rightarrow> 'w console_scheme \<Rightarrow> (((err + int) \<times> async_in_pipe) \<times> 'w console_scheme) option" where
  "read_rounds E garbage pipe w = do {
     ((r, pipe), w) \<leftarrow> read_round E garbage pipe w;
     case r of Inl e \<Rightarrow> Some ((Inl e, pipe), w) | Inr _ \<Rightarrow> read_rounds E garbage pipe w
   }"

text \<open>
  What is done with the pipe, from allocating the transfers on; \<open>loop\<close> is the endless loop, or, to talk of
  a program that is still running, some rounds of it.
\<close>

definition read_with :: "(async_in_pipe \<Rightarrow> 'w console_scheme
      \<Rightarrow> (((err + 'r) \<times> async_in_pipe) \<times> 'w console_scheme) option)
    \<Rightarrow> 'e usb_system_scheme \<Rightarrow> nat \<Rightarrow> nat \<Rightarrow> async_in_pipe \<Rightarrow> 'w console_scheme
    \<Rightarrow> (((err + 'r) \<times> async_in_pipe) \<times> 'w console_scheme) option" where
  "read_with loop E count' size' pipe w = do {
     ((r, pipe), w) \<leftarrow> pipe_allocate_transfers E pipe count' size' w;
     case r of
       Inl e \<Rightarrow> Some ((Inl e, pipe), w)
     | Inr _ \<Rightarrow> do {
         ((r, pipe), w) \<leftarrow> pipe_start_endless_transfers E pipe w;
         case r of
           Inl e \<Rightarrow> Some ((Inl e, pipe), w)
         | Inr _ \<Rightarrow> loop pipe w
       }
   }"

text \<open>\<open>n\<close> rounds of the loop, or fewer if one throws.\<close>

fun read_times :: "'e usb_system_scheme \<Rightarrow> (nat \<Rightarrow> 8 word list) \<Rightarrow> nat \<Rightarrow> async_in_pipe
    \<Rightarrow> 'w console_scheme \<Rightarrow> (((err + unit) \<times> async_in_pipe) \<times> 'w console_scheme) option" where
  "read_times E garbage 0 pipe w = Some ((Inr (), pipe), w)"
| "read_times E garbage (Suc n) pipe w = do {
     ((r, pipe), w) \<leftarrow> read_round E garbage pipe w;
     case r of Inl e \<Rightarrow> Some ((Inl e, pipe), w) | Inr _ \<Rightarrow> read_times E garbage n pipe w
   }"

text \<open>A local object whose pointer the rest of the block does not change.\<close>

definition with_object :: "('a ptr \<Rightarrow> 'w \<Rightarrow> 'w option) \<Rightarrow> 'a ptr \<Rightarrow> ('w \<Rightarrow> ('r, 'w) cpp) \<Rightarrow> 'w \<Rightarrow> ('r, 'w) cpp" where
  "with_object pointer_free p body =
     local_object pointer_free p (\<lambda>p w. do { (r, w) \<leftarrow> body w; Some ((r, p), w) })"

definition async_in_main_with_exceptions :: "'e usb_system_scheme \<Rightarrow> (nat \<Rightarrow> 8 word list)
    \<Rightarrow> 'w console_scheme \<Rightarrow> (int, 'w console_scheme) cpp" where
  "async_in_main_with_exceptions E garbage w =
     after (find_device_with_vid_pid E 0x1FFB 0xDA01 w) (\<lambda>device.
     with_object pointer_free_device device (\<lambda>w.
       if device = NULL then Some (Inr 1, err_out (''Device not found.'' @ endl) w)
       else after (generic_interface_create E device 0 True w) (\<lambda>gi.
         with_object pointer_free_generic_interface gi (\<lambda>w.
           after (generic_handle_create E gi w) (\<lambda>handle.
             with_object pointer_free_generic_handle handle (\<lambda>w.
               after (generic_handle_open_async_in_pipe E handle 0x82 w) (\<lambda>pipe.
                 local_object pointer_free_async_in_pipe pipe (read_with (read_rounds E garbage) E 250 5))))))))"

definition async_in_main :: "'e usb_system_scheme \<Rightarrow> (nat \<Rightarrow> 8 word list) \<Rightarrow> 'w console_scheme
    \<Rightarrow> (int \<times> 'w console_scheme) option" where
  "async_in_main E garbage = example_main (async_in_main_with_exceptions E garbage)"


section \<open>Printing the data\<close>

fun hex_line :: "8 word list \<Rightarrow> string" where
  "hex_line [] = []"
| "hex_line [b] = fmt_x 2 (unat b)"
| "hex_line (b # c # bs) = fmt_x 2 (unat b) @ '' '' @ hex_line (c # bs)"

lemma out_out [simp]: "out t (out s w) = out (s @ t) w"
  by (simp add: out_def)

lemma out_nil [simp]: "out [] w = w"
  by (simp add: out_def)

lemma print_data_loop_ok:
  fixes w :: "'w console_scheme"
  assumes "n \<le> length buf" "n \<le> 255" "i \<le> n"
  shows "print_data_loop buf n (of_nat i) w = Some (out (hex_line (drop i (take n buf))) w)"
  using assms(3)
proof (induction "n - i" arbitrary: i w)
  case 0
  then show ?case
    using assms(1,2) by (subst print_data_loop.simps) (simp add: unat_of_nat)
next
  case (Suc m)
  then have i: "i < n" "unat (of_nat i :: 8 word) = i" "(of_nat i + 1 :: 8 word) = of_nat (Suc i)"
    using assms(2) by (simp_all add: unat_of_nat)
  have d: "drop i (take n buf) = buf ! i # drop (Suc i) (take n buf)"
    using i(1) assms(1) by (simp add: Cons_nth_drop_Suc [symmetric])
  have h: "hex_line (drop i (take n buf)) = fmt_x 2 (unat (buf ! i)) @
      (if i < n - 1 then '' '' else []) @ hex_line (drop (Suc i) (take n buf))"
  proof (cases "i < n - 1")
    case True
    then have "drop (Suc i) (take n buf) = buf ! Suc i # drop (Suc (Suc i)) (take n buf)"
      using assms(1) by (simp add: Cons_nth_drop_Suc [symmetric])
    with True show ?thesis by (simp add: d)
  next
    case False
    then have "drop (Suc i) (take n buf) = []" by simp
    with False show ?thesis by (simp add: d)
  qed
  have g: "array_get buf i = Some (buf ! i)" using i(1) assms(1) by (simp add: array_get_def)
  have IH: "print_data_loop buf n (of_nat i + 1) v = Some (out (hex_line (drop (Suc i) (take n buf))) v)"
    for v :: "'w console_scheme"
    unfolding i(3) by (rule Suc(1)) (use Suc(2) i in simp_all)
  have e: "drop (Suc i) (take n buf) = []" if "\<not> i < n - 1" using that by simp
  show ?case
    by (subst print_data_loop.simps) (simp add: g h i(1,2) Let_def IH e)
qed

lemma print_data_ok:
  "n \<le> length buf \<Longrightarrow> n \<le> 255 \<Longrightarrow> print_data buf n w = Some (out (hex_line (take n buf) @ endl) w)"
  using print_data_loop_ok [of n buf 0 w] by (simp add: print_data_def)

text \<open>For more than 255 bytes the index never reaches the size.\<close>

lemma print_data_loop_endless: "255 < n \<Longrightarrow> print_data_loop buf n i w = None"
proof -
  have "n \<le> 255" if "print_data_loop buf n i w = Some w'" for w'
  proof (rule print_data_loop.raw_induct [of "\<lambda>buf n i w w'. n \<le> 255", OF _ that], goal_cases)
    case (1 loop buf n i w w')
    have "unat i < 256" using unsigned_less [of i] by simp
    with 1 show ?case by (auto simp: Let_def split: if_splits bind_splits)
  qed
  then show "255 < n \<Longrightarrow> ?thesis" by (cases "print_data_loop buf n i w") auto
qed

section \<open>The rounds of the loop\<close>

text \<open>
  A pipe that is running: every transfer is in the ring, and the program's buffer is large enough and
  small enough to be printed.
\<close>

definition running :: "linux_pipe \<Rightarrow> linux_pipe \<Rightarrow> bool" where
  "running p0 p \<longleftrightarrow> endless_transfers_enabled p \<and> pending_count p = transfer_count p \<and>
     transfer_array p = transfer_array p0 \<and> transfer_count p = transfer_count p0 \<and>
     transfer_size p = transfer_size p0 \<and> transfer_size p \<le> 255"

lemma pipe_inv_out [simp]: "pipe_inv (out s w) L k p ts = pipe_inv w L k p ts"
  by (simp add: pipe_inv_def async_inv_def wf_transfer_def)

text \<open>The transfers that the next calls may hand out without an error.\<close>

definition untried :: "'w usb_world_scheme \<Rightarrow> nat list \<Rightarrow> nat set" where
  "untried w ts = {i. i < length ts \<and> \<not> tried w (ts ! i)}"

lemma untried_less:
  assumes "distinct ts" "i < length ts" "\<not> tried w (ts ! i)" "tried w' (ts ! i)"
    and "\<And>t. t \<noteq> ts ! i \<Longrightarrow> transfers w' t = transfers w t"
  shows "card (untried w' ts) < card (untried w ts)"
proof (rule psubset_card_mono)
  show "finite (untried w ts)" by (simp add: untried_def)
  have "tried w' (ts ! j) = tried w (ts ! j)" if "j < length ts" "j \<noteq> i" for j
    using assms(5) [of "ts ! j"] nth_eq_iff_index_eq [OF assms(1) that(1) assms(2)] that
    by (simp add: tried_def)
  then show "untried w' ts \<subset> untried w ts"
    using assms(2-4) by (auto simp: untried_def psubset_eq)
qed

text \<open>
  One call of the inner loop on a running pipe: nothing is there yet, or a transfer is handed out and
  submitted again.
\<close>

lemma running_finish:
  assumes inv: "pipe_inv w L k p ts" and run: "running p0 p" and buf: "length buf = transfer_size p"
  shows "pipe_handle_finished_transfer E (Heap k p) (Some buf) True (Some NULL) w =
      Some ((Inr False, Heap k p, Some buf, 0, Some NULL), w) \<or>
    (\<exists>p' buf' n te w'. pipe_handle_finished_transfer E (Heap k p) (Some buf) True (Some NULL) w =
      Some ((Inr True, Heap k p', Some buf', n, Some te), w') \<and> running p0 p' \<and>
      wf_err te \<and> pipe_inv w' (L + err_res te) k p' ts \<and> length buf' = length buf \<and> n \<le> length buf' \<and>
      (te = NULL \<longrightarrow> card (untried w' ts) < card (untried w ts)))"
proof -
  have ok: "ring_ok p" and d: "distinct ts" "length ts = transfer_count p" using inv by (simp_all add: pipe_inv_def)
  have full: "endless_transfers_enabled p" "pending_count p = transfer_count p" using run by (simp_all add: running_def)
  have nf: "next_finish p < transfer_count p" "next_submit p = next_finish p"
    using ok full(2) by (simp_all add: ring_ok_def)
  obtain x where x: "transfers w (ts ! next_finish p) = Some x" "buffer_length (urb x) = int (transfer_size p)"
    using inv nf(1) unfolding pipe_inv_def by blast
  show ?thesis
  proof (cases "pending x")
    case True
    have "libusbp_async_in_pipe_handle_finished_transfer E (Heap k p) True (Some buf) True True w =
        Some ((NULL, Heap k p, False, Some buf, 0, NULL), w)"
      by (rule finish_none [OF inv]) (use True x in blast)
    then show ?thesis by (simp add: pipe_handle_finished_transfer_def take_value_def)
  next
    case False
    have n0: "0 < pending_count p" using nf(1) full(2) by simp
    from finish_one [OF inv n0 x(1) False, of "Some buf" E True True True] buf obtain p' r w' where
      r: "libusbp_async_in_pipe_handle_finished_transfer E (Heap k p) True (Some buf) True True w =
          Some ((NULL, Heap k p', r), w')"
        "finish_result E x True (Some buf) True True r" "wf_err (snd (snd (snd r)))"
        "pipe_inv w' (L + err_res (snd (snd (snd r)))) k p' ts"
        "\<forall>t. t \<noteq> ts ! next_submit p \<longrightarrow> transfers w' t = transfers w t" "tried w' (ts ! next_submit p)"
      and p': "p' = ring_submit (ring_finish p)"
      using full(1) by auto
    obtain fin b m te where rr: "r = (fin, b, m, te)" by (cases r)
    have res: "fin" "copied_from x (Some buf) b" "m = reported x" "te = NULL \<longleftrightarrow> t_error x = NULL"
      using r(2) rr by (simp_all add: finish_result_def)
    have m: "m \<le> length buf" using x(2) buf res(3) by (auto simp: reported_def Let_def)
    have "async_inv w L" using inv by (simp add: pipe_inv_def)
    then have "wf_transfer (ts ! next_finish p) x" using x(1) by (rule async_inv_split(3))
    then have "length (contents [] (buffer (urb x))) = length buf"
      using x(2) buf by (auto simp: wf_transfer_def)
    then obtain buf' where b: "b = Some buf'" "length buf' = length buf"
      using res(2) m res(3) by (auto simp: copied_from_def)
    have ok1: "ring_ok (ring_finish p)" using ring.pop_ok [OF ok] n0 by (simp flip: length_greater_0_conv)
    have "pending_count p' = pending_count p"
      using p' ring_counts(1,3) [OF ok1] ring_counts(3) [OF ok] n0 full(2) by simp
    then have run': "running p0 p'" using run p' by (simp add: running_def)
    have "card (untried w' ts) < card (untried w ts)" if "te = NULL"
    proof (rule untried_less [OF d(1), of "next_finish p"])
      show "\<not> tried w (ts ! next_finish p)" using x(1) False res(4) that by (simp add: tried_def)
    qed (use nf d(2) r(5,6) in simp_all)
    with r(1,3,4) rr res(1) b m run' show ?thesis
      by (simp add: pipe_handle_finished_transfer_def take_value_def)
  qed
qed

text \<open>How the inner loop and the rounds end.\<close>

definition round_ends :: "res multiset \<Rightarrow> nat \<Rightarrow> linux_pipe \<Rightarrow> nat list \<Rightarrow> err + unit
    \<Rightarrow> async_in_pipe \<Rightarrow> 'w usb_world_scheme \<Rightarrow> bool" where
  "round_ends L k p0 ts r pipe w \<longleftrightarrow> (\<exists>p. pipe = Heap k p \<and> running p0 p \<and> (case r of
     Inl e \<Rightarrow> e \<noteq> NULL \<and> wf_err e \<and> pipe_inv w (L + err_res e) k p ts
   | Inr _ \<Rightarrow> pipe_inv w L k p ts))"

lemma print_finished_ok:
  assumes "pipe_inv w L k p ts" "running p0 p" "length buf = transfer_size p"
  shows "runs (print_finished E (Heap k p) buf NULL w) (\<lambda>(r, pipe, te) w'. te = NULL \<and>
    round_ends L k p0 ts r pipe w')"
  using assms
proof (induction "card (untried w ts)" arbitrary: w p buf rule: less_induct)
  case less
  from running_finish [OF less.prems, of E] show ?case
  proof (elim disjE exE conjE)
    assume "pipe_handle_finished_transfer E (Heap k p) (Some buf) True (Some NULL) w =
      Some ((Inr False, Heap k p, Some buf, 0, Some NULL), w)"
    with less.prems show ?case
      by (subst print_finished.simps) (simp add: round_ends_def)
  next
    fix p' buf' n te w'
    assume f: "pipe_handle_finished_transfer E (Heap k p) (Some buf) True (Some NULL) w =
        Some ((Inr True, Heap k p', Some buf', n, Some te), w')"
      and p': "running p0 p'" "wf_err te" "pipe_inv w' (L + err_res te) k p' ts"
      and b: "length buf' = length buf" "n \<le> length buf'"
      and c: "te = NULL \<longrightarrow> card (untried w' ts) < card (untried w ts)"
    show ?case
    proof (cases "te = NULL")
      case False
      then show ?thesis
        using p' by (subst print_finished.simps) (simp add: f round_ends_def)
    next
      case True
      have sz: "transfer_size p' = transfer_size p" "n \<le> 255"
        using p'(1) less.prems(2,3) b by (simp_all add: running_def)
      let ?w = "out (hex_line (take n buf') @ endl) w'"
      have u: "untried ?w ts = untried w' ts" by (simp add: untried_def tried_def)
      have "runs (print_finished E (Heap k p') buf' NULL ?w) (\<lambda>(r, pipe, te) w'. te = NULL \<and>
          round_ends L k p0 ts r pipe w')"
        by (rule less.hyps) (use c True p' sz b less.prems(3) u in simp_all)
      then show ?thesis
        by (subst print_finished.simps) (simp add: f True print_data_ok [OF b(2) sz(2)])
    qed
  qed
qed

lemma read_round_ok:
  assumes "pipe_inv w L k p ts" "running p0 p" "\<forall>i. length (garbage i) = transfer_size p0"
  shows "runs (read_round E garbage (Heap k p) w) (\<lambda>(r, pipe) w'. round_ends L k p0 ts r pipe w')"
proof -
  have g: "length (garbage (next_id w)) = transfer_size p" using assms(2,3) by (simp add: running_def)
  obtain r pipe w1 where f: "print_finished E (Heap k p) (garbage (next_id w)) NULL w = Some ((r, pipe, NULL), w1)"
    "round_ends L k p0 ts r pipe w1"
    using runsD [OF print_finished_ok [OF assms(1,2) g, of E]] by auto
  show ?thesis
  proof (cases r)
    case (Inl e)
    with f show ?thesis by (simp add: read_round_def)
  next
    case (Inr u)
    then obtain p1 where p1: "pipe = Heap k p1" "running p0 p1" "pipe_inv w1 L k p1 ts"
      using f(2) by (auto simp: round_ends_def)
    have "runs (read_round E garbage (Heap k p) w) (\<lambda>(r, pipe) w'. pipe = Heap k p1 \<and>
        (case r of Inl e \<Rightarrow> e \<noteq> NULL \<and> wf_err e \<and> pipe_inv w' (L + err_res e) k p1 ts
          | Inr _ \<Rightarrow> pipe_inv w' L k p1 ts))"
      using pipe_events_spec [OF p1(3), of E]
      by (auto simp: read_round_def f(1) Inr p1(1) pipe_handle_events_def throw_if_needed_def
          intro!: runs_bind elim!: runs_mono)
    then show ?thesis by (rule runs_mono) (use p1(2) in \<open>auto simp: round_ends_def\<close>)
  qed
qed

lemma read_times_ok:
  assumes "pipe_inv w L k p ts" "running p0 p" "\<forall>i. length (garbage i) = transfer_size p0"
  shows "runs (read_times E garbage n (Heap k p) w) (\<lambda>(r, pipe) w'. round_ends L k p0 ts r pipe w')"
  using assms(1,2)
proof (induction n arbitrary: p w)
  case 0
  then show ?case by (simp add: round_ends_def)
next
  case (Suc n)
  obtain r pipe w1 where f: "read_round E garbage (Heap k p) w = Some ((r, pipe), w1)"
    "round_ends L k p0 ts r pipe w1"
    using runsD [OF read_round_ok [OF Suc.prems assms(3), of E]] by auto
  show ?case
  proof (cases r)
    case (Inr u)
    then obtain p1 where "pipe = Heap k p1" "running p0 p1" "pipe_inv w1 L k p1 ts"
      using f(2) by (auto simp: round_ends_def)
    with Suc.IH [of w1 p1] show ?thesis by (simp add: f(1) Inr)
  qed (use f in simp)
qed

text \<open>The endless loop ends in the same way as the rounds that lead to its end.\<close>

lemma read_rounds_end:
  "read_times E garbage n pipe w = Some ((Inl e, pipe'), w') \<Longrightarrow>
   read_rounds E garbage pipe w = Some ((Inl e, pipe'), w')"
proof (induction n arbitrary: pipe w)
  case (Suc n)
  then show ?case
    by (subst read_rounds.simps) (auto split: bind_splits sum.splits)
qed simp

section \<open>Properties\<close>

text \<open>
  How a program that uses the pipe ends: the pipe can be closed, which gives back the pipe, its array and
  the transfers the kernel does not hold; what is left are the transfers of the kernel and the error.
\<close>

definition closes_pipe :: "res multiset \<Rightarrow> nat \<Rightarrow> err + 'r \<Rightarrow> async_in_pipe \<Rightarrow> 'w usb_world_scheme \<Rightarrow> bool" where
  "closes_pipe L k r pipe w \<longleftrightarrow> (\<exists>w'. pointer_free_async_in_pipe pipe w = Some w' \<and>
     kernel_urbs w' = kernel_urbs w \<and>
     live w' = store_res (transfers w') + (L - {#(Mem, k)#}) + (case r of Inl e \<Rightarrow> err_res e | Inr _ \<Rightarrow> {#}))"

lemma pipe_inv_closes:
  fixes w :: "'w usb_world_scheme"
  assumes "pipe_inv w (add_mset (Mem, a) L) k p ts" "transfer_array p = Heap a (map Some ts)" "(Mem, k) \<in># L"
  shows "\<exists>w'. pointer_free_async_in_pipe (Heap k p) w = Some w' \<and> kernel_urbs w' = kernel_urbs w \<and>
    live w' = store_res (transfers w') + (L - {#(Mem, k)#})"
proof -
  have "pipe_good w (add_mset (Mem, a) L) k (p\<lparr>endless_transfers_enabled := False\<rparr>) ts"
    using assms(1) by (simp add: pipe_good_def pipe_inv_def ring_ok_def ring_items_def)
  then obtain w' where "libusbp_async_in_pipe_close (Heap k (p\<lparr>endless_transfers_enabled := False\<rparr>)) w = Some w'"
    "async_inv w' (L - {#(Mem, k)#})" "kernel_urbs w' = kernel_urbs w"
    using pipe_good_close [of w a L k "p\<lparr>endless_transfers_enabled := False\<rparr>" ts] assms(2) by auto
  moreover have "free (Heap k (p\<lparr>endless_transfers_enabled := False\<rparr>)) =
      (free (Heap k p) :: 'w usb_world_scheme \<Rightarrow> 'w usb_world_scheme option)"
    by (rule ext) (simp add: free_def)
  then have "libusbp_async_in_pipe_close (Heap k (p\<lparr>endless_transfers_enabled := False\<rparr>)) w =
      libusbp_async_in_pipe_close (Heap k p) w"
    using pipe_inv_live(1) [OF assms(1)] by (simp add: libusbp_async_in_pipe_close_def)
  ultimately show ?thesis
    by (auto simp: pointer_free_async_in_pipe_def dest: async_inv_ledger)
qed


definition console_of :: "usb_world \<Rightarrow> console" where
  "console_of w = \<lparr>next_id = next_id w, live = live w, transfers = transfers w,
     kernel_urbs = kernel_urbs w, cout = [], cerr = []\<rparr>"


text \<open>
  C22: \<open>print_data\<close> of the example prints all bytes in two-digit hexadecimal with single spaces between them,
  then a new line, if there are at most 255; for more, its 8-bit index wraps around before it reaches the
  size, and the loop never ends.
\<close>

theorem print_data_ends_up_to_255:
  "(n \<le> 255 \<and> n \<le> length buf \<longrightarrow> print_data buf n w = Some (out (hex_line (take n buf) @ endl) w)) \<and>
   (255 < n \<longrightarrow> print_data buf n w = None)"
proof (intro conjI impI)
  show "print_data buf n w = None" if "255 < n"
    using that by (simp add: print_data_def print_data_loop_endless)
qed (simp add: print_data_ok)

theorem print_data_ends_up_to_255_witness:
  "print_data [0x1F, 0, 0xFB] 3 (console_of demo_pipe_world) = Some (out (''1f 00 fb'' @ endl) (console_of demo_pipe_world)) \<and>
   print_data (replicate 256 0) 256 (console_of demo_pipe_world) = None"
  using print_data_ends_up_to_255 [of 3 "[0x1F, 0, 0xFB]" "console_of demo_pipe_world"]
    print_data_ends_up_to_255 [of 256 "replicate 256 0" "console_of demo_pipe_world"]
  by (simp add: take_Cons' fmt_x_def digits_of.simps digit_char_def char_of_def
      bit_Suc_0_iff)

end
