(* ===== verification/InstallHelper.thy ===== *)
theory InstallHelper
  imports CFormat Errors
begin

text \<open>
  \<open>src/install_helper/install_helper_windows.c\<close>: functions for the custom actions of a Windows installer.
  What they do to the outside, messages, dialogs, broadcasts and the installation of an INF file, is kept
  as a list of events.  The lemmas give that list for every outcome of the calls of the system.
\<close>

unbundle bit_operations_syntax

section \<open>The system\<close>

datatype message_type = INSTALLMESSAGE_INFO | INSTALLMESSAGE_ERROR

datatype installer_event =
    Processed nat message_type string
  | MessageBox nat string string
  | SettingChange string
  | CopyOEMInf string

text \<open>
  MSI records are objects that have to be closed; \<open>msi_field0\<close> is the string in field 0 of each.
\<close>

record installer = world +
  msi_field0 :: "nat \<Rightarrow> string"
  events :: "installer_event list"

text \<open>
  The answers of the system: whether a record can be made, what \<open>SendMessageTimeoutW\<close> returns and writes
  to its last argument, whether \<open>SetupCopyOEMInfW\<close> succeeds, what \<open>MsiGetPropertyW\<close> returns and writes to a
  buffer of a given length, and the codes \<open>GetLastError\<close> gives after a call that failed.
\<close>

record msi_system =
  msi_create_record :: "nat \<Rightarrow> bool"
  send_message_timeout :: "64 word \<times> 64 word"
  send_message_error :: "32 word"
  setup_copy_oem_inf :: "string \<Rightarrow> bool"
  setup_copy_error :: "string \<Rightarrow> 32 word"
  msi_get_property :: "string \<Rightarrow> nat \<Rightarrow> 32 word \<times> string"

definition event :: "installer_event \<Rightarrow> 'w installer_scheme \<Rightarrow> 'w installer_scheme" where
  "event x w = w\<lparr>events := events w @ [x]\<rparr>"

text \<open>\<open>StringCbPrintfW\<close> into a buffer of 1024 wide characters: what does not fit is cut off.\<close>

definition cb_printf :: "string \<Rightarrow> string" where
  "cb_printf text = take 1023 text"

definition fmt_lx :: "32 word \<Rightarrow> string" where
  "fmt_lx x = digits_of 16 (unat x)"

definition fmt_int :: "32 word \<Rightarrow> string" where
  "fmt_int x = fmt_d (sint x)"

section \<open>The operations\<close>

text \<open>\<open>install\<close> is \<open>None\<close> for an MSI handle of 0.\<close>

record install_context =
  owner :: nat
  install :: "nat option"

text \<open>
  \<open>MsiCreateRecord\<close>, \<open>MsiRecordSetStringW\<close>, \<open>MsiProcessMessage\<close> and \<open>MsiCloseHandle\<close>, as both kinds of message
  use them.  Without a record the calls fail and do nothing.
\<close>

definition process_message :: "'e msi_system_scheme \<Rightarrow> nat \<Rightarrow> message_type \<Rightarrow> string
    \<Rightarrow> 'w installer_scheme \<Rightarrow> 'w installer_scheme option" where
  "process_message E install_handle kind message_text w = do {
     (record_handle, w) \<leftarrow> open_res MsiRecord (msi_create_record E) w;
     w \<leftarrow> (case record_handle of
         None \<Rightarrow> Some w
       | Some r \<Rightarrow> do {
           borrow (MsiRecord, r) w;
           let w = w\<lparr>msi_field0 := (msi_field0 w)(r := message_text)\<rparr>;
           Some (event (Processed install_handle kind (msi_field0 w r)) w)
         });
     unref_if MsiRecord record_handle w
   }"

definition log_message :: "'e msi_system_scheme \<Rightarrow> install_context \<Rightarrow> string
    \<Rightarrow> 'w installer_scheme \<Rightarrow> 'w installer_scheme option" where
  "log_message E ctx message_text w = (case install ctx of
     None \<Rightarrow> Some w
   | Some h \<Rightarrow> process_message E h INSTALLMESSAGE_INFO message_text w)"

definition installer_error_message :: "'e msi_system_scheme \<Rightarrow> install_context \<Rightarrow> string
    \<Rightarrow> 'w installer_scheme \<Rightarrow> 'w installer_scheme option" where
  "installer_error_message E ctx message_text w = (case install ctx of
     None \<Rightarrow> Some (event (MessageBox (owner ctx) message_text ''Installation Error'') w)
   | Some h \<Rightarrow> process_message E h INSTALLMESSAGE_ERROR message_text w)"

text \<open>\<open>%d\<close> takes the low 32 bits of \<open>result2\<close>, which has 64.\<close>

definition broadcast_setting_change_core :: "'e msi_system_scheme \<Rightarrow> install_context
    \<Rightarrow> 'w installer_scheme \<Rightarrow> 'w installer_scheme option" where
  "broadcast_setting_change_core E ctx w = do {
     let w = event (SettingChange ''Environment'') w;
     let (result, result2) = send_message_timeout E;
     if result = 0
     then installer_error_message E ctx (cb_printf (''SendMessageTimeout failed: Error code 0x'' @
       fmt_lx (send_message_error E) @ ''.  Result '' @ fmt_int (ucast result2))) w
     else Some w
   }"

definition libusbp_broadcast_setting_changeW :: "'e msi_system_scheme \<Rightarrow> nat
    \<Rightarrow> 'w installer_scheme \<Rightarrow> 'w installer_scheme option" where
  "libusbp_broadcast_setting_changeW E owner_window w =
     broadcast_setting_change_core E \<lparr>owner = owner_window, install = None\<rparr> w"

definition libusbp_broadcast_setting_change :: "'e msi_system_scheme \<Rightarrow> nat option
    \<Rightarrow> 'w installer_scheme \<Rightarrow> (32 word \<times> 'w installer_scheme) option" where
  "libusbp_broadcast_setting_change E install_handle w = do {
     let ctx = \<lparr>owner = 0, install = install_handle\<rparr>;
     w \<leftarrow> log_message E ctx ''libusbp_broadcast_setting_change: Begin.'' w;
     w \<leftarrow> broadcast_setting_change_core E ctx w;
     w \<leftarrow> log_message E ctx ''libusbp_broadcast_setting_change: End.'' w;
     Some (0, w)
   }"

definition inf_error_text :: "string \<Rightarrow> 32 word \<Rightarrow> string" where
  "inf_error_text filename code = ''There was an error installing the driver file '' @ filename @
     ''.  '' @ [CHR 0x0A] @
     ''You might have to manually install this file by right-clicking it and selecting '' @
     [CHR 0x22] @ ''Install'' @ [CHR 0x22] @ ''.  '' @ [CHR 0x0A] @ ''Error code 0x'' @ fmt_lx code @ ''.''"

definition install_inf_core :: "'e msi_system_scheme \<Rightarrow> install_context \<Rightarrow> string
    \<Rightarrow> 'w installer_scheme \<Rightarrow> 'w installer_scheme option" where
  "install_inf_core E ctx filename w = do {
     let w = event (CopyOEMInf filename) w;
     if \<not> setup_copy_oem_inf E filename
     then installer_error_message E ctx
       (cb_printf (inf_error_text filename (setup_copy_error E filename))) w
     else Some w
   }"

definition libusbp_install_infW :: "'e msi_system_scheme \<Rightarrow> nat \<Rightarrow> string
    \<Rightarrow> 'w installer_scheme \<Rightarrow> 'w installer_scheme option" where
  "libusbp_install_infW E owner_window args w =
     install_inf_core E \<lparr>owner = owner_window, install = None\<rparr> args w"

definition libusbp_install_inf :: "'e msi_system_scheme \<Rightarrow> nat option
    \<Rightarrow> 'w installer_scheme \<Rightarrow> (32 word \<times> 'w installer_scheme) option" where
  "libusbp_install_inf E install_handle w = do {
     let ctx = \<lparr>owner = 0, install = install_handle\<rparr>;
     w \<leftarrow> broadcast_setting_change_core E ctx w;
     w \<leftarrow> log_message E ctx ''libusbp_install_inf: Begin.'' w;
     let (result, filename) = msi_get_property E ''CustomActionData'' 1024;
     if result \<noteq> 0
     then do {
       w \<leftarrow> installer_error_message E ctx (cb_printf
         (''libusbp_install_inf: Unable to get filename parameter.  Error code '' @ fmt_int result @ ''.'')) w;
       Some (0, w)
     }
     else do {
       w \<leftarrow> log_message E ctx (cb_printf (''libusbp_install_inf: filename='' @ filename)) w;
       w \<leftarrow> install_inf_core E ctx filename w;
       w \<leftarrow> log_message E ctx (cb_printf (''libusbp_install_inf: End. result2='' @ fmt_int result)) w;
       Some (0, w)
     }
   }"

section \<open>What they do\<close>

text \<open>
  \<open>does P w w'\<close>: the ledger is as before, and the events that were added are some that satisfy \<open>P\<close>.
\<close>

definition does :: "(installer_event list \<Rightarrow> bool) \<Rightarrow> 'w installer_scheme \<Rightarrow> 'w installer_scheme \<Rightarrow> bool" where
  "does P w w' \<longleftrightarrow> live w' = live w \<and> (\<exists>xs. events w' = events w @ xs \<and> P xs)"

text \<open>A message is one event, or, when no record can be made, none.\<close>

definition sent :: "'e msi_system_scheme \<Rightarrow> installer_event \<Rightarrow> installer_event list \<Rightarrow> bool" where
  "sent E x xs \<longleftrightarrow> xs = [x] \<or> xs = [] \<and> \<not> (\<forall>n. msi_create_record E n)"

lemma event_simps [simp]:
  "live (event x w) = live w" "events (event x w) = events w @ [x]"
  by (simp_all add: event_def)

lemma process_message_does:
  "\<exists>w'. process_message E h kind t w = Some w' \<and> does (sent E (Processed h kind t)) w w'"
proof (cases "msi_create_record E (next_id w)")
  case True
  let ?w = "take_res MsiRecord w"
  have e: "events ?w = events w" by (simp add: take_res_def)
  from True show ?thesis
    by (auto simp: process_message_def open_res_def borrow_def event_def unref_if_def release_def
        drop_res_def does_def sent_def Let_def take_res_def)
next
  case False
  then show ?thesis
    by (auto simp: process_message_def open_res_def does_def sent_def tick_def)
qed

text \<open>The events that a log message and an error message stand for.\<close>

definition logged :: "'e msi_system_scheme \<Rightarrow> nat option \<Rightarrow> string \<Rightarrow> installer_event list \<Rightarrow> bool" where
  "logged E h t xs = (case h of None \<Rightarrow> xs = []
     | Some h \<Rightarrow> sent E (Processed h INSTALLMESSAGE_INFO t) xs)"

definition alerted :: "'e msi_system_scheme \<Rightarrow> nat \<Rightarrow> nat option \<Rightarrow> string \<Rightarrow> installer_event list \<Rightarrow> bool" where
  "alerted E o' h t xs = (case h of None \<Rightarrow> xs = [MessageBox o' t ''Installation Error'']
     | Some h \<Rightarrow> sent E (Processed h INSTALLMESSAGE_ERROR t) xs)"

lemma log_message_does:
  "\<exists>w'. log_message E ctx t w = Some w' \<and> does (logged E (install ctx) t) w w'"
proof (cases "install ctx")
  case None
  then show ?thesis by (simp add: log_message_def does_def logged_def)
next
  case (Some h)
  from process_message_does [of E h INSTALLMESSAGE_INFO t w] Some show ?thesis
    by (simp add: log_message_def logged_def does_def)
qed

lemma error_message_does:
  "\<exists>w'. installer_error_message E ctx t w = Some w' \<and> does (alerted E (owner ctx) (install ctx) t) w w'"
proof (cases "install ctx")
  case None
  then show ?thesis by (simp add: installer_error_message_def does_def alerted_def)
next
  case (Some h)
  from process_message_does [of E h INSTALLMESSAGE_ERROR t w] Some show ?thesis
    by (simp add: installer_error_message_def alerted_def does_def)
qed

definition broadcast_text :: "'e msi_system_scheme \<Rightarrow> string" where
  "broadcast_text E = cb_printf (''SendMessageTimeout failed: Error code 0x'' @
     fmt_lx (send_message_error E) @ ''.  Result '' @ fmt_int (ucast (snd (send_message_timeout E))))"

text \<open>The events of the two cores; \<open>ok\<close> is the outcome of the system's call.\<close>

definition broadcasts :: "'e msi_system_scheme \<Rightarrow> install_context \<Rightarrow> installer_event list \<Rightarrow> bool" where
  "broadcasts E ctx xs \<longleftrightarrow> (\<exists>ys. xs = SettingChange ''Environment'' # ys \<and>
     (if fst (send_message_timeout E) = 0 then alerted E (owner ctx) (install ctx) (broadcast_text E) ys
      else ys = []))"

definition installs_inf :: "'e msi_system_scheme \<Rightarrow> install_context \<Rightarrow> string \<Rightarrow> installer_event list \<Rightarrow> bool" where
  "installs_inf E ctx f xs \<longleftrightarrow> (\<exists>ys. xs = CopyOEMInf f # ys \<and>
     (if setup_copy_oem_inf E f then ys = []
      else alerted E (owner ctx) (install ctx) (cb_printf (inf_error_text f (setup_copy_error E f))) ys))"

lemma does_after_event:
  "does P (event x w) w' \<Longrightarrow> does (\<lambda>xs. \<exists>ys. xs = x # ys \<and> P ys) w w'"
  unfolding does_def by auto

lemma does_event: "does (\<lambda>xs. \<exists>ys. xs = x # ys \<and> ys = []) w (event x w)"
  by (simp add: does_def)

lemma broadcast_core_eq:
  "broadcast_setting_change_core E ctx w =
     (if fst (send_message_timeout E) = 0
      then installer_error_message E ctx (broadcast_text E) (event (SettingChange ''Environment'') w)
      else Some (event (SettingChange ''Environment'') w))"
  by (simp only: broadcast_setting_change_core_def broadcast_text_def split_beta Let_def)

lemma broadcast_does:
  "\<exists>w'. broadcast_setting_change_core E ctx w = Some w' \<and> does (broadcasts E ctx) w w'"
proof (cases "fst (send_message_timeout E) = 0")
  case True
  then have "broadcasts E ctx = (\<lambda>xs. \<exists>ys. xs = SettingChange ''Environment'' # ys \<and>
      alerted E (owner ctx) (install ctx) (broadcast_text E) ys)"
    by (simp add: broadcasts_def fun_eq_iff)
  moreover obtain w' where
    "installer_error_message E ctx (broadcast_text E) (event (SettingChange ''Environment'') w) = Some w'"
    "does (alerted E (owner ctx) (install ctx) (broadcast_text E)) (event (SettingChange ''Environment'') w) w'"
    using error_message_does by blast
  ultimately show ?thesis using True does_after_event unfolding broadcast_core_eq by auto
next
  case False
  then have "broadcasts E ctx = (\<lambda>xs. \<exists>ys. xs = SettingChange ''Environment'' # ys \<and> ys = [])"
    by (simp add: broadcasts_def fun_eq_iff)
  then show ?thesis using False does_event unfolding broadcast_core_eq by auto
qed

lemma install_inf_does:
  "\<exists>w'. install_inf_core E ctx f w = Some w' \<and> does (installs_inf E ctx f) w w'"
proof (cases "setup_copy_oem_inf E f")
  case False
  let ?t = "cb_printf (inf_error_text f (setup_copy_error E f))"
  have "installs_inf E ctx f = (\<lambda>xs. \<exists>ys. xs = CopyOEMInf f # ys \<and>
      alerted E (owner ctx) (install ctx) ?t ys)"
    using False by (simp add: installs_inf_def fun_eq_iff)
  moreover obtain w' where "installer_error_message E ctx ?t (event (CopyOEMInf f) w) = Some w'"
    "does (alerted E (owner ctx) (install ctx) ?t) (event (CopyOEMInf f) w) w'"
    using error_message_does by blast
  ultimately show ?thesis
    using False does_after_event by (auto simp: install_inf_core_def Let_def)
next
  case True
  then have "installs_inf E ctx f = (\<lambda>xs. \<exists>ys. xs = CopyOEMInf f # ys \<and> ys = [])"
    by (simp add: installs_inf_def fun_eq_iff)
  then show ?thesis using True does_event by (auto simp: install_inf_core_def Let_def)
qed

text \<open>Events one after the other.\<close>

definition followed_by :: "('x list \<Rightarrow> bool) \<Rightarrow> ('x list \<Rightarrow> bool) \<Rightarrow> 'x list \<Rightarrow> bool" where
  "followed_by P Q xs \<longleftrightarrow> (\<exists>ys zs. xs = ys @ zs \<and> P ys \<and> Q zs)"

lemma does_followed_by: "does P w w1 \<Longrightarrow> does Q w1 w2 \<Longrightarrow> does (followed_by P Q) w w2"
  unfolding does_def followed_by_def by (metis append.assoc)

text \<open>The events of \<open>libusbp_install_inf\<close>, by the outcome of \<open>MsiGetPropertyW\<close>.\<close>

definition install_inf_events :: "'e msi_system_scheme \<Rightarrow> nat option \<Rightarrow> installer_event list \<Rightarrow> bool" where
  "install_inf_events E h = (let ctx = \<lparr>owner = 0, install = h\<rparr> in
     followed_by (broadcasts E ctx) (followed_by (logged E h ''libusbp_install_inf: Begin.'')
       (case msi_get_property E ''CustomActionData'' 1024 of (result, filename) \<Rightarrow>
          if result \<noteq> 0
          then alerted E 0 h (cb_printf (''libusbp_install_inf: Unable to get filename parameter.  Error code '' @
            fmt_int result @ ''.''))
          else followed_by (logged E h (cb_printf (''libusbp_install_inf: filename='' @ filename)))
            (followed_by (installs_inf E ctx filename)
              (logged E h ''libusbp_install_inf: End. result2=0'')))))"

section \<open>Properties\<close>

text \<open>
  C21: The custom action that installs a driver never stops the installation: whatever fails, it returns 0,
  closes every record it made, and has done, in this order, the broadcast, the log entry at the start, and
  either an error message that the file name is not known, or the log entry with the file name, one
  installation of that file with an error message if it failed, and the log entry at the end.  The entry at
  the end is the same whether the file was installed or not.
\<close>

theorem install_inf_always_succeeds:
  "runs (libusbp_install_inf E h w) (\<lambda>code w'. code = 0 \<and> does (install_inf_events E h) w w')"
proof -
  let ?ctx = "\<lparr>owner = 0, install = h\<rparr>"
  obtain code f where p: "msi_get_property E ''CustomActionData'' 1024 = (code, f)" by (cases "msi_get_property E ''CustomActionData'' 1024")
  obtain w1 where 1: "broadcast_setting_change_core E ?ctx w = Some w1" "does (broadcasts E ?ctx) w w1"
    using broadcast_does by blast
  obtain w2 where 2: "log_message E ?ctx ''libusbp_install_inf: Begin.'' w1 = Some w2"
    "does (logged E h ''libusbp_install_inf: Begin.'') w1 w2"
    using log_message_does [of E ?ctx] by auto
  let ?bad = "cb_printf (''libusbp_install_inf: Unable to get filename parameter.  Error code '' @ fmt_int code @ ''.'')"
  obtain w3 where 3: "installer_error_message E ?ctx ?bad w2 = Some w3" "does (alerted E 0 h ?bad) w2 w3"
    using error_message_does [of E ?ctx] by auto
  let ?name = "cb_printf (''libusbp_install_inf: filename='' @ f)"
  obtain w4 where 4: "log_message E ?ctx ?name w2 = Some w4" "does (logged E h ?name) w2 w4"
    using log_message_does [of E ?ctx] by auto
  obtain w5 where 5: "install_inf_core E ?ctx f w4 = Some w5" "does (installs_inf E ?ctx f) w4 w5"
    using install_inf_does by blast
  let ?last = "''libusbp_install_inf: End. result2=0''"
  obtain w6 where 6: "log_message E ?ctx ?last w5 = Some w6" "does (logged E h ?last) w5 w6"
    using log_message_does [of E ?ctx] by auto
  have e: "cb_printf (''libusbp_install_inf: End. result2='' @ fmt_int 0) = ?last"
    by (simp add: cb_printf_def fmt_int_def fmt_d_def digits_of.simps digit_char_def char_of_def
      bit_Suc_0_iff)
  show ?thesis
  proof (cases "code = 0")
    case True
    have "does (install_inf_events E h) w w6"
      unfolding install_inf_events_def Let_def p
      using does_followed_by [OF 1(2) does_followed_by [OF 2(2) does_followed_by [OF 4(2)
            does_followed_by [OF 5(2) 6(2)]]]] True by simp
    then show ?thesis
      using 1(1) 2(1) 4(1) 5(1) 6(1) True by (simp add: libusbp_install_inf_def p e del: append.simps)
  next
    case False
    have "does (install_inf_events E h) w w3"
      unfolding install_inf_events_def Let_def p
      using does_followed_by [OF 1(2) does_followed_by [OF 2(2) 3(2)]] False by simp
    then show ?thesis
      using 1(1) 2(1) 3(1) False by (simp add: libusbp_install_inf_def p del: append.simps)
  qed
qed

end
