(* ===== verification/PipesElsewhere.thy ===== *)
theory PipesElsewhere
  imports AsyncPipe AsyncTransferMac AsyncTransferWindows
begin

text \<open>
  \<open>src/src/async_in_pipe.c\<close> where it is compiled for macOS and Windows: opening a pipe on a handle of the
  platform, and the cancellation of its transfers, which on these platforms asks one transfer to cancel all.
  The lemmas show that pipes are opened as on Linux, and that cancelling needs allocated transfers here.
\<close>

section \<open>The operations\<close>

type_synonym mac_pipe = "(libusbp_generic_handle_mac, nat option) libusbp_async_in_pipe ptr"

type_synonym windows_pipe = "(libusbp_generic_handle_windows, transfer_windows) libusbp_async_in_pipe ptr"

definition libusbp_generic_handle_open_async_in_pipe_mac :: "'e environment_scheme \<Rightarrow> generic_handle_mac
    \<Rightarrow> 8 word \<Rightarrow> bool \<Rightarrow> 'w world_scheme \<Rightarrow> ((err \<times> mac_pipe) \<times> 'w world_scheme) option" where
  "libusbp_generic_handle_open_async_in_pipe_mac = async_in_pipe_create async_in_pipe_setup_mac"

definition libusbp_generic_handle_open_async_in_pipe_windows :: "'e winusb_scheme \<Rightarrow> generic_handle_windows
    \<Rightarrow> 8 word \<Rightarrow> bool \<Rightarrow> 'w world_scheme \<Rightarrow> ((err \<times> windows_pipe) \<times> 'w world_scheme) option" where
  "libusbp_generic_handle_open_async_in_pipe_windows E = async_in_pipe_create (async_in_pipe_setup_windows E) E"

text \<open>
  The branch of \<open>libusbp_async_in_pipe_cancel_transfers\<close> for platforms other than Linux, for the
  \<open>async_in_transfer_cancel\<close> of a platform.
\<close>

definition cancel_transfers_elsewhere :: "('c \<Rightarrow> 'w world_scheme \<Rightarrow> (err \<times> 'w world_scheme) option)
    \<Rightarrow> 'e environment_scheme \<Rightarrow> ('h, 'c) libusbp_async_in_pipe ptr \<Rightarrow> 'w world_scheme
    \<Rightarrow> ((err \<times> ('h, 'c) libusbp_async_in_pipe ptr) \<times> 'w world_scheme) option" where
  "cancel_transfers_elsewhere cancel E pipe w =
     (if pipe = NULL then do {
        (error, w) \<leftarrow> error_create E ''Pipe argument is null.'' w;
        Some ((error, pipe), w)
      }
      else do {
        p \<leftarrow> deref pipe w;
        pipe \<leftarrow> store pipe (p\<lparr>endless_transfers_enabled := False\<rparr>) w;
        cells \<leftarrow> deref (transfer_array p) w;
        t \<leftarrow> array_get cells 0;
        (error, w) \<leftarrow> cancel t w;
        Some ((error, pipe), w)
      })"

definition libusbp_async_in_pipe_cancel_transfers_mac :: "'e iousb_async_scheme \<Rightarrow> mac_pipe
    \<Rightarrow> 'w mac_world_scheme \<Rightarrow> ((err \<times> mac_pipe) \<times> 'w mac_world_scheme) option" where
  "libusbp_async_in_pipe_cancel_transfers_mac E = cancel_transfers_elsewhere (async_in_transfer_cancel_mac E) E"

definition libusbp_async_in_pipe_cancel_transfers_windows :: "'e winusb_async_scheme \<Rightarrow> windows_pipe
    \<Rightarrow> 'w world_scheme \<Rightarrow> ((err \<times> windows_pipe) \<times> 'w world_scheme) option" where
  "libusbp_async_in_pipe_cancel_transfers_windows E =
     cancel_transfers_elsewhere (async_in_transfer_cancel_windows E) E"

section \<open>Opening\<close>

lemma async_in_pipe_setup_windows_checks:
  assumes "wf_ghw g" "g \<noteq> NULL" "ghw_res g \<subseteq># live w"
  shows "runs (async_in_pipe_setup_windows E g pipe_id w) (checks True (\<lambda>_. True) w)"
proof -
  obtain n x h L where g: "g = Heap n x" "winusb_handle x = Some h"
      "live w = add_mset (Mem, n) (add_mset (WinUsbHandle, h) L)"
    by (rule wf_ghwE [OF assms])
  then show ?thesis
    by (auto simp: async_in_pipe_setup_windows_def libusbp_generic_handle_get_winusb_handle_def checks_def
        later_def says_def intro!: wp split: option.splits)
qed

interpretation mac_pipes: pipe_platform async_in_pipe_setup_mac "\<lambda>g _. g \<noteq> NULL"
  by unfold_locales (simp_all add: async_in_pipe_setup_mac_def)

interpretation windows_pipes: pipe_platform "async_in_pipe_setup_windows E"
  "\<lambda>g w. wf_ghw g \<and> g \<noteq> NULL \<and> ghw_res g \<subseteq># live w" for E
  by unfold_locales (simp_all add: async_in_pipe_setup_windows_checks)

section \<open>Cancelling\<close>

lemma cancel_elsewhere_null:
  "transfer_array p = NULL \<Longrightarrow> cancel_transfers_elsewhere cancel E (Heap k p) w = None"
  by (cases "(Mem, k) \<in># live w") (simp_all add: cancel_transfers_elsewhere_def deref_def)

lemma cancel_elsewhere_first:
  assumes "transfer_array p = Heap a (t # cells)" "{#(Mem, k), (Mem, a)#} \<subseteq># live w"
    and "runs (cancel t w) Q"
  shows "runs (cancel_transfers_elsewhere cancel E (Heap k p) w)
    (\<lambda>(e, pipe) w'. pipe = Heap k (p\<lparr>endless_transfers_enabled := False\<rparr>) \<and> Q e w')"
proof -
  have "(Mem, k) \<in># live w" "(Mem, a) \<in># live w" using assms(2) by (auto dest: mset_subset_eqD)
  with assms(1,3) show ?thesis
    by (auto simp: cancel_transfers_elsewhere_def array_get_def runs_def split: option.splits)
qed

section \<open>Properties\<close>

text \<open>
  C14: On macOS and Windows opening an asynchronous pipe on an open handle never faults and leaks nothing; it
  gives a pipe without transfers for an IN endpoint and an error otherwise, and with enough memory, and a
  system that accepts the pipe's policy, it fails only for other endpoints.  Cancelling the transfers of
  a pipe as it was opened, before any are allocated, always faults on these platforms.
\<close>

theorem opened_pipe_elsewhere:
  fixes wm :: "'w mac_world_scheme" and ww :: "'v world_scheme"
  assumes "gm \<noteq> NULL" and gw: "wf_ghw gw" "gw \<noteq> NULL" "ghw_res gw \<subseteq># live ww"
  shows "runs (libusbp_generic_handle_open_async_in_pipe_mac Em gm pid True wm) (\<lambda>(e, pipe) w'.
      gives blk NULL (\<lambda>pipe. (\<exists>k. pipe = Heap k (new_pipe gm pid)) \<and> pipe_in pid \<and>
        (\<forall>w :: 'w mac_world_scheme. libusbp_async_in_pipe_cancel_transfers_mac Em pipe w = None)) (\<lambda>_. True) wm (e, pipe) w' \<and>
      (memory_ok Em \<longrightarrow> (e = NULL \<longleftrightarrow> pipe_in pid))) \<and>
    runs (libusbp_generic_handle_open_async_in_pipe_windows Ew gw pid True ww) (\<lambda>(e, pipe) w'.
      gives blk NULL (\<lambda>pipe. (\<exists>k. pipe = Heap k (new_pipe gw pid)) \<and> pipe_in pid \<and>
        (\<forall>w :: 'v world_scheme. libusbp_async_in_pipe_cancel_transfers_windows Ew pipe w = None)) (\<lambda>_. True) ww (e, pipe) w' \<and>
      (memory_ok Ew \<and> (\<forall>k h. WinUsb_SetPipePolicy Ew k h pid (RAW_IO 1) = None) \<longrightarrow>
        (e = NULL \<longleftrightarrow> pipe_in pid)))"
proof
  show "runs (libusbp_generic_handle_open_async_in_pipe_mac Em gm pid True wm) (\<lambda>(e, pipe) w'.
      gives blk NULL (\<lambda>pipe. (\<exists>k. pipe = Heap k (new_pipe gm pid)) \<and> pipe_in pid \<and>
        (\<forall>w :: 'w mac_world_scheme. libusbp_async_in_pipe_cancel_transfers_mac Em pipe w = None)) (\<lambda>_. True) wm (e, pipe) w' \<and>
      (memory_ok Em \<longrightarrow> (e = NULL \<longleftrightarrow> pipe_in pid)))"
    unfolding libusbp_generic_handle_open_async_in_pipe_mac_def
    by (rule runs_both [OF mac_pipes.create_gives [OF assms(1)] mac_pipes.create_succeeds [OF assms(1)]])
      (auto simp: libusbp_async_in_pipe_cancel_transfers_mac_def cancel_elsewhere_null
        new_pipe_def async_in_pipe_setup_mac_def gives_def split: if_splits)
  have w: "wf_ghw gw \<and> gw \<noteq> NULL \<and> ghw_res gw \<subseteq># live ww" using gw by simp
  have s: "runs (async_in_pipe_setup_windows Ew gw pid ww) (\<lambda>e _. e = NULL)"
    if "\<forall>k h. WinUsb_SetPipePolicy Ew k h pid (RAW_IO 1) = None"
  proof -
    obtain n x h L where "gw = Heap n x" "winusb_handle x = Some h"
        "live ww = add_mset (Mem, n) (add_mset (WinUsbHandle, h) L)"
      by (rule wf_ghwE [OF gw])
    then show ?thesis
      using that by (simp add: async_in_pipe_setup_windows_def libusbp_generic_handle_get_winusb_handle_def
          use_winusb_def)
  qed
  show "runs (libusbp_generic_handle_open_async_in_pipe_windows Ew gw pid True ww) (\<lambda>(e, pipe) w'.
      gives blk NULL (\<lambda>pipe. (\<exists>k. pipe = Heap k (new_pipe gw pid)) \<and> pipe_in pid \<and>
        (\<forall>w :: 'v world_scheme. libusbp_async_in_pipe_cancel_transfers_windows Ew pipe w = None)) (\<lambda>_. True) ww (e, pipe) w' \<and>
      (memory_ok Ew \<and> (\<forall>k h. WinUsb_SetPipePolicy Ew k h pid (RAW_IO 1) = None) \<longrightarrow>
        (e = NULL \<longleftrightarrow> pipe_in pid)))"
    unfolding libusbp_generic_handle_open_async_in_pipe_windows_def
    by (rule runs_both [OF windows_pipes.create_gives [OF w]
          windows_pipes.create_succeeds [OF w conjunct1 s [OF conjunct2]]])
      (auto simp: libusbp_async_in_pipe_cancel_transfers_windows_def cancel_elsewhere_null
        new_pipe_def gives_def split: if_splits)
qed

theorem opened_pipe_elsewhere_witness:
  "runs (libusbp_generic_handle_open_async_in_pipe_windows demo_async demo_ghw 0x81 True demo_io)
     (\<lambda>(e, pipe) w'. e = NULL \<and> libusbp_async_in_pipe_cancel_transfers_windows demo_async pipe w' = None)"
proof -
  have "memory_ok demo_async" "\<forall>k h. WinUsb_SetPipePolicy demo_async k h 0x81 (RAW_IO 1) = None" "pipe_in (0x81 :: 8 word)"
    by (simp_all add: demo_async_def demo_winusb_def demo_registry_def demo_cfgmgr_def demo_setup_def
        winusb.defs registry.defs cfgmgr.defs setup_api.defs memory_ok_def pipe_in_def)
  then show ?thesis
    by (intro runs_mono [OF opened_pipe_elsewhere [of demo_ghm demo_ghw, THEN conjunct2]])
      (auto simp: demo_ghw_def demo_io_def demo_ghm_def gives_def)
qed

end
