(* ===== verification/Spec2Isabelle.thy ===== *)
theory Spec2Isabelle
  imports PipeRuns DeviceList SerialPort SerialPortWindows AsyncTransferWindows SerialPortMac AsyncTransferMac
    CppPointers CppWrapper Examples PortName AsyncExample InstallHelper PipesElsewhere
begin

text \<open>
  A verification of libusbp, the Pololu USB library: the common code of \<open>src/src\<close>, and the back
  ends for Linux (\<open>src/src/linux\<close>), Windows (\<open>src/src/windows\<close>) and macOS (\<open>src/src/mac\<close>), the C++
  classes (\<open>src/include/libusbp.hpp\<close>), the example programs and the install helper.

  \<^bold>\<open>The program.\<close>  libusbp lets a program find USB devices, make interface and serial port objects
  for them, open handles, and read and write, synchronously or through asynchronous IN pipes.
  Everything is done with objects that the caller owns and frees, and every call that can fail
  returns an error object or NULL.  The layers, from below:

  \<^item> error objects (\<open>error.c\<close>), strings (\<open>string.c\<close>), endpoint addresses (\<open>pipe_id.c\<close>);
  \<^item> conversion of system errors (\<open>error_linux.c\<close>), wrappers of libudev (\<open>udev_linux.c\<close>) and of the
    USB device files (\<open>usbfd_linux.c\<close>);
  \<^item> devices (\<open>device_linux.c\<close>), lists of devices and the search (\<open>list.c\<close>, \<open>list_linux.c\<close>,
    \<open>find_device.c\<close>), interfaces (\<open>generic_interface_linux.c\<close>), serial ports
    (\<open>serial_port_linux.c\<close>), handles (\<open>generic_handle_linux.c\<close>);
  \<^item> asynchronous transfers (\<open>async_in_transfer_linux.c\<close>), which are shared with the kernel while
    they are pending, and pipes (\<open>async_in_pipe.c\<close>), which use an array of transfers as a ring.

  The Windows back end has the same layers: error conversion (\<open>error_windows.c\<close>,
  \<open>error_hresult.c\<close>), devices and lists (\<open>device_instance_id_windows.c\<close>, \<open>device_windows.c\<close>,
  \<open>list_windows.c\<close>), the search for the device node of an interface (\<open>interface_windows.c\<close>),
  interfaces and serial ports (\<open>generic_interface_windows.c\<close>, \<open>serial_port_windows.c\<close>), handles
  (\<open>generic_handle_windows.c\<close>) and transfers (\<open>async_in_transfer_windows.c\<close>).  The macOS back end has
  error conversion (\<open>error_mac.c\<close>), helpers for the I/O Registry (\<open>iokit_mac.c\<close>), devices and lists
  (\<open>device_mac.c\<close>, \<open>list_mac.c\<close>), interfaces, serial ports, handles and transfers
  (\<open>generic_interface_mac.c\<close>, \<open>serial_port_mac.c\<close>, \<open>generic_handle_mac.c\<close>,
  \<open>async_in_transfer_mac.c\<close>).  Above the C interface are the C++ classes of \<open>libusbp.hpp\<close>, whose objects
  own a pointer of the library and turn errors into exceptions, and the programs of \<open>src/examples\<close> that
  use them.  \<open>install_helper_windows.c\<close> is a library for Windows installers and uses none of the others.

  \<^bold>\<open>The model.\<close>  A C function is a HOL function of the same name.  It takes the surroundings \<open>E\<close>
  (what \<open>malloc\<close>, libudev and the system calls answer, by the number of the event, so that every
  behaviour over time is some \<open>E\<close>), its arguments and the world, and gives \<open>None\<close> for undefined
  behaviour, a failed assertion or a loop that never ends, and otherwise its results and the new
  world.  The world has a ledger of all that the process owns (heap blocks, libudev objects, file
  descriptors, on Windows device information sets, registry keys and handles, on macOS references to
  objects of IOKit and Core Foundation and exclusive access to USB objects), the next identity,
  and, from \<open>Usbfd\<close> on, the store of transfers and the request blocks the kernel holds; in
  \<open>AsyncTransferWindows\<close> it has the operations the system works on, in \<open>AsyncTransferMac\<close> the store of
  transfers and the reads the system works on.  Where the back ends have a function of the same name,
  that of Windows ends in \<open>_windows\<close> and that of macOS in \<open>_mac\<close>.
  A pointer is NULL, a heap block with its contents, or a static object;
  reading, writing and freeing consult the ledger.  Output pointers are results, with a flag for
  whether the caller gave one.  Sizes are natural numbers with the wrap-around of \<open>size_t\<close> written
  out where the code counts; IDs, codes and addresses are words.

  \<^bold>\<open>The theories\<close>, each with its definitions first, then what its objects own, the contracts of its
  operations, and its properties:

  \<^item> \<open>Prelude\<close>: pointers, the ledger, total correctness (\<open>runs\<close>) and its rules (\<open>wp\<close>), the contract
    \<open>releases\<close> of an operation that gives back what an object owns;
  \<^item> \<open>CFormat\<close>: the parts of \<open>printf\<close> and \<open>scanf\<close> the library uses;
  \<^item> \<open>Errors\<close>: error objects, with the contract \<open>constructor\<close> of an operation that makes an object or
    an error; \<open>Basics\<close>: strings and endpoint addresses;
  \<^item> \<open>LinuxErrors\<close>, \<open>Udev\<close>, \<open>Usbfd\<close>: the boundary to the system;
  \<^item> \<open>Buffers\<close>: the arrays of handles and the buffers of callers; \<open>TransferStore\<close>: the store of objects
    that are shared with the system, and its invariant \<open>shared_inv\<close>; all platforms use them;
  \<^item> \<open>DeviceArray\<close>: lists of the devices of any platform (locale \<open>listed_device\<close>);
  \<^item> \<open>DeviceLinux\<close>, \<open>DeviceList\<close>, \<open>GenericInterface\<close>, \<open>SerialPort\<close>, \<open>GenericHandle\<close>: the objects;
  \<^item> \<open>AsyncTransfer\<close>: transfers and the event loop; the invariant \<open>async_inv\<close> says that a transfer is
    pending exactly when the kernel holds its request block;
  \<^item> \<open>AsyncPipe\<close>: pipes; the ring is shown to be a queue (locale \<open>slot_queue\<close>), and \<open>pipe_inv\<close> ties
    the ring to the transfers;
  \<^item> \<open>PipeRuns\<close>: the step relation of a pipe, its runs, and what holds in every state they reach;
  \<^item> \<open>WinErrors\<close>, \<open>DeviceWindows\<close>, \<open>InterfaceWindows\<close>, \<open>GenericInterfaceWindows\<close>, \<open>SerialPortWindows\<close>,
    \<open>GenericHandleWindows\<close>, \<open>AsyncTransferWindows\<close>: the Windows back end.  The environment records
    \<open>win32\<close>, \<open>setup_api\<close>, \<open>cfgmgr\<close>, \<open>registry\<close>, \<open>winusb\<close> and \<open>winusb_async\<close> extend each other and
    hold what each file uses of the system; \<open>indexed_sets\<close>, \<open>detail_sizes\<close> and \<open>terminated\<close> are what the
    code relies on; \<open>tw_step\<close> is the step relation of a transfer;
  \<^item> \<open>MacErrors\<close>, \<open>IOKit\<close>, \<open>DeviceMac\<close>, \<open>GenericInterfaceMac\<close>, \<open>SerialPortMac\<close>, \<open>GenericHandleMac\<close>,
    \<open>AsyncTransferMac\<close>: the macOS back end.  The environment records \<open>mach\<close>, \<open>iokit\<close>, \<open>iousb\<close> and
    \<open>iousb_async\<close> hold what the files use of the system; \<open>steady\<close> (a registry that does not change during
    the call), \<open>registry_ids\<close> and \<open>honest\<close> (no count above the length of a read) are what single
    properties rely on; \<open>mac_step\<close> is the step relation of a program and \<open>mac_inv\<close> the invariant of
    its transfers;
  \<^item> \<open>PipesElsewhere\<close>: opening a pipe on macOS and Windows, by the locale \<open>pipe_platform\<close> of \<open>AsyncPipe\<close> (what
    \<open>async_in_pipe.c\<close> relies on from the setup of a platform), and the branch of the cancellation for them;
  \<^item> \<open>CppPointers\<close>: exceptions, the objects that own pointers and programs of operations on them; the
    locales \<open>unique_pointer\<close> and \<open>copyable_pointer\<close> state what the templates need from a type, and are
    interpreted on the classes of the library;
  \<^item> \<open>CppWrapper\<close>: the methods of the classes, with the contract \<open>returns\<close> of a method that returns a
    value or throws an error it has made;
  \<^item> \<open>Examples\<close> (lsusb and lsport), \<open>PortName\<close>, \<open>AsyncExample\<close>: the example programs; the world has the
    streams they print to;
  \<^item> \<open>InstallHelper\<close>: the install helper; the environment record \<open>msi_system\<close> holds what the Windows
    Installer, \<open>SetupCopyOEMInf\<close> and \<open>SendMessageTimeout\<close> answer, and the world has what was asked of them;
  \<^item> this theory: a program that uses the components together.

  \<^bold>\<open>What is shown.\<close>  No call faults or leaks on any path, failing allocations and system calls
  included (with exceptions that are shown as such: on Linux the copy of an interface does not report
  a failure, and opening a handle crashes when its allocation fails; on Windows a device, a set or a
  registry key can be lost when memory runs out); the results are what the
  documentation promises; on macOS the pipe of an endpoint is the one the system reported for it and
  the serial port of an ACM device is found under its control interface; finished transfers come in the order of submission; no memory is freed
  while the kernel can write to it; lengths reported by the kernel never lead beyond a buffer.  Programs of
  operations on C++ objects never free a pointer twice and behave like programs on values; the example
  programs print what they should and give everything back; the install helper never stops an
  installation.  Cancelling the transfers of a pipe that has none faults on macOS and Windows.

  \<^bold>\<open>Loops.\<close>  Loops over lists and arrays are recursion over what is left.  The event loop, the loop
  that starts transfers and the loops over device information sets have no bound of their own and are
  \<open>partial_function (option)\<close>; that they return is proved (each round takes a request block from the
  kernel, submits one of finitely many transfers, or moves an index of 32 bits through a set that
  has fewer members than there are indices), so no fuel is used.  The loop over the pipes of a macOS
  interface counts up to a number of 8 bits with an index of 32 bits and is a \<open>function\<close> with a measure.
  The loop of \<open>print_data\<close> in the async_in example counts a size with an index of 8 bits; it is shown to end
  for up to 255 bytes and never to end for more.  The main loop of that example runs as long as transfers
  are pending and the devices decide how long; the theorem about it is for any number of rounds.

  \<^bold>\<open>Not modelled.\<close>  The operations of pipes other than opening and cancelling over the transfers of
  Windows and macOS (the code is that of Linux, which is modelled); the logging that is compiled only with
  \<open>LIBUSBP_LOG\<close>; in \<open>libusbp.hpp\<close>, the methods that are compiled only on other platforms and the
  \<open>std::bad_alloc\<close> that strings and vectors of the standard library throw; the tests, which need a test
  device, and the firmware of that device, which is a program for another processor.  The rest of
  \<open>libusbp.h\<close> and \<open>libusbp_internal.h\<close> declares what the theories define.
  Threads: the library keeps no global state, and an object is used from one thread at a time.
\<close>

section \<open>The components together\<close>

text \<open>
  A program that uses the library from end to end: it finds a device, makes an interface object
  for one of its interfaces, opens a handle, and gives everything back.
\<close>

definition use_handle :: "'e usb_system_scheme \<Rightarrow> generic_interface \<Rightarrow> 'w usb_world_scheme
    \<Rightarrow> (err \<times> 'w usb_world_scheme) option" where
  "use_handle E gi w =
     (if gi = NULL then Some (NULL, w)
      else do {
        ((error, handle), w) \<leftarrow> libusbp_generic_handle_open E gi True w;
        w \<leftarrow> libusbp_generic_handle_close handle w;
        Some (error, w)
      })"

definition use_interface :: "'e usb_system_scheme \<Rightarrow> device \<Rightarrow> 8 word \<Rightarrow> 'w usb_world_scheme
    \<Rightarrow> ((err \<times> err) \<times> 'w usb_world_scheme) option" where
  "use_interface E device i w =
     (if device = NULL then Some ((NULL, NULL), w)
      else do {
        ((e2, gi), w) \<leftarrow> libusbp_generic_interface_create E device i True w;
        (e3, w) \<leftarrow> use_handle E gi w;
        w \<leftarrow> libusbp_generic_interface_free gi w;
        Some ((e2, e3), w)
      })"

definition use_device :: "'e usb_system_scheme \<Rightarrow> 16 word \<Rightarrow> 16 word \<Rightarrow> 8 word \<Rightarrow> 'w usb_world_scheme
    \<Rightarrow> ((err \<times> err \<times> err) \<times> 'w usb_world_scheme) option" where
  "use_device E vid pid i w = do {
     ((e1, device), w) \<leftarrow> libusbp_find_device_with_vid_pid E vid pid True w;
     ((e2, e3), w) \<leftarrow> use_interface E device i w;
     w \<leftarrow> libusbp_device_free device w;
     Some ((e1, e2, e3), w)
   }"

lemma use_interface_spec:
  assumes d: "wf_device d" "d \<noteq> NULL" "dev_res d \<subseteq># live w" and "memory_ok E" "urbs_old w"
  shows "runs (use_interface E d i w) (\<lambda>(e2, e3) w'. live w' = live w + err_res e2 + err_res e3)"
proof -
  have "runs (do {
        ((e2, gi), w) \<leftarrow> libusbp_generic_interface_create E d i True w;
        (e3, w) \<leftarrow> use_handle E gi w;
        w \<leftarrow> libusbp_generic_interface_free gi w;
        Some ((e2, e3), w)
      }) (\<lambda>(e2, e3) w'. live w' = live w + err_res e2 + err_res e3)"
  proof (rule runs_bind, rule gives_wp [OF libusbp_generic_interface_create_gives [OF d]], goal_cases)
    case (1 gi w1)
    then have gi: "wf_gi gi" "gi \<noteq> NULL" by (auto simp: gi_for_def)
    have "urbs_old w1" using assms(5) later_usb [OF 1(1)] by (auto simp: urbs_old_def)
    moreover have "malloc_ok E (next_id w1)" using assms(4) by (simp add: memory_ok_def)
    ultimately obtain e w2 where o: "use_handle E gi w1 = Some (e, w2)" "live w2 = live w1 + err_res e"
      using runsD [OF open_close_spec [OF gi _ _, of w1 E]] gi(2) 1(3) by (auto simp: use_handle_def)
    have "libusbp_generic_interface_free gi w2 = Some (drop_res (gi_res gi) w2)"
      by (rule generic_interface.rel_ok) (use gi o(2) 1(3) in simp_all)
    with o 1(3) show ?case by simp
  next
    case (2 e w1)
    then show ?case by (simp add: libusbp_generic_interface_free_def use_handle_def)
  qed
  with d(2) show ?thesis by (simp add: use_interface_def)
qed



end
